(* ===== verification/Prelude.thy ===== *)
theory Prelude
  imports Main "HOL-Library.AList" "HOL-Library.Char_ord" "HOL-Library.List_Lexorder"
begin

text \<open>
  Shared ground of the development: the operation monad in which the services of
  \<^verbatim>\<open>packages/*/src/index.ts\<close> are written (state in, error or value and state out), the
  contract locale under which "every success of this operation keeps that relation" is proved
  once and for all, and the list functions that stand for JavaScript's \<^verbatim>\<open>Set\<close>,
  \<^verbatim>\<open>Array.prototype.sort\<close> and row lookups.
\<close>

named_theorems contract_intros \<open>composition rules for operation contracts\<close>
named_theorems op_simps \<open>unfolding of the operation monad\<close>

section \<open>Operations: state in, error or value and state out\<close>

text \<open>
  A service method runs inside one database transaction: it either throws, in which case
  \<^verbatim>\<open>withOrg\<close> issues \<^verbatim>\<open>ROLLBACK\<close> and the state of the caller is the old one, or it returns
  a value and the new state. A thrown error therefore carries no state.
\<close>

type_synonym ('s, 'e, 'a) op = "'s \<Rightarrow> 'e + 'a \<times> 's"

definition ret :: "'a \<Rightarrow> ('s, 'e, 'a) op" where
  "ret a = (\<lambda>s. Inr (a, s))"

definition throw :: "'e \<Rightarrow> ('s, 'e, 'a) op" where
  "throw e = (\<lambda>s. Inl e)"

definition bind :: "('s, 'e, 'a) op \<Rightarrow> ('a \<Rightarrow> ('s, 'e, 'b) op) \<Rightarrow> ('s, 'e, 'b) op" where
  "bind m f = (\<lambda>s. case m s of Inl e \<Rightarrow> Inl e | Inr (a, s') \<Rightarrow> f a s')"

definition andthen :: "('s, 'e, 'a) op \<Rightarrow> ('s, 'e, 'b) op \<Rightarrow> ('s, 'e, 'b) op" where
  "andthen m n = bind m (\<lambda>_. n)"

definition reads :: "('s \<Rightarrow> 'a) \<Rightarrow> ('s, 'e, 'a) op" where
  "reads f = (\<lambda>s. Inr (f s, s))"

definition writes :: "('s \<Rightarrow> 's) \<Rightarrow> ('s, 'e, unit) op" where
  "writes f = (\<lambda>s. Inr ((), f s))"

text \<open>\<open>check c e\<close> is the guard \<^verbatim>\<open>if (!c) throw e\<close>; \<open>lift_sum\<close> runs a pure fallible computation.\<close>

definition check :: "bool \<Rightarrow> 'e \<Rightarrow> ('s, 'e, unit) op" where
  "check c e = (if c then ret () else throw e)"

definition lift_sum :: "'e + 'a \<Rightarrow> ('s, 'e, 'a) op" where
  "lift_sum r = (\<lambda>s. case r of Inl e \<Rightarrow> Inl e | Inr a \<Rightarrow> Inr (a, s))"

definition from_option :: "'e \<Rightarrow> 'a option \<Rightarrow> ('s, 'e, 'a) op" where
  "from_option e x = (case x of None \<Rightarrow> throw e | Some a \<Rightarrow> ret a)"

text \<open>\<open>rethrow h m\<close> is \<^verbatim>\<open>try { m } catch (error) { throw h(error) }\<close>.\<close>

definition rethrow :: "('e \<Rightarrow> 'e) \<Rightarrow> ('s, 'e, 'a) op \<Rightarrow> ('s, 'e, 'a) op" where
  "rethrow h m = (\<lambda>s. case m s of Inl e \<Rightarrow> Inl (h e) | Inr r \<Rightarrow> Inr r)"

text \<open>A \<^verbatim>\<open>for\<close> loop whose body pushes one result per element.\<close>

primrec for_each :: "('x \<Rightarrow> ('s, 'e, 'a) op) \<Rightarrow> 'x list \<Rightarrow> ('s, 'e, 'a list) op" where
  "for_each f [] = ret []"
| "for_each f (x # xs) = bind (f x) (\<lambda>a. bind (for_each f xs) (\<lambda>as. ret (a # as)))"

text \<open>Pure fallible computations: the same composition without a state.\<close>

definition and_ok :: "'e + 'a \<Rightarrow> ('a \<Rightarrow> 'e + 'b) \<Rightarrow> 'e + 'b" where
  "and_ok r f = (case r of Inl e \<Rightarrow> Inl e | Inr a \<Rightarrow> f a)"

primrec map_ok :: "('x \<Rightarrow> 'e + 'a) \<Rightarrow> 'x list \<Rightarrow> 'e + 'a list" where
  "map_ok f [] = Inr []"
| "map_ok f (x # xs) = and_ok (f x) (\<lambda>a. and_ok (map_ok f xs) (\<lambda>as. Inr (a # as)))"

lemma and_ok_Inr: "(and_ok r f = Inr b) = (\<exists>a. r = Inr a \<and> f a = Inr b)"
  by (auto simp: and_ok_def split: sum.splits)

lemma map_ok_Inr_length: "map_ok f xs = Inr ys \<Longrightarrow> length ys = length xs"
  by (induction xs arbitrary: ys) (auto simp: and_ok_Inr)

lemma map_ok_Inr_set: "map_ok f xs = Inr ys \<Longrightarrow> y \<in> set ys \<Longrightarrow> \<exists>x\<in>set xs. f x = Inr y"
  by (induction xs arbitrary: ys) (auto simp: and_ok_Inr)

lemma map_ok_Inr_map: "(\<And>x. x \<in> set xs \<Longrightarrow> f x = Inr (g x)) \<Longrightarrow> map_ok f xs = Inr (map g xs)"
  by (induction xs) (auto simp: and_ok_def)

lemma bind_Inr [op_simps]:
  "(bind m f s = Inr r) = (\<exists>a s'. m s = Inr (a, s') \<and> f a s' = Inr r)"
  by (auto simp: bind_def split: sum.splits)

lemma andthen_Inr [op_simps]:
  "(andthen m n s = Inr r) = (\<exists>a s'. m s = Inr (a, s') \<and> n s' = Inr r)"
  by (auto simp: andthen_def bind_Inr)

lemma ret_Inr [op_simps]: "(ret a s = Inr r) = (r = (a, s))"
  by (auto simp: ret_def)

lemma throw_Inr [op_simps]: "(throw e s = Inr r) = False"
  by (simp add: throw_def)

lemma reads_Inr [op_simps]: "(reads f s = Inr r) = (r = (f s, s))"
  by (auto simp: reads_def)

lemma writes_Inr [op_simps]: "(writes f s = Inr r) = (r = ((), f s))"
  by (auto simp: writes_def)

lemma check_Inr [op_simps]: "(check c e s = Inr r) = (c \<and> r = ((), s))"
  by (auto simp: check_def ret_def throw_def)

lemma lift_sum_Inr [op_simps]: "(lift_sum x s = Inr r) = (\<exists>a. x = Inr a \<and> r = (a, s))"
  by (auto simp: lift_sum_def split: sum.splits)

lemma from_option_Inr [op_simps]: "(from_option e x s = Inr r) = (\<exists>a. x = Some a \<and> r = (a, s))"
  by (auto simp: from_option_def ret_def throw_def split: option.splits)

lemma rethrow_Inr [op_simps]: "(rethrow h m s = Inr r) = (m s = Inr r)"
  by (auto simp: rethrow_def split: sum.splits)

lemmas op_defs = bind_def andthen_def ret_def throw_def reads_def writes_def check_def
  lift_sum_def from_option_def rethrow_def

section \<open>Contracts of operations\<close>

definition obeys :: "('s \<Rightarrow> 's \<Rightarrow> bool) \<Rightarrow> ('s, 'e, 'a) op \<Rightarrow> bool" where
  "obeys R m \<longleftrightarrow> (\<forall>s a s'. m s = Inr (a, s') \<longrightarrow> R s s')"

definition returns :: "('s, 'e, 'a) op \<Rightarrow> ('a \<Rightarrow> bool) \<Rightarrow> bool" where
  "returns m Q \<longleftrightarrow> (\<forall>s a s'. m s = Inr (a, s') \<longrightarrow> Q a)"

lemma obeysD: "obeys R m \<Longrightarrow> m s = Inr (a, s') \<Longrightarrow> R s s'"
  by (auto simp: obeys_def)

text \<open>
  A contract is a reflexive and transitive relation between the state before and the state
  after: "rows of other organizations are untouched", "the audit trail only grows". Whatever
  is composed from operations that respect it obeys it.
\<close>

locale op_contract =
  fixes R :: "'s \<Rightarrow> 's \<Rightarrow> bool"
  assumes R_refl: "R s s"
    and R_trans: "R s t \<Longrightarrow> R t u \<Longrightarrow> R s u"
begin

lemma obeys_ret [contract_intros]: "obeys R (ret a)"
  by (simp add: obeys_def op_simps R_refl)

lemma obeys_throw [contract_intros]: "obeys R (throw e)"
  by (simp add: obeys_def op_simps)

lemma obeys_reads [contract_intros]: "obeys R (reads f)"
  by (simp add: obeys_def op_simps R_refl)

lemma obeys_check [contract_intros]: "obeys R (check c e)"
  by (simp add: obeys_def op_simps R_refl)

lemma obeys_lift_sum [contract_intros]: "obeys R (lift_sum x)"
  by (auto simp: obeys_def op_simps R_refl)

lemma obeys_from_option [contract_intros]: "obeys R (from_option e x)"
  by (auto simp: obeys_def op_simps R_refl)

lemma obeys_bind [contract_intros]:
  "obeys R m \<Longrightarrow> (\<And>a. obeys R (f a)) \<Longrightarrow> obeys R (bind m f)"
  unfolding obeys_def op_simps by (blast intro: R_trans)

lemma obeys_andthen [contract_intros]:
  "obeys R m \<Longrightarrow> obeys R n \<Longrightarrow> obeys R (andthen m n)"
  unfolding andthen_def by (rule obeys_bind)

lemma obeys_bind_returns:
  "obeys R m \<Longrightarrow> returns m Q \<Longrightarrow> (\<And>a. Q a \<Longrightarrow> obeys R (f a)) \<Longrightarrow> obeys R (bind m f)"
  unfolding obeys_def returns_def op_simps by (blast intro: R_trans)

lemma obeys_rethrow [contract_intros]: "obeys R m \<Longrightarrow> obeys R (rethrow h m)"
  by (auto simp: obeys_def op_simps)

lemma obeys_if [contract_intros]:
  "obeys R m \<Longrightarrow> obeys R n \<Longrightarrow> obeys R (if b then m else n)"
  by simp

lemma obeys_case_option [contract_intros]:
  "obeys R m \<Longrightarrow> (\<And>a. obeys R (f a)) \<Longrightarrow>
    obeys R (case x of None \<Rightarrow> m | Some a \<Rightarrow> f a)"
  by (cases x) auto

lemma obeys_case_prod [contract_intros]:
  "(\<And>a b. obeys R (f a b)) \<Longrightarrow> obeys R (case p of (a, b) \<Rightarrow> f a b)"
  by (cases p) auto

lemma obeys_for_each [contract_intros]:
  "(\<And>x. obeys R (f x)) \<Longrightarrow> obeys R (for_each f xs)"
  by (induction xs) (auto intro!: contract_intros)

lemma obeys_writesI: "(\<And>s. R s (g s)) \<Longrightarrow> obeys R (writes g)"
  by (auto simp: obeys_def op_simps)

end

section \<open>Rows and JavaScript collections\<close>

text \<open>\<^verbatim>\<open>[...new Set(xs)]\<close>: the first occurrence of every element, in order.\<close>

fun js_uniq :: "'a list \<Rightarrow> 'a list" where
  "js_uniq [] = []"
| "js_uniq (x # xs) = x # filter (\<lambda>y. y \<noteq> x) (js_uniq xs)"

lemma set_js_uniq [simp]: "set (js_uniq xs) = set xs"
  by (induction xs) auto

lemma distinct_js_uniq [simp]: "distinct (js_uniq xs)"
  by (induction xs) auto

lemma length_js_uniq [simp]: "length (js_uniq xs) = card (set xs)"
  by (metis distinct_card distinct_js_uniq set_js_uniq)

lemma js_uniq_distinct: "distinct xs \<Longrightarrow> js_uniq xs = xs"
  by (induction xs) (auto simp: filter_id_conv)

lemma length_js_uniq_distinct: "(length (js_uniq xs) = length xs) = distinct xs"
  by (metis card_distinct distinct_card length_js_uniq)

text \<open>\<^verbatim>\<open>Array.prototype.sort\<close> with a comparator is a stable sort.\<close>

fun insert_by :: "('a \<Rightarrow> 'a \<Rightarrow> bool) \<Rightarrow> 'a \<Rightarrow> 'a list \<Rightarrow> 'a list" where
  "insert_by le x [] = [x]"
| "insert_by le x (y # ys) = (if le x y then x # y # ys else y # insert_by le x ys)"

definition sort_by :: "('a \<Rightarrow> 'a \<Rightarrow> bool) \<Rightarrow> 'a list \<Rightarrow> 'a list" where
  "sort_by le xs = foldr (insert_by le) xs []"

lemma set_insert_by [simp]: "set (insert_by le x ys) = insert x (set ys)"
  by (induction ys) auto

lemma length_insert_by [simp]: "length (insert_by le x ys) = Suc (length ys)"
  by (induction ys) auto

lemma distinct_insert_by [simp]: "distinct (insert_by le x ys) = (x \<notin> set ys \<and> distinct ys)"
  by (induction ys) auto

lemma sort_by_simps [simp]:
  "sort_by le [] = []" "sort_by le (x # xs) = insert_by le x (sort_by le xs)"
  by (simp_all add: sort_by_def)

lemma set_sort_by [simp]: "set (sort_by le xs) = set xs"
  by (induction xs) auto

lemma length_sort_by [simp]: "length (sort_by le xs) = length xs"
  by (induction xs) auto

lemma distinct_sort_by [simp]: "distinct (sort_by le xs) = distinct xs"
  by (induction xs) auto

lemma filter_insert_by:
  "length (filter P (insert_by le x ys)) = length (filter P (x # ys))"
  by (induction ys) auto

lemma length_filter_sort_by [simp]:
  "length (filter P (sort_by le xs)) = length (filter P xs)"
  by (induction xs) (auto simp: filter_insert_by)

lemma distinct_map_insert_by:
  "distinct (map f (insert_by le x ys)) = (f x \<notin> f ` set ys \<and> distinct (map f ys))"
  by (induction ys) auto

lemma distinct_map_sort_by [simp]: "distinct (map f (sort_by le xs)) = distinct (map f xs)"
  by (induction xs) (auto simp: distinct_map_insert_by)

lemma find_SomeD: "find P xs = Some x \<Longrightarrow> x \<in> set xs \<and> P x"
  by (induction xs) (auto split: if_splits)

lemma find_NoneD: "find P xs = None \<Longrightarrow> x \<in> set xs \<Longrightarrow> \<not> P x"
  by (induction xs) (auto split: if_splits)

lemma find_filter: "find P (filter Q xs) = find (\<lambda>x. Q x \<and> P x) xs"
  by (induction xs) auto

lemma find_unique:
  assumes "x \<in> set xs" and "P x" and "\<And>y. y \<in> set xs \<Longrightarrow> P y \<Longrightarrow> y = x"
  shows "find P xs = Some x"
proof (cases "find P xs")
  case None
  with assms(1,2) show ?thesis by (blast dest: find_NoneD)
next
  case (Some y)
  with assms(3) show ?thesis by (blast dest: find_SomeD)
qed

end
