(* ===== verification/JsText.thy ===== *)
theory JsText
  imports Prelude "HOL-Library.Word"
begin

text \<open>
  The JavaScript text operations the sources use. A JavaScript string is a \<^typ>\<open>string\<close>: a
  list of characters with codes 0 to 255, read as the code points U+0000 to U+00FF, so that
  \<open>length\<close> is the number of UTF-16 code units the sources count. Text outside that range is
  not represented. Regular expressions are written as predicates over the character list.
\<close>

type_synonym byte = "8 word"
type_synonym bytes = "byte list"

abbreviation code :: "char \<Rightarrow> nat" where "code \<equiv> of_char"
abbreviation chr :: "nat \<Rightarrow> char" where "chr \<equiv> char_of"

section \<open>Characters and trimming\<close>

definition is_upper :: "char \<Rightarrow> bool" where "is_upper c \<longleftrightarrow> 65 \<le> code c \<and> code c \<le> 90"
definition is_lower :: "char \<Rightarrow> bool" where "is_lower c \<longleftrightarrow> 97 \<le> code c \<and> code c \<le> 122"
definition is_digit :: "char \<Rightarrow> bool" where "is_digit c \<longleftrightarrow> 48 \<le> code c \<and> code c \<le> 57"
definition is_alpha :: "char \<Rightarrow> bool" where "is_alpha c \<longleftrightarrow> is_upper c \<or> is_lower c"
definition is_hex :: "char \<Rightarrow> bool" where
  "is_hex c \<longleftrightarrow> is_digit c \<or> (97 \<le> code c \<and> code c \<le> 102)"

text \<open>\<^verbatim>\<open>\s\<close> and the characters \<^verbatim>\<open>String.prototype.trim\<close> removes: tab, line feed, vertical tab,
  form feed, carriage return, space and no-break space.\<close>

definition is_ws :: "char \<Rightarrow> bool" where
  "is_ws c \<longleftrightarrow> (9 \<le> code c \<and> code c \<le> 13) \<or> code c = 32 \<or> code c = 160"

definition is_control :: "char \<Rightarrow> bool" where
  "is_control c \<longleftrightarrow> code c \<le> 31 \<or> code c = 127"

definition trim_start :: "string \<Rightarrow> string" where
  "trim_start s = dropWhile is_ws s"

definition trim_end :: "string \<Rightarrow> string" where
  "trim_end s = rev (dropWhile is_ws (rev s))"

definition trim :: "string \<Rightarrow> string" where
  "trim s = trim_end (trim_start s)"

definition starts_with :: "string \<Rightarrow> string \<Rightarrow> bool" where
  "starts_with p s \<longleftrightarrow> take (length p) s = p"

definition lower_char :: "char \<Rightarrow> char" where
  "lower_char c = (let n = code c in
     if (65 \<le> n \<and> n \<le> 90) \<or> (192 \<le> n \<and> n \<le> 222 \<and> n \<noteq> 215) then chr (n + 32) else c)"

definition js_lower :: "string \<Rightarrow> string" where
  "js_lower s = map lower_char s"

text \<open>\<^verbatim>\<open>toUpperCase\<close>: the sharp s becomes two letters; the two letters whose capitals lie
  outside the represented range (codes 181 and 255) stay as they are.\<close>

definition upper_char :: "char \<Rightarrow> string" where
  "upper_char c = (let n = code c in
     if (97 \<le> n \<and> n \<le> 122) \<or> (224 \<le> n \<and> n \<le> 254 \<and> n \<noteq> 247) then [chr (n - 32)]
     else if n = 223 then ''SS'' else [c])"

definition js_upper :: "string \<Rightarrow> string" where
  "js_upper s = concat (map upper_char s)"

text \<open>\<^verbatim>\<open>s.split(c)\<close> for a one-character separator, \<^verbatim>\<open>xs.join(sep)\<close> and \<^verbatim>\<open>s.indexOf(c)\<close>.\<close>

fun split_on :: "char \<Rightarrow> string \<Rightarrow> string list" where
  "split_on d [] = [[]]"
| "split_on d (c # cs) =
     (if c = d then [] # split_on d cs
      else case split_on d cs of [] \<Rightarrow> [[c]] | w # ws \<Rightarrow> (c # w) # ws)"

fun join :: "string \<Rightarrow> string list \<Rightarrow> string" where
  "join sep [] = []"
| "join sep [x] = x"
| "join sep (x # y # xs) = x @ sep @ join sep (y # xs)"

fun index_of :: "char \<Rightarrow> string \<Rightarrow> nat option" where
  "index_of d [] = None"
| "index_of d (c # cs) = (if c = d then Some 0 else map_option Suc (index_of d cs))"

lemma split_on_not_Nil [simp]: "split_on d s \<noteq> []"
  by (cases s) (auto split: list.splits)

lemma split_on_no_sep: "d \<notin> set s \<Longrightarrow> split_on d s = [s]"
  by (induction s) auto

lemma split_on_append: "d \<notin> set s \<Longrightarrow> split_on d (s @ d # t) = s # split_on d t"
  by (induction s) auto

lemma split_on_join:
  "xs \<noteq> [] \<Longrightarrow> (\<And>x. x \<in> set xs \<Longrightarrow> d \<notin> set x) \<Longrightarrow> split_on d (join [d] xs) = xs"
  by (induction "[d]" xs rule: join.induct) (auto simp: split_on_no_sep split_on_append)

lemma join_split_on: "join [d] (split_on d s) = s"
proof (induction s)
  case (Cons c cs)
  show ?case
  proof (cases "split_on d cs")
    case (Cons w ws)
    with Cons.IH show ?thesis by (cases ws) auto
  qed simp
qed simp

lemma set_split_on: "w \<in> set (split_on d s) \<Longrightarrow> d \<notin> set w \<and> set w \<subseteq> set s"
proof (induction s arbitrary: w)
  case (Cons c cs)
  then show ?case by (cases "split_on d cs") (fastforce split: if_splits)+
qed simp

lemma index_of_SomeD:
  "index_of d s = Some i \<Longrightarrow> i < length s \<and> s ! i = d \<and> d \<notin> set (take i s)"
proof (induction s arbitrary: i)
  case (Cons c cs)
  then show ?case by (auto split: if_splits)
qed simp

lemma index_of_append: "d \<notin> set s \<Longrightarrow> index_of d (s @ d # t) = Some (length s)"
  by (induction s) auto

lemma trim_start_id: "s = [] \<or> \<not> is_ws (hd s) \<Longrightarrow> trim_start s = s"
  by (cases s) (auto simp: trim_start_def)

lemma trim_end_id: "s = [] \<or> \<not> is_ws (last s) \<Longrightarrow> trim_end s = s"
  by (cases s rule: rev_cases) (auto simp: trim_end_def)

lemma trim_no_ws: "(\<And>c. c \<in> set s \<Longrightarrow> \<not> is_ws c) \<Longrightarrow> trim s = s"
proof -
  assume a: "\<And>c. c \<in> set s \<Longrightarrow> \<not> is_ws c"
  have s: "trim_start s = s" using a by (cases s) (auto simp: trim_start_def)
  have e: "trim_end s = s" by (rule trim_end_id) (use a in \<open>cases s rule: rev_cases; auto\<close>)
  show "trim s = s" unfolding trim_def s e ..
qed

lemma trim_start_Cons: "\<not> is_ws c \<Longrightarrow> trim_start (c # s) = c # s"
  by (simp add: trim_start_def)

lemma set_dropWhile_subset: "set (dropWhile P xs) \<subseteq> set xs"
  by (auto dest: set_dropWhileD)

lemma set_trim: "set (trim s) \<subseteq> set s"
  unfolding trim_def trim_end_def trim_start_def by (auto dest!: set_dropWhileD)

lemma length_trim: "length (trim s) \<le> length s"
  unfolding trim_def trim_end_def trim_start_def
  by (metis length_dropWhile_le length_rev order_trans)

lemma hd_trim_start: "trim_start s \<noteq> [] \<Longrightarrow> \<not> is_ws (hd (trim_start s))"
  unfolding trim_start_def by (rule hd_dropWhile)

lemma last_trim_end: "trim_end s \<noteq> [] \<Longrightarrow> \<not> is_ws (last (trim_end s))"
  unfolding trim_end_def using hd_dropWhile[of is_ws "rev s"] by (auto simp: last_rev)

lemma trim_idem [simp]: "trim (trim s) = trim s"
proof -
  have e: "trim_end (trim s) = trim s"
    by (rule trim_end_id) (auto simp: trim_def last_trim_end)
  have "trim_start (trim s) = trim s"
  proof (cases "trim s")
    case (Cons c cs)
    obtain ys where "rev (trim_start s) = ys @ dropWhile is_ws (rev (trim_start s))"
      by (metis takeWhile_dropWhile_id)
    then have pre: "trim_start s = trim s @ rev ys"
      by (metis rev_append rev_rev_ident trim_def trim_end_def)
    then have "hd (trim_start s) = c" and "trim_start s \<noteq> []" using Cons by auto
    then show ?thesis using hd_trim_start[of s] Cons by (simp add: trim_start_Cons)
  qed (simp add: trim_start_def)
  then show ?thesis by (metis e trim_def)
qed

section \<open>Numbers as text\<close>

definition digit_char :: "nat \<Rightarrow> char" where "digit_char d = chr (48 + d)"

fun js_nat :: "nat \<Rightarrow> string" where
  "js_nat n = (if n < 10 then [digit_char n] else js_nat (n div 10) @ [digit_char (n mod 10)])"

declare js_nat.simps [simp del]

definition js_int :: "int \<Rightarrow> string" where
  "js_int i = (if i < 0 then CHR ''-'' # js_nat (nat (- i)) else js_nat (nat i))"

definition nat_value :: "string \<Rightarrow> nat" where
  "nat_value s = foldl (\<lambda>a c. 10 * a + (code c - 48)) 0 s"

lemma code_digit_char: "d < 10 \<Longrightarrow> code (digit_char d) = 48 + d"
  by (simp add: digit_char_def of_char_of)

lemma js_nat_digits: "c \<in> set (js_nat n) \<Longrightarrow> is_digit c"
proof (induction n rule: js_nat.induct)
  case (1 n)
  then show ?case
    by (subst (asm) js_nat.simps) (auto simp: is_digit_def code_digit_char split: if_splits)
qed

lemma js_nat_not_Nil [simp]: "js_nat n \<noteq> []"
  by (subst js_nat.simps) simp

lemma nat_value_js_nat [simp]: "nat_value (js_nat n) = n"
proof (induction n rule: js_nat.induct)
  case (1 n)
  show ?case
  proof (cases "n < 10")
    case True
    then show ?thesis by (subst js_nat.simps) (simp add: nat_value_def code_digit_char)
  next
    case False
    then have "nat_value (js_nat (n div 10)) = n div 10" using 1 by simp
    with False show ?thesis by (subst js_nat.simps) (simp add: nat_value_def code_digit_char)
  qed
qed

lemma js_nat_inject [simp]: "js_nat m = js_nat n \<longleftrightarrow> m = n"
  by (metis nat_value_js_nat)

lemma js_int_inject: "js_int i = js_int j \<longleftrightarrow> i = j"
proof -
  have "CHR ''-'' \<notin> set (js_nat n)" for n
    using js_nat_digits[of "CHR ''-''" n] by (auto simp: is_digit_def)
  then show ?thesis
    unfolding js_int_def by (smt (verit) list.inject list.set_intros(1) js_nat_inject eq_nat_nat_iff)
qed

end
