(* ===== verification/JsonText.thy ===== *)
theory JsonText
  imports JsText
begin

text \<open>
  \<^verbatim>\<open>JSON.stringify\<close> and the UTF-8 conversions of \<^verbatim>\<open>Buffer\<close>, with the readers that show they lose
  nothing: a quoted string is read back by \<open>read_quoted\<close>, a UTF-8 encoding by \<open>utf8_strict\<close>.
\<close>

abbreviation dquote :: char where "dquote \<equiv> CHR 0x22"
abbreviation backslash :: char where "backslash \<equiv> CHR 0x5C"

section \<open>Quoted strings\<close>

definition hex_char :: "nat \<Rightarrow> char" where
  "hex_char d = (if d < 10 then chr (48 + d) else chr (87 + d))"

definition hex_value :: "char \<Rightarrow> nat" where
  "hex_value c = (if code c < 58 then code c - 48 else code c - 87)"

definition json_escape_char :: "char \<Rightarrow> string" where
  "json_escape_char c = (let n = code c in
     if n = 34 then [backslash, dquote]
     else if n = 92 then [backslash, backslash]
     else if n = 8 then [backslash, CHR ''b'']
     else if n = 9 then [backslash, CHR ''t'']
     else if n = 10 then [backslash, CHR ''n'']
     else if n = 12 then [backslash, CHR ''f'']
     else if n = 13 then [backslash, CHR ''r'']
     else if n < 32 then [backslash, CHR ''u'', CHR ''0'', CHR ''0'', hex_char (n div 16), hex_char (n mod 16)]
     else [c])"

definition json_escape :: "string \<Rightarrow> string" where
  "json_escape s = concat (map json_escape_char s)"

definition json_quote :: "string \<Rightarrow> string" where
  "json_quote s = dquote # json_escape s @ [dquote]"

text \<open>The reader: the body of a quoted string up to its closing quote, and the text after it.\<close>

definition simple_escape :: "char \<Rightarrow> char option" where
  "simple_escape d = (
     if d = dquote then Some dquote
     else if d = backslash then Some backslash
     else if d = CHR ''b'' then Some (chr 8)
     else if d = CHR ''t'' then Some (chr 9)
     else if d = CHR ''n'' then Some (chr 10)
     else if d = CHR ''f'' then Some (chr 12)
     else if d = CHR ''r'' then Some (chr 13)
     else None)"

definition cons_fst :: "'a \<Rightarrow> ('a list \<times> 'b) option \<Rightarrow> ('a list \<times> 'b) option" where
  "cons_fst c r = map_option (\<lambda>(s, t). (c # s, t)) r"

fun read_body :: "string \<Rightarrow> (string \<times> string) option" where
  "read_body [] = None"
| "read_body (c # cs) =
     (if c = dquote then Some ([], cs)
      else if c = backslash then
        (case cs of
           [] \<Rightarrow> None
         | d # ds \<Rightarrow>
             if d = CHR ''u'' then
               (case ds of
                  a # b # x # y # es \<Rightarrow> cons_fst (chr (16 * hex_value x + hex_value y)) (read_body es)
                | _ \<Rightarrow> None)
             else (case simple_escape d of
                     None \<Rightarrow> None
                   | Some e \<Rightarrow> cons_fst e (read_body ds)))
      else cons_fst c (read_body cs))"

definition read_quoted :: "string \<Rightarrow> (string \<times> string) option" where
  "read_quoted t = (case t of [] \<Rightarrow> None | c # cs \<Rightarrow> if c = dquote then read_body cs else None)"

lemma hex_value_hex_char: "d < 16 \<Longrightarrow> hex_value (hex_char d) = d"
  by (auto simp: hex_value_def hex_char_def of_char_of)

lemma read_body_escape_char:
  "read_body (json_escape_char c @ t) = cons_fst c (read_body t)"
proof -
  define n where "n = code c"
  have c: "c = chr n" and n: "n < 256" by (auto simp: n_def)
  have [simp]: "chr 34 = dquote" "chr 92 = backslash"
    by (simp_all add: char_of_eq_iff take_bit_nat_def)
  consider "n = 34" | "n = 92" | "n = 8" | "n = 9" | "n = 10" | "n = 12" | "n = 13"
    | "n < 32" "n \<notin> {8, 9, 10, 12, 13}" | "32 \<le> n" "n \<noteq> 34" "n \<noteq> 92" by fastforce
  then show ?thesis
  proof cases
    case 8
    then have esc: "json_escape_char c =
        [backslash, CHR ''u'', CHR ''0'', CHR ''0'', hex_char (n div 16), hex_char (n mod 16)]"
      by (simp add: json_escape_char_def n_def[symmetric] Let_def)
    have "16 * hex_value (hex_char (n div 16)) + hex_value (hex_char (n mod 16)) = n"
      using 8 n by (simp add: hex_value_hex_char)
    then show ?thesis unfolding esc by (simp add: c)
  next
    case 9
    then have "json_escape_char c = [c]"
      by (simp add: json_escape_char_def n_def[symmetric] Let_def)
    moreover have "c \<noteq> dquote" "c \<noteq> backslash" using 9 by (auto simp: n_def)
    ultimately show ?thesis by simp
  qed (simp_all add: json_escape_char_def n_def[symmetric] Let_def c simple_escape_def)
qed

lemma read_body_escape: "read_body (json_escape s @ dquote # t) = Some (s, t)"
  by (induction s) (simp_all add: json_escape_def read_body_escape_char cons_fst_def)

lemma read_quoted_quote: "read_quoted (json_quote s @ t) = Some (s, t)"
  by (simp add: read_quoted_def json_quote_def read_body_escape)

lemma json_quote_append_inject:
  "json_quote s @ t = json_quote s' @ t' \<longleftrightarrow> s = s' \<and> t = t'"
  by (metis read_quoted_quote option.inject prod.inject)

lemma json_quote_inject [simp]: "json_quote s = json_quote s' \<longleftrightarrow> s = s'"
  using json_quote_append_inject[of s "[]" s' "[]"] by simp

section \<open>JSON documents\<close>

text \<open>
  A number is represented by the text \<^verbatim>\<open>String(n)\<close> gives for it, which is also what
  \<^verbatim>\<open>JSON.stringify\<close> prints for a finite one. The members of an object are in the order
  \<^verbatim>\<open>Object.entries\<close> lists them.
\<close>

datatype json = JNull | JBool bool | JNum string | JStr string
  | JArr "json list" | JObj "(string \<times> json) list"

definition num_finite :: "string \<Rightarrow> bool" where
  "num_finite n \<longleftrightarrow> n \<notin> {''NaN'', ''Infinity'', ''-Infinity''}"

fun json_text :: "json \<Rightarrow> string" where
  "json_text JNull = ''null''"
| "json_text (JBool b) = (if b then ''true'' else ''false'')"
| "json_text (JNum n) = (if num_finite n then n else ''null'')"
| "json_text (JStr s) = json_quote s"
| "json_text (JArr xs) = ''['' @ join '','' (map json_text xs) @ '']''"
| "json_text (JObj ms) =
     ''{'' @ join '','' (map (\<lambda>(k, v). json_quote k @ '':'' @ json_text v) ms) @ ''}''"

text \<open>\<^verbatim>\<open>JSON.stringify(v, null, 2)\<close>: two spaces per level, empty containers on one line.\<close>

definition pad :: "nat \<Rightarrow> string" where "pad n = replicate (2 * n) (CHR '' '')"

definition newline :: string where "newline = [CHR 0x0A]"

fun json_pretty :: "nat \<Rightarrow> json \<Rightarrow> string" where
  "json_pretty d (JArr xs) = (if xs = [] then ''[]'' else
     ''['' @ newline @ pad (Suc d)
       @ join ('','' @ newline @ pad (Suc d)) (map (json_pretty (Suc d)) xs) @ newline @ pad d @ '']'')"
| "json_pretty d (JObj ms) = (if ms = [] then ''{}'' else
     ''{'' @ newline @ pad (Suc d)
       @ join ('','' @ newline @ pad (Suc d))
           (map (\<lambda>(k, v). json_quote k @ '': '' @ json_pretty (Suc d) v) ms)
       @ newline @ pad d @ ''}'')"
| "json_pretty d v = json_text v"

section \<open>UTF-8\<close>

definition utf8_char :: "char \<Rightarrow> bytes" where
  "utf8_char c = (let n = code c in
     if n < 128 then [of_nat n] else [of_nat (192 + n div 64), of_nat (128 + n mod 64)])"

definition utf8 :: "string \<Rightarrow> bytes" where
  "utf8 s = concat (map utf8_char s)"

fun utf8_strict :: "bytes \<Rightarrow> string option" where
  "utf8_strict [] = Some []"
| "utf8_strict (b # bs) =
     (if unat b < 128 then map_option (Cons (chr (unat b))) (utf8_strict bs)
      else if unat b = 194 \<or> unat b = 195 then
        (case bs of
           [] \<Rightarrow> None
         | c # cs \<Rightarrow>
             if 128 \<le> unat c \<and> unat c < 192
             then map_option (Cons (chr ((unat b - 192) * 64 + (unat c - 128)))) (utf8_strict cs)
             else None)
      else None)"

lemma unat_of_nat_byte: "n < 256 \<Longrightarrow> unat (of_nat n :: byte) = n"
  by (simp add: unat_of_nat take_bit_nat_def)

lemma utf8_strict_char: "utf8_strict (utf8_char c @ bs) = map_option (Cons c) (utf8_strict bs)"
proof -
  define n where "n = code c"
  have c: "c = chr n" and n: "n < 256" by (auto simp: n_def)
  show ?thesis
  proof (cases "n < 128")
    case True
    then have "utf8_char c = [of_nat n]" by (simp add: utf8_char_def n_def Let_def)
    then show ?thesis using True n by (simp add: unat_of_nat_byte c)
  next
    case False
    define q where "q = n div 64"
    define r where "r = n mod 64"
    have "2 \<le> q" using False div_le_mono[of 128 n 64] by (simp add: q_def)
    moreover have "q < 4" using n by (simp add: q_def less_mult_imp_div_less)
    ultimately have q: "q = 2 \<or> q = 3" by linarith
    have r: "r < 64" by (simp add: r_def)
    have nqr: "n = q * 64 + r" by (simp add: q_def r_def)
    have "utf8_char c = [of_nat (192 + q), of_nat (128 + r)]"
      using False by (simp add: utf8_char_def n_def q_def r_def Let_def)
    moreover have "unat (of_nat (192 + q) :: byte) = 192 + q"
      "unat (of_nat (128 + r) :: byte) = 128 + r"
      using q r by (auto intro!: unat_of_nat_byte simp del: of_nat_add)
    ultimately show ?thesis using q r by (auto simp: c nqr simp del: of_nat_add)
  qed
qed

lemma utf8_strict_utf8 [simp]: "utf8_strict (utf8 s) = Some s"
  by (induction s) (simp_all add: utf8_def utf8_strict_char)

lemma utf8_inject [simp]: "utf8 s = utf8 t \<longleftrightarrow> s = t"
  by (metis option.inject utf8_strict_utf8)

end
