(* ===== verification/Platform.thy ===== *)
theory Platform
  imports JsonText
begin

text \<open>
  What the sources take from outside the repository and from the parts of Node and PostgreSQL
  that are not computed here: randomness, AES-256-GCM and SHA-256 of \<^verbatim>\<open>node:crypto\<close>, argon2, the
  decoding of malformed UTF-8, and the collation and pattern matching of the database and of
  \<^verbatim>\<open>localeCompare\<close>. Each is a field of one record that the model's functions take as an argument.
  The facts the code relies on are named hypotheses below; a theorem that needs one says so.
\<close>

type_synonym uuid = string
type_synonym time = int

record platform =
  random_bytes :: "nat \<Rightarrow> nat \<Rightarrow> bytes"    \<comment> \<open>the \<open>i\<close>-th draw of \<open>n\<close> random bytes\<close>
  random_uuid :: "nat \<Rightarrow> uuid"             \<comment> \<open>the \<open>i\<close>-th \<^verbatim>\<open>randomUUID()\<close> or \<^verbatim>\<open>gen_random_uuid()\<close>\<close>
  gcm_seal :: "bytes \<Rightarrow> bytes \<Rightarrow> bytes \<Rightarrow> bytes \<Rightarrow> bytes \<times> bytes"
    \<comment> \<open>AES-256-GCM: key, nonce, additional data, plaintext to ciphertext and tag\<close>
  gcm_open :: "bytes \<Rightarrow> bytes \<Rightarrow> bytes \<Rightarrow> bytes \<Rightarrow> bytes \<Rightarrow> bytes option"
    \<comment> \<open>key, nonce, additional data, ciphertext, tag; \<open>None\<close> when \<^verbatim>\<open>final()\<close> throws\<close>
  sha256 :: "bytes \<Rightarrow> bytes"
  base64_decode :: "string \<Rightarrow> bytes"        \<comment> \<open>the lenient decoder \<^verbatim>\<open>Buffer.from(s, "base64")\<close>\<close>
  utf8_lossy :: "bytes \<Rightarrow> string"          \<comment> \<open>decoding of bytes that are not the encoding of a represented text\<close>
  locale_le :: "string \<Rightarrow> string \<Rightarrow> bool"  \<comment> \<open>\<^verbatim>\<open>a.localeCompare(b) <= 0\<close>\<close>
  collate_le :: "string \<Rightarrow> string \<Rightarrow> bool" \<comment> \<open>the order of \<^verbatim>\<open>ORDER BY\<close> on text\<close>
  db_lower :: "string \<Rightarrow> string"          \<comment> \<open>\<^verbatim>\<open>lower(text)\<close> of the database\<close>
  ilike :: "string \<Rightarrow> string \<Rightarrow> bool"      \<comment> \<open>\<^verbatim>\<open>text ILIKE pattern\<close>\<close>

text \<open>\<^verbatim>\<open>buffer.toString("utf8")\<close>\<close>

definition utf8_decode :: "platform \<Rightarrow> bytes \<Rightarrow> string" where
  "utf8_decode P bs = (case utf8_strict bs of Some s \<Rightarrow> s | None \<Rightarrow> utf8_lossy P bs)"

lemma utf8_decode_utf8 [simp]: "utf8_decode P (utf8 s) = s"
  by (simp add: utf8_decode_def)

section \<open>Hypotheses\<close>

text \<open>Authenticated decryption inverts encryption under the same key, nonce and additional data.\<close>

definition gcm_correct :: "platform \<Rightarrow> bool" where
  "gcm_correct P \<longleftrightarrow> (\<forall>k n a m.
     gcm_open P k n a (fst (gcm_seal P k n a m)) (snd (gcm_seal P k n a m)) = Some m)"

text \<open>The tag has the 16 bytes asked for and the ciphertext is as long as the plaintext.\<close>

definition gcm_lengths :: "platform \<Rightarrow> bool" where
  "gcm_lengths P \<longleftrightarrow> (\<forall>k n a m.
     length (fst (gcm_seal P k n a m)) = length m \<and> length (snd (gcm_seal P k n a m)) = 16)"

definition random_lengths :: "platform \<Rightarrow> bool" where
  "random_lengths P \<longleftrightarrow> (\<forall>i n. length (random_bytes P i n) = n)"

text \<open>
  Authenticity of one sealed message: what was sealed with additional data \<open>a\<close> does not open
  under other additional data.
\<close>

definition gcm_binds_aad :: "platform \<Rightarrow> bytes \<Rightarrow> bytes \<Rightarrow> bytes \<Rightarrow> bytes \<Rightarrow> bool" where
  "gcm_binds_aad P k n a m \<longleftrightarrow> (\<forall>a'. a' \<noteq> a \<longrightarrow>
     gcm_open P k n a' (fst (gcm_seal P k n a m)) (snd (gcm_seal P k n a m)) = None)"

text \<open>\<open>locale_le\<close> and \<open>collate_le\<close> are total preorders.\<close>

definition total_preorder :: "('a \<Rightarrow> 'a \<Rightarrow> bool) \<Rightarrow> bool" where
  "total_preorder le \<longleftrightarrow> (\<forall>a b. le a b \<or> le b a) \<and> (\<forall>a b c. le a b \<longrightarrow> le b c \<longrightarrow> le a c)"

section \<open>A concrete platform for witnesses\<close>

text \<open>
  A platform on which every hypothesis holds, so that theorems can be applied at concrete
  inputs: sealing is the identity with a constant tag, the \<open>i\<close>-th random bytes are \<open>i, i, \<dots>\<close>,
  the \<open>i\<close>-th identifier is \<open>i + 1\<close> letters, and texts are ordered by code.
\<close>

definition demo_platform :: platform where
  "demo_platform = \<lparr>
     random_bytes = (\<lambda>i n. replicate n (of_nat i)),
     random_uuid = (\<lambda>i. replicate (Suc i) (CHR ''i'')),
     gcm_seal = (\<lambda>k n a m. (m, replicate 16 0)),
     gcm_open = (\<lambda>k n a c t. Some c),
     sha256 = (\<lambda>bs. take 32 (bs @ replicate 32 0)),
     base64_decode = (\<lambda>s. []),
     utf8_lossy = (\<lambda>bs. []),
     locale_le = (\<le>),
     collate_le = (\<le>),
     db_lower = js_lower,
     ilike = (\<lambda>s p. True)\<rparr>"

lemma demo_gcm_correct [simp]: "gcm_correct demo_platform"
  by (simp add: gcm_correct_def demo_platform_def)

lemma demo_gcm_lengths [simp]: "gcm_lengths demo_platform"
  by (simp add: gcm_lengths_def demo_platform_def)

lemma demo_random_lengths [simp]: "random_lengths demo_platform"
  by (simp add: random_lengths_def demo_platform_def)

lemma demo_total_preorder [simp]:
  "total_preorder (locale_le demo_platform)" "total_preorder (collate_le demo_platform)"
  by (auto simp: total_preorder_def demo_platform_def)

end
