(* ===== verification/Authz.thy ===== *)
theory Authz
  imports Prelude
begin

text \<open>
  The role and permission policy of \<^verbatim>\<open>packages/authz/src/index.ts\<close>, its pure part: the
  permission matrix, the effective role under a project override, the decision function and the
  snapshots the browser receives. The parts that read the database are in theory \<open>Access\<close>.
\<close>

section \<open>Roles\<close>

datatype role = Owner | Admin | Member | Read_only

primrec role_rank :: "role \<Rightarrow> nat" where
  "role_rank Read_only = 0"
| "role_rank Member = 1"
| "role_rank Admin = 2"
| "role_rank Owner = 3"

lemma role_rank_inject: "role_rank r = role_rank s \<Longrightarrow> r = s"
  by (cases r; cases s) simp_all

instantiation role :: linorder
begin

definition less_eq_role :: "role \<Rightarrow> role \<Rightarrow> bool" where
  "less_eq_role r s \<longleftrightarrow> role_rank r \<le> role_rank s"

definition less_role :: "role \<Rightarrow> role \<Rightarrow> bool" where
  "less_role r s \<longleftrightarrow> role_rank r < role_rank s"

instance
proof
  fix r s :: role
  show "r \<le> s \<Longrightarrow> s \<le> r \<Longrightarrow> r = s"
    by (auto simp: less_eq_role_def intro: role_rank_inject)
qed (auto simp: less_eq_role_def less_role_def)

end

section \<open>Permissions\<close>

datatype permission =
    Org_settings_read | Org_settings_update | Org_settings_delete
  | Org_members_read | Org_members_invite | Org_members_manage
  | Project_create | Project_read | Project_update | Project_archive | Project_delete
  | Environment_create | Environment_read | Environment_update | Environment_delete
  | Secret_read | Secret_write | Secret_delete
  | Api_key_read | Api_key_create | Api_key_revoke
  | Audit_read | Audit_export

definition permissions :: "permission list" where
  "permissions = [
     Org_settings_read, Org_settings_update, Org_settings_delete,
     Org_members_read, Org_members_invite, Org_members_manage,
     Project_create, Project_read, Project_update, Project_archive, Project_delete,
     Environment_create, Environment_read, Environment_update, Environment_delete,
     Secret_read, Secret_write, Secret_delete,
     Api_key_read, Api_key_create, Api_key_revoke,
     Audit_read, Audit_export]"

lemma in_permissions [simp]: "p \<in> set permissions"
  by (cases p) (simp_all add: permissions_def)

primrec permission_matrix :: "role \<Rightarrow> permission list" where
  "permission_matrix Owner = permissions"
| "permission_matrix Admin = filter (\<lambda>p. p \<noteq> Org_settings_delete) permissions"
| "permission_matrix Member = [
     Org_settings_read, Org_members_read,
     Project_create, Project_read, Project_update,
     Environment_create, Environment_read, Environment_update,
     Secret_read, Secret_write, Secret_delete]"
| "permission_matrix Read_only = [
     Org_settings_read, Org_members_read, Project_read, Environment_read, Secret_read]"

definition project_scoped_permissions :: "permission list" where
  "project_scoped_permissions = [
     Project_read, Project_update, Project_archive, Project_delete,
     Environment_create, Environment_read, Environment_update, Environment_delete,
     Secret_read, Secret_write, Secret_delete,
     Api_key_read, Api_key_create, Api_key_revoke]"

definition protected_write_permissions :: "permission list" where
  "protected_write_permissions = [
     Environment_create, Environment_update, Environment_delete, Secret_write, Secret_delete]"

section \<open>Decisions\<close>

text \<open>\<^verbatim>\<open>projectRole?: ... | null\<close> and \<^verbatim>\<open>protectedEnvironment?: boolean\<close>: an absent field is \<open>None\<close>.\<close>

record authorization_context =
  org_role :: role
  project_role :: "role option"
  protected_environment :: "bool option"

datatype decision_reason = Reason_allowed | Reason_role | Reason_protected_environment

record authorization_decision =
  allowed :: bool
  decided_permission :: permission
  decided_role :: role
  reason :: decision_reason

definition effective_role :: "role \<Rightarrow> role option \<Rightarrow> role" where
  "effective_role orgRole projectRole =
     (case projectRole of
        None \<Rightarrow> orgRole
      | Some r \<Rightarrow> if role_rank r < role_rank orgRole then r else orgRole)"

definition authorize :: "authorization_context \<Rightarrow> permission \<Rightarrow> authorization_decision" where
  "authorize c p =
     (let r = (if p \<in> set project_scoped_permissions
               then effective_role (org_role c) (project_role c) else org_role c)
      in if p \<notin> set (permission_matrix r)
         then \<lparr>allowed = False, decided_permission = p, decided_role = r, reason = Reason_role\<rparr>
         else if protected_environment c = Some True \<and> p \<in> set protected_write_permissions
                 \<and> r \<noteq> Owner \<and> r \<noteq> Admin
         then \<lparr>allowed = False, decided_permission = p, decided_role = r,
               reason = Reason_protected_environment\<rparr>
         else \<lparr>allowed = True, decided_permission = p, decided_role = r, reason = Reason_allowed\<rparr>)"

definition require_permission ::
  "authorization_context \<Rightarrow> permission \<Rightarrow> authorization_decision + unit" where
  "require_permission c p =
     (let d = authorize c p in if \<not> allowed d then Inl d else Inr ())"

definition authorization_snapshot :: "authorization_context \<Rightarrow> (permission \<times> bool) list" where
  "authorization_snapshot c = map (\<lambda>p. (p, allowed (authorize c p))) permissions"

datatype ui_action =
    Create_project | Edit_project | Archive_project | Delete_project
  | Create_environment | Edit_environment | Delete_environment
  | Reveal_secret | Edit_secret | Delete_secret
  | View_api_keys | Create_api_key | Revoke_api_key
  | View_audit_log | Export_audit_log | Invite_member | Manage_members
  | Edit_organization | Delete_organization

definition ui_action_permissions :: "(ui_action \<times> permission) list" where
  "ui_action_permissions = [
     (Create_project, Project_create), (Edit_project, Project_update),
     (Archive_project, Project_archive), (Delete_project, Project_delete),
     (Create_environment, Environment_create), (Edit_environment, Environment_update),
     (Delete_environment, Environment_delete),
     (Reveal_secret, Secret_read), (Edit_secret, Secret_write), (Delete_secret, Secret_delete),
     (View_api_keys, Api_key_read), (Create_api_key, Api_key_create),
     (Revoke_api_key, Api_key_revoke),
     (View_audit_log, Audit_read), (Export_audit_log, Audit_export),
     (Invite_member, Org_members_invite), (Manage_members, Org_members_manage),
     (Edit_organization, Org_settings_update), (Delete_organization, Org_settings_delete)]"

definition ui_action_snapshot :: "authorization_context \<Rightarrow> (ui_action \<times> bool) list" where
  "ui_action_snapshot c = map (\<lambda>(a, p). (a, allowed (authorize c p))) ui_action_permissions"

section \<open>Lemmas of the policy\<close>

lemmas policy_defs = permissions_def project_scoped_permissions_def
  protected_write_permissions_def less_eq_role_def less_role_def

lemma effective_role_min: "effective_role r p = (case p of None \<Rightarrow> r | Some q \<Rightarrow> min q r)"
  by (auto simp: effective_role_def min_def less_eq_role_def dest: role_rank_inject split: option.splits)

lemma effective_role_le: "effective_role r p \<le> r"
  by (auto simp: effective_role_min split: option.splits)

lemma permission_matrix_mono:
  "r \<le> s \<Longrightarrow> set (permission_matrix r) \<subseteq> set (permission_matrix s)"
  by (cases r; cases s) (simp_all add: policy_defs)

lemma allowed_authorize:
  "allowed (authorize c p) \<longleftrightarrow>
     (let r = (if p \<in> set project_scoped_permissions
               then effective_role (org_role c) (project_role c) else org_role c)
      in p \<in> set (permission_matrix r) \<and>
         (protected_environment c = Some True \<longrightarrow> p \<in> set protected_write_permissions \<longrightarrow> Admin \<le> r))"
proof -
  have "(r \<noteq> Owner \<and> r \<noteq> Admin) = (\<not> Admin \<le> r)" for r
    by (cases r) (simp_all add: less_eq_role_def)
  then show ?thesis by (auto simp: authorize_def Let_def)
qed

lemma require_permission_Inr: "require_permission c p = Inr u \<longleftrightarrow> allowed (authorize c p)"
  by (auto simp: require_permission_def Let_def)

lemma require_permission_Inl:
  "require_permission c p = Inl d \<longleftrightarrow> \<not> allowed (authorize c p) \<and> d = authorize c p"
  by (auto simp: require_permission_def Let_def)

section \<open>Properties\<close>

text \<open>
  A project override can only narrow what a member may do. Whatever the override and
  whatever the environment, an action the policy allows is one the member's organization role
  holds on its own, outside protected environments.
\<close>
theorem override_never_escalates:
  "allowed (authorize c p) \<Longrightarrow>
     allowed (authorize \<lparr>org_role = org_role c, project_role = None, protected_environment = None\<rparr> p)"
  using permission_matrix_mono[OF effective_role_le[of "org_role c" "project_role c"]]
  by (auto simp: allowed_authorize Let_def effective_role_min split: if_splits)

theorem override_never_escalates_witness:
  "allowed (authorize \<lparr>org_role = Admin, project_role = Some Member,
       protected_environment = Some False\<rparr> Secret_write) \<and>
   allowed (authorize \<lparr>org_role = Admin, project_role = None, protected_environment = None\<rparr> Secret_write)"
proof -
  have h: "allowed (authorize \<lparr>org_role = Admin, project_role = Some Member,
       protected_environment = Some False\<rparr> Secret_write)"
    by code_simp
  show ?thesis using h override_never_escalates[OF h] by simp
qed

text \<open>
  Authorization is monotone: raising the organization role, raising or removing the project
  override, or leaving a protected environment never takes a permission away.
\<close>
theorem authorize_monotone:
  assumes "org_role c \<le> org_role c'"
    and "case project_role c' of None \<Rightarrow> True
         | Some q' \<Rightarrow> (case project_role c of None \<Rightarrow> org_role c \<le> q' | Some q \<Rightarrow> q \<le> q')"
    and "protected_environment c' = Some True \<longrightarrow> protected_environment c = Some True"
    and "allowed (authorize c p)"
  shows "allowed (authorize c' p)"
proof -
  have e: "effective_role (org_role c) (project_role c) \<le> effective_role (org_role c') (project_role c')"
    using assms(1,2) by (auto simp: effective_role_min min_def split: option.splits)
  let ?r = "if p \<in> set project_scoped_permissions
            then effective_role (org_role c) (project_role c) else org_role c"
  let ?r' = "if p \<in> set project_scoped_permissions
             then effective_role (org_role c') (project_role c') else org_role c'"
  have le: "?r \<le> ?r'" using e assms(1) by simp
  have "p \<in> set (permission_matrix ?r')"
    using assms(4) permission_matrix_mono[OF le] by (auto simp: allowed_authorize Let_def)
  moreover have "Admin \<le> ?r'"
    if "protected_environment c' = Some True" "p \<in> set protected_write_permissions"
  proof -
    have "Admin \<le> ?r" using that assms(3,4) by (simp add: allowed_authorize Let_def)
    then show ?thesis using le by (rule order_trans)
  qed
  ultimately show ?thesis by (simp add: allowed_authorize Let_def)
qed

theorem authorize_monotone_witness:
  "allowed (authorize \<lparr>org_role = Admin, project_role = Some Admin,
      protected_environment = Some True\<rparr> Secret_delete)"
  by (rule authorize_monotone[where c = "\<lparr>org_role = Admin, project_role = None,
        protected_environment = Some True\<rparr>"]) (simp_all, code_simp)

text \<open>
  What the browser is told and what the services enforce agree: the snapshot lists every
  permission once, and a permission is shown as granted exactly when \<^verbatim>\<open>requirePermission\<close> does
  not throw; the snapshot of UI actions agrees for the permission each action stands for.
\<close>
theorem snapshot_agrees_with_enforcement:
  "distinct (map fst (authorization_snapshot c))
   \<and> (map_of (authorization_snapshot c) p = Some True \<longleftrightarrow> require_permission c p = Inr ())
   \<and> (map_of (authorization_snapshot c) p = Some False \<longleftrightarrow> (\<exists>d. require_permission c p = Inl d))
   \<and> map_of (ui_action_snapshot c) a =
      map_option (\<lambda>q. require_permission c q = Inr ()) (map_of ui_action_permissions a)"
proof -
  have "map_of (map (\<lambda>p. (p, f p)) xs) p = (if p \<in> set xs then Some (f p) else None)"
    for f :: "permission \<Rightarrow> bool" and xs
    by (induction xs) auto
  then have m: "map_of (authorization_snapshot c) p = Some (allowed (authorize c p))"
    by (simp add: authorization_snapshot_def)
  have "map_of (map (\<lambda>(a, p). (a, f p)) xs) a = map_option f (map_of xs a)"
    for f :: "permission \<Rightarrow> bool" and xs :: "(ui_action \<times> permission) list"
    by (induction xs) auto
  then have u: "map_of (ui_action_snapshot c) a =
      map_option (\<lambda>q. allowed (authorize c q)) (map_of ui_action_permissions a)"
    by (simp add: ui_action_snapshot_def)
  have "distinct (map fst (authorization_snapshot c))"
    by (simp add: authorization_snapshot_def o_def permissions_def)
  then show ?thesis by (auto simp: m u require_permission_Inr require_permission_Inl)
qed

text \<open>
  writing to a protected environment takes an administrator: if the policy allows creating,
  changing or deleting a protected environment or its secrets, the effective role in the project
  is administrator or owner; and a read-only role never writes anything.
\<close>
lemma protected_writes_need_admin:
  "allowed (authorize c p) \<Longrightarrow> p \<in> set protected_write_permissions \<Longrightarrow>
     Member \<le> effective_role (org_role c) (project_role c)
     \<and> (protected_environment c = Some True \<longrightarrow>
         Admin \<le> effective_role (org_role c) (project_role c) \<and> Admin \<le> org_role c)"
proof -
  assume a: "allowed (authorize c p)" and p: "p \<in> set protected_write_permissions"
  let ?r = "effective_role (org_role c) (project_role c)"
  have s: "p \<in> set project_scoped_permissions" using p by (auto simp: policy_defs)
  have "Member \<le> ?r"
    using a p s by (cases ?r) (auto simp: allowed_authorize Let_def policy_defs)
  moreover have "Admin \<le> ?r" if "protected_environment c = Some True"
    using a p s that by (simp add: allowed_authorize Let_def)
  ultimately show ?thesis using effective_role_le order_trans by blast
qed

end
