(* ===== verification/Errors.thy ===== *)
theory Errors
  imports Authz
begin

text \<open>
  The error classes of the packages, one constructor per class with the class's code. The
  messages are not modelled, except that an authorization error carries its decision as in the
  source and the \<^verbatim>\<open>ApiError\<close> of the HTTP interface its status and code. \<open>Unique_violation\<close> is the
  PostgreSQL error 23505 that the services catch and translate; \<open>Internal_error\<close> is a plain \<^verbatim>\<open>Error\<close>.
\<close>

datatype audit_code = Unsafe_metadata | Invalid_event

datatype crypto_code = Invalid_configuration | Decryption_failed | Invalid_context

datatype secret_code = Secret_invalid_input | Key_convention | Value_too_large | Key_exists
  | Version_conflict | Version_not_found | Secret_tag_not_found | Secret_not_found

datatype project_code = Project_invalid_input | Project_slug_exists | Project_not_found
  | Project_tag_not_found | Project_recovery_expired

datatype environment_code = Environment_invalid_input | Environment_slug_exists
  | Environment_not_found | Last_environment | Secrets_require_confirmation | Order_mismatch
  | Environment_recovery_expired

datatype api_key_code = Api_key_invalid_input | Api_key_not_found | Api_key_invalid_token

datatype tenancy_code = Tenancy_invalid_input | Tenancy_slug_exists | Invitation_exists
  | Invitation_invalid | Invitation_email_mismatch | Already_member | Membership_required
  | Invite_forbidden

datatype consistency_code = Consistency_invalid_input | Consistency_not_found

datatype auth_code = Auth_invalid_input | Email_exists | Invalid_credentials | Email_not_verified
  | Invalid_token | Invalid_session | Invalid_csrf | Rate_limited

datatype error =
    Authorization_error authorization_decision
  | Audit_error audit_code
  | Crypto_error crypto_code
  | Secret_error secret_code
  | Project_error project_code
  | Environment_error environment_code
  | Api_key_error api_key_code
  | Tenancy_error tenancy_code
  | Consistency_error consistency_code
  | Auth_error auth_code
  | Api_error (api_status: nat) (api_code: string)
  | Unique_violation
  | Internal_error

text \<open>
  \<^verbatim>\<open>catch (error) { if (error.code === "23505") throw new E(code); throw error; }\<close>
\<close>

definition on_unique_violation :: "error \<Rightarrow> error \<Rightarrow> error" where
  "on_unique_violation e err = (if err = Unique_violation then e else err)"

end
