(* ===== verification/Crypto.thy ===== *)
theory Crypto
  imports Platform Errors
begin

text \<open>
  The key wrapping and encryption contexts of \<^verbatim>\<open>packages/crypto/src/index.ts\<close>: the master key
  (\<^verbatim>\<open>LocalMasterKey\<close>), the additional authenticated data, and the interface \<^verbatim>\<open>KeyWrapper\<close> with its
  contract. Data-key stores and the envelope service are in \<open>Key_Store\<close> and \<open>Envelope\<close>.
\<close>

definition algorithm_name :: string where "algorithm_name = ''aes-256-gcm''"
definition key_bytes :: nat where "key_bytes = 32"
definition nonce_bytes :: nat where "nonce_bytes = 12"
definition tag_bytes :: nat where "tag_bytes = 16"

definition is_safe_integer :: "int \<Rightarrow> bool" where
  "is_safe_integer i \<longleftrightarrow> - 9007199254740991 \<le> i \<and> i \<le> 9007199254740991"

section \<open>The key wrapper\<close>

record wrapped_data_key =
  kek_id :: string
  wrapped_ciphertext :: bytes
  wrapped_nonce :: bytes
  wrapped_tag :: bytes

text \<open>The interface: \<open>wrap\<close> takes the number of the random draw it makes its nonce from.\<close>

record key_wrapper =
  wrapper_id :: string
  wrap :: "nat \<Rightarrow> uuid \<Rightarrow> int \<Rightarrow> bytes \<Rightarrow> error + wrapped_data_key"
  unwrap :: "uuid \<Rightarrow> int \<Rightarrow> wrapped_data_key \<Rightarrow> error + bytes"

definition data_key_aad :: "uuid \<Rightarrow> int \<Rightarrow> bytes" where
  "data_key_aad orgId keyVersion =
     utf8 (json_text (JArr [JStr ''himitsu-dek'', JNum ''1'', JStr orgId, JNum (js_int keyVersion)]))"

record master_key =
  master_id :: string
  master_bytes :: bytes

definition new_master_key :: "string \<Rightarrow> bytes \<Rightarrow> error + master_key" where
  "new_master_key i key =
     (if trim i = [] \<or> length key \<noteq> key_bytes then Inl (Crypto_error Invalid_configuration)
      else Inr \<lparr>master_id = i, master_bytes = key\<rparr>)"

text \<open>\<^verbatim>\<open>buffer.toString("base64")\<close>\<close>

definition base64_char :: "nat \<Rightarrow> char" where
  "base64_char d = (if d < 26 then chr (65 + d) else if d < 52 then chr (71 + d)
     else if d < 62 then chr (d - 4) else if d = 62 then CHR ''+'' else CHR ''/'')"

fun base64_encode :: "bytes \<Rightarrow> string" where
  "base64_encode [] = []"
| "base64_encode [a] = (let n = 65536 * unat a in
     [base64_char (n div 262144), base64_char (n div 4096 mod 64), CHR ''='', CHR ''=''])"
| "base64_encode [a, b] = (let n = 65536 * unat a + 256 * unat b in
     [base64_char (n div 262144), base64_char (n div 4096 mod 64), base64_char (n div 64 mod 64), CHR ''=''])"
| "base64_encode (a # b # c # bs) = (let n = 65536 * unat a + 256 * unat b + unat c in
     base64_char (n div 262144) # base64_char (n div 4096 mod 64) # base64_char (n div 64 mod 64)
       # base64_char (n mod 64) # base64_encode bs)"

definition master_key_from_base64 :: "platform \<Rightarrow> string \<Rightarrow> string \<Rightarrow> error + master_key" where
  "master_key_from_base64 P i encodedKey =
     (let key = base64_decode P encodedKey in
      if length key \<noteq> key_bytes \<or> base64_encode key \<noteq> encodedKey
      then Inl (Crypto_error Invalid_configuration)
      else new_master_key i key)"

definition master_wrap ::
  "platform \<Rightarrow> master_key \<Rightarrow> nat \<Rightarrow> uuid \<Rightarrow> int \<Rightarrow> bytes \<Rightarrow> error + wrapped_data_key" where
  "master_wrap P mk draw orgId keyVersion dataKey =
     (if length dataKey \<noteq> key_bytes then Inl (Crypto_error Invalid_configuration)
      else let nonce = random_bytes P draw nonce_bytes;
               sealed = gcm_seal P (master_bytes mk) nonce (data_key_aad orgId keyVersion) dataKey
           in Inr \<lparr>kek_id = master_id mk, wrapped_ciphertext = fst sealed,
                   wrapped_nonce = nonce, wrapped_tag = snd sealed\<rparr>)"

definition master_unwrap ::
  "platform \<Rightarrow> master_key \<Rightarrow> uuid \<Rightarrow> int \<Rightarrow> wrapped_data_key \<Rightarrow> error + bytes" where
  "master_unwrap P mk orgId keyVersion w =
     (if kek_id w \<noteq> master_id mk then Inl (Crypto_error Decryption_failed)
      else case gcm_open P (master_bytes mk) (wrapped_nonce w) (data_key_aad orgId keyVersion)
                  (wrapped_ciphertext w) (wrapped_tag w) of
             None \<Rightarrow> Inl (Crypto_error Decryption_failed)
           | Some key \<Rightarrow>
               if length key \<noteq> key_bytes then Inl (Crypto_error Decryption_failed) else Inr key)"

definition local_master_key :: "platform \<Rightarrow> master_key \<Rightarrow> key_wrapper" where
  "local_master_key P mk =
     \<lparr>wrapper_id = master_id mk, wrap = master_wrap P mk, unwrap = master_unwrap P mk\<rparr>"

text \<open>
  The contract clients of \<^verbatim>\<open>KeyWrapper\<close> rely on; \<open>trusted\<close> is what the wrapper itself relies on.
\<close>

locale key_wrapper_contract =
  fixes W :: key_wrapper and trusted :: bool
  assumes wrap_total: "length k = key_bytes \<Longrightarrow> \<exists>w. wrap W n orgId v k = Inr w"
    and unwrap_wrap: "trusted \<Longrightarrow> wrap W n orgId v k = Inr w \<Longrightarrow> unwrap W orgId v w = Inr k"
begin

lemma unwrap_after_wrap:
  "trusted \<Longrightarrow> length k = key_bytes \<Longrightarrow>
     \<exists>w. wrap W n orgId v k = Inr w \<and> unwrap W orgId v w = Inr k"
  using wrap_total unwrap_wrap by blast

end

interpretation lmk: key_wrapper_contract "local_master_key P mk" "gcm_correct P" for P mk
  by unfold_locales
    (auto simp: local_master_key_def master_wrap_def master_unwrap_def gcm_correct_def Let_def
      split: if_splits)

section \<open>Encryption contexts\<close>

record encryption_context =
  context_org :: uuid
  context_project :: uuid
  context_environment :: uuid
  context_secret :: uuid
  context_version :: int

definition context_valid :: "encryption_context \<Rightarrow> bool" where
  "context_valid c \<longleftrightarrow> context_org c \<noteq> [] \<and> context_project c \<noteq> [] \<and> context_environment c \<noteq> []
     \<and> context_secret c \<noteq> [] \<and> is_safe_integer (context_version c) \<and> \<not> context_version c < 1"

definition context_json :: "encryption_context \<Rightarrow> json" where
  "context_json c = JArr [
     JStr ''himitsu-secret'', JNum ''1'', JStr (context_org c), JStr (context_project c),
     JStr (context_environment c), JStr (context_secret c), JNum (js_int (context_version c))]"

definition secret_aad :: "encryption_context \<Rightarrow> error + bytes" where
  "secret_aad c =
     (if \<not> context_valid c then Inl (Crypto_error Invalid_context)
      else Inr (utf8 (json_text (context_json c))))"

lemma js_int_finite: "num_finite (js_int i)"
proof -
  have "c = CHR ''-'' \<or> is_digit c" if "c \<in> set (js_int i)" for c
    using that js_nat_digits by (auto simp: js_int_def split: if_splits)
  then have "set (js_int i) \<subseteq> {c. c = CHR ''-'' \<or> is_digit c}" by blast
  then show ?thesis
    unfolding num_finite_def by (auto simp: is_digit_def)
qed

lemma context_json_inject:
  "json_text (context_json c) = json_text (context_json d) \<Longrightarrow> c = d"
  by (simp add: context_json_def js_int_finite num_finite_def[of "''1''"]
      json_quote_append_inject js_int_inject)

lemma aad_injective: "secret_aad c = Inr a \<Longrightarrow> secret_aad d = Inr a \<Longrightarrow> c = d"
  by (rule context_json_inject) (auto simp: secret_aad_def split: if_splits)

text \<open>
  The additional authenticated data determines the context: no two different secrets,
  versions, environments, projects or organizations share it, whatever characters the
  identifiers contain, and data keys of different organizations or versions have different
  additional data.
\<close>
theorem aad_determines_context:
  "(secret_aad c = Inr a \<longrightarrow> secret_aad d = Inr a \<longrightarrow> c = d)
   \<and> (data_key_aad o1 v1 = data_key_aad o2 v2 \<longrightarrow> o1 = o2 \<and> v1 = v2)"
proof -
  have "o1 = o2 \<and> v1 = v2" if "data_key_aad o1 v1 = data_key_aad o2 v2"
  proof -
    have "json_quote o1 @ '','' @ js_int v1 @ '']'' = json_quote o2 @ '','' @ js_int v2 @ '']''"
      using that by (simp add: data_key_aad_def js_int_finite num_finite_def[of "''1''"])
    then show ?thesis by (simp add: json_quote_append_inject js_int_inject)
  qed
  then show ?thesis using aad_injective by blast
qed

theorem aad_determines_context_witness:
  "\<exists>a b. secret_aad \<lparr>context_org = ''a'', context_project = ''b,c'', context_environment = ''d'',
            context_secret = ''e'', context_version = 1\<rparr> = Inr a
        \<and> secret_aad \<lparr>context_org = ''a,b'', context_project = ''c'', context_environment = ''d'',
            context_secret = ''e'', context_version = 1\<rparr> = Inr b \<and> a \<noteq> b"
proof -
  let ?c = "\<lparr>context_org = ''a'', context_project = ''b,c'', context_environment = ''d'',
            context_secret = ''e'', context_version = 1\<rparr>"
  let ?d = "\<lparr>context_org = ''a,b'', context_project = ''c'', context_environment = ''d'',
            context_secret = ''e'', context_version = 1\<rparr>"
  obtain a b where ab: "secret_aad ?c = Inr a" "secret_aad ?d = Inr b"
    by (simp add: secret_aad_def context_valid_def is_safe_integer_def)
  moreover have "a \<noteq> b"
    using ab aad_determines_context[of ?c a ?d "[]" 0 "[]" 0] by auto
  ultimately show ?thesis by blast
qed

end
