(* ===== verification/Key_Store.thy ===== *)
theory Key_Store
  imports Crypto
begin

text \<open>
  The data-key stores of \<^verbatim>\<open>packages/crypto/src/index.ts\<close>: the interface \<^verbatim>\<open>DataKeyStore\<close> as a
  record of operations, its contract as a locale, and the in-memory store. The store on a
  database transaction is in theory \<open>Postgres_Key_Store\<close>. Store operations return the state even
  when they throw, because the in-memory store is not transactional.
\<close>

datatype key_status = Key_active | Key_retired

record data_key_record =
  dk_org :: uuid
  dk_version :: int
  dk_status :: key_status
  dk_wrapped :: wrapped_data_key
  dk_created_at :: time
  dk_retired_at :: "time option"

type_synonym wrapped_key_factory = "int \<Rightarrow> error + wrapped_data_key"

record 's data_key_store =
  get_active :: "uuid \<Rightarrow> 's \<Rightarrow> data_key_record option"
  get_version :: "uuid \<Rightarrow> int \<Rightarrow> 's \<Rightarrow> data_key_record option"
  ensure_active :: "uuid \<Rightarrow> wrapped_key_factory \<Rightarrow> 's \<Rightarrow> (error + data_key_record) \<times> 's"
  rotate_key :: "uuid \<Rightarrow> wrapped_key_factory \<Rightarrow> 's \<Rightarrow> (error + data_key_record) \<times> 's"

definition next_version :: "data_key_record list \<Rightarrow> int" where
  "next_version rs = foldr max (map dk_version rs) 0 + 1"

definition retire :: "time \<Rightarrow> data_key_record \<Rightarrow> data_key_record" where
  "retire now r = (if dk_status r = Key_active
     then r\<lparr>dk_status := Key_retired, dk_retired_at := Some now\<rparr> else r)"

section \<open>Lists of key records\<close>

text \<open>One list of records per organization, as both stores keep it.\<close>

definition keys_ok :: "uuid \<Rightarrow> data_key_record list \<Rightarrow> bool" where
  "keys_ok orgId rs \<longleftrightarrow> distinct (map dk_version rs) \<and> (\<forall>r\<in>set rs. dk_org r = orgId \<and> 0 < dk_version r)
     \<and> length (filter (\<lambda>r. dk_status r = Key_active) rs) \<le> 1"

lemma version_le_next: "r \<in> set rs \<Longrightarrow> dk_version r < next_version rs"
  by (induction rs) (auto simp: next_version_def max_def)

lemma next_version_pos: "0 < next_version rs"
  by (induction rs) (auto simp: next_version_def max_def)

lemma retire_fields [simp]:
  "dk_version (retire now r) = dk_version r" "dk_org (retire now r) = dk_org r"
  "dk_wrapped (retire now r) = dk_wrapped r" "dk_status (retire now r) = Key_retired"
  by (auto simp: retire_def) (metis key_status.exhaust)

lemma next_version_retire [simp]: "next_version (map (retire now) rs) = next_version rs"
  by (simp add: next_version_def o_def)

lemma keys_ok_Nil [simp]: "keys_ok orgId []"
  by (simp add: keys_ok_def)

lemma keys_ok_retire: "keys_ok orgId rs \<Longrightarrow> keys_ok orgId (map (retire now) rs)"
  by (auto simp: keys_ok_def o_def filter_map)

lemma keys_ok_activate:
  "keys_ok orgId rs \<Longrightarrow> dk_org r = orgId \<Longrightarrow> dk_version r = next_version rs \<Longrightarrow>
     keys_ok orgId (map (retire now) rs @ [r])"
  using next_version_pos version_le_next
  by (fastforce simp: keys_ok_def o_def filter_map)

lemma find_active_activate:
  "dk_status r = Key_active \<Longrightarrow>
     find (\<lambda>r. dk_status r = Key_active) (map (retire now) rs @ [r]) = Some r"
  by (induction rs) auto

lemma find_version_activate:
  "dk_version r = next_version rs \<Longrightarrow>
     find (\<lambda>q. dk_version q = v) (map (retire now) rs @ [r]) =
       (if v = next_version rs then Some r
        else map_option (retire now) (find (\<lambda>q. dk_version q = v) rs))"
proof -
  assume r: "dk_version r = next_version rs"
  have "find (\<lambda>q. dk_version q = v) (map (retire now) rs @ ys) =
      (case find (\<lambda>q. dk_version q = v) rs of None \<Rightarrow> find (\<lambda>q. dk_version q = v) ys
       | Some q \<Rightarrow> Some (retire now q))" for ys
    by (induction rs) auto
  moreover have "find (\<lambda>q. dk_version q = v) rs = None" if "v = next_version rs"
    using that version_le_next by (fastforce simp: find_None_iff)
  ultimately show ?thesis using r by (auto split: option.splits)
qed

lemma find_version_retire:
  "find (\<lambda>q. dk_version q = v) (map (retire now) rs) =
     map_option (retire now) (find (\<lambda>q. dk_version q = v) rs)"
  by (induction rs) auto

lemma find_active_version:
  assumes "keys_ok orgId rs" and "find (\<lambda>r. dk_status r = Key_active) rs = Some r"
  shows "find (\<lambda>q. dk_version q = dk_version r) rs = Some r"
proof (rule find_unique)
  show "r \<in> set rs" using assms(2) by (blast dest: find_SomeD)
  then show "y = r" if "y \<in> set rs" "dk_version y = dk_version r" for y
    using assms(1) that by (auto simp: keys_ok_def distinct_map dest: inj_onD)
qed simp

section \<open>The contract of a data-key store\<close>

text \<open>
  What \<^verbatim>\<open>EnvelopeEncryptionService\<close> relies on: \<open>ensure_active\<close> returns the active key if there is
  one and otherwise activates a new one as \<open>rotate_key\<close> does; a rotation that returns has made the
  returned key, wrapped by the factory, the active one under a version not used before; nothing
  loses a version or changes how it is wrapped.
\<close>

locale data_key_store_contract =
  fixes St :: "'s data_key_store" and invar :: "'s \<Rightarrow> bool"
  assumes ensure_some: "get_active St orgId s = Some r \<Longrightarrow> ensure_active St orgId f s = (Inr r, s)"
    and ensure_none: "get_active St orgId s = None \<Longrightarrow>
          ensure_active St orgId f s = rotate_key St orgId f s"
    and rotate_invar: "invar s \<Longrightarrow> rotate_key St orgId f s = (x, s') \<Longrightarrow> invar s'"
    and rotate_ok: "invar s \<Longrightarrow> rotate_key St orgId f s = (Inr r, s') \<Longrightarrow>
          dk_org r = orgId \<and> f (dk_version r) = Inr (dk_wrapped r)
          \<and> get_active St orgId s' = Some r \<and> get_version St orgId (dk_version r) s' = Some r
          \<and> get_version St orgId (dk_version r) s = None
          \<and> (\<forall>v q. get_version St orgId v s = Some q \<longrightarrow> v < dk_version r)"
    and rotate_keeps: "invar s \<Longrightarrow> rotate_key St orgId f s = (x, s') \<Longrightarrow>
          get_version St o' v s = Some q \<Longrightarrow>
          \<exists>q'. get_version St o' v s' = Some q' \<and> dk_wrapped q' = dk_wrapped q"
    and active_version: "invar s \<Longrightarrow> get_active St orgId s = Some r \<Longrightarrow>
          dk_org r = orgId \<and> get_version St orgId (dk_version r) s = Some r"
    and version_fields: "invar s \<Longrightarrow> get_version St orgId v s = Some r \<Longrightarrow>
          dk_org r = orgId \<and> dk_version r = v"
begin

lemma ensure_invar: "invar s \<Longrightarrow> ensure_active St orgId f s = (x, s') \<Longrightarrow> invar s'"
  by (cases "get_active St orgId s") (auto simp: ensure_some ensure_none dest: rotate_invar)

lemma ensure_ok:
  "invar s \<Longrightarrow> ensure_active St orgId f s = (Inr r, s') \<Longrightarrow>
     dk_org r = orgId \<and> get_active St orgId s' = Some r \<and> get_version St orgId (dk_version r) s' = Some r"
  by (cases "get_active St orgId s")
    (auto simp: ensure_some ensure_none dest: rotate_ok active_version)

lemma ensure_keeps:
  "invar s \<Longrightarrow> ensure_active St orgId f s = (x, s') \<Longrightarrow> get_version St o' v s = Some q \<Longrightarrow>
     \<exists>q'. get_version St o' v s' = Some q' \<and> dk_wrapped q' = dk_wrapped q"
  by (cases "get_active St orgId s") (auto simp: ensure_some ensure_none dest: rotate_keeps)

end

section \<open>The in-memory store\<close>

text \<open>
  \<^verbatim>\<open>InMemoryDataKeyStore\<close>: a \<^verbatim>\<open>Map\<close> from organizations to their records. The promise chain of
  \<^verbatim>\<open>#locked\<close> runs the updates of one organization one after another, so an update is one step
  here. \<^verbatim>\<open>cloneRecord\<close> protects the stored buffers from the caller; values have no aliases here.
\<close>

type_synonym memory_store = "(uuid \<times> data_key_record list) list"

definition memory_records :: "uuid \<Rightarrow> memory_store \<Rightarrow> data_key_record list" where
  "memory_records orgId s = (case map_of s orgId of None \<Rightarrow> [] | Some rs \<Rightarrow> rs)"

definition memory_get_active :: "uuid \<Rightarrow> memory_store \<Rightarrow> data_key_record option" where
  "memory_get_active orgId s = find (\<lambda>r. dk_status r = Key_active) (memory_records orgId s)"

definition memory_get_version :: "uuid \<Rightarrow> int \<Rightarrow> memory_store \<Rightarrow> data_key_record option" where
  "memory_get_version orgId v s = find (\<lambda>r. dk_version r = v) (memory_records orgId s)"

text \<open>
  \<^verbatim>\<open>#activate\<close>: the records are retired in place before the factory is awaited, so if the factory
  throws, an array that is already in the map stays without an active record.
\<close>

definition memory_activate ::
  "time \<Rightarrow> uuid \<Rightarrow> wrapped_key_factory \<Rightarrow> memory_store \<Rightarrow> (error + data_key_record) \<times> memory_store"
where
  "memory_activate now orgId factory s =
     (let records = memory_records orgId s;
          version = next_version records;
          retired = map (retire now) records;
          s1 = (if map_of s orgId = None then s else AList.update orgId retired s)
      in case factory version of
           Inl e \<Rightarrow> (Inl e, s1)
         | Inr w \<Rightarrow>
             let r = \<lparr>dk_org = orgId, dk_version = version, dk_status = Key_active, dk_wrapped = w,
                      dk_created_at = now, dk_retired_at = None\<rparr>
             in (Inr r, AList.update orgId (retired @ [r]) s1))"

definition memory_ensure_active ::
  "time \<Rightarrow> uuid \<Rightarrow> wrapped_key_factory \<Rightarrow> memory_store \<Rightarrow> (error + data_key_record) \<times> memory_store"
where
  "memory_ensure_active now orgId factory s =
     (case memory_get_active orgId s of
        Some r \<Rightarrow> (Inr r, s)
      | None \<Rightarrow> memory_activate now orgId factory s)"

definition memory_snapshot :: "uuid \<Rightarrow> memory_store \<Rightarrow> data_key_record list" where
  "memory_snapshot orgId s = memory_records orgId s"

definition memory_store :: "time \<Rightarrow> memory_store data_key_store" where
  "memory_store now = \<lparr>get_active = memory_get_active, get_version = memory_get_version,
     ensure_active = memory_ensure_active now, rotate_key = memory_activate now\<rparr>"

definition memory_invar :: "memory_store \<Rightarrow> bool" where
  "memory_invar s \<longleftrightarrow> (\<forall>orgId. keys_ok orgId (memory_records orgId s))"

lemma memory_records_update:
  "memory_records o' (AList.update orgId rs s) = (if o' = orgId then rs else memory_records o' s)"
  by (simp add: memory_records_def update_conv')

lemma memory_activate_records:
  "memory_activate now orgId factory s = (x, s') \<Longrightarrow>
     memory_records o' s' =
       (if o' \<noteq> orgId then memory_records o' s
        else case x of
          Inl e \<Rightarrow> map (retire now) (memory_records orgId s)
        | Inr r \<Rightarrow> map (retire now) (memory_records orgId s) @ [r])"
  by (auto simp: memory_activate_def Let_def memory_records_update split: sum.splits if_splits)
    (auto simp: memory_records_def)

lemma memory_activate_record:
  "memory_activate now orgId factory s = (Inr r, s') \<Longrightarrow>
     dk_org r = orgId \<and> dk_version r = next_version (memory_records orgId s)
     \<and> dk_status r = Key_active \<and> factory (dk_version r) = Inr (dk_wrapped r)"
  by (auto simp: memory_activate_def Let_def split: sum.splits)

interpretation memory: data_key_store_contract "memory_store now" memory_invar for now
proof (unfold_locales, goal_cases)
  case (3 s orgId f x s')
  then have act: "memory_activate now orgId f s = (x, s')" by (simp add: memory_store_def)
  show ?case
    unfolding memory_invar_def
  proof
    fix o'
    have ok: "keys_ok o' (memory_records o' s)" for o' using 3 by (simp add: memory_invar_def)
    show "keys_ok o' (memory_records o' s')"
      using ok memory_activate_record[of now orgId f s] act
      by (cases x) (auto simp: memory_activate_records[OF act] keys_ok_retire keys_ok_activate)
  qed
next
  case (4 s orgId f r s')
  then have act: "memory_activate now orgId f s = (Inr r, s')" by (simp add: memory_store_def)
  have "find (\<lambda>q. dk_version q = next_version (memory_records orgId s)) (memory_records orgId s) = None"
    using version_le_next by (fastforce simp: find_None_iff)
  moreover have "v < next_version (memory_records orgId s)"
    if "find (\<lambda>q. dk_version q = v) (memory_records orgId s) = Some q" for v q
    using find_SomeD[OF that] version_le_next by blast
  ultimately show ?case using memory_activate_record[OF act]
    by (auto simp: memory_store_def memory_get_active_def memory_get_version_def
        memory_activate_records[OF act] find_active_activate find_version_activate)
next
  case (5 s orgId f x s' o' v q)
  then have act: "memory_activate now orgId f s = (x, s')" by (simp add: memory_store_def)
  have q: "find (\<lambda>r. dk_version r = v) (memory_records o' s) = Some q"
    using 5 by (simp add: memory_store_def memory_get_version_def)
  have "v \<noteq> next_version (memory_records orgId s)" if "o' = orgId"
    using find_SomeD[OF q] version_le_next[of q "memory_records o' s"] that by auto
  then show ?case using memory_activate_record[of now orgId f s] act q
    by (cases x) (auto simp: memory_store_def memory_get_version_def
        memory_activate_records[OF act] find_version_activate find_version_retire)
next
  case (6 s orgId r)
  then show ?case
    using find_SomeD[of _ "memory_records orgId s" r]
    by (auto simp: memory_store_def memory_get_active_def memory_get_version_def memory_invar_def
        keys_ok_def intro!: find_active_version)
next
  case (7 s orgId v r)
  then show ?case
    using find_SomeD[of _ "memory_records orgId s" r]
    by (auto simp: memory_store_def memory_get_version_def memory_invar_def keys_ok_def)
qed (auto simp: memory_store_def memory_ensure_active_def)

end
