(* ===== verification/Database.thy ===== *)
theory Database
  imports Key_Store
begin

text \<open>
  The tables of \<^verbatim>\<open>packages/database/migrations\<close> as the services see them through a
  \<^verbatim>\<open>TenantTransaction\<close>: rows as records, a database as one list of rows per table, and the
  statements the services issue. Row-level security limits every statement of a transaction to
  the rows of its organization; unique indexes cover rows of every organization. The triggers on
  \<^verbatim>\<open>projects\<close> (default environments) and \<^verbatim>\<open>secrets\<close> (configuration version) are part of the
  statements. A thrown error rolls the transaction back, so statements are operations of
  \<open>Prelude\<close>; transactions run one after another (the sources lock the rows they update).
\<close>

section \<open>Rows\<close>

record organization_row =
  o_id :: uuid
  o_name :: string
  o_slug :: string
  o_retention :: int
  o_created :: time
  o_updated :: time
  o_deleted :: "time option"

record user_row =
  u_id :: uuid
  u_email :: string
  u_email_normalized :: string
  u_password_hash :: "string option"
  u_verified :: "time option"
  u_disabled :: "time option"
  u_created :: time
  u_updated :: time

datatype membership_status = Status_invited | Status_active | Status_suspended

record membership_row =
  m_org :: uuid
  m_user :: uuid
  m_role :: role
  m_status :: membership_status
  m_invited_by :: "uuid option"
  m_created :: time
  m_updated :: time

record project_row =
  p_id :: uuid
  p_org :: uuid
  p_name :: string
  p_slug :: string
  p_description :: "string option"
  p_default_environments :: "string list"   \<comment> \<open>\<^verbatim>\<open>settings.defaultEnvironments\<close>\<close>
  p_created_by :: "uuid option"
  p_created :: time
  p_updated :: time
  p_archived :: "time option"
  p_deleted :: "time option"
  p_purge_after :: "time option"

record environment_row =
  e_id :: uuid
  e_org :: uuid
  e_project :: uuid
  e_name :: string
  e_slug :: string
  e_order :: int
  e_protected :: bool
  e_config_version :: int
  e_created :: time
  e_updated :: time
  e_deleted :: "time option"
  e_purge_after :: "time option"
  e_deleted_by_project :: "time option"

record secret_row =
  s_id :: uuid
  s_org :: uuid
  s_project :: uuid
  s_environment :: uuid
  s_key :: string
  s_notes :: "string option"
  s_version :: int
  s_created_by :: "uuid option"
  s_created :: time
  s_updated :: time
  s_deleted :: "time option"
  s_deleted_by_project :: "time option"
  s_deleted_by_environment :: "time option"

record version_row =
  v_org :: uuid
  v_project :: uuid
  v_environment :: uuid
  v_secret :: uuid
  v_version :: int
  v_ciphertext :: bytes
  v_nonce :: bytes
  v_tag :: bytes
  v_key_version :: int
  v_author :: "uuid option"
  v_change_note :: "string option"
  v_created :: time

record tag_row =
  t_id :: uuid
  t_org :: uuid
  t_name :: string
  t_color :: string
  t_created :: time
  t_updated :: time

record secret_tag_row =
  st_org :: uuid
  st_project :: uuid
  st_environment :: uuid
  st_secret :: uuid
  st_tag :: uuid

record project_tag_row =
  pt_org :: uuid
  pt_project :: uuid
  pt_tag :: uuid

datatype api_key_access = Access_read_only | Access_read_write

record api_key_row =
  k_id :: uuid
  k_org :: uuid
  k_project :: "uuid option"
  k_environment :: "uuid option"
  k_name :: string
  k_prefix :: string
  k_token_hash :: bytes
  k_access :: api_key_access
  k_created_by :: "uuid option"
  k_created :: time
  k_expires :: "time option"
  k_last_used :: "time option"
  k_revoked :: "time option"

datatype audit_actor = Actor_user uuid | Actor_api_key uuid | Actor_system

record audit_row =
  a_id :: int
  a_org :: uuid
  a_actor :: audit_actor
  a_action :: string
  a_resource_type :: string
  a_resource_id :: "string option"
  a_project :: "uuid option"
  a_environment :: "uuid option"
  a_ip :: "string option"
  a_user_agent :: "string option"
  a_metadata :: "(string \<times> json) list"
  a_occurred :: time

record override_row =
  ov_org :: uuid
  ov_project :: uuid
  ov_user :: uuid
  ov_role :: role
  ov_created_by :: uuid
  ov_created :: time
  ov_updated :: time

record invitation_row =
  i_id :: uuid
  i_org :: uuid
  i_email :: string
  i_email_normalized :: string
  i_role :: role
  i_token_hash :: bytes
  i_invited_by :: uuid
  i_created :: time
  i_expires :: time
  i_accepted :: "time option"
  i_accepted_by :: "uuid option"
  i_revoked :: "time option"

record session_row =
  se_id :: uuid
  se_user :: uuid
  se_token_hash :: bytes
  se_csrf_hash :: bytes
  se_ip :: "string option"
  se_user_agent :: "string option"
  se_created :: time
  se_last_seen :: time
  se_active_org :: "uuid option"
  se_expires :: time
  se_revoked :: "time option"

text \<open>\<^verbatim>\<open>email_verification_tokens\<close> and \<^verbatim>\<open>password_reset_tokens\<close> have the same columns.\<close>

record user_token_row =
  ut_id :: uuid
  ut_user :: uuid
  ut_hash :: bytes
  ut_expires :: time
  ut_consumed :: "time option"
  ut_created :: time

record report_cache_row =
  rc_org :: uuid
  rc_project :: uuid
  rc_fingerprint :: string
  rc_findings :: json
  rc_computed :: time

record finding_state_row =
  fs_org :: uuid
  fs_project :: uuid
  fs_finding :: string
  fs_disposition :: string
  fs_note :: "string option"
  fs_updated_by :: "uuid option"
  fs_updated :: time

text \<open>\<open>db_draws\<close> counts the random draws made so far.\<close>

record db =
  db_organizations :: "organization_row list"
  db_users :: "user_row list"
  db_memberships :: "membership_row list"
  db_projects :: "project_row list"
  db_environments :: "environment_row list"
  db_secrets :: "secret_row list"
  db_versions :: "version_row list"
  db_tags :: "tag_row list"
  db_secret_tags :: "secret_tag_row list"
  db_project_tags :: "project_tag_row list"
  db_api_keys :: "api_key_row list"
  db_audit :: "audit_row list"
  db_keys :: "data_key_record list"
  db_overrides :: "override_row list"
  db_invitations :: "invitation_row list"
  db_sessions :: "session_row list"
  db_verifications :: "user_token_row list"
  db_resets :: "user_token_row list"
  db_reports :: "report_cache_row list"
  db_states :: "finding_state_row list"
  db_draws :: nat

text \<open>
  \<^verbatim>\<open>TenantTransaction\<close>: the organization and user it is bound to, \<^verbatim>\<open>now()\<close> of the database, the
  clock of the services, and what the services were constructed with.
\<close>

record transaction =
  tx_org :: uuid
  tx_user :: uuid
  tx_now :: time
  tx_clock :: time
  tx_platform :: platform
  tx_wrapper :: key_wrapper

type_synonym 'a db_op = "(db, error, 'a) op"

section \<open>Statements\<close>

definition visible :: "('r \<Rightarrow> uuid) \<Rightarrow> transaction \<Rightarrow> 'r list \<Rightarrow> 'r list" where
  "visible org T rs = filter (\<lambda>r. org r = tx_org T) rs"

definition update_where :: "('r \<Rightarrow> uuid) \<Rightarrow> transaction \<Rightarrow> ('r \<Rightarrow> bool) \<Rightarrow> ('r \<Rightarrow> 'r) \<Rightarrow> 'r list \<Rightarrow> 'r list" where
  "update_where org T P f rs = map (\<lambda>r. if org r = tx_org T \<and> P r then f r else r) rs"

definition delete_where :: "('r \<Rightarrow> uuid) \<Rightarrow> transaction \<Rightarrow> ('r \<Rightarrow> bool) \<Rightarrow> 'r list \<Rightarrow> 'r list" where
  "delete_where org T P rs = filter (\<lambda>r. \<not> (org r = tx_org T \<and> P r)) rs"

text \<open>
  One table: \<open>get\<close> and \<open>upd\<close> are its field of \<^typ>\<open>db\<close>, \<open>clash\<close> says when two rows violate a
  unique index. An inserted row must satisfy the \<^verbatim>\<open>WITH CHECK\<close> policy.
\<close>

definition insert_row ::
  "('r \<Rightarrow> uuid) \<Rightarrow> (db \<Rightarrow> 'r list) \<Rightarrow> (('r list \<Rightarrow> 'r list) \<Rightarrow> db \<Rightarrow> db) \<Rightarrow> ('r \<Rightarrow> 'r \<Rightarrow> bool) \<Rightarrow>
     transaction \<Rightarrow> 'r \<Rightarrow> unit db_op" where
  "insert_row org get upd clash T r =
     andthen (check (org r = tx_org T) Internal_error)
     (bind (reads get) (\<lambda>rs.
      andthen (check (\<not> list_ex (clash r) rs) Unique_violation)
      (writes (upd (\<lambda>rs. rs @ [r])))))"

definition update_rows ::
  "('r \<Rightarrow> uuid) \<Rightarrow> (('r list \<Rightarrow> 'r list) \<Rightarrow> db \<Rightarrow> db) \<Rightarrow> transaction \<Rightarrow> ('r \<Rightarrow> bool) \<Rightarrow> ('r \<Rightarrow> 'r) \<Rightarrow> unit db_op"
where
  "update_rows org upd T P f = writes (upd (update_where org T P f))"

text \<open>An update of indexed columns; \<open>key\<close> are the columns of the index.\<close>

definition update_unique ::
  "('r \<Rightarrow> uuid) \<Rightarrow> (db \<Rightarrow> 'r list) \<Rightarrow> (('r list \<Rightarrow> 'r list) \<Rightarrow> db \<Rightarrow> db) \<Rightarrow> ('r \<Rightarrow> 'k) \<Rightarrow>
     transaction \<Rightarrow> ('r \<Rightarrow> bool) \<Rightarrow> ('r \<Rightarrow> 'r) \<Rightarrow> unit db_op"
where
  "update_unique org get upd key T P f =
     bind (reads get) (\<lambda>rs.
      andthen (check (distinct (map key (update_where org T P f rs))) Unique_violation)
      (update_rows org upd T P f))"

definition delete_rows ::
  "('r \<Rightarrow> uuid) \<Rightarrow> (('r list \<Rightarrow> 'r list) \<Rightarrow> db \<Rightarrow> db) \<Rightarrow> transaction \<Rightarrow> ('r \<Rightarrow> bool) \<Rightarrow> unit db_op" where
  "delete_rows org upd T P = writes (upd (delete_where org T P))"

definition select_rows :: "('r \<Rightarrow> uuid) \<Rightarrow> (db \<Rightarrow> 'r list) \<Rightarrow> transaction \<Rightarrow> ('r \<Rightarrow> bool) \<Rightarrow> 'r list db_op" where
  "select_rows org get T P = reads (\<lambda>s. filter P (visible org T (get s)))"

text \<open>\<^verbatim>\<open>result.rows[0]\<close>\<close>

definition first_row :: "'r list \<Rightarrow> 'r option" where
  "first_row rs = (case rs of [] \<Rightarrow> None | r # _ \<Rightarrow> Some r)"

definition next_draw :: "nat db_op" where
  "next_draw = bind (reads db_draws) (\<lambda>n. andthen (writes (\<lambda>s. s\<lparr>db_draws := n + 1\<rparr>)) (ret n))"

definition fresh_uuid :: "transaction \<Rightarrow> uuid db_op" where
  "fresh_uuid T = bind next_draw (\<lambda>n. ret (random_uuid (tx_platform T) n))"

lemma insert_row_Inr:
  "insert_row org get upd clash T r s = Inr (u, s') \<longleftrightarrow>
     org r = tx_org T \<and> \<not> list_ex (clash r) (get s) \<and> s' = upd (\<lambda>rs. rs @ [r]) s"
  by (auto simp: insert_row_def op_simps)

lemma update_rows_Inr: "update_rows org upd T P f s = Inr (u, s') \<longleftrightarrow> s' = upd (update_where org T P f) s"
  by (auto simp: update_rows_def op_simps)

subsection \<open>Unique indexes\<close>

definition project_clash :: "project_row \<Rightarrow> project_row \<Rightarrow> bool" where
  "project_clash r q \<longleftrightarrow> p_id q = p_id r \<or> (p_org q = p_org r \<and> p_slug q = p_slug r)"

definition environment_clash :: "environment_row \<Rightarrow> environment_row \<Rightarrow> bool" where
  "environment_clash r q \<longleftrightarrow> e_id q = e_id r
     \<or> (e_org q = e_org r \<and> e_project q = e_project r \<and> e_slug q = e_slug r)"

definition secret_clash :: "secret_row \<Rightarrow> secret_row \<Rightarrow> bool" where
  "secret_clash r q \<longleftrightarrow> s_id q = s_id r
     \<or> (s_org q = s_org r \<and> s_project q = s_project r \<and> s_environment q = s_environment r \<and> s_key q = s_key r)"

definition version_clash :: "version_row \<Rightarrow> version_row \<Rightarrow> bool" where
  "version_clash r q \<longleftrightarrow> v_org q = v_org r \<and> v_secret q = v_secret r \<and> v_version q = v_version r"

definition tag_clash :: "tag_row \<Rightarrow> tag_row \<Rightarrow> bool" where
  "tag_clash r q \<longleftrightarrow> t_id q = t_id r \<or> (t_org q = t_org r \<and> t_name q = t_name r)"

definition secret_tag_clash :: "secret_tag_row \<Rightarrow> secret_tag_row \<Rightarrow> bool" where
  "secret_tag_clash r q \<longleftrightarrow> st_org q = st_org r \<and> st_secret q = st_secret r \<and> st_tag q = st_tag r"

definition project_tag_clash :: "project_tag_row \<Rightarrow> project_tag_row \<Rightarrow> bool" where
  "project_tag_clash r q \<longleftrightarrow> pt_org q = pt_org r \<and> pt_project q = pt_project r \<and> pt_tag q = pt_tag r"

definition api_key_clash :: "api_key_row \<Rightarrow> api_key_row \<Rightarrow> bool" where
  "api_key_clash r q \<longleftrightarrow> k_id q = k_id r \<or> k_prefix q = k_prefix r \<or> k_token_hash q = k_token_hash r"

definition membership_clash :: "membership_row \<Rightarrow> membership_row \<Rightarrow> bool" where
  "membership_clash r q \<longleftrightarrow> m_org q = m_org r \<and> m_user q = m_user r"

definition key_clash :: "data_key_record \<Rightarrow> data_key_record \<Rightarrow> bool" where
  "key_clash r q \<longleftrightarrow> dk_org q = dk_org r
     \<and> (dk_version q = dk_version r \<or> (dk_status q = Key_active \<and> dk_status r = Key_active))"

definition invitation_clash :: "invitation_row \<Rightarrow> invitation_row \<Rightarrow> bool" where
  "invitation_clash r q \<longleftrightarrow> i_id q = i_id r \<or> i_token_hash q = i_token_hash r
     \<or> (i_org q = i_org r \<and> i_email_normalized q = i_email_normalized r
        \<and> i_accepted q = None \<and> i_revoked q = None \<and> i_accepted r = None \<and> i_revoked r = None)"

text \<open>The column checks on \<^verbatim>\<open>secret_versions\<close>; \<^verbatim>\<open>integer\<close> is the range of 32-bit integers.\<close>

definition version_check :: "version_row \<Rightarrow> bool" where
  "version_check v \<longleftrightarrow> 0 < v_version v \<and> v_version v \<le> 2147483647 \<and> 0 < v_key_version v
     \<and> length (v_ciphertext v) \<le> 65536 \<and> length (v_nonce v) = 12 \<and> length (v_tag v) = 16
     \<and> (case v_change_note v of None \<Rightarrow> True | Some n \<Rightarrow> length n \<le> 1000)"

definition insert_version :: "transaction \<Rightarrow> version_row \<Rightarrow> unit db_op" where
  "insert_version T v =
     andthen (check (version_check v) Internal_error)
       (insert_row v_org db_versions db_versions_update version_clash T v)"

text \<open>An audit event is numbered by the identity column; events are never updated or deleted.\<close>

definition insert_audit :: "transaction \<Rightarrow> (int \<Rightarrow> audit_row) \<Rightarrow> unit db_op" where
  "insert_audit T row = bind (reads (\<lambda>s. int (length (db_audit s)) + 1)) (\<lambda>i.
     insert_row a_org db_audit db_audit_update (\<lambda>r q. a_id q = a_id r) T (row i))"

subsection \<open>Triggers\<close>

text \<open>\<^verbatim>\<open>bump_environment_config_version\<close>, for the old and the new row of one secret.\<close>

definition bump_environment :: "secret_row \<Rightarrow> environment_row \<Rightarrow> environment_row" where
  "bump_environment r e =
     (if e_org e = s_org r \<and> e_project e = s_project r \<and> e_id e = s_environment r
      then e\<lparr>e_config_version := e_config_version e + 1\<rparr> else e)"

definition secret_trigger :: "secret_row option \<Rightarrow> secret_row \<Rightarrow> environment_row list \<Rightarrow> environment_row list" where
  "secret_trigger old new es =
     (case old of
        None \<Rightarrow> if s_version new = 0 \<or> s_deleted new \<noteq> None then es else map (bump_environment new) es
      | Some r \<Rightarrow> if s_version new = s_version r \<and> s_deleted new = s_deleted r then es
                  else map (bump_environment new) es)"

text \<open>The column checks on \<^verbatim>\<open>secrets\<close>.\<close>

definition secret_check :: "secret_row \<Rightarrow> bool" where
  "secret_check r \<longleftrightarrow> 1 \<le> length (s_key r) \<and> length (s_key r) \<le> 255 \<and> 0 \<le> s_version r
     \<and> (case s_notes r of None \<Rightarrow> True | Some n \<Rightarrow> length n \<le> 4000)"

definition insert_secret :: "transaction \<Rightarrow> secret_row \<Rightarrow> unit db_op" where
  "insert_secret T r =
     andthen (andthen (check (secret_check r) Internal_error)
       (insert_row s_org db_secrets db_secrets_update secret_clash T r))
       (writes (db_environments_update (secret_trigger None r)))"

definition updated_secrets :: "transaction \<Rightarrow> (secret_row \<Rightarrow> bool) \<Rightarrow> (secret_row \<Rightarrow> secret_row) \<Rightarrow> db \<Rightarrow> db" where
  "updated_secrets T P f s = s\<lparr>
     db_secrets := update_where s_org T P f (db_secrets s),
     db_environments := fold (\<lambda>r. secret_trigger (Some r) (f r))
       (filter P (visible s_org T (db_secrets s))) (db_environments s)\<rparr>"

definition update_secrets :: "transaction \<Rightarrow> (secret_row \<Rightarrow> bool) \<Rightarrow> (secret_row \<Rightarrow> secret_row) \<Rightarrow> unit db_op" where
  "update_secrets T P f = writes (updated_secrets T P f)"

text \<open>\<^verbatim>\<open>initcap(replace(value, '-', ' '))\<close>, for the letters and digits of a slug.\<close>

fun initcap :: "bool \<Rightarrow> string \<Rightarrow> string" where
  "initcap start [] = []"
| "initcap start (c # cs) =
     (if c = CHR ''-'' then CHR '' '' # initcap True cs
      else (if start \<and> is_lower c then chr (code c - 32) else c) # initcap False cs)"

definition insert_environment :: "transaction \<Rightarrow> environment_row \<Rightarrow> unit db_op" where
  "insert_environment T r = insert_row e_org db_environments db_environments_update environment_clash T r"

definition default_environment :: "transaction \<Rightarrow> project_row \<Rightarrow> nat \<Rightarrow> string \<Rightarrow> uuid \<Rightarrow> environment_row" where
  "default_environment T p i slug newId = \<lparr>e_id = newId, e_org = p_org p, e_project = p_id p,
     e_name = initcap True slug, e_slug = slug, e_order = int i,
     e_protected = (slug = ''production'' \<or> slug = ''prod''), e_config_version = 0,
     e_created = tx_now T, e_updated = tx_now T, e_deleted = None, e_purge_after = None,
     e_deleted_by_project = None\<rparr>"

text \<open>\<^verbatim>\<open>create_default_project_environments\<close>\<close>

definition project_trigger :: "transaction \<Rightarrow> project_row \<Rightarrow> unit list db_op" where
  "project_trigger T p =
     (let slugs = (if p_default_environments p = [] then [''development'', ''staging'', ''production'']
                   else p_default_environments p)
      in for_each (\<lambda>(i, slug). bind (fresh_uuid T) (\<lambda>newId.
           insert_environment T (default_environment T p i slug newId))) (enumerate 0 slugs))"

definition insert_project :: "transaction \<Rightarrow> project_row \<Rightarrow> unit db_op" where
  "insert_project T p =
     andthen (insert_row p_org db_projects db_projects_update project_clash T p)
     (andthen (project_trigger T p) (ret ()))"

section \<open>A database and a transaction for witnesses\<close>

definition empty_db :: db where
  "empty_db = \<lparr>db_organizations = [], db_users = [], db_memberships = [], db_projects = [],
     db_environments = [], db_secrets = [], db_versions = [], db_tags = [], db_secret_tags = [],
     db_project_tags = [], db_api_keys = [], db_audit = [], db_keys = [], db_overrides = [],
     db_invitations = [], db_sessions = [], db_verifications = [], db_resets = [], db_reports = [], db_states = [], db_draws = 0\<rparr>"

definition demo_wrapper :: key_wrapper where
  "demo_wrapper = local_master_key demo_platform \<lparr>master_id = ''k'', master_bytes = replicate 32 7\<rparr>"

definition demo_tx :: transaction where
  "demo_tx = \<lparr>tx_org = ''o'', tx_user = ''u'', tx_now = 5000, tx_clock = 5000,
     tx_platform = demo_platform, tx_wrapper = demo_wrapper\<rparr>"

end
