(* ===== verification/Contracts.thy ===== *)
theory Contracts
  imports Database "HOL-Library.Sublist"
begin

text \<open>
  What every operation of a tenant transaction keeps, as relations between the database before
  and after: rows of other organizations, the audit trail and the secret versions, the wrapped
  data keys, and the agreement of configuration versions with configurations. Together they are
  one contract, \<open>tenant_step\<close>; the statements of \<open>Database\<close> obey it here, table by table, and
  the services obey it by composition.
\<close>

section \<open>Other organizations\<close>

text \<open>The rows an organization must not touch. Sessions belong to users, draws to nobody.\<close>

definition foreign :: "uuid \<Rightarrow> db \<Rightarrow> db" where
  "foreign o' s = s\<lparr>
     db_organizations := filter (\<lambda>r. o_id r \<noteq> o') (db_organizations s),
     db_memberships := filter (\<lambda>r. m_org r \<noteq> o') (db_memberships s),
     db_projects := filter (\<lambda>r. p_org r \<noteq> o') (db_projects s),
     db_environments := filter (\<lambda>r. e_org r \<noteq> o') (db_environments s),
     db_secrets := filter (\<lambda>r. s_org r \<noteq> o') (db_secrets s),
     db_versions := filter (\<lambda>r. v_org r \<noteq> o') (db_versions s),
     db_tags := filter (\<lambda>r. t_org r \<noteq> o') (db_tags s),
     db_secret_tags := filter (\<lambda>r. st_org r \<noteq> o') (db_secret_tags s),
     db_project_tags := filter (\<lambda>r. pt_org r \<noteq> o') (db_project_tags s),
     db_api_keys := filter (\<lambda>r. k_org r \<noteq> o') (db_api_keys s),
     db_audit := filter (\<lambda>r. a_org r \<noteq> o') (db_audit s),
     db_keys := filter (\<lambda>r. dk_org r \<noteq> o') (db_keys s),
     db_overrides := filter (\<lambda>r. ov_org r \<noteq> o') (db_overrides s),
     db_invitations := filter (\<lambda>r. i_org r \<noteq> o') (db_invitations s),
     db_reports := filter (\<lambda>r. rc_org r \<noteq> o') (db_reports s),
     db_states := filter (\<lambda>r. fs_org r \<noteq> o') (db_states s),
     db_sessions := [],
     db_draws := 0\<rparr>"

section \<open>Data keys\<close>

definition key_at :: "db \<Rightarrow> uuid \<Rightarrow> int \<Rightarrow> data_key_record option" where
  "key_at s orgId v = find (\<lambda>r. dk_org r = orgId \<and> dk_version r = v) (db_keys s)"

definition org_keys :: "db \<Rightarrow> uuid \<Rightarrow> data_key_record list" where
  "org_keys s orgId = filter (\<lambda>r. dk_org r = orgId) (db_keys s)"

definition db_keys_ok :: "db \<Rightarrow> bool" where
  "db_keys_ok s \<longleftrightarrow> (\<forall>orgId. keys_ok orgId (org_keys s orgId))"

definition keys_kept :: "db \<Rightarrow> db \<Rightarrow> bool" where
  "keys_kept s s' \<longleftrightarrow> (\<forall>orgId v q. key_at s orgId v = Some q \<longrightarrow>
     (\<exists>q'. key_at s' orgId v = Some q' \<and> dk_wrapped q' = dk_wrapped q))"

section \<open>Configurations\<close>

text \<open>
  The configuration of an environment as \<^verbatim>\<open>runtimeConfig\<close> reads it: the active secrets joined with
  their current versions.
\<close>

definition in_environment :: "uuid \<Rightarrow> uuid \<Rightarrow> uuid \<Rightarrow> secret_row \<Rightarrow> bool" where
  "in_environment orgId projectId environmentId r \<longleftrightarrow>
     s_org r = orgId \<and> s_project r = projectId \<and> s_environment r = environmentId \<and> s_deleted r = None"

definition current_of :: "secret_row \<Rightarrow> version_row \<Rightarrow> bool" where
  "current_of r v \<longleftrightarrow> v_org v = s_org r \<and> v_secret v = s_id r \<and> v_version v = s_version r"

definition configuration :: "db \<Rightarrow> uuid \<Rightarrow> uuid \<Rightarrow> uuid \<Rightarrow> (uuid \<times> string \<times> version_row) list" where
  "configuration s orgId projectId environmentId =
     concat (map (\<lambda>r. map (\<lambda>v. (s_id r, s_key r, v)) (filter (current_of r) (db_versions s)))
       (filter (in_environment orgId projectId environmentId) (db_secrets s)))"

definition environment_at :: "db \<Rightarrow> uuid \<Rightarrow> uuid \<Rightarrow> uuid \<Rightarrow> environment_row option" where
  "environment_at s orgId projectId environmentId =
     find (\<lambda>r. e_org r = orgId \<and> e_project r = projectId \<and> e_id r = environmentId) (db_environments s)"

text \<open>
  Every version in use is stored, version numbers are positive 32-bit integers, and secrets and versions are
  identified by their keys.
\<close>

definition version_key :: "version_row \<Rightarrow> uuid \<times> uuid \<times> int" where
  "version_key v = (v_org v, v_secret v, v_version v)"

definition versions_ok :: "db \<Rightarrow> bool" where
  "versions_ok s \<longleftrightarrow> (\<forall>v\<in>set (db_versions s). 0 < v_version v \<and> v_version v \<le> 2147483647)
     \<and> (\<forall>r\<in>set (db_secrets s). length (s_key r) \<le> 255)
     \<and> distinct (map s_id (db_secrets s)) \<and> distinct (map version_key (db_versions s))
     \<and> (\<forall>r\<in>set (db_secrets s). s_version r = 0 \<or> (\<exists>v\<in>set (db_versions s). current_of r v))"

definition config_kept :: "db \<Rightarrow> db \<Rightarrow> bool" where
  "config_kept s s' \<longleftrightarrow> (\<forall>orgId projectId environmentId e.
     environment_at s orgId projectId environmentId = Some e \<longrightarrow>
     (\<exists>e'. environment_at s' orgId projectId environmentId = Some e'
       \<and> e_config_version e \<le> e_config_version e'
       \<and> (e_config_version e = e_config_version e' \<longrightarrow>
           configuration s orgId projectId environmentId = configuration s' orgId projectId environmentId)))"

section \<open>The audit trail\<close>

text \<open>Events are numbered in the order they were recorded.\<close>

definition audit_ok :: "db \<Rightarrow> bool" where
  "audit_ok s \<longleftrightarrow> map a_id (db_audit s) = map int [1..<Suc (length (db_audit s))]"

text \<open>What a secret never changes: its identity, its environment and its key.\<close>

definition secret_place :: "secret_row \<Rightarrow> uuid \<times> uuid \<times> uuid \<times> uuid \<times> string" where
  "secret_place r = (s_id r, s_org r, s_project r, s_environment r, s_key r)"

section \<open>The contract\<close>

definition tenant_step :: "uuid \<Rightarrow> db \<Rightarrow> db \<Rightarrow> bool" where
  "tenant_step orgId s s' \<longleftrightarrow>
     foreign orgId s = foreign orgId s'
     \<and> prefix (db_audit s) (db_audit s') \<and> prefix (db_versions s) (db_versions s')
     \<and> secret_place ` set (db_secrets s) \<subseteq> secret_place ` set (db_secrets s')
     \<and> (audit_ok s \<longrightarrow> audit_ok s')
     \<and> (db_keys_ok s \<longrightarrow> db_keys_ok s' \<and> keys_kept s s')
     \<and> (versions_ok s \<longrightarrow> versions_ok s' \<and> config_kept s s')"

lemma keys_kept_refl: "keys_kept s s"
  by (simp add: keys_kept_def)

lemma keys_kept_trans: "keys_kept s t \<Longrightarrow> keys_kept t u \<Longrightarrow> keys_kept s u"
  unfolding keys_kept_def by metis

lemma config_kept_refl: "config_kept s s"
  by (simp add: config_kept_def)

lemma config_kept_trans:
  assumes "config_kept s t" and "config_kept t u"
  shows "config_kept s u"
  unfolding config_kept_def
proof (intro allI impI)
  fix orgId projectId environmentId e
  assume "environment_at s orgId projectId environmentId = Some e"
  then obtain e' where e': "environment_at t orgId projectId environmentId = Some e'"
    "e_config_version e \<le> e_config_version e'"
    "e_config_version e = e_config_version e' \<longrightarrow>
      configuration s orgId projectId environmentId = configuration t orgId projectId environmentId"
    using assms(1) unfolding config_kept_def by meson
  then obtain e'' where e'': "environment_at u orgId projectId environmentId = Some e''"
    "e_config_version e' \<le> e_config_version e''"
    "e_config_version e' = e_config_version e'' \<longrightarrow>
      configuration t orgId projectId environmentId = configuration u orgId projectId environmentId"
    using assms(2) unfolding config_kept_def by meson
  show "\<exists>e'. environment_at u orgId projectId environmentId = Some e'
       \<and> e_config_version e \<le> e_config_version e'
       \<and> (e_config_version e = e_config_version e' \<longrightarrow>
           configuration s orgId projectId environmentId = configuration u orgId projectId environmentId)"
    using e' e'' by (intro exI[of _ e'']) force
qed

interpretation tenant: op_contract "tenant_step orgId" for orgId
proof
  show "tenant_step orgId s s" for s
    by (simp add: tenant_step_def keys_kept_refl config_kept_refl)
  show "tenant_step orgId s t \<Longrightarrow> tenant_step orgId t u \<Longrightarrow> tenant_step orgId s u" for s t u
    unfolding tenant_step_def by (elim conjE) (intro conjI impI; (rule subset_trans)?;
      simp add: keys_kept_trans[of s t u] config_kept_trans[of s t u] prefix_order.trans[of _ "db_audit t"]
        prefix_order.trans[of _ "db_versions t"])
qed

section \<open>Tables without history\<close>

lemma filter_update_where:
  "(\<And>r. org (f r) = org r) \<Longrightarrow>
     filter (\<lambda>r. org r \<noteq> tx_org T) (update_where org T P f rs) = filter (\<lambda>r. org r \<noteq> tx_org T) rs"
  by (induction rs) (auto simp: update_where_def)

text \<open>
  The contract of a table that neither keeps history nor enters a configuration: changing it
  changes no other table. Every statement on such a table obeys \<open>tenant_step\<close>.
\<close>

locale plain_table =
  fixes org :: "'r \<Rightarrow> uuid" and get :: "db \<Rightarrow> 'r list" and upd :: "('r list \<Rightarrow> 'r list) \<Rightarrow> db \<Rightarrow> db"
  assumes upd_foreign: "filter (\<lambda>r. org r \<noteq> orgId) (g (get s)) = filter (\<lambda>r. org r \<noteq> orgId) (get s) \<Longrightarrow>
      foreign orgId (upd g s) = foreign orgId s"
    and upd_other: "db_audit (upd g s) = db_audit s" "db_versions (upd g s) = db_versions s"
      "db_keys (upd g s) = db_keys s" "db_secrets (upd g s) = db_secrets s"
      "db_environments (upd g s) = db_environments s"
begin

lemma upd_tenant_step:
  "filter (\<lambda>r. org r \<noteq> orgId) (g (get s)) = filter (\<lambda>r. org r \<noteq> orgId) (get s) \<Longrightarrow>
     tenant_step orgId s (upd g s)"
  by (auto simp: tenant_step_def upd_foreign upd_other audit_ok_def db_keys_ok_def org_keys_def versions_ok_def
      keys_kept_def key_at_def config_kept_def environment_at_def configuration_def)

lemma obeys_insert [contract_intros]:
  "obeys (tenant_step (tx_org T)) (insert_row org get upd clash T r)"
  by (auto simp: obeys_def insert_row_def op_simps intro!: upd_tenant_step)

lemma obeys_update [contract_intros]:
  "(\<And>r. org (f r) = org r) \<Longrightarrow> obeys (tenant_step (tx_org T)) (update_rows org upd T P f)"
  unfolding update_rows_def
  by (rule tenant.obeys_writesI, rule upd_tenant_step) (simp add: filter_update_where)

lemma obeys_delete [contract_intros]:
  "obeys (tenant_step (tx_org T)) (delete_rows org upd T P)"
  unfolding delete_rows_def
  by (rule tenant.obeys_writesI, rule upd_tenant_step) (auto simp: delete_where_def intro!: filter_cong)

lemma obeys_update_unique [contract_intros]:
  "(\<And>r. org (f r) = org r) \<Longrightarrow> obeys (tenant_step (tx_org T)) (update_unique org get upd key T P f)"
  unfolding update_unique_def by (auto intro!: contract_intros)

end

interpretation organizations_table: plain_table o_id db_organizations db_organizations_update
  by unfold_locales (simp_all add: foreign_def)

interpretation memberships_table: plain_table m_org db_memberships db_memberships_update
  by unfold_locales (simp_all add: foreign_def)

interpretation projects_table: plain_table p_org db_projects db_projects_update
  by unfold_locales (simp_all add: foreign_def)

interpretation tags_table: plain_table t_org db_tags db_tags_update
  by unfold_locales (simp_all add: foreign_def)

interpretation secret_tags_table: plain_table st_org db_secret_tags db_secret_tags_update
  by unfold_locales (simp_all add: foreign_def)

interpretation project_tags_table: plain_table pt_org db_project_tags db_project_tags_update
  by unfold_locales (simp_all add: foreign_def)

interpretation api_keys_table: plain_table k_org db_api_keys db_api_keys_update
  by unfold_locales (simp_all add: foreign_def)

interpretation overrides_table: plain_table ov_org db_overrides db_overrides_update
  by unfold_locales (simp_all add: foreign_def)

interpretation invitations_table: plain_table i_org db_invitations db_invitations_update
  by unfold_locales (simp_all add: foreign_def)

interpretation reports_table: plain_table rc_org db_reports db_reports_update
  by unfold_locales (simp_all add: foreign_def)

interpretation states_table: plain_table fs_org db_states db_states_update
  by unfold_locales (simp_all add: foreign_def)

section \<open>Reads and draws\<close>

lemma obeys_select [contract_intros]: "obeys (tenant_step orgId) (select_rows org get T P)"
  unfolding select_rows_def by (rule contract_intros)

lemma draw_tenant_step: "tenant_step orgId s (s\<lparr>db_draws := n\<rparr>)"
  by (auto simp: tenant_step_def foreign_def audit_ok_def db_keys_ok_def org_keys_def versions_ok_def
      keys_kept_def key_at_def config_kept_def environment_at_def configuration_def)

lemma obeys_next_draw [contract_intros]: "obeys (tenant_step orgId) next_draw"
  unfolding next_draw_def
  by (auto intro!: contract_intros tenant.obeys_writesI draw_tenant_step)

lemma obeys_fresh_uuid [contract_intros]: "obeys (tenant_step orgId) (fresh_uuid T)"
  unfolding fresh_uuid_def by (auto intro!: contract_intros)

section \<open>Environments\<close>

text \<open>An environment update that changes neither identity nor configuration version.\<close>

definition keeps_config_fields :: "(environment_row \<Rightarrow> environment_row) \<Rightarrow> bool" where
  "keeps_config_fields f \<longleftrightarrow> (\<forall>e. e_id (f e) = e_id e \<and> e_org (f e) = e_org e
     \<and> e_project (f e) = e_project e \<and> e_config_version (f e) = e_config_version e)"

lemma find_map_keeps:
  "(\<And>x. P (f x) = P x) \<Longrightarrow> find P (map f xs) = map_option f (find P xs)"
  by (induction xs) auto

lemma find_append: "find P (xs @ ys) = (case find P xs of None \<Rightarrow> find P ys | Some x \<Rightarrow> Some x)"
  by (induction xs) auto

lemma environments_tenant_step:
  assumes "filter (\<lambda>r. e_org r \<noteq> orgId) (g (db_environments s)) = filter (\<lambda>r. e_org r \<noteq> orgId) (db_environments s)"
    and "\<And>o' p i e. find (\<lambda>r. e_org r = o' \<and> e_project r = p \<and> e_id r = i) (db_environments s) = Some e \<Longrightarrow>
      \<exists>e'. find (\<lambda>r. e_org r = o' \<and> e_project r = p \<and> e_id r = i) (g (db_environments s)) = Some e' \<and>
           e_config_version e' = e_config_version e"
  shows "tenant_step orgId s (db_environments_update g s)"
proof -
  have "config_kept s (db_environments_update g s)"
    unfolding config_kept_def environment_at_def
  proof (intro allI impI)
    fix o' p i e
    assume "find (\<lambda>r. e_org r = o' \<and> e_project r = p \<and> e_id r = i) (db_environments s) = Some e"
    from assms(2)[OF this] obtain e' where
      "find (\<lambda>r. e_org r = o' \<and> e_project r = p \<and> e_id r = i) (g (db_environments s)) = Some e'"
      "e_config_version e' = e_config_version e" by blast
    then show "\<exists>e'. find (\<lambda>r. e_org r = o' \<and> e_project r = p \<and> e_id r = i)
        (db_environments (db_environments_update g s)) = Some e' \<and> e_config_version e \<le> e_config_version e'
        \<and> (e_config_version e = e_config_version e' \<longrightarrow>
            configuration s o' p i = configuration (db_environments_update g s) o' p i)"
      by (intro exI[of _ e']) (simp add: configuration_def)
  qed
  then show ?thesis
    using assms(1)
    by (simp add: tenant_step_def foreign_def audit_ok_def db_keys_ok_def org_keys_def versions_ok_def
        keys_kept_def key_at_def)
qed

lemma obeys_insert_environment [contract_intros]:
  "obeys (tenant_step (tx_org T)) (insert_environment T r)"
proof -
  have "tenant_step (tx_org T) s (db_environments_update (\<lambda>rs. rs @ [r]) s)" if "e_org r = tx_org T" for s
    by (rule environments_tenant_step) (use that in \<open>auto simp: find_append\<close>)
  then show ?thesis by (auto simp: obeys_def insert_environment_def insert_row_def op_simps)
qed

lemma obeys_update_environments [contract_intros]:
  assumes "keeps_config_fields f"
  shows "obeys (tenant_step (tx_org T)) (update_rows e_org db_environments_update T P f)"
  unfolding update_rows_def
proof (rule tenant.obeys_writesI)
  fix s
  let ?g = "\<lambda>e. if e_org e = tx_org T \<and> P e then f e else e"
  have f: "find (\<lambda>r. e_org r = o' \<and> e_project r = p \<and> e_id r = i) (update_where e_org T P f es)
      = map_option ?g (find (\<lambda>r. e_org r = o' \<and> e_project r = p \<and> e_id r = i) es)" for o' p i es
    unfolding update_where_def
    by (rule find_map_keeps) (use assms in \<open>auto simp: keeps_config_fields_def\<close>)
  show "tenant_step (tx_org T) s (db_environments_update (update_where e_org T P f) s)"
  proof (rule environments_tenant_step)
    show "filter (\<lambda>r. e_org r \<noteq> tx_org T) (update_where e_org T P f (db_environments s)) =
        filter (\<lambda>r. e_org r \<noteq> tx_org T) (db_environments s)"
      by (rule filter_update_where) (use assms in \<open>simp add: keeps_config_fields_def\<close>)
  qed (use assms in \<open>auto simp: f keeps_config_fields_def\<close>)
qed

lemma obeys_update_unique_environments [contract_intros]:
  assumes "keeps_config_fields f"
  shows "obeys (tenant_step (tx_org T)) (update_unique e_org db_environments db_environments_update key T P f)"
  unfolding update_unique_def by (auto intro!: contract_intros simp: assms)

section \<open>The audit trail\<close>

lemma obeys_insert_audit:
  assumes "\<And>i. a_id (row i) = i"
  shows "obeys (tenant_step (tx_org T)) (insert_audit T row)"
proof -
  have "tenant_step (tx_org T) s (db_audit_update (\<lambda>rs. rs @ [r]) s)"
    if "a_org r = tx_org T" "a_id r = int (length (db_audit s)) + 1" for s r
    using that
    by (auto simp: tenant_step_def foreign_def audit_ok_def db_keys_ok_def org_keys_def versions_ok_def
        keys_kept_def key_at_def config_kept_def environment_at_def configuration_def)
  then show ?thesis using assms by (auto simp: obeys_def insert_audit_def insert_row_def op_simps)
qed

section \<open>Secrets and their versions\<close>

definition keeps_secret_place :: "(secret_row \<Rightarrow> secret_row) \<Rightarrow> bool" where
  "keeps_secret_place f \<longleftrightarrow> (\<forall>r. s_id (f r) = s_id r \<and> s_org (f r) = s_org r \<and> s_project (f r) = s_project r
     \<and> s_environment (f r) = s_environment r \<and> s_key (f r) = s_key r)"

text \<open>How often the trigger fires for one environment.\<close>

definition bumps :: "(secret_row \<Rightarrow> secret_row) \<Rightarrow> uuid \<Rightarrow> uuid \<Rightarrow> uuid \<Rightarrow> secret_row list \<Rightarrow> nat" where
  "bumps f orgId projectId environmentId rs = length (filter (\<lambda>r.
     s_org (f r) = orgId \<and> s_project (f r) = projectId \<and> s_environment (f r) = environmentId
     \<and> \<not> (s_version (f r) = s_version r \<and> s_deleted (f r) = s_deleted r)) rs)"

lemma bump_fields [simp]:
  "e_org (bump_environment r e) = e_org e" "e_project (bump_environment r e) = e_project e"
  "e_id (bump_environment r e) = e_id e"
  by (simp_all add: bump_environment_def)

lemma find_bump:
  "find (\<lambda>e. e_org e = orgId \<and> e_project e = projectId \<and> e_id e = environmentId) (map (bump_environment r) es) =
     map_option (\<lambda>e. if s_org r = orgId \<and> s_project r = projectId \<and> s_environment r = environmentId
       then e\<lparr>e_config_version := e_config_version e + 1\<rparr> else e)
     (find (\<lambda>e. e_org e = orgId \<and> e_project e = projectId \<and> e_id e = environmentId) es)"
  by (induction es) (auto simp: bump_environment_def)

lemma find_fold_trigger:
  "find (\<lambda>e. e_org e = orgId \<and> e_project e = projectId \<and> e_id e = environmentId)
       (fold (\<lambda>r. secret_trigger (Some r) (f r)) rs es) =
     map_option (\<lambda>e. e\<lparr>e_config_version := e_config_version e + int (bumps f orgId projectId environmentId rs)\<rparr>)
     (find (\<lambda>e. e_org e = orgId \<and> e_project e = projectId \<and> e_id e = environmentId) es)"
proof (induction rs arbitrary: es)
  case Nil
  then show ?case by (simp add: bumps_def option.map_ident)
next
  case (Cons r rs)
  show ?case
    unfolding fold_simps o_apply Cons.IH
    by (auto simp: secret_trigger_def find_bump bumps_def option.map_comp o_def intro!: option.map_cong)
qed

lemma filter_fold_trigger:
  "\<forall>r\<in>set rs. s_org (f r) = orgId \<Longrightarrow>
     filter (\<lambda>e. e_org e \<noteq> orgId) (fold (\<lambda>r. secret_trigger (Some r) (f r)) rs es) =
     filter (\<lambda>e. e_org e \<noteq> orgId) es"
proof (induction rs arbitrary: es)
  case (Cons r rs)
  have "filter (\<lambda>e. e_org e \<noteq> orgId) (map (bump_environment (f r)) es) = filter (\<lambda>e. e_org e \<noteq> orgId) es"
    using Cons.prems by (induction es) (auto simp: bump_environment_def)
  then show ?case using Cons by (simp add: secret_trigger_def)
qed simp

text \<open>The part of a configuration one secret contributes.\<close>

definition contribution ::
  "version_row list \<Rightarrow> uuid \<Rightarrow> uuid \<Rightarrow> uuid \<Rightarrow> secret_row \<Rightarrow> (uuid \<times> string \<times> version_row) list" where
  "contribution vs orgId projectId environmentId r =
     (if in_environment orgId projectId environmentId r
      then map (\<lambda>v. (s_id r, s_key r, v)) (filter (current_of r) vs) else [])"

lemma configuration_contributions:
  "configuration s orgId projectId environmentId =
     concat (map (contribution (db_versions s) orgId projectId environmentId) (db_secrets s))"
proof -
  have "concat (map g (filter P rs)) = concat (map (\<lambda>r. if P r then g r else []) rs)"
    for g :: "secret_row \<Rightarrow> 'b list" and P rs
    by (induction rs) auto
  then show ?thesis unfolding configuration_def contribution_def by blast
qed

lemma configuration_update:
  assumes f: "keeps_secret_place f"
    and none: "bumps f orgId projectId environmentId (filter P (visible s_org T (db_secrets s))) = 0"
  shows "configuration (updated_secrets T P f s) orgId projectId environmentId
    = configuration s orgId projectId environmentId"
proof -
  let ?c = "contribution (db_versions s) orgId projectId environmentId"
  have "?c (if s_org r = tx_org T \<and> P r then f r else r) = ?c r" if r: "r \<in> set (db_secrets s)" for r
  proof (cases "s_org r = tx_org T \<and> P r \<and> s_org r = orgId \<and> s_project r = projectId \<and> s_environment r = environmentId")
    case True
    then have "s_version (f r) = s_version r \<and> s_deleted (f r) = s_deleted r"
      using none r f by (auto simp: bumps_def filter_empty_conv visible_def keeps_secret_place_def)
    moreover from this have "current_of (f r) = current_of r"
      using f by (auto simp: current_of_def keeps_secret_place_def fun_eq_iff)
    ultimately show ?thesis using f
      by (auto simp: contribution_def in_environment_def keeps_secret_place_def)
  next
    case False
    then show ?thesis using f by (auto simp: contribution_def in_environment_def keeps_secret_place_def)
  qed
  then show ?thesis
    unfolding configuration_contributions
    by (auto simp: updated_secrets_def update_where_def o_def intro!: arg_cong[of _ _ concat] map_cong)
qed

lemma update_secrets_config_kept:
  assumes f: "keeps_secret_place f"
  shows "config_kept s (updated_secrets T P f s)"
  unfolding config_kept_def
proof (intro allI impI)
  fix orgId projectId environmentId e
  assume e: "environment_at s orgId projectId environmentId = Some e"
  define n where "n = bumps f orgId projectId environmentId (filter P (visible s_org T (db_secrets s)))"
  have e': "environment_at (updated_secrets T P f s) orgId projectId environmentId =
      Some (e\<lparr>e_config_version := e_config_version e + int n\<rparr>)"
    using e by (simp add: environment_at_def updated_secrets_def find_fold_trigger n_def)
  show "\<exists>e'. environment_at (updated_secrets T P f s) orgId projectId environmentId = Some e'
      \<and> e_config_version e \<le> e_config_version e'
      \<and> (e_config_version e = e_config_version e' \<longrightarrow> configuration s orgId projectId environmentId
          = configuration (updated_secrets T P f s) orgId projectId environmentId)"
    using configuration_update[OF f, of orgId projectId environmentId P T s] e'
    by (auto simp: n_def)
qed

lemma updated_secrets_tenant_step:
  assumes f: "keeps_secret_place f"
    and ok: "versions_ok s \<Longrightarrow> versions_ok (updated_secrets T P f s)"
  shows "tenant_step (tx_org T) s (updated_secrets T P f s)"
proof -
  have "foreign (tx_org T) (updated_secrets T P f s) = foreign (tx_org T) s"
    using f
    by (simp add: foreign_def updated_secrets_def filter_update_where keeps_secret_place_def
        filter_fold_trigger visible_def)
  moreover have "secret_place ` set (db_secrets s) = secret_place ` set (update_where s_org T P f (db_secrets s))"
  proof -
    have "map secret_place (update_where s_org T P f rs) = map secret_place rs" for rs
      using f by (auto simp: update_where_def secret_place_def keeps_secret_place_def)
    then show ?thesis by (metis list.set_map)
  qed
  ultimately show ?thesis
    using ok update_secrets_config_kept[OF f]
    by (simp add: tenant_step_def updated_secrets_def audit_ok_def db_keys_ok_def org_keys_def keys_kept_def key_at_def)
qed

lemma obeys_update_secrets [contract_intros]:
  assumes f: "keeps_secret_place f" and v: "\<And>r. s_version (f r) = s_version r"
  shows "obeys (tenant_step (tx_org T)) (update_secrets T P f)"
proof -
  have "versions_ok (updated_secrets T P f s)" if "versions_ok s" for s
  proof -
    have "current_of (f r) w = current_of r w" for r w
      using f v by (simp add: current_of_def keeps_secret_place_def)
    moreover have "map s_id (update_where s_org T P f rs) = map s_id rs" for rs
      using f by (auto simp: update_where_def keeps_secret_place_def)
    ultimately show ?thesis
      using that v f by (auto simp: versions_ok_def updated_secrets_def keeps_secret_place_def)
        (auto simp: update_where_def)
  qed
  then show ?thesis
    unfolding update_secrets_def
    by (intro tenant.obeys_writesI updated_secrets_tenant_step f) blast
qed

lemma obeys_insert_secret:
  assumes "s_version r = 0"
  shows "obeys (tenant_step (tx_org T)) (insert_secret T r)"
proof -
  have "tenant_step (tx_org T) s (db_secrets_update (\<lambda>rs. rs @ [r]) s)"
    if "s_org r = tx_org T" and c: "\<not> list_ex (secret_clash r) (db_secrets s)" and k: "secret_check r" for s
  proof -
    have "filter (current_of r) (db_versions s) = []" if "versions_ok s"
      using that assms by (auto simp: versions_ok_def current_of_def filter_empty_conv)
    then have "configuration (db_secrets_update (\<lambda>rs. rs @ [r]) s) o' p i = configuration s o' p i"
      if "versions_ok s" for o' p i
      using that by (simp add: configuration_def)
    moreover have "s_id r \<notin> s_id ` set (db_secrets s)"
      using c by (auto simp: list_ex_iff secret_clash_def)
    ultimately show ?thesis
      using that(1) k[unfolded secret_check_def] assms
      by (auto simp: tenant_step_def foreign_def audit_ok_def db_keys_ok_def org_keys_def keys_kept_def key_at_def
          config_kept_def environment_at_def versions_ok_def)
  qed
  moreover have "db_environments_update (secret_trigger None r) s = s" for s :: db
    using assms by (cases s) (simp add: secret_trigger_def)
  ultimately show ?thesis
    by (auto simp: obeys_def insert_secret_def insert_row_def op_simps)
qed

lemma insert_version_config:
  assumes "versions_ok s" and "\<not> list_ex (version_clash v) (db_versions s)" and "version_check v"
  shows "configuration (db_versions_update (\<lambda>vs. vs @ [v]) s) = configuration s"
proof -
  have "\<not> current_of r v" if r: "r \<in> set (db_secrets s)" for r
  proof
    assume c: "current_of r v"
    then have "s_version r \<noteq> 0" using assms(3) by (simp add: current_of_def version_check_def)
    then obtain w where "w \<in> set (db_versions s)" "current_of r w"
      using assms(1) r by (auto simp: versions_ok_def)
    then show False using assms(2) c by (auto simp: version_clash_def current_of_def list_ex_iff)
  qed
  then show ?thesis
    by (auto simp: configuration_def fun_eq_iff intro!: arg_cong[of _ _ concat] map_cong)
qed

lemma insert_version_step:
  assumes "insert_version T v s = Inr (u, s')"
  shows "s' = db_versions_update (\<lambda>vs. vs @ [v]) s" and "tenant_step (tx_org T) s s'"
    and "v_org v = tx_org T" and "version_check v"
proof -
  have h: "s' = db_versions_update (\<lambda>vs. vs @ [v]) s" "v_org v = tx_org T" "version_check v"
    "\<not> list_ex (version_clash v) (db_versions s)"
    using assms by (auto simp: insert_version_def insert_row_def op_simps)
  moreover have "tenant_step (tx_org T) s (db_versions_update (\<lambda>vs. vs @ [v]) s)"
  proof -
    have "version_key v \<notin> version_key ` set (db_versions s)"
      using h(4) by (auto simp: list_ex_iff version_clash_def version_key_def)
    then show ?thesis
      using h insert_version_config[of s v]
      by (auto simp: tenant_step_def foreign_def audit_ok_def db_keys_ok_def org_keys_def keys_kept_def key_at_def
          config_kept_def environment_at_def versions_ok_def version_check_def current_of_def)
  qed
  ultimately show "s' = db_versions_update (\<lambda>vs. vs @ [v]) s" "tenant_step (tx_org T) s s'"
    "v_org v = tx_org T" "version_check v" by auto
qed

text \<open>A new version and the pointer to it, written together.\<close>

lemma obeys_store_version:
  assumes f: "keeps_secret_place f"
    and v: "\<And>r. P r \<Longrightarrow> s_org r = tx_org T \<Longrightarrow> v_org v = tx_org T \<Longrightarrow> current_of (f r) v"
  shows "obeys (tenant_step (tx_org T)) (andthen (insert_version T v) (update_secrets T P f))"
proof -
  have "tenant_step (tx_org T) s (updated_secrets T P f s')" if i: "insert_version T v s = Inr (u, s')" for s u s'
  proof -
    note i = insert_version_step[OF i]
    have "map s_id (update_where s_org T P f rs) = map s_id rs" for rs
      using f by (auto simp: update_where_def keeps_secret_place_def)
    moreover have "s_key (f r) = s_key r" for r using f by (simp add: keeps_secret_place_def)
    ultimately have "versions_ok (updated_secrets T P f s')" if "versions_ok s'"
      using that v i(1,3)
      by (auto simp: versions_ok_def updated_secrets_def) (auto simp: update_where_def)
    then have "tenant_step (tx_org T) s' (updated_secrets T P f s')"
      by (rule updated_secrets_tenant_step[OF f])
    then show ?thesis using i(2) tenant.R_trans by blast
  qed
  then show ?thesis by (auto simp: obeys_def andthen_Inr update_secrets_def writes_Inr)
qed

end
