(* ===== verification/Audit_Log.thy ===== *)
theory Audit_Log
  imports Contracts
begin

text \<open>
  The audit log of \<^verbatim>\<open>packages/audit/src/index.ts\<close>: the validation of events and of their metadata,
  the recording of an event in the caller's transaction, the retention setting, the filtered and
  paged listing, and the cells of the CSV export. A \<^verbatim>\<open>timestamptz\<close> has microseconds and a
  JavaScript \<^verbatim>\<open>Date\<close> milliseconds: times are microseconds here and \<open>to_date\<close> is what becomes of
  one that is read into a \<^verbatim>\<open>Date\<close>.
\<close>

section \<open>Events\<close>

datatype audit_action =
    Organization_created | Organization_updated | Organization_retention_updated
  | Auth_signup | Auth_email_verified | Auth_login_succeeded | Auth_login_failed | Auth_logout
  | Auth_reset_requested | Auth_reset_completed
  | Api_key_used | Api_key_created | Api_key_revoked
  | Project_created | Project_updated | Project_archived | Project_restored | Project_deleted
  | Environment_created | Environment_updated | Environment_reordered | Environment_deleted
  | Environment_restored
  | Consistency_acknowledged | Consistency_ignored | Consistency_cleared
  | Secret_created | Secret_read_event | Secret_updated | Secret_deleted | Secret_exported
  | Secret_imported | Secret_promoted
  | Membership_invited | Membership_invitation_revoked | Membership_accepted | Membership_removed
  | Membership_role_changed | Membership_project_role_changed

primrec action_text :: "audit_action \<Rightarrow> string" where
  "action_text Organization_created = ''organization.created''"
| "action_text Organization_updated = ''organization.updated''"
| "action_text Organization_retention_updated = ''organization.audit_retention_updated''"
| "action_text Auth_signup = ''auth.signup''"
| "action_text Auth_email_verified = ''auth.email_verified''"
| "action_text Auth_login_succeeded = ''auth.login_succeeded''"
| "action_text Auth_login_failed = ''auth.login_failed''"
| "action_text Auth_logout = ''auth.logout''"
| "action_text Auth_reset_requested = ''auth.password_reset_requested''"
| "action_text Auth_reset_completed = ''auth.password_reset_completed''"
| "action_text Api_key_used = ''api_key.used''"
| "action_text Api_key_created = ''api_key.created''"
| "action_text Api_key_revoked = ''api_key.revoked''"
| "action_text Project_created = ''project.created''"
| "action_text Project_updated = ''project.updated''"
| "action_text Project_archived = ''project.archived''"
| "action_text Project_restored = ''project.restored''"
| "action_text Project_deleted = ''project.deleted''"
| "action_text Environment_created = ''environment.created''"
| "action_text Environment_updated = ''environment.updated''"
| "action_text Environment_reordered = ''environment.reordered''"
| "action_text Environment_deleted = ''environment.deleted''"
| "action_text Environment_restored = ''environment.restored''"
| "action_text Consistency_acknowledged = ''consistency.acknowledged''"
| "action_text Consistency_ignored = ''consistency.ignored''"
| "action_text Consistency_cleared = ''consistency.cleared''"
| "action_text Secret_created = ''secret.created''"
| "action_text Secret_read_event = ''secret.read''"
| "action_text Secret_updated = ''secret.updated''"
| "action_text Secret_deleted = ''secret.deleted''"
| "action_text Secret_exported = ''secret.exported''"
| "action_text Secret_imported = ''secret.imported''"
| "action_text Secret_promoted = ''secret.promoted''"
| "action_text Membership_invited = ''membership.invited''"
| "action_text Membership_invitation_revoked = ''membership.invitation_revoked''"
| "action_text Membership_accepted = ''membership.accepted''"
| "action_text Membership_removed = ''membership.removed''"
| "action_text Membership_role_changed = ''membership.role_changed''"
| "action_text Membership_project_role_changed = ''membership.project_role_changed''"

type_synonym metadata = "(string \<times> json) list"

text \<open>\<^verbatim>\<open>AuditEventInput\<close>; an optional field that is absent is \<open>None\<close>.\<close>

record audit_event =
  event_org :: uuid
  event_actor :: audit_actor
  event_action :: audit_action
  event_resource_type :: string
  event_resource_id :: "string option"
  event_project :: "uuid option"
  event_environment :: "uuid option"
  event_ip :: "string option"
  event_user_agent :: "string option"
  event_before :: "metadata option"
  event_after :: "metadata option"
  event_details :: "metadata option"

text \<open>The shape all services use: an actor, an action and a resource, and nothing else yet.\<close>

definition user_event :: "uuid \<Rightarrow> uuid \<Rightarrow> audit_action \<Rightarrow> string \<Rightarrow> string \<Rightarrow> audit_event" where
  "user_event orgId userId action rtype rid = \<lparr>event_org = orgId, event_actor = Actor_user userId,
     event_action = action, event_resource_type = rtype, event_resource_id = Some rid,
     event_project = None, event_environment = None, event_ip = None, event_user_agent = None,
     event_before = None, event_after = None, event_details = None\<rparr>"

section \<open>Validation\<close>

definition forbidden_words :: "string list" where
  "forbidden_words = [''secret'', ''value'', ''password'', ''passphrase'', ''token'', ''credential'',
     ''authorization'', ''cookie'', ''ciphertext'', ''nonce'']"

fun adjacent :: "'a \<Rightarrow> 'a \<Rightarrow> 'a list \<Rightarrow> bool" where
  "adjacent a b (x # y # xs) \<longleftrightarrow> (x = a \<and> y = b) \<or> adjacent a b (y # xs)"
| "adjacent a b xs \<longleftrightarrow> False"

text \<open>
  \<^verbatim>\<open>forbiddenKey\<close>: one of the words stands between underscores or ends of the key, in any case;
  \<^verbatim>\<open>auth_tag\<close> is two words.
\<close>

definition forbidden_key :: "string \<Rightarrow> bool" where
  "forbidden_key key \<longleftrightarrow> (let ws = split_on (CHR ''_'') (js_lower key) in
     list_ex (\<lambda>w. w \<in> set forbidden_words) ws \<or> adjacent ''auth'' ''tag'' ws)"

fun metadata_ok :: "nat \<Rightarrow> json \<Rightarrow> bool" where
  "metadata_ok depth (JNum n) \<longleftrightarrow> depth \<le> 8 \<and> num_finite n"
| "metadata_ok depth (JArr xs) \<longleftrightarrow> depth \<le> 8 \<and> length xs \<le> 100 \<and> list_all (metadata_ok (Suc depth)) xs"
| "metadata_ok depth (JObj ms) \<longleftrightarrow> depth \<le> 8 \<and> length ms \<le> 100
     \<and> list_all (\<lambda>(k, v). \<not> forbidden_key k \<and> metadata_ok (Suc depth) v) ms"
| "metadata_ok depth v \<longleftrightarrow> depth \<le> 8"

definition validate_metadata :: "json \<Rightarrow> error + unit" where
  "validate_metadata v = (if metadata_ok 0 v then Inr () else Inl (Audit_error Unsafe_metadata))"

definition metadata_for :: "audit_event \<Rightarrow> error + metadata" where
  "metadata_for ev =
     (let parts = List.map_filter (\<lambda>(k, v). map_option (\<lambda>m. (k, JObj m)) v)
            [(''before'', event_before ev), (''after'', event_after ev), (''details'', event_details ev)]
      in and_ok (map_ok (\<lambda>(k, v). validate_metadata v) parts) (\<lambda>_.
         if 64 * 1024 < length (utf8 (json_text (JObj parts)))
         then Inl (Audit_error Unsafe_metadata) else Inr parts))"

definition validate_event :: "audit_event \<Rightarrow> error + unit" where
  "validate_event ev =
     (if event_org ev = [] \<or> event_resource_type ev = [] then Inl (Audit_error Invalid_event)
      else if (case event_actor ev of Actor_user i \<Rightarrow> i = [] | Actor_api_key i \<Rightarrow> i = [] | Actor_system \<Rightarrow> False)
      then Inl (Audit_error Invalid_event)
      else if starts_with ''secret.'' (action_text (event_action ev)) \<and> event_resource_id ev = None
      then Inl (Audit_error Invalid_event)
      else Inr ())"

section \<open>Recording\<close>

definition audit_row_of :: "transaction \<Rightarrow> audit_event \<Rightarrow> metadata \<Rightarrow> int \<Rightarrow> audit_row" where
  "audit_row_of T ev m i = \<lparr>a_id = i, a_org = event_org ev, a_actor = event_actor ev,
     a_action = action_text (event_action ev), a_resource_type = event_resource_type ev,
     a_resource_id = event_resource_id ev, a_project = event_project ev,
     a_environment = event_environment ev, a_ip = event_ip ev, a_user_agent = event_user_agent ev,
     a_metadata = m, a_occurred = tx_now T\<rparr>"

definition insert_event :: "transaction \<Rightarrow> audit_event \<Rightarrow> metadata \<Rightarrow> unit db_op" where
  "insert_event T ev m = andthen (check (length (event_resource_type ev) \<le> 80) Internal_error)
     (insert_audit T (audit_row_of T ev m))"

definition record_in_transaction :: "transaction \<Rightarrow> audit_event \<Rightarrow> unit db_op" where
  "record_in_transaction T ev =
     andthen (lift_sum (validate_event ev)) (bind (lift_sum (metadata_for ev)) (insert_event T ev))"

text \<open>\<^verbatim>\<open>execute\<close>: the event is validated before the operation runs and written after it.\<close>

definition execute_audited :: "transaction \<Rightarrow> audit_event \<Rightarrow> 'a db_op \<Rightarrow> 'a db_op" where
  "execute_audited T ev operation =
     andthen (lift_sum (validate_event ev)) (bind (lift_sum (metadata_for ev)) (\<lambda>m.
     bind operation (\<lambda>result. andthen (insert_event T ev m) (ret result))))"

definition record_event :: "transaction \<Rightarrow> audit_event \<Rightarrow> unit db_op" where
  "record_event T ev = execute_audited T ev (ret ())"

lemma obeys_insert_event [contract_intros]: "obeys (tenant_step (tx_org T)) (insert_event T ev m)"
  unfolding insert_event_def by (auto intro!: contract_intros obeys_insert_audit simp: audit_row_of_def)

lemma obeys_record [contract_intros]: "obeys (tenant_step (tx_org T)) (record_in_transaction T ev)"
  unfolding record_in_transaction_def by (auto intro!: contract_intros)

text \<open>What a recorded event is.\<close>

lemma record_Inr:
  "record_in_transaction T ev s = Inr (u, s') \<longleftrightarrow>
     validate_event ev = Inr () \<and> event_org ev = tx_org T \<and> length (event_resource_type ev) \<le> 80
     \<and> \<not> list_ex (\<lambda>q. a_id q = int (length (db_audit s)) + 1) (db_audit s)
     \<and> (\<exists>m. metadata_for ev = Inr m \<and>
          s' = db_audit_update (\<lambda>es. es @ [audit_row_of T ev m (int (length (db_audit s)) + 1)]) s)"
  by (auto simp: record_in_transaction_def insert_event_def insert_audit_def insert_row_def op_simps
      audit_row_of_def)

lemma record_audit:
  "record_in_transaction T ev s = Inr (u, s') \<Longrightarrow>
     \<exists>m. metadata_for ev = Inr m \<and>
       db_audit s' = db_audit s @ [audit_row_of T ev m (int (length (db_audit s)) + 1)]"
  by (auto simp: record_Inr)

section \<open>Retention\<close>

definition get_retention :: "transaction \<Rightarrow> uuid \<Rightarrow> int db_op" where
  "get_retention T orgId =
     bind (select_rows o_id db_organizations T (\<lambda>r. o_id r = orgId \<and> o_deleted r = None)) (\<lambda>rows.
     bind (from_option (Audit_error Invalid_event) (first_row rows)) (\<lambda>r. ret (o_retention r)))"

definition retention_metadata :: "int \<Rightarrow> metadata" where
  "retention_metadata days = [(''auditRetentionDays'', JNum (js_int days))]"

definition update_retention :: "transaction \<Rightarrow> uuid \<Rightarrow> uuid \<Rightarrow> int \<Rightarrow> int db_op" where
  "update_retention T orgId actorUserId days =
     andthen (check (is_safe_integer days \<and> 1 \<le> days \<and> days \<le> 3650) (Audit_error Invalid_event))
     (bind (get_retention T orgId) (\<lambda>before.
      andthen (update_rows o_id db_organizations_update T (\<lambda>r. o_id r = orgId)
        (\<lambda>r. r\<lparr>o_retention := days, o_updated := tx_now T\<rparr>))
     (bind (select_rows o_id db_organizations T (\<lambda>r. o_id r = orgId)) (\<lambda>updated.
      bind (from_option (Audit_error Invalid_event) (first_row updated)) (\<lambda>r.
      andthen (record_in_transaction T
        ((user_event orgId actorUserId Organization_retention_updated ''organization'' orgId)
           \<lparr>event_before := Some (retention_metadata before),
            event_after := Some (retention_metadata (o_retention r))\<rparr>))
      (ret (o_retention r)))))))"

lemma obeys_get_retention [contract_intros]: "obeys (tenant_step (tx_org T)) (get_retention T orgId)"
  unfolding get_retention_def by (auto intro!: contract_intros)

lemma obeys_update_retention [contract_intros]:
  "obeys (tenant_step (tx_org T)) (update_retention T orgId actorUserId days)"
  unfolding update_retention_def by (auto intro!: contract_intros)

end
