(* ===== verification/Access.thy ===== *)
theory Access
  imports Audit_Log
begin

text \<open>
  The parts of \<^verbatim>\<open>packages/authz/src/index.ts\<close> that read and write the database:
  \<^verbatim>\<open>AuthorizationContextResolver\<close> and \<^verbatim>\<open>ProjectRoleOverrideService\<close>.
\<close>

definition denied :: "permission \<Rightarrow> error" where
  "denied p = Authorization_error \<lparr>allowed = False, decided_permission = p, decided_role = Read_only,
     reason = Reason_role\<rparr>"

definition active_membership :: "uuid \<Rightarrow> membership_row \<Rightarrow> bool" where
  "active_membership userId r \<longleftrightarrow> m_user r = userId \<and> m_status r = Status_active"

definition override_of :: "uuid \<Rightarrow> uuid \<Rightarrow> override_row \<Rightarrow> bool" where
  "override_of projectId userId r \<longleftrightarrow> ov_project r = projectId \<and> ov_user r = userId"

text \<open>\<^verbatim>\<open>resolve\<close>\<close>

definition resolve :: "transaction \<Rightarrow> uuid \<Rightarrow> uuid option \<Rightarrow> bool \<Rightarrow> authorization_context db_op" where
  "resolve T userId projectId protectedEnvironment =
     bind (select_rows m_org db_memberships T (active_membership userId)) (\<lambda>membership.
     bind (from_option (denied Org_settings_read) (first_row membership)) (\<lambda>m.
     bind (case projectId of
             None \<Rightarrow> ret None
           | Some pid \<Rightarrow> bind (select_rows ov_org db_overrides T (override_of pid userId))
               (\<lambda>rows. ret (map_option ov_role (first_row rows)))) (\<lambda>projectRole.
     ret \<lparr>org_role = m_role m, project_role = projectRole,
          protected_environment = Some protectedEnvironment\<rparr>)))"

definition require :: "authorization_context \<Rightarrow> permission \<Rightarrow> unit db_op" where
  "require c p = (case require_permission c p of
     Inl d \<Rightarrow> throw (Authorization_error d) | Inr u \<Rightarrow> ret ())"

text \<open>\<^verbatim>\<open>requirePermission(await resolver.resolve(...), permission)\<close>\<close>

definition permit :: "transaction \<Rightarrow> uuid \<Rightarrow> uuid option \<Rightarrow> bool \<Rightarrow> permission \<Rightarrow> unit db_op" where
  "permit T userId projectId protectedEnvironment p =
     bind (resolve T userId projectId protectedEnvironment) (\<lambda>c. require c p)"

section \<open>Overrides\<close>

primrec role_text :: "role \<Rightarrow> string" where
  "role_text Owner = ''owner''"
| "role_text Admin = ''admin''"
| "role_text Member = ''member''"
| "role_text Read_only = ''read_only''"

definition json_role :: "role option \<Rightarrow> json" where
  "json_role r = (case r of None \<Rightarrow> JNull | Some r \<Rightarrow> JStr (role_text r))"

definition override_clash :: "override_row \<Rightarrow> override_row \<Rightarrow> bool" where
  "override_clash r q \<longleftrightarrow> ov_org q = ov_org r \<and> ov_project q = ov_project r \<and> ov_user q = ov_user r"

text \<open>\<^verbatim>\<open>INSERT ... ON CONFLICT DO UPDATE\<close>; the table checks that the role is not owner.\<close>

definition upsert_override :: "transaction \<Rightarrow> uuid \<Rightarrow> uuid \<Rightarrow> uuid \<Rightarrow> role \<Rightarrow> unit db_op" where
  "upsert_override T actorUserId projectId targetUserId r =
     (let row = \<lparr>ov_org = tx_org T, ov_project = projectId, ov_user = targetUserId, ov_role = r,
                 ov_created_by = actorUserId, ov_created = tx_now T, ov_updated = tx_now T\<rparr> in
      andthen (check (r \<noteq> Owner) Internal_error)
     (bind (reads db_overrides) (\<lambda>rows.
      if list_ex (override_clash row) rows
      then update_rows ov_org db_overrides_update T (override_of projectId targetUserId)
             (\<lambda>q. q\<lparr>ov_role := r, ov_updated := tx_now T, ov_created_by := actorUserId\<rparr>)
      else insert_row ov_org db_overrides db_overrides_update override_clash T row)))"

definition override_event ::
  "transaction \<Rightarrow> uuid \<Rightarrow> uuid \<Rightarrow> uuid \<Rightarrow> role option \<Rightarrow> role option \<Rightarrow> audit_event" where
  "override_event T actorUserId projectId targetUserId before after =
     (user_event (tx_org T) actorUserId Membership_project_role_changed ''project_membership''
        (projectId @ '':'' @ targetUserId))
       \<lparr>event_project := Some projectId, event_before := Some [(''role'', json_role before)],
        event_after := Some [(''role'', json_role after), (''targetUserId'', JStr targetUserId)]\<rparr>"

definition set_override :: "transaction \<Rightarrow> uuid \<Rightarrow> uuid \<Rightarrow> uuid \<Rightarrow> role \<Rightarrow> unit db_op" where
  "set_override T actorUserId projectId targetUserId r =
     andthen (permit T actorUserId None False Org_members_manage)
     (bind (select_rows m_org db_memberships T (active_membership targetUserId)) (\<lambda>target.
      andthen (check (first_row target \<noteq> None) (denied Org_members_manage))
     (bind (select_rows ov_org db_overrides T (override_of projectId targetUserId)) (\<lambda>previous.
      andthen (upsert_override T actorUserId projectId targetUserId r)
      (record_in_transaction T (override_event T actorUserId projectId targetUserId
         (map_option ov_role (first_row previous)) (Some r)))))))"

definition remove_override :: "transaction \<Rightarrow> uuid \<Rightarrow> uuid \<Rightarrow> uuid \<Rightarrow> unit db_op" where
  "remove_override T actorUserId projectId targetUserId =
     andthen (permit T actorUserId None False Org_members_manage)
     (bind (select_rows ov_org db_overrides T (override_of projectId targetUserId)) (\<lambda>removed.
      andthen (delete_rows ov_org db_overrides_update T (override_of projectId targetUserId))
      (case first_row removed of
         None \<Rightarrow> ret ()
       | Some r \<Rightarrow> record_in_transaction T
           (override_event T actorUserId projectId targetUserId (Some (ov_role r)) None))))"

section \<open>Lemmas\<close>

lemma first_row_filter: "first_row (filter P rs) = find P rs"
  by (induction rs) (auto simp: first_row_def)

text \<open>The context \<open>resolve\<close> computes, as a function of the database.\<close>

definition context_at :: "transaction \<Rightarrow> uuid \<Rightarrow> uuid option \<Rightarrow> bool \<Rightarrow> db \<Rightarrow> authorization_context option" where
  "context_at T userId projectId prot s =
     map_option (\<lambda>m. \<lparr>org_role = m_role m,
         project_role = (case projectId of None \<Rightarrow> None
           | Some pid \<Rightarrow> map_option ov_role (find (override_of pid userId) (visible ov_org T (db_overrides s)))),
         protected_environment = Some prot\<rparr>)
       (find (active_membership userId) (visible m_org T (db_memberships s)))"

lemma resolve_context:
  "resolve T userId projectId prot s =
     (case context_at T userId projectId prot s of
        None \<Rightarrow> Inl (denied Org_settings_read) | Some c \<Rightarrow> Inr (c, s))"
  by (simp add: resolve_def context_at_def op_defs select_rows_def first_row_filter split: option.split)

definition permitted :: "transaction \<Rightarrow> uuid \<Rightarrow> uuid option \<Rightarrow> bool \<Rightarrow> permission \<Rightarrow> db \<Rightarrow> bool" where
  "permitted T userId projectId prot p s \<longleftrightarrow>
     (case context_at T userId projectId prot s of None \<Rightarrow> False | Some c \<Rightarrow> allowed (authorize c p))"

lemma permit_Inr: "permit T userId projectId prot p s = Inr r \<longleftrightarrow> permitted T userId projectId prot p s \<and> r = ((), s)"
  by (auto simp: permit_def require_def bind_def resolve_context permitted_def require_permission_def Let_def
      ret_def throw_def split: option.splits sum.splits)

lemma permit_Inl:
  "\<not> permitted T userId projectId prot p s \<Longrightarrow> \<exists>d. permit T userId projectId prot p s = Inl (Authorization_error d)"
  by (auto simp: permit_def require_def bind_def resolve_context permitted_def require_permission_def Let_def
      denied_def throw_def split: option.splits)

lemma obeys_permit [contract_intros]: "obeys (tenant_step orgId) (permit T userId projectId prot p)"
  by (auto simp: obeys_def permit_Inr tenant.R_refl)

lemma obeys_resolve [contract_intros]: "obeys (tenant_step orgId) (resolve T userId projectId prot)"
  by (auto simp: obeys_def resolve_context tenant.R_refl split: option.splits)

lemma obeys_upsert_override [contract_intros]:
  "obeys (tenant_step (tx_org T)) (upsert_override T actorUserId projectId targetUserId r)"
  unfolding upsert_override_def Let_def by (auto intro!: contract_intros)

lemma obeys_set_override [contract_intros]:
  "obeys (tenant_step (tx_org T)) (set_override T actorUserId projectId targetUserId r)"
  unfolding set_override_def by (auto intro!: contract_intros)

lemma obeys_remove_override [contract_intros]:
  "obeys (tenant_step (tx_org T)) (remove_override T actorUserId projectId targetUserId)"
  unfolding remove_override_def by (auto intro!: contract_intros)

section \<open>What an override changes\<close>

lemma find_visible: "find P (visible org T rs) = find (\<lambda>r. org r = tx_org T \<and> P r) rs"
  by (simp add: visible_def find_filter)

lemma find_update_where:
  "(\<And>r. org (f r) = org r) \<Longrightarrow> (\<And>r. Q (f r) = Q r) \<Longrightarrow>
     find (\<lambda>r. org r = tx_org T \<and> Q r) (update_where org T P f rs) =
       map_option (\<lambda>r. if P r then f r else r) (find (\<lambda>r. org r = tx_org T \<and> Q r) rs)"
  by (induction rs) (auto simp: update_where_def)

lemma upsert_Inr: "upsert_override T actorUserId projectId targetUserId r s = Inr x \<longleftrightarrow> r \<noteq> Owner \<and>
   (let row = \<lparr>ov_org = tx_org T, ov_project = projectId, ov_user = targetUserId, ov_role = r,
               ov_created_by = actorUserId, ov_created = tx_now T, ov_updated = tx_now T\<rparr> in
    x = ((), if list_ex (override_clash row) (db_overrides s)
      then db_overrides_update (update_where ov_org T (override_of projectId targetUserId)
             (\<lambda>q. q\<lparr>ov_role := r, ov_updated := tx_now T, ov_created_by := actorUserId\<rparr>)) s
      else db_overrides_update (\<lambda>rs. rs @ [row]) s))"
  by (auto simp: upsert_override_def Let_def op_simps insert_row_def update_rows_def)

text \<open>After the upsert the pair has the new role and every other pair the old one.\<close>

lemma upsert_override_find:
  assumes "upsert_override T actorUserId projectId targetUserId r s = Inr (u, s')"
  shows "r \<noteq> Owner"
    and "map_option ov_role (find (override_of pid uid) (visible ov_org T (db_overrides s'))) =
      (if pid = projectId \<and> uid = targetUserId then Some r
       else map_option ov_role (find (override_of pid uid) (visible ov_org T (db_overrides s))))"
    and "\<exists>g. s' = db_overrides_update g s"
proof -
  let ?row = "\<lparr>ov_org = tx_org T, ov_project = projectId, ov_user = targetUserId, ov_role = r,
      ov_created_by = actorUserId, ov_created = tx_now T, ov_updated = tx_now T\<rparr>"
  let ?f = "\<lambda>q. q\<lparr>ov_role := r, ov_updated := tx_now T, ov_created_by := actorUserId\<rparr>"
  have Q: "override_of pid uid (?f q) = override_of pid uid q" for pid uid q
    by (simp add: override_of_def)
  show "r \<noteq> Owner" using assms by (auto simp: upsert_override_def Let_def op_simps)
  have cs: "list_ex (override_clash ?row) (db_overrides s)
        \<and> s' = db_overrides_update (update_where ov_org T (override_of projectId targetUserId) ?f) s
      \<or> \<not> list_ex (override_clash ?row) (db_overrides s)
        \<and> s' = db_overrides_update (\<lambda>rs. rs @ [?row]) s"
    using assms by (auto simp: upsert_Inr Let_def split: if_splits)
  then show "\<exists>g. s' = db_overrides_update g s" by blast
  consider (upd) "list_ex (override_clash ?row) (db_overrides s)"
      "s' = db_overrides_update (update_where ov_org T (override_of projectId targetUserId) ?f) s"
    | (ins) "\<not> list_ex (override_clash ?row) (db_overrides s)"
      "s' = db_overrides_update (\<lambda>rs. rs @ [?row]) s"
    using cs by blast
  then show "map_option ov_role (find (override_of pid uid) (visible ov_org T (db_overrides s'))) =
      (if pid = projectId \<and> uid = targetUserId then Some r
       else map_option ov_role (find (override_of pid uid) (visible ov_org T (db_overrides s))))"
  proof cases
    case upd
    have ex: "find (\<lambda>q. ov_org q = tx_org T \<and> override_of projectId targetUserId q) (db_overrides s) \<noteq> None"
      using upd(1) by (auto simp: find_None_iff list_ex_iff override_clash_def override_of_def)
    have s': "db_overrides s' = update_where ov_org T (override_of projectId targetUserId) ?f (db_overrides s)"
      unfolding upd(2) by simp
    have f: "find (override_of pid uid) (visible ov_org T (db_overrides s')) =
        map_option (\<lambda>q. if override_of projectId targetUserId q then ?f q else q)
          (find (override_of pid uid) (visible ov_org T (db_overrides s)))"
      unfolding s' find_visible by (rule find_update_where) (simp_all add: Q)
    show ?thesis
    proof (cases "pid = projectId \<and> uid = targetUserId")
      case True
      obtain q where q: "find (override_of pid uid) (visible ov_org T (db_overrides s)) = Some q"
        using ex True by (auto simp: find_visible)
      then have "override_of projectId targetUserId q" using find_SomeD[OF q] True by simp
      then show ?thesis using f q True by simp
    next
      case False
      have "\<not> override_of projectId targetUserId q"
        if "find (override_of pid uid) (visible ov_org T (db_overrides s)) = Some q" for q
        using find_SomeD[OF that] False by (auto simp: override_of_def)
      then show ?thesis using f False
        by (cases "find (override_of pid uid) (visible ov_org T (db_overrides s))") auto
    qed
  next
    case ins
    then have "find (\<lambda>q. ov_org q = tx_org T \<and> override_of projectId targetUserId q) (db_overrides s) = None"
      by (auto simp: find_None_iff list_ex_iff override_clash_def override_of_def)
    then show ?thesis
      by (auto simp: ins(2) find_visible find_append override_of_def split: option.splits)
  qed
qed

text \<open>
  C7: setting a project role takes a manager of the organization's members, never makes an owner,
  changes the context of exactly that user in exactly that project, and leaves one event in the
  audit trail.
\<close>
theorem set_override_effect:
  assumes "set_override T actorUserId projectId targetUserId r s = Inr (u, s')"
  shows "permitted T actorUserId None False Org_members_manage s \<and> r \<noteq> Owner
    \<and> map_option project_role (context_at T targetUserId (Some projectId) prot s') = Some (Some r)
    \<and> (uid \<noteq> targetUserId \<or> pid \<noteq> Some projectId \<longrightarrow> context_at T uid pid prot s' = context_at T uid pid prot s)
    \<and> length (db_audit s') = Suc (length (db_audit s))"
proof -
  obtain t where p: "permitted T actorUserId None False Org_members_manage s"
    and target: "find (active_membership targetUserId) (visible m_org T (db_memberships s)) \<noteq> None"
    and up: "upsert_override T actorUserId projectId targetUserId r s = Inr ((), t)"
    and rec: "record_in_transaction T (override_event T actorUserId projectId targetUserId
      (map_option ov_role (find (override_of projectId targetUserId) (visible ov_org T (db_overrides s))))
      (Some r)) t = Inr (u, s')"
    using assms by (auto simp: set_override_def op_simps permit_Inr select_rows_def first_row_filter)
  note up' = upsert_override_find[OF up]
  obtain g where t: "t = db_overrides_update g s" using up'(3) by blast
  have "db_overrides s' = db_overrides t" "db_memberships s' = db_memberships t"
    and audit: "length (db_audit s') = Suc (length (db_audit t))"
    using rec by (auto simp: record_Inr)
  then have o: "db_overrides s' = db_overrides t" and m: "db_memberships s' = db_memberships s"
    and a: "length (db_audit s') = Suc (length (db_audit s))"
    using t by auto
  have "context_at T uid pid prot s' = context_at T uid pid prot s"
    if "uid \<noteq> targetUserId \<or> pid \<noteq> Some projectId"
    using that up'(2) by (cases pid) (auto simp: context_at_def m o)
  then show ?thesis
    using p target up'(1,2) a by (auto simp: context_at_def m o)
qed

text \<open>A small organization for witnesses: an owner and a member.\<close>

definition demo_membership :: "uuid \<Rightarrow> role \<Rightarrow> membership_row" where
  "demo_membership userId r = \<lparr>m_org = ''o'', m_user = userId, m_role = r, m_status = Status_active,
     m_invited_by = None, m_created = 0, m_updated = 0\<rparr>"

definition demo_db :: db where
  "demo_db = empty_db\<lparr>db_memberships := [demo_membership ''u'' Owner, demo_membership ''w'' Member]\<rparr>"

theorem set_override_effect_witness:
  "\<exists>s'. set_override demo_tx ''u'' ''p'' ''w'' Read_only demo_db = Inr ((), s')
     \<and> map_option project_role (context_at demo_tx ''w'' (Some ''p'') False s') = Some (Some Read_only)"
proof -
  let ?e = "override_event demo_tx ''u'' ''p'' ''w'' None (Some Read_only)"
  have "\<not> isl (metadata_for ?e)" by code_simp
  then have m: "\<exists>m. metadata_for ?e = Inr m" by (metis isl_def old.sum.exhaust)
  have e: "validate_event ?e = Inr ()" "event_org ?e = ''o''" "length (event_resource_type ?e) \<le> 80"
    by code_simp+
  have p: "permitted demo_tx ''u'' None False Org_members_manage demo_db" by code_simp
  have "\<exists>s'. set_override demo_tx ''u'' ''p'' ''w'' Read_only demo_db = Inr ((), s')"
    using m e p
    by (auto simp: set_override_def op_simps permit_Inr record_Inr select_rows_def upsert_Inr first_row_filter
        Let_def demo_db_def empty_db_def visible_def demo_tx_def demo_membership_def active_membership_def)
  then show ?thesis using set_override_effect[of demo_tx "''u''" "''p''" "''w''" Read_only demo_db] by blast
qed

end
