(* ===== verification/Envelope.thy ===== *)
theory Envelope
  imports Key_Store
begin

text \<open>
  \<^verbatim>\<open>EnvelopeEncryptionService\<close> of \<^verbatim>\<open>packages/crypto/src/index.ts\<close> over any data-key store and key
  wrapper, with its key cache. The lemmas are proved once for a store that meets the contract of
  \<open>Key_Store\<close>; the properties instantiate them.
\<close>

record encrypted_value =
  ev_algorithm :: string
  ev_key_version :: int
  ev_ciphertext :: bytes
  ev_nonce :: bytes
  ev_tag :: bytes

record cache_entry =
  cached_key :: bytes
  expires_at :: time

text \<open>A JavaScript \<^verbatim>\<open>Map\<close>: an association list in insertion order.\<close>

type_synonym key_cache = "(string \<times> cache_entry) list"

record 's encryption_service =
  es_store :: "'s data_key_store"
  es_wrapper :: key_wrapper
  es_cache_ttl :: int
  es_max_entries :: int

definition new_encryption_service ::
  "'s data_key_store \<Rightarrow> key_wrapper \<Rightarrow> int \<Rightarrow> int \<Rightarrow> error + 's encryption_service" where
  "new_encryption_service St W ttl maxEntries =
     (if ttl < 0 \<or> \<not> is_safe_integer maxEntries \<or> maxEntries < 1
      then Inl (Crypto_error Invalid_configuration)
      else Inr \<lparr>es_store = St, es_wrapper = W, es_cache_ttl = ttl, es_max_entries = maxEntries\<rparr>)"

definition cache_key :: "uuid \<Rightarrow> int \<Rightarrow> string" where
  "cache_key orgId version = orgId @ '':'' @ js_int version"

text \<open>\<^verbatim>\<open>#loadKey\<close>, at the time \<open>now\<close>. The cache changes even when the unwrapping fails.\<close>

definition load_key ::
  "'s encryption_service \<Rightarrow> time \<Rightarrow> data_key_record \<Rightarrow> key_cache \<Rightarrow> (error + bytes) \<times> key_cache" where
  "load_key sv now r cache =
     (let k = cache_key (dk_org r) (dk_version r);
          hit = map_of cache k
      in if hit \<noteq> None \<and> now < expires_at (the hit) then (Inr (cached_key (the hit)), cache)
         else let cache1 = (if hit \<noteq> None then AList.delete k cache else cache)
              in case unwrap (es_wrapper sv) (dk_org r) (dk_version r) (dk_wrapped r) of
                   Inl e \<Rightarrow> (Inl e, cache1)
                 | Inr key \<Rightarrow>
                     let cache2 = (if es_max_entries sv \<le> int (length cache1) then
                                     (case cache1 of [] \<Rightarrow> cache1 | (oldest, _) # _ \<Rightarrow> AList.delete oldest cache1)
                                   else cache1)
                     in (Inr key, AList.update k \<lparr>cached_key = key, expires_at = now + es_cache_ttl sv\<rparr> cache2))"

definition generate_wrapped_key ::
  "platform \<Rightarrow> key_wrapper \<Rightarrow> nat \<Rightarrow> uuid \<Rightarrow> wrapped_key_factory" where
  "generate_wrapped_key P W draw orgId version =
     wrap W (draw + 1) orgId version (random_bytes P draw key_bytes)"

text \<open>
  \<^verbatim>\<open>encrypt\<close>: the draws \<open>draw\<close> and \<open>draw + 1\<close> make a new data key and the nonce it is wrapped
  under, if one is needed; \<open>draw + 2\<close> makes the nonce of the value.
\<close>

definition encrypt ::
  "platform \<Rightarrow> 's encryption_service \<Rightarrow> time \<Rightarrow> nat \<Rightarrow> bytes \<Rightarrow> encryption_context \<Rightarrow>
     key_cache \<Rightarrow> 's \<Rightarrow> (error + encrypted_value) \<times> key_cache \<times> 's" where
  "encrypt P sv now draw plaintext ctx cache s =
     (case secret_aad ctx of
        Inl e \<Rightarrow> (Inl e, cache, s)
      | Inr aad \<Rightarrow>
          (case ensure_active (es_store sv) (context_org ctx)
                  (generate_wrapped_key P (es_wrapper sv) draw (context_org ctx)) s of
             (Inl e, s') \<Rightarrow> (Inl e, cache, s')
           | (Inr r, s') \<Rightarrow>
               (case load_key sv now r cache of
                  (Inl e, cache') \<Rightarrow> (Inl e, cache', s')
                | (Inr key, cache') \<Rightarrow>
                    let nonce = random_bytes P (draw + 2) nonce_bytes;
                        sealed = gcm_seal P key nonce aad plaintext
                    in (Inr \<lparr>ev_algorithm = algorithm_name, ev_key_version = dk_version r,
                             ev_ciphertext = fst sealed, ev_nonce = nonce, ev_tag = snd sealed\<rparr>,
                        cache', s'))))"

text \<open>The \<^verbatim>\<open>catch\<close> of \<^verbatim>\<open>decrypt\<close>: every failure but an invalid context is the same error.\<close>

definition decrypt_failure :: "error \<Rightarrow> error" where
  "decrypt_failure e = (if e = Crypto_error Invalid_context then e else Crypto_error Decryption_failed)"

definition decrypt ::
  "platform \<Rightarrow> 's encryption_service \<Rightarrow> time \<Rightarrow> encrypted_value \<Rightarrow> encryption_context \<Rightarrow>
     key_cache \<Rightarrow> 's \<Rightarrow> (error + bytes) \<times> key_cache" where
  "decrypt P sv now ev ctx cache s =
     (if ev_algorithm ev \<noteq> algorithm_name \<or> length (ev_nonce ev) \<noteq> nonce_bytes
         \<or> length (ev_tag ev) \<noteq> tag_bytes
      then (Inl (Crypto_error Decryption_failed), cache)
      else case get_version (es_store sv) (context_org ctx) (ev_key_version ev) s of
             None \<Rightarrow> (Inl (Crypto_error Decryption_failed), cache)
           | Some r \<Rightarrow>
               (case load_key sv now r cache of
                  (Inl e, cache') \<Rightarrow> (Inl (decrypt_failure e), cache')
                | (Inr key, cache') \<Rightarrow>
                    (case secret_aad ctx of
                       Inl e \<Rightarrow> (Inl (decrypt_failure e), cache')
                     | Inr aad \<Rightarrow>
                         (case gcm_open P key (ev_nonce ev) aad (ev_ciphertext ev) (ev_tag ev) of
                            None \<Rightarrow> (Inl (Crypto_error Decryption_failed), cache')
                          | Some m \<Rightarrow> (Inr m, cache')))))"

definition rotate_data_key ::
  "platform \<Rightarrow> 's encryption_service \<Rightarrow> nat \<Rightarrow> uuid \<Rightarrow> 's \<Rightarrow> (error + int) \<times> 's" where
  "rotate_data_key P sv draw orgId s =
     (if orgId = [] then (Inl (Crypto_error Invalid_context), s)
      else case rotate_key (es_store sv) orgId (generate_wrapped_key P (es_wrapper sv) draw orgId) s of
             (Inl e, s') \<Rightarrow> (Inl e, s')
           | (Inr r, s') \<Rightarrow> (Inr (dk_version r), s'))"

definition clear_key_cache :: "key_cache \<Rightarrow> key_cache" where
  "clear_key_cache cache = []"

definition encrypted_values_equal :: "encrypted_value \<Rightarrow> encrypted_value \<Rightarrow> bool" where
  "encrypted_values_equal l r \<longleftrightarrow>
     ev_algorithm l = ev_algorithm r \<and> ev_key_version l = ev_key_version r
     \<and> length (ev_ciphertext l) = length (ev_ciphertext r)
     \<and> length (ev_nonce l) = length (ev_nonce r) \<and> length (ev_tag l) = length (ev_tag r)
     \<and> ev_ciphertext l = ev_ciphertext r \<and> ev_nonce l = ev_nonce r \<and> ev_tag l = ev_tag r"

section \<open>The key cache\<close>

lemma append_colon_inject:
  "\<lbrakk>CHR '':'' \<notin> set u; CHR '':'' \<notin> set v; a @ CHR '':'' # u = b @ CHR '':'' # v\<rbrakk> \<Longrightarrow> a = b \<and> u = v"
proof (induction a arbitrary: b)
  case Nil
  then show ?case by (cases b) auto
next
  case (Cons x a)
  then show ?case by (cases b) auto
qed

lemma colon_js_int: "CHR '':'' \<notin> set (js_int i)"
  using js_nat_digits[of "CHR '':''"] by (auto simp: js_int_def is_digit_def)

lemma cache_key_inject [simp]: "cache_key o1 v1 = cache_key o2 v2 \<longleftrightarrow> o1 = o2 \<and> v1 = v2"
  using append_colon_inject[OF colon_js_int colon_js_int, of o1 v1 o2 v2]
  by (auto simp: cache_key_def js_int_inject)

text \<open>
  A cache is coherent with a store when every entry is what unwrapping the stored record of its
  organization and version gives.
\<close>

definition coherent :: "'s encryption_service \<Rightarrow> 's \<Rightarrow> key_cache \<Rightarrow> bool" where
  "coherent sv s cache \<longleftrightarrow> distinct (map fst cache) \<and>
     (\<forall>orgId v e. map_of cache (cache_key orgId v) = Some e \<longrightarrow>
       (\<exists>q. get_version (es_store sv) orgId v s = Some q \<and>
            unwrap (es_wrapper sv) orgId v (dk_wrapped q) = Inr (cached_key e)))"

lemma coherent_Nil [simp]: "coherent sv s []"
  by (simp add: coherent_def)

lemma map_of_delete_Some: "map_of (AList.delete k al) k' = Some e \<Longrightarrow> map_of al k' = Some e"
  by (simp add: delete_conv' split: if_splits)

lemma distinct_delete: "distinct (map fst al) \<Longrightarrow> distinct (map fst (AList.delete k al))"
  by (rule distinct_delete)

lemma coherent_delete: "coherent sv s cache \<Longrightarrow> coherent sv s (AList.delete k cache)"
  unfolding coherent_def by (metis distinct_delete map_of_delete_Some)

lemma coherentD:
  "coherent sv s cache \<Longrightarrow> map_of cache (cache_key orgId v) = Some e \<Longrightarrow>
     \<exists>q. get_version (es_store sv) orgId v s = Some q \<and>
         unwrap (es_wrapper sv) orgId v (dk_wrapped q) = Inr (cached_key e)"
  unfolding coherent_def by blast

text \<open>The eviction of \<^verbatim>\<open>keys().next().value\<close>, the oldest entry.\<close>

definition evict :: "int \<Rightarrow> key_cache \<Rightarrow> key_cache" where
  "evict maxEntries cache = (if maxEntries \<le> int (length cache) then
     (case cache of [] \<Rightarrow> cache | (oldest, _) # _ \<Rightarrow> AList.delete oldest cache) else cache)"

definition drop_hit :: "string \<Rightarrow> key_cache \<Rightarrow> key_cache" where
  "drop_hit k cache = (if map_of cache k \<noteq> None then AList.delete k cache else cache)"

lemma coherent_evict: "coherent sv s cache \<Longrightarrow> coherent sv s (evict n cache)"
  unfolding evict_def by (cases cache) (auto split: prod.split simp del: AList.delete_simps intro: coherent_delete)

lemma coherent_drop_hit: "coherent sv s cache \<Longrightarrow> coherent sv s (drop_hit k cache)"
  by (auto simp: drop_hit_def coherent_delete)

lemma load_key_cases:
  "load_key sv now r cache =
     (let k = cache_key (dk_org r) (dk_version r);
          cache1 = drop_hit k cache
      in case map_of cache k of
           Some e \<Rightarrow> if now < expires_at e then (Inr (cached_key e), cache)
             else (case unwrap (es_wrapper sv) (dk_org r) (dk_version r) (dk_wrapped r) of
                     Inl e \<Rightarrow> (Inl e, cache1)
                   | Inr key \<Rightarrow> (Inr key, AList.update k \<lparr>cached_key = key, expires_at = now + es_cache_ttl sv\<rparr>
                       (evict (es_max_entries sv) cache1)))
         | None \<Rightarrow> (case unwrap (es_wrapper sv) (dk_org r) (dk_version r) (dk_wrapped r) of
                     Inl e \<Rightarrow> (Inl e, cache1)
                   | Inr key \<Rightarrow> (Inr key, AList.update k \<lparr>cached_key = key, expires_at = now + es_cache_ttl sv\<rparr>
                       (evict (es_max_entries sv) cache1))))"
  by (auto simp: load_key_def Let_def drop_hit_def evict_def simp del: AList.delete_simps
      split: option.split sum.split)

text \<open>The cache is transparent: whatever it holds, \<open>load_key\<close> gives what unwrapping gives.\<close>

lemma load_key_unwrap:
  assumes c: "coherent sv s cache"
    and q: "get_version (es_store sv) (dk_org r) (dk_version r) s = Some q" "dk_wrapped q = dk_wrapped r"
    and l: "load_key sv now r cache = (x, cache')"
  shows "x = unwrap (es_wrapper sv) (dk_org r) (dk_version r) (dk_wrapped r) \<and> coherent sv s cache'"
proof -
  let ?k = "cache_key (dk_org r) (dk_version r)"
  have u: "unwrap (es_wrapper sv) (dk_org r) (dk_version r) (dk_wrapped r) = Inr (cached_key e)"
    if "map_of cache ?k = Some e" for e
    using coherentD[OF c that] q by auto
  have "coherent sv s (AList.update ?k \<lparr>cached_key = key, expires_at = t\<rparr>
      (evict (es_max_entries sv) (drop_hit ?k cache)))"
    if "unwrap (es_wrapper sv) (dk_org r) (dk_version r) (dk_wrapped r) = Inr key" for key t
    using coherent_evict[OF coherent_drop_hit[OF c, of ?k], of "es_max_entries sv"] q that
    unfolding coherent_def by (auto simp: update_conv' distinct_update)
  then show ?thesis
    using l u c coherent_drop_hit[OF c, of ?k]
    by (auto simp: load_key_cases Let_def split: option.splits if_splits sum.splits)
qed

lemma length_delete_le: "length (AList.delete k al) \<le> length al"
  by (simp add: AList.delete_eq)

lemma length_update_le: "length (AList.update k v al) \<le> Suc (length al)"
  by (induction al) auto

lemma length_evict:
  "int (length cache) \<le> n \<Longrightarrow> 1 \<le> n \<Longrightarrow> int (length (evict n cache)) < n"
proof (cases cache)
  case (Cons p ps)
  have "length (AList.delete (fst p) ps) \<le> length ps" by (rule length_delete_le)
  then show "int (length cache) \<le> n \<Longrightarrow> ?thesis" using Cons by (cases p) (auto simp: evict_def)
qed (simp add: evict_def)

lemma load_key_bounded:
  assumes "int (length cache) \<le> es_max_entries sv" and "1 \<le> es_max_entries sv"
    and "load_key sv now r cache = (x, cache')"
  shows "int (length cache') \<le> es_max_entries sv"
proof -
  let ?k = "cache_key (dk_org r) (dk_version r)"
  have d: "int (length (drop_hit ?k cache)) \<le> es_max_entries sv"
    using assms(1) length_delete_le[of ?k cache] by (auto simp: drop_hit_def)
  have "int (length (AList.update ?k e (evict (es_max_entries sv) (drop_hit ?k cache)))) \<le> es_max_entries sv"
    for e
    using length_update_le[of ?k e "evict (es_max_entries sv) (drop_hit ?k cache)"]
      length_evict[OF d assms(2)] by linarith
  then show ?thesis
    using assms(1,3) d
    by (auto simp: load_key_cases Let_def split: option.splits if_splits sum.splits)
qed

lemma load_key_coherent:
  assumes c: "coherent sv s cache" and l: "load_key sv now r cache = (x, cache')"
    and q: "get_version (es_store sv) (dk_org r) (dk_version r) s = Some q" "dk_wrapped q = dk_wrapped r"
  shows "coherent sv s cache'"
  using load_key_unwrap[OF c q l] by blast

section \<open>Encryption under a store that meets its contract\<close>

text \<open>Later states of a store know every key version of earlier ones, wrapped as it was.\<close>

definition keeps_keys :: "'s data_key_store \<Rightarrow> 's \<Rightarrow> 's \<Rightarrow> bool" where
  "keeps_keys St s t \<longleftrightarrow> (\<forall>orgId v q. get_version St orgId v s = Some q \<longrightarrow>
     (\<exists>q'. get_version St orgId v t = Some q' \<and> dk_wrapped q' = dk_wrapped q))"

lemma keeps_keys_refl: "keeps_keys St s s"
  by (simp add: keeps_keys_def)

lemma keeps_keys_trans: "keeps_keys St s t \<Longrightarrow> keeps_keys St t u \<Longrightarrow> keeps_keys St s u"
  unfolding keeps_keys_def by metis

lemma coherent_keeps:
  "coherent sv s cache \<Longrightarrow> keeps_keys (es_store sv) s t \<Longrightarrow> coherent sv t cache"
  unfolding coherent_def keeps_keys_def by metis

context data_key_store_contract
begin

lemma ensure_keeps_keys: "invar s \<Longrightarrow> ensure_active St orgId f s = (x, s') \<Longrightarrow> keeps_keys St s s'"
  unfolding keeps_keys_def using ensure_keeps by blast

lemma rotate_keeps_keys: "invar s \<Longrightarrow> rotate_key St orgId f s = (x, s') \<Longrightarrow> keeps_keys St s s'"
  unfolding keeps_keys_def using rotate_keeps by blast

lemma load_version:
  "\<lbrakk>invar s; es_store sv = St; coherent sv s cache; get_version St orgId v s = Some r;
    load_key sv now r cache = (x, cache')\<rbrakk> \<Longrightarrow>
   x = unwrap (es_wrapper sv) orgId v (dk_wrapped r) \<and> coherent sv s cache'"
  using load_key_unwrap[of sv s cache r r now x cache'] version_fields[of s orgId v r] by auto

text \<open>
  What a successful encryption leaves behind: a sealed value, and in the store the key record
  that unwraps to the key it was sealed with.
\<close>

lemma encrypt_sealed:
  assumes s: "invar s" and st: "es_store sv = St" and c: "coherent sv s cache"
    and e: "encrypt P sv now draw m ctx cache s = (Inr ev, cache', s')"
  obtains key q aad where "secret_aad ctx = Inr aad"
    and "get_version St (context_org ctx) (ev_key_version ev) s' = Some q"
    and "unwrap (es_wrapper sv) (context_org ctx) (ev_key_version ev) (dk_wrapped q) = Inr key"
    and "ev_algorithm ev = algorithm_name" and "ev_nonce ev = random_bytes P (draw + 2) nonce_bytes"
    and "(ev_ciphertext ev, ev_tag ev) = gcm_seal P key (ev_nonce ev) aad m"
    and "invar s'" and "coherent sv s' cache'"
proof -
  obtain aad where aad: "secret_aad ctx = Inr aad" using e by (auto simp: encrypt_def split: sum.splits)
  let ?f = "generate_wrapped_key P (es_wrapper sv) draw (context_org ctx)"
  obtain r where r: "ensure_active St (context_org ctx) ?f s = (Inr r, s')"
    and "\<exists>key. load_key sv now r cache = (Inr key, cache')"
    using e aad st by (auto simp: encrypt_def Let_def split: sum.splits prod.splits)
  then obtain key where l: "load_key sv now r cache = (Inr key, cache')" by blast
  have s': "invar s'" by (rule ensure_invar[OF s r])
  have r': "dk_org r = context_org ctx" "get_version St (context_org ctx) (dk_version r) s' = Some r"
    using ensure_ok[OF s r] by auto
  have c': "coherent sv s' cache"
    using coherent_keeps[OF c] ensure_keeps_keys[OF s r] st by simp
  have u: "Inr key = unwrap (es_wrapper sv) (context_org ctx) (dk_version r) (dk_wrapped r)"
    "coherent sv s' cache'"
    using load_version[OF s' st c' r'(2) l] by auto
  have ev: "ev = \<lparr>ev_algorithm = algorithm_name, ev_key_version = dk_version r,
      ev_ciphertext = fst (gcm_seal P key (random_bytes P (draw + 2) nonce_bytes) aad m),
      ev_nonce = random_bytes P (draw + 2) nonce_bytes,
      ev_tag = snd (gcm_seal P key (random_bytes P (draw + 2) nonce_bytes) aad m)\<rparr>"
    using e aad r l st by (simp add: encrypt_def Let_def)
  show thesis
    by (rule that[of aad r key]) (use aad r' u s' ev in auto)
qed

lemma decrypt_encrypt:
  assumes P: "gcm_correct P" "gcm_lengths P" "random_lengths P"
    and s: "invar s" and st: "es_store sv = St" and c: "coherent sv s cache"
    and e: "encrypt P sv now draw m ctx cache s = (Inr ev, cache', s')"
    and t: "invar t" and ct: "coherent sv t cache2"
    and keeps: "keeps_keys St s' t"
  shows "fst (decrypt P sv now2 ev ctx cache2 t) = Inr m"
proof -
  obtain key q aad where aad: "secret_aad ctx = Inr aad"
    and q: "get_version St (context_org ctx) (ev_key_version ev) s' = Some q"
    and u: "unwrap (es_wrapper sv) (context_org ctx) (ev_key_version ev) (dk_wrapped q) = Inr key"
    and ev: "ev_algorithm ev = algorithm_name" "ev_nonce ev = random_bytes P (draw + 2) nonce_bytes"
      "(ev_ciphertext ev, ev_tag ev) = gcm_seal P key (ev_nonce ev) aad m"
    by (rule encrypt_sealed[OF s st c e])
  obtain q' where q': "get_version St (context_org ctx) (ev_key_version ev) t = Some q'"
    "dk_wrapped q' = dk_wrapped q"
    using keeps q unfolding keeps_keys_def by blast
  obtain x c2 where l: "load_key sv now2 q' cache2 = (x, c2)" by fastforce
  have x: "x = Inr key" using load_version[OF t st ct q'(1) l] q'(2) u by simp
  have seal: "ev_ciphertext ev = fst (gcm_seal P key (ev_nonce ev) aad m)"
    "ev_tag ev = snd (gcm_seal P key (ev_nonce ev) aad m)"
    using ev(3) by (metis fst_conv, metis snd_conv)
  have "gcm_open P key (ev_nonce ev) aad (ev_ciphertext ev) (ev_tag ev) = Some m"
    using P(1) by (simp add: seal gcm_correct_def)
  moreover have "length (ev_nonce ev) = nonce_bytes" using P(3) by (simp add: ev(2) random_lengths_def)
  moreover have "length (ev_tag ev) = tag_bytes"
    using P(2) by (simp add: seal gcm_lengths_def tag_bytes_def)
  ultimately show ?thesis using l x aad q'(1) ev(1) st by (simp add: decrypt_def)
qed

text \<open>A sealed value does not open in another context of the same organization and key.\<close>

lemma decrypt_other_context:
  assumes s: "invar s" and st: "es_store sv = St" and c: "coherent sv s cache"
    and e: "encrypt P sv now draw m ctx cache s = (Inr ev, cache', s')"
    and t: "invar t" and ct: "coherent sv t cache2"
    and keeps: "keeps_keys St s' t"
    and other: "ctx' \<noteq> ctx" "context_org ctx' = context_org ctx"
    and binds: "\<And>key aad. secret_aad ctx = Inr aad \<Longrightarrow> gcm_binds_aad P key (ev_nonce ev) aad m"
  shows "\<exists>err. fst (decrypt P sv now2 ev ctx' cache2 t) = Inl (Crypto_error err)"
proof -
  obtain key q aad where aad: "secret_aad ctx = Inr aad"
    and q: "get_version St (context_org ctx) (ev_key_version ev) s' = Some q"
    and u: "unwrap (es_wrapper sv) (context_org ctx) (ev_key_version ev) (dk_wrapped q) = Inr key"
    and ev: "(ev_ciphertext ev, ev_tag ev) = gcm_seal P key (ev_nonce ev) aad m"
    by (rule encrypt_sealed[OF s st c e])
  obtain q' where q': "get_version St (context_org ctx) (ev_key_version ev) t = Some q'"
    "dk_wrapped q' = dk_wrapped q"
    using keeps q unfolding keeps_keys_def by blast
  obtain x c2 where l: "load_key sv now2 q' cache2 = (x, c2)" by fastforce
  have x: "x = Inr key" using load_version[OF t st ct q'(1) l] q'(2) u by simp
  have seal: "ev_ciphertext ev = fst (gcm_seal P key (ev_nonce ev) aad m)"
    "ev_tag ev = snd (gcm_seal P key (ev_nonce ev) aad m)"
    using ev by (metis fst_conv, metis snd_conv)
  have none: "gcm_open P key (ev_nonce ev) aad' (ev_ciphertext ev) (ev_tag ev) = None"
    if "secret_aad ctx' = Inr aad'" for aad'
  proof -
    have "aad' \<noteq> aad" using that aad other(1) aad_injective by blast
    then show ?thesis using binds[OF aad] by (simp add: gcm_binds_aad_def seal)
  qed
  show ?thesis
    using l x q'(1) st other(2) none
    by (auto simp: decrypt_def decrypt_failure_def secret_aad_def split: sum.splits option.splits if_splits)
qed

text \<open>Every operation, whether it succeeds or not, keeps the invariant, the cache and the keys.\<close>

lemma encrypt_step:
  assumes s: "invar s" and st: "es_store sv = St" and c: "coherent sv s cache"
    and e: "encrypt P sv now draw m ctx cache s = (x, cache', s')"
  shows "invar s' \<and> coherent sv s' cache' \<and> keeps_keys St s s'"
proof (cases "secret_aad ctx")
  case (Inl err)
  then show ?thesis using e s c by (simp add: encrypt_def keeps_keys_refl)
next
  case (Inr aad)
  let ?f = "generate_wrapped_key P (es_wrapper sv) draw (context_org ctx)"
  obtain y s1 where en: "ensure_active St (context_org ctx) ?f s = (y, s1)" by fastforce
  have s1: "s' = s1" using e Inr en st
    by (auto simp: encrypt_def Let_def split: sum.splits prod.splits)
  have k: "keeps_keys St s s'" and i: "invar s'"
    using ensure_keeps_keys[OF s en] ensure_invar[OF s en] s1 by auto
  have c1: "coherent sv s' cache" using coherent_keeps[OF c] k st by simp
  have "coherent sv s' cache'"
  proof (cases y)
    case (Inl err)
    then show ?thesis using e Inr en st c1 by (simp add: encrypt_def)
  next
    case y: (Inr r)
    obtain z c2 where l: "load_key sv now r cache = (z, c2)" by fastforce
    have "cache' = c2" using e Inr en st y l by (auto simp: encrypt_def Let_def split: sum.splits)
    moreover have "coherent sv s' c2"
      using load_key_coherent[OF c1 l] ensure_ok[OF s en[unfolded y]] s1 st by simp
    ultimately show ?thesis by simp
  qed
  then show ?thesis using k i by blast
qed

lemma decrypt_step:
  assumes s: "invar s" and st: "es_store sv = St" and c: "coherent sv s cache"
    and d: "decrypt P sv now ev ctx cache s = (x, cache')"
  shows "coherent sv s cache'"
proof (cases "get_version St (context_org ctx) (ev_key_version ev) s")
  case None
  then show ?thesis using d c st by (auto simp: decrypt_def split: if_splits)
next
  case (Some r)
  obtain z c2 where l: "load_key sv now r cache = (z, c2)" by fastforce
  have "coherent sv s c2" using load_version[OF s st c Some l] by blast
  moreover have "cache' = cache \<or> cache' = c2"
    using d Some l st by (auto simp: decrypt_def split: if_splits sum.splits option.splits)
  ultimately show ?thesis using c by blast
qed

lemma rotate_step:
  assumes s: "invar s" and st: "es_store sv = St" and c: "coherent sv s cache"
    and r: "rotate_data_key P sv draw orgId s = (x, s')"
  shows "invar s' \<and> coherent sv s' cache \<and> keeps_keys St s s'"
proof (cases "orgId = []")
  case True
  then show ?thesis using r s c by (simp add: rotate_data_key_def keeps_keys_refl)
next
  case False
  obtain y s1 where ro: "rotate_key St orgId (generate_wrapped_key P (es_wrapper sv) draw orgId) s = (y, s1)"
    by fastforce
  have "s' = s1" using r ro st False by (auto simp: rotate_data_key_def split: sum.splits)
  then show ?thesis
    using rotate_keeps_keys[OF s ro] rotate_invar[OF s ro] coherent_keeps[OF c] st by simp
qed

end

section \<open>A service on the in-memory store\<close>

definition memory_service :: "platform \<Rightarrow> master_key \<Rightarrow> int \<Rightarrow> int \<Rightarrow> time \<Rightarrow> memory_store encryption_service" where
  "memory_service P mk ttl maxEntries now =
     \<lparr>es_store = memory_store now, es_wrapper = local_master_key P mk,
      es_cache_ttl = ttl, es_max_entries = maxEntries\<rparr>"

text \<open>A history of calls, each with its time and the number of its first random draw.\<close>

datatype service_call =
    Call_encrypt time nat bytes encryption_context
  | Call_decrypt time encrypted_value encryption_context
  | Call_rotate time nat uuid
  | Call_clear

fun run_call ::
  "platform \<Rightarrow> master_key \<Rightarrow> int \<Rightarrow> int \<Rightarrow> service_call \<Rightarrow> key_cache \<times> memory_store \<Rightarrow> key_cache \<times> memory_store"
where
  "run_call P mk ttl mx (Call_encrypt now draw m ctx) (cache, s) =
     snd (encrypt P (memory_service P mk ttl mx now) now draw m ctx cache s)"
| "run_call P mk ttl mx (Call_decrypt now ev ctx) (cache, s) =
     (snd (decrypt P (memory_service P mk ttl mx now) now ev ctx cache s), s)"
| "run_call P mk ttl mx (Call_rotate now draw orgId) (cache, s) =
     (cache, snd (rotate_data_key P (memory_service P mk ttl mx now) draw orgId s))"
| "run_call P mk ttl mx Call_clear (cache, s) = (clear_key_cache cache, s)"

definition run_calls ::
  "platform \<Rightarrow> master_key \<Rightarrow> int \<Rightarrow> int \<Rightarrow> service_call list \<Rightarrow> key_cache \<times> memory_store \<Rightarrow> key_cache \<times> memory_store"
where
  "run_calls P mk ttl mx cs st = fold (run_call P mk ttl mx) cs st"

lemma run_calls_Nil: "run_calls P mk ttl mx [] st = st"
  by (simp add: run_calls_def)

definition service_ok :: "platform \<Rightarrow> master_key \<Rightarrow> key_cache \<times> memory_store \<Rightarrow> bool" where
  "service_ok P mk st \<longleftrightarrow> memory_invar (snd st) \<and> coherent (memory_service P mk 0 0 0) (snd st) (fst st)"

lemma memory_service_simps [simp]:
  "es_store (memory_service P mk ttl mx now) = memory_store now"
  "es_wrapper (memory_service P mk ttl mx now) = local_master_key P mk"
  "es_cache_ttl (memory_service P mk ttl mx now) = ttl"
  "es_max_entries (memory_service P mk ttl mx now) = mx"
  by (simp_all add: memory_service_def)

lemma memory_coherent:
  "coherent (memory_service P mk ttl mx now) s cache = coherent (memory_service P mk 0 0 0) s cache"
  by (simp add: coherent_def memory_store_def)

lemma memory_keeps: "keeps_keys (memory_store now) = keeps_keys (memory_store 0)"
  by (simp add: fun_eq_iff keeps_keys_def memory_store_def)

lemma service_ok_initial: "service_ok P mk ([], [])"
  by (simp add: service_ok_def memory_invar_def memory_records_def)

lemma run_call_ok:
  assumes ok: "service_ok P mk st"
  shows "service_ok P mk (run_call P mk ttl mx c st)
    \<and> keeps_keys (memory_store 0) (snd st) (snd (run_call P mk ttl mx c st))"
proof -
  obtain cache s where st: "st = (cache, s)" by fastforce
  have i: "memory_invar s" and c0: "coherent (memory_service P mk 0 0 0) s cache"
    using ok by (simp_all add: service_ok_def st)
  then have co: "coherent (memory_service P mk ttl mx now) s cache" for now
    by (simp add: memory_coherent[of P mk ttl])
  show ?thesis
  proof (cases c)
    case (Call_encrypt now draw m ctx)
    obtain x cache' s' where e: "encrypt P (memory_service P mk ttl mx now) now draw m ctx cache s = (x, cache', s')"
      by (metis surj_pair)
    show ?thesis using memory.encrypt_step[OF i memory_service_simps(1) co e]
      by (simp add: Call_encrypt st e service_ok_def memory_coherent[of P mk ttl] memory_keeps[of now])
  next
    case (Call_decrypt now ev ctx)
    obtain x cache' where d: "decrypt P (memory_service P mk ttl mx now) now ev ctx cache s = (x, cache')"
      by (metis surj_pair)
    show ?thesis using memory.decrypt_step[OF i memory_service_simps(1) co d] i
      by (simp add: Call_decrypt st d service_ok_def memory_coherent[of P mk ttl] keeps_keys_refl)
  next
    case (Call_rotate now draw orgId)
    obtain x s' where r: "rotate_data_key P (memory_service P mk ttl mx now) draw orgId s = (x, s')"
      by (metis surj_pair)
    show ?thesis using memory.rotate_step[OF i memory_service_simps(1) co r]
      by (simp add: Call_rotate st r service_ok_def memory_coherent[of P mk ttl] memory_keeps[of now])
  next
    case Call_clear
    then show ?thesis using i by (simp add: st service_ok_def clear_key_cache_def keeps_keys_refl)
  qed
qed

lemma run_calls_ok:
  "service_ok P mk st \<Longrightarrow> service_ok P mk (run_calls P mk ttl mx cs st)
     \<and> keeps_keys (memory_store 0) (snd st) (snd (run_calls P mk ttl mx cs st))"
proof (induction cs arbitrary: st)
  case Nil
  then show ?case by (simp add: run_calls_def keeps_keys_refl)
next
  case (Cons c cs)
  let ?st = "run_call P mk ttl mx c st"
  have eq: "run_calls P mk ttl mx (c # cs) st = run_calls P mk ttl mx cs ?st"
    by (simp add: run_calls_def)
  have a: "service_ok P mk ?st" "keeps_keys (memory_store 0) (snd st) (snd ?st)"
    using run_call_ok[OF Cons.prems] by auto
  show ?case unfolding eq using Cons.IH[OF a(1)] keeps_keys_trans[OF a(2)] by blast
qed

lemma memory_decrypt_service:
  "decrypt P (memory_service P mk ttl mx a) t ev ctx cache s
     = decrypt P (memory_service P mk ttl mx b) t ev ctx cache s"
proof -
  have "load_key (memory_service P mk ttl mx a) = load_key (memory_service P mk ttl mx b)"
    by (intro ext) (unfold load_key_def memory_service_simps, rule refl)
  then show ?thesis by (simp add: decrypt_def memory_store_def split: option.split)
qed

lemma run_calls_history:
  assumes "run_calls P mk ttl mx before ([], []) = (cache, s)"
    and "encrypt P (memory_service P mk ttl mx now) now draw m ctx cache s = (Inr ev, cache', s')"
    and "run_calls P mk ttl mx after (cache', s') = (cache2, t)"
  shows "memory_invar s" and "memory_invar t"
    and "coherent (memory_service P mk ttl mx now) s cache"
    and "coherent (memory_service P mk ttl mx now) t cache2"
    and "keeps_keys (memory_store now) s' t"
proof -
  have s: "service_ok P mk (cache, s)"
    using run_calls_ok[OF service_ok_initial, of P mk ttl mx before] assms(1) by simp
  then have s1: "service_ok P mk (cache', s')"
    using run_call_ok[OF s, of ttl mx "Call_encrypt now draw m ctx"] assms(2) by simp
  then have t: "service_ok P mk (cache2, t)" "keeps_keys (memory_store 0) s' t"
    using run_calls_ok[OF s1, of ttl mx after] assms(3) by simp_all
  show "memory_invar s" "memory_invar t" "coherent (memory_service P mk ttl mx now) s cache"
    "coherent (memory_service P mk ttl mx now) t cache2" "keeps_keys (memory_store now) s' t"
    using s t by (simp_all add: service_ok_def memory_coherent[of P mk ttl] memory_keeps[of now])
qed

text \<open>The cache never outgrows its bound.\<close>

lemma load_key_bounded_pair:
  "\<lbrakk>int (length cache) \<le> mx; 1 \<le> mx; es_max_entries sv = mx\<rbrakk> \<Longrightarrow>
     int (length (snd (load_key sv now r cache))) \<le> mx"
  using load_key_bounded[of cache sv now r] by (cases "load_key sv now r cache") auto

lemma snd_load_key:
  "\<lbrakk>load_key sv now r cache = (x, cache'); int (length cache) \<le> mx; 1 \<le> mx; es_max_entries sv = mx\<rbrakk> \<Longrightarrow>
     int (length cache') \<le> mx"
  using load_key_bounded_pair[of cache mx sv now r] by simp

lemma encrypt_bounded:
  "\<lbrakk>int (length cache) \<le> mx; 1 \<le> mx; es_max_entries sv = mx\<rbrakk> \<Longrightarrow>
     int (length (fst (snd (encrypt P sv now draw m ctx cache s)))) \<le> mx"
  by (auto simp: encrypt_def Let_def snd_load_key split: sum.split prod.split)

lemma decrypt_bounded:
  "\<lbrakk>int (length cache) \<le> mx; 1 \<le> mx; es_max_entries sv = mx\<rbrakk> \<Longrightarrow>
     int (length (snd (decrypt P sv now ev ctx cache s))) \<le> mx"
  by (auto simp: decrypt_def snd_load_key split: sum.split prod.split option.split)

lemma run_calls_bounded:
  "\<lbrakk>int (length (fst st)) \<le> mx; 1 \<le> mx\<rbrakk> \<Longrightarrow> int (length (fst (run_calls P mk ttl mx cs st))) \<le> mx"
proof (induction cs arbitrary: st)
  case (Cons c cs)
  have "int (length (fst (run_call P mk ttl mx c st))) \<le> mx"
    using Cons.prems
    by (cases st; cases c) (auto simp: encrypt_bounded decrypt_bounded clear_key_cache_def)
  then show ?case using Cons.IH[of "run_call P mk ttl mx c st"] Cons.prems by (simp add: run_calls_def)
qed (simp add: run_calls_def)

text \<open>On the in-memory store with a working cipher every stored key can be unwrapped.\<close>

definition unwrappable :: "platform \<Rightarrow> master_key \<Rightarrow> memory_store \<Rightarrow> bool" where
  "unwrappable P mk s \<longleftrightarrow> (\<forall>orgId. \<forall>r\<in>set (memory_records orgId s).
     \<exists>key. master_unwrap P mk (dk_org r) (dk_version r) (dk_wrapped r) = Inr key)"

lemma generate_wrapped_key_total:
  "random_lengths P \<Longrightarrow> \<exists>w. generate_wrapped_key P (local_master_key P mk) draw orgId v = Inr w"
  unfolding generate_wrapped_key_def by (rule lmk.wrap_total) (simp add: random_lengths_def)

lemma generate_wrapped_key_unwraps:
  "gcm_correct P \<Longrightarrow> generate_wrapped_key P (local_master_key P mk) draw orgId v = Inr w \<Longrightarrow>
     \<exists>key. master_unwrap P mk orgId v w = Inr key"
  using lmk.unwrap_wrap by (fastforce simp: generate_wrapped_key_def local_master_key_def)

lemma memory_activate_total:
  "random_lengths P \<Longrightarrow>
     \<exists>r s'. memory_activate now orgId (generate_wrapped_key P (local_master_key P mk) draw orgId) s = (Inr r, s')"
  using generate_wrapped_key_total[of P mk draw orgId "next_version (memory_records orgId s)"]
  by (auto simp: memory_activate_def Let_def)

lemma memory_ensure_total:
  "random_lengths P \<Longrightarrow>
     \<exists>r s'. memory_ensure_active now orgId (generate_wrapped_key P (local_master_key P mk) draw orgId) s = (Inr r, s')"
  using memory_activate_total[of P now orgId mk draw s]
  by (cases "memory_get_active orgId s") (auto simp: memory_ensure_active_def)

lemma unwrappable_activate:
  assumes "gcm_correct P" and u: "unwrappable P mk s"
    and a: "memory_activate now orgId (generate_wrapped_key P (local_master_key P mk) draw orgId) s = (x, s')"
  shows "unwrappable P mk s'"
proof (cases x)
  case (Inl e)
  then show ?thesis using u by (auto simp: unwrappable_def memory_activate_records[OF a])
next
  case (Inr r)
  then have "\<exists>key. master_unwrap P mk (dk_org r) (dk_version r) (dk_wrapped r) = Inr key"
    using memory_activate_record[of now orgId _ s r s'] a generate_wrapped_key_unwraps[OF assms(1)] by metis
  then show ?thesis using u Inr by (auto simp: unwrappable_def memory_activate_records[OF a])
qed

lemma unwrappable_ensure:
  assumes "gcm_correct P" and "unwrappable P mk s"
    and "memory_ensure_active now orgId (generate_wrapped_key P (local_master_key P mk) draw orgId) s = (x, s')"
  shows "unwrappable P mk s'"
  using assms(2,3) unwrappable_activate[OF assms(1,2)]
  by (auto simp: memory_ensure_active_def split: option.splits)

lemma unwrappable_run_call:
  assumes "gcm_correct P" and u: "unwrappable P mk (snd st)"
  shows "unwrappable P mk (snd (run_call P mk ttl mx c st))"
proof -
  obtain cache s where st: "st = (cache, s)" by fastforce
  note u = u[unfolded st snd_conv]
  show ?thesis
  proof (cases c)
    case (Call_encrypt now draw m ctx)
    obtain x s' where e: "memory_ensure_active now (context_org ctx)
        (generate_wrapped_key P (local_master_key P mk) draw (context_org ctx)) s = (x, s')" by fastforce
    show ?thesis using unwrappable_ensure[OF assms(1) u e] u e
      by (auto simp: Call_encrypt st encrypt_def Let_def memory_store_def split: sum.split prod.split)
  next
    case (Call_rotate now draw orgId)
    obtain x s' where e: "memory_activate now orgId
        (generate_wrapped_key P (local_master_key P mk) draw orgId) s = (x, s')" by fastforce
    show ?thesis using unwrappable_activate[OF assms(1) u e] u e
      by (auto simp: Call_rotate st rotate_data_key_def memory_store_def split: sum.split)
  qed (use u in \<open>simp_all add: st\<close>)
qed

lemma unwrappable_run_calls:
  "gcm_correct P \<Longrightarrow> unwrappable P mk (snd st) \<Longrightarrow> unwrappable P mk (snd (run_calls P mk ttl mx cs st))"
  by (induction cs arbitrary: st) (simp_all add: run_calls_def unwrappable_run_call)

text \<open>With a working cipher, encryption and rotation succeed.\<close>

lemma rotate_total:
  "random_lengths P \<Longrightarrow> orgId \<noteq> [] \<Longrightarrow>
     \<exists>v. fst (rotate_data_key P (memory_service P mk ttl mx now) draw orgId s) = Inr v"
  using memory_activate_total[of P now orgId mk draw s] by (auto simp: rotate_data_key_def memory_store_def)

lemma encrypt_total:
  assumes P: "gcm_correct P" "random_lengths P"
    and h: "run_calls P mk ttl mx before ([], []) = (cache, s)"
    and v: "context_valid ctx"
  shows "\<exists>ev. fst (encrypt P (memory_service P mk ttl mx now) now draw m ctx cache s) = Inr ev"
proof -
  have ok: "memory_invar s" "coherent (memory_service P mk ttl mx now) s cache"
    using run_calls_ok[OF service_ok_initial, of P mk ttl mx before] h
    by (simp_all add: service_ok_def memory_coherent[of P mk ttl])
  have u: "unwrappable P mk s"
    using unwrappable_run_calls[OF P(1), of mk "([], [])" ttl mx before] h
    by (simp add: unwrappable_def memory_records_def)
  let ?f = "generate_wrapped_key P (local_master_key P mk) draw (context_org ctx)"
  obtain r s' where en: "memory_ensure_active now (context_org ctx) ?f s = (Inr r, s')"
    using memory_ensure_total[OF P(2)] by blast
  then have en': "ensure_active (memory_store now) (context_org ctx) ?f s = (Inr r, s')"
    by (simp add: memory_store_def)
  have v': "get_version (memory_store now) (context_org ctx) (dk_version r) s' = Some r"
    and i: "memory_invar s'" and o: "dk_org r = context_org ctx"
    using memory.ensure_ok[OF ok(1) en'] memory.ensure_invar[OF ok(1) en'] by auto
  have "r \<in> set (memory_records (context_org ctx) s')"
    using v' by (auto simp: memory_store_def memory_get_version_def dest: find_SomeD)
  then obtain key where key: "master_unwrap P mk (dk_org r) (dk_version r) (dk_wrapped r) = Inr key"
    using unwrappable_ensure[OF P(1) u en] by (auto simp: unwrappable_def)
  have c: "coherent (memory_service P mk ttl mx now) s' cache"
    using coherent_keeps[OF ok(2)] memory.ensure_keeps_keys[OF ok(1) en'] by simp
  obtain x c2 where l: "load_key (memory_service P mk ttl mx now) now r cache = (x, c2)" by fastforce
  have "x = Inr key"
    using memory.load_version[OF i memory_service_simps(1) c v' l] key o
    by (simp add: local_master_key_def)
  then show ?thesis using v l en' by (simp add: encrypt_def secret_aad_def Let_def)
qed

lemma encrypt_totalE:
  assumes "gcm_correct P" "random_lengths P" and "context_valid ctx"
  obtains ev cache s where
    "encrypt P (memory_service P mk ttl mx now) now draw m ctx [] [] = (Inr ev, cache, s)"
  using encrypt_total[OF assms(1,2) run_calls_Nil assms(3), of mk ttl mx now draw m]
  by (metis prod.collapse)

text \<open>A call for witnesses.\<close>

definition demo_key :: master_key where
  "demo_key = \<lparr>master_id = ''k'', master_bytes = replicate 32 7\<rparr>"

definition demo_context :: encryption_context where
  "demo_context = \<lparr>context_org = ''o'', context_project = ''p'', context_environment = ''e'',
     context_secret = ''s'', context_version = 1\<rparr>"

lemma demo_context_valid: "context_valid demo_context"
  by (simp add: demo_context_def context_valid_def is_safe_integer_def)

text \<open>A cipher that authenticates: the additional data is written in front of the plaintext.\<close>

definition framed :: "bytes \<Rightarrow> bytes" where
  "framed a = replicate (length a) 1 @ 0 # a"

definition binding_platform :: platform where
  "binding_platform = demo_platform\<lparr>
     gcm_seal := (\<lambda>k n a m. (framed a @ m, replicate 16 0)),
     gcm_open := (\<lambda>k n a c t. if take (length (framed a)) c = framed a
       then Some (drop (length (framed a)) c) else None)\<rparr>"

lemma replicate_append_zero_inject:
  "replicate i (1 :: byte) @ 0 # xs = replicate j 1 @ 0 # ys \<Longrightarrow> i = j \<and> xs = ys"
proof (induction i arbitrary: j)
  case 0
  then show ?case by (cases j) auto
next
  case (Suc i)
  then show ?case by (cases j) auto
qed

lemma framed_prefix: "take (length (framed a')) (framed a @ m) = framed a' \<Longrightarrow> a' = a"
proof -
  assume t: "take (length (framed a')) (framed a @ m) = framed a'"
  have "framed a @ m = framed a' @ drop (length (framed a')) (framed a @ m)"
    by (metis append_take_drop_id t)
  then have "replicate (length a) 1 @ 0 # (a @ m)
      = replicate (length a') 1 @ 0 # (a' @ drop (length (framed a')) (framed a @ m))"
    by (simp add: framed_def)
  from replicate_append_zero_inject[OF this]
  have "length a = length a'" and "a @ m = a' @ drop (length (framed a')) (framed a @ m)" by auto
  then show "a' = a" by (metis append_eq_append_conv)
qed

lemma binding_platform_binds: "gcm_binds_aad binding_platform key n a m"
  by (auto simp: gcm_binds_aad_def binding_platform_def simp del: take_append dest: framed_prefix)

lemma binding_gcm_correct: "gcm_correct binding_platform"
  by (simp add: gcm_correct_def binding_platform_def)

lemma binding_random_lengths: "random_lengths binding_platform"
  by (simp add: random_lengths_def binding_platform_def demo_platform_def)

section \<open>Properties\<close>

text \<open>
  C5: nothing that was encrypted is lost: a value the service returned decrypts to the plaintext
  in the same context, whatever encryptions, decryptions, key rotations and cache clearings came
  before and after it, with any cache lifetime and size.
\<close>
theorem decrypt_after_history:
  assumes "gcm_correct P" and "gcm_lengths P" and "random_lengths P"
    and before: "run_calls P mk ttl mx before ([], []) = (cache, s)"
    and e: "encrypt P (memory_service P mk ttl mx now) now draw m ctx cache s = (Inr ev, cache', s')"
    and after: "run_calls P mk ttl mx after (cache', s') = (cache2, t)"
  shows "fst (decrypt P (memory_service P mk ttl mx now2) now2 ev ctx cache2 t) = Inr m"
proof -
  note h = run_calls_history[OF before e after]
  show ?thesis
    by (subst memory_decrypt_service[where b = now])
      (rule memory.decrypt_encrypt[OF assms(1-3) h(1) memory_service_simps(1) h(3) e h(2,4,5)])
qed

theorem decrypt_after_history_witness:
  "\<exists>ev cache s. encrypt demo_platform (memory_service demo_platform demo_key 300 2 5) 5 0 [1, 2, 3] demo_context [] []
       = (Inr ev, cache, s)
     \<and> fst (decrypt demo_platform (memory_service demo_platform demo_key 300 2 9) 9 ev demo_context
         (fst (run_calls demo_platform demo_key 300 2 [Call_rotate 7 3 ''o'', Call_clear] (cache, s)))
         (snd (run_calls demo_platform demo_key 300 2 [Call_rotate 7 3 ''o'', Call_clear] (cache, s)))) = Inr [1, 2, 3]"
proof -
  obtain ev cache s where e:
    "encrypt demo_platform (memory_service demo_platform demo_key 300 2 5) 5 0 [1, 2, 3] demo_context [] []
       = (Inr ev, cache, s)"
    by (rule encrypt_totalE[OF demo_gcm_correct demo_random_lengths demo_context_valid])
  show ?thesis
    using e decrypt_after_history[OF demo_gcm_correct demo_gcm_lengths demo_random_lengths _ e
        surjective_pairing, where before = "[]"] by (simp only: run_calls_Nil) blast
qed





text \<open>
  Rotation takes effect: the returned version is greater than every version the organization
  had, at most one key of the organization is active afterwards, and the next value of the
  organization is encrypted under the new version.
\<close>
theorem rotation_takes_effect:
  assumes h: "run_calls P mk ttl mx before ([], []) = (cache, s)"
    and r: "rotate_data_key P (memory_service P mk ttl mx now) draw orgId s = (Inr v, s')"
    and e: "encrypt P (memory_service P mk ttl mx now2) now2 draw2 m ctx cache s' = (Inr ev, cache', s'')"
    and o: "context_org ctx = orgId"
  shows "ev_key_version ev = v \<and> (\<forall>q\<in>set (memory_records orgId s). dk_version q < v)
    \<and> keys_ok orgId (memory_records orgId s') \<and> s'' = s'"
proof -
  have i: "memory_invar s"
    using run_calls_ok[OF service_ok_initial, of P mk ttl mx before] h by (simp add: service_ok_def)
  let ?f = "generate_wrapped_key P (local_master_key P mk) draw orgId"
  obtain q where q: "memory_activate now orgId ?f s = (Inr q, s')" and v: "v = dk_version q"
    using r by (auto simp: rotate_data_key_def memory_store_def split: if_splits sum.splits prod.splits)
  then have q': "rotate_key (memory_store now) orgId ?f s = (Inr q, s')" by (simp add: memory_store_def)
  have act: "get_active (memory_store now2) orgId s' = Some q"
    using memory.rotate_ok[OF i q'] by (simp add: memory_store_def)
  have "ev_key_version ev = v \<and> s'' = s'"
    using e o v memory.ensure_some[OF act]
    by (auto simp: encrypt_def Let_def split: sum.splits prod.splits)
  moreover have "\<forall>p\<in>set (memory_records orgId s). dk_version p < v"
    using memory_activate_record[OF q] v version_le_next by auto
  moreover have "keys_ok orgId (memory_records orgId s')"
    using memory.rotate_invar[OF i q'] by (simp add: memory_invar_def)
  ultimately show ?thesis by blast
qed

theorem rotation_takes_effect_witness:
  "\<exists>v s' ev cache' s''.
     rotate_data_key demo_platform (memory_service demo_platform demo_key 300 2 5) 0 ''o'' [] = (Inr v, s')
     \<and> encrypt demo_platform (memory_service demo_platform demo_key 300 2 6) 6 2 [1] demo_context [] s'
         = (Inr ev, cache', s'') \<and> ev_key_version ev = v"
proof -
  let ?sv = "memory_service demo_platform demo_key 300 2"
  obtain v s' where r: "rotate_data_key demo_platform (?sv 5) 0 ''o'' [] = (Inr v, s')"
    using rotate_total[OF demo_random_lengths, of "''o''" demo_key 300 2 5 0 "[]"] by (metis list.distinct(1) prod.collapse)
  then have h: "run_calls demo_platform demo_key 300 2 [Call_rotate 5 0 ''o''] ([], []) = ([], s')"
    by (simp add: run_calls_def)
  obtain ev cache' s'' where e: "encrypt demo_platform (?sv 6) 6 2 [1] demo_context [] s' = (Inr ev, cache', s'')"
    using encrypt_total[OF demo_gcm_correct demo_random_lengths h demo_context_valid, of 6 2 "[1]"]
    by (metis prod.collapse)
  have "ev_key_version ev = v"
    using rotation_takes_effect[OF run_calls_Nil r e] by (simp add: demo_context_def)
  then show ?thesis using r e by blast
qed

text \<open>
  C9: the key cache stays within its configured size and never serves a key that is not the
  unwrapping of the stored record of that organization and version.
\<close>
theorem key_cache_bounded_and_coherent:
  assumes "new_encryption_service (memory_store now) (local_master_key P mk) ttl mx = Inr sv"
    and "run_calls P mk ttl mx cs ([], []) = (cache, s)"
  shows "int (length cache) \<le> mx
    \<and> (\<forall>entry. map_of cache (cache_key orgId v) = Some entry \<longrightarrow>
        (\<exists>q. memory_get_version orgId v s = Some q \<and>
             master_unwrap P mk orgId v (dk_wrapped q) = Inr (cached_key entry)))"
proof -
  have "1 \<le> mx" using assms(1) by (auto simp: new_encryption_service_def split: if_splits)
  then have "int (length cache) \<le> mx"
    using run_calls_bounded[of "([], [])" mx P mk ttl cs] assms(2) by simp
  moreover have "coherent (memory_service P mk 0 0 0) s cache"
    using run_calls_ok[OF service_ok_initial, of P mk ttl mx cs] assms(2) by (simp add: service_ok_def)
  ultimately show ?thesis
    using coherentD[of "memory_service P mk 0 0 0" s cache orgId v]
    by (simp add: memory_store_def local_master_key_def)
qed

theorem key_cache_bounded_and_coherent_witness:
  "int (length (fst (run_calls demo_platform demo_key 300 1
     [Call_encrypt 5 0 [1] demo_context, Call_encrypt 6 3 [2] (demo_context\<lparr>context_org := ''q''\<rparr>)] ([], [])))) \<le> 1"
proof -
  have "\<exists>sv. new_encryption_service (memory_store 0) (local_master_key demo_platform demo_key) 300 1 = Inr sv"
    by (simp add: new_encryption_service_def is_safe_integer_def)
  then show ?thesis using key_cache_bounded_and_coherent[OF _ surjective_pairing] by blast
qed

end
