(* ===== verification/Postgres_Key_Store.thy ===== *)
theory Postgres_Key_Store
  imports Contracts Envelope
begin

text \<open>
  \<^verbatim>\<open>PostgresTransactionDataKeyStore\<close> of \<^verbatim>\<open>packages/crypto/src/index.ts\<close>: the data-key store on a
  tenant transaction, shown to meet the contract of \<open>Key_Store\<close>, and the encryption service the
  secret service builds on it. \<^verbatim>\<open>PostgresDataKeyStore\<close>, its twin on a pool, issues the same
  statements in a transaction of its own. The advisory lock makes an activation one step.
\<close>

section \<open>The store\<close>

definition pg_select_active :: "transaction \<Rightarrow> uuid \<Rightarrow> db \<Rightarrow> data_key_record option" where
  "pg_select_active T orgId s =
     find (\<lambda>r. dk_org r = orgId \<and> dk_status r = Key_active) (visible dk_org T (db_keys s))"

definition pg_get_version :: "transaction \<Rightarrow> uuid \<Rightarrow> int \<Rightarrow> db \<Rightarrow> data_key_record option" where
  "pg_get_version T orgId v s =
     find (\<lambda>r. dk_org r = orgId \<and> dk_version r = v) (visible dk_org T (db_keys s))"

text \<open>The column checks on \<^verbatim>\<open>org_encryption_keys\<close>.\<close>

definition wrapped_check :: "wrapped_data_key \<Rightarrow> bool" where
  "wrapped_check w \<longleftrightarrow> 1 \<le> length (trim (kek_id w)) \<and> length (trim (kek_id w)) \<le> 255
     \<and> length (wrapped_ciphertext w) = 32 \<and> length (wrapped_nonce w) = 12 \<and> length (wrapped_tag w) = 16"

text \<open>A failed statement aborts the transaction, so the state returned with an error is the old one.\<close>

definition pg_activate ::
  "transaction \<Rightarrow> uuid \<Rightarrow> wrapped_key_factory \<Rightarrow> db \<Rightarrow> (error + data_key_record) \<times> db" where
  "pg_activate T orgId factory s =
     (let version = next_version (filter (\<lambda>r. dk_org r = orgId) (visible dk_org T (db_keys s)))
      in if 2147483647 < version then (Inl Internal_error, s)
         else case factory version of
           Inl e \<Rightarrow> (Inl e, s)
         | Inr w \<Rightarrow>
             if \<not> wrapped_check w then (Inl Internal_error, s)
             else
               let s1 = db_keys_update (update_where dk_org T
                     (\<lambda>r. dk_org r = orgId \<and> dk_status r = Key_active) (retire (tx_now T))) s;
                   r = \<lparr>dk_org = orgId, dk_version = version, dk_status = Key_active, dk_wrapped = w,
                        dk_created_at = tx_now T, dk_retired_at = None\<rparr>
               in case insert_row dk_org db_keys db_keys_update key_clash T r s1 of
                    Inl e \<Rightarrow> (Inl e, s)
                  | Inr (_, s2) \<Rightarrow> (Inr r, s2))"

definition pg_ensure_active ::
  "transaction \<Rightarrow> uuid \<Rightarrow> wrapped_key_factory \<Rightarrow> db \<Rightarrow> (error + data_key_record) \<times> db" where
  "pg_ensure_active T orgId factory s =
     (case pg_select_active T orgId s of
        Some r \<Rightarrow> (Inr r, s)
      | None \<Rightarrow> pg_activate T orgId factory s)"

definition pg_store :: "transaction \<Rightarrow> db data_key_store" where
  "pg_store T = \<lparr>get_active = pg_select_active T, get_version = pg_get_version T,
     ensure_active = pg_ensure_active T, rotate_key = pg_activate T\<rparr>"

section \<open>The store meets its contract\<close>

lemma pg_get_version_eq:
  "pg_get_version T orgId v s = (if orgId = tx_org T then key_at s orgId v else None)"
proof -
  have "find (\<lambda>r. dk_org r = orgId \<and> dk_version r = v) (filter (\<lambda>r. dk_org r = tx_org T) rs)
      = (if orgId = tx_org T then find (\<lambda>r. dk_org r = orgId \<and> dk_version r = v) rs else None)" for rs :: "data_key_record list"
    by (induction rs) auto
  then show ?thesis by (simp add: pg_get_version_def visible_def key_at_def)
qed

lemma key_at_org_keys: "key_at s orgId v = find (\<lambda>r. dk_version r = v) (org_keys s orgId)"
  by (simp add: key_at_def org_keys_def find_filter)

lemma pg_select_active_eq:
  "pg_select_active T orgId s =
     (if orgId = tx_org T then find (\<lambda>r. dk_status r = Key_active) (org_keys s orgId) else None)"
proof -
  have "find (\<lambda>r. dk_org r = orgId \<and> dk_status r = Key_active) (filter (\<lambda>r. dk_org r = tx_org T) rs)
      = (if orgId = tx_org T then find (\<lambda>r. dk_status r = Key_active) (filter (\<lambda>r. dk_org r = orgId) rs)
         else None)" for rs :: "data_key_record list"
    by (induction rs) auto
  then show ?thesis by (simp add: pg_select_active_def visible_def org_keys_def)
qed

lemma retire_retired: "dk_status r \<noteq> Key_active \<Longrightarrow> retire now r = r"
  by (simp add: retire_def)

lemma filter_retire:
  "filter (\<lambda>r. dk_org r = o') (update_where dk_org T (\<lambda>r. dk_org r = orgId \<and> dk_status r = Key_active)
       (retire now) rs)
   = (if o' = orgId \<and> o' = tx_org T then map (retire now) (filter (\<lambda>r. dk_org r = o') rs)
      else filter (\<lambda>r. dk_org r = o') rs)"
  by (induction rs) (auto simp: update_where_def retire_retired)

lemma pg_activate_ok:
  assumes "pg_activate T orgId factory s = (Inr r, s')"
  shows "orgId = tx_org T" and "dk_org r = orgId" and "dk_version r = next_version (org_keys s orgId)"
    and "dk_status r = Key_active" and "factory (dk_version r) = Inr (dk_wrapped r)"
    and "org_keys s' o' = (if o' = orgId then map (retire (tx_now T)) (org_keys s orgId) @ [r] else org_keys s o')"
    and "wrapped_check (dk_wrapped r)" and "\<exists>g. s' = db_keys_update g s"
    and "filter (\<lambda>r. dk_org r \<noteq> tx_org T) (db_keys s') = filter (\<lambda>r. dk_org r \<noteq> tx_org T) (db_keys s)"
proof -
  define s1 where "s1 = db_keys_update (update_where dk_org T
      (\<lambda>r. dk_org r = orgId \<and> dk_status r = Key_active) (retire (tx_now T))) s"
  define version where "version = next_version (filter (\<lambda>r. dk_org r = orgId) (visible dk_org T (db_keys s)))"
  obtain w where w: "factory version = Inr w" "wrapped_check w"
    and r: "r = \<lparr>dk_org = orgId, dk_version = version, dk_status = Key_active, dk_wrapped = w,
        dk_created_at = tx_now T, dk_retired_at = None\<rparr>"
    and i: "insert_row dk_org db_keys db_keys_update key_clash T r s1 = Inr ((), s')"
    using assms
    by (auto simp: pg_activate_def Let_def s1_def version_def split: if_splits sum.splits)
  have o: "orgId = tx_org T" and s': "s' = db_keys_update (\<lambda>rs. rs @ [r]) s1"
    using i r by (auto simp: insert_row_def op_simps)
  have "filter (\<lambda>r. dk_org r = orgId) (visible dk_org T (db_keys s)) = org_keys s orgId"
    using o by (auto simp: visible_def org_keys_def)
  then show "orgId = tx_org T" "dk_org r = orgId" "dk_version r = next_version (org_keys s orgId)"
    "dk_status r = Key_active" "factory (dk_version r) = Inr (dk_wrapped r)" "wrapped_check (dk_wrapped r)"
    using w r o by (simp_all add: version_def)
  show "org_keys s' o' = (if o' = orgId then map (retire (tx_now T)) (org_keys s orgId) @ [r] else org_keys s o')"
    using o r by (simp add: s' s1_def org_keys_def filter_retire)
  show "\<exists>g. s' = db_keys_update g s"
    unfolding s' s1_def by (rule exI[of _ "\<lambda>ks. update_where dk_org T
      (\<lambda>r. dk_org r = orgId \<and> dk_status r = Key_active) (retire (tx_now T)) ks @ [r]"]) simp
  show "filter (\<lambda>r. dk_org r \<noteq> tx_org T) (db_keys s') = filter (\<lambda>r. dk_org r \<noteq> tx_org T) (db_keys s)"
    using o r by (simp add: s' s1_def filter_update_where)
qed

lemma pg_activate_error: "pg_activate T orgId factory s = (Inl e, s') \<Longrightarrow> s' = s"
  by (auto simp: pg_activate_def Let_def split: if_splits sum.splits)

lemma pg_activate_invar:
  assumes ok: "db_keys_ok s" and a: "pg_activate T orgId factory s = (x, s')"
  shows "db_keys_ok s' \<and> keys_kept s s'"
proof (cases x)
  case (Inl e)
  then show ?thesis using ok a pg_activate_error[of T orgId factory s e s'] keys_kept_refl by auto
next
  case (Inr r)
  note h = pg_activate_ok[OF a[unfolded Inr]]
  have "keys_ok o' (org_keys s' o')" for o'
    using ok h(2,3) by (simp add: h(6) db_keys_ok_def keys_ok_activate)
  moreover have "keys_kept s s'"
    unfolding keys_kept_def key_at_org_keys
  proof (intro allI impI)
    fix o' v q assume q: "find (\<lambda>r. dk_version r = v) (org_keys s o') = Some q"
    have "v \<noteq> next_version (org_keys s o')"
      using find_SomeD[OF q] version_le_next[of q "org_keys s o'"] by auto
    then show "\<exists>q'. find (\<lambda>r. dk_version r = v) (org_keys s' o') = Some q' \<and> dk_wrapped q' = dk_wrapped q"
      using q h(3) by (auto simp: h(6) find_version_activate)
  qed
  ultimately show ?thesis by (simp add: db_keys_ok_def)
qed

interpretation pg: data_key_store_contract "pg_store T" db_keys_ok for T
proof (unfold_locales, goal_cases)
  case (3 s orgId f x s')
  then show ?case using pg_activate_invar[of s T orgId f x s'] by (simp add: pg_store_def)
next
  case (4 s orgId f r s')
  then have a: "pg_activate T orgId f s = (Inr r, s')" by (simp add: pg_store_def)
  note h = pg_activate_ok[OF a]
  have "find (\<lambda>q. dk_version q = next_version (org_keys s orgId)) (org_keys s orgId) = None"
    using version_le_next by (fastforce simp: find_None_iff)
  moreover have "v < next_version (org_keys s orgId)"
    if "find (\<lambda>q. dk_version q = v) (org_keys s orgId) = Some q" for v q
    using find_SomeD[OF that] version_le_next by blast
  ultimately show ?case using h(1-5)
    by (auto simp: pg_store_def pg_select_active_eq pg_get_version_eq key_at_org_keys h(6)
        find_active_activate find_version_activate)
next
  case (5 s orgId f x s' o' v q)
  then show ?case
    using pg_activate_invar[of s T orgId f x s']
    by (auto simp: pg_store_def pg_get_version_eq keys_kept_def split: if_splits)
next
  case (6 s orgId r)
  then have r: "find (\<lambda>r. dk_status r = Key_active) (org_keys s orgId) = Some r" "orgId = tx_org T"
    by (auto simp: pg_store_def pg_select_active_eq split: if_splits)
  have "keys_ok orgId (org_keys s orgId)" using 6 by (simp add: db_keys_ok_def)
  from find_active_version[OF this r(1)] show ?case
    using r find_SomeD[OF r(1)]
    by (simp add: pg_store_def pg_get_version_eq key_at_org_keys org_keys_def)
next
  case (7 s orgId v r)
  then show ?case
    using find_SomeD[of _ "db_keys s" r]
    by (auto simp: pg_store_def pg_get_version_eq key_at_def split: if_splits)
qed (auto simp: pg_store_def pg_ensure_active_def)

lemma pg_activate_tenant_step:
  assumes a: "pg_activate T orgId factory s = (x, s')"
  shows "tenant_step (tx_org T) s s'"
proof (cases x)
  case (Inl e)
  then show ?thesis using pg_activate_error[of T orgId factory s e s'] a tenant.R_refl by simp
next
  case (Inr r)
  note h = pg_activate_ok[OF a[unfolded Inr]]
  obtain g where g: "s' = db_keys_update g s" using h(8) by blast
  then show ?thesis
    using h(9) pg_activate_invar[OF _ a]
    by (auto simp: tenant_step_def foreign_def audit_ok_def versions_ok_def config_kept_def environment_at_def
        configuration_def)
qed

lemma pg_ensure_tenant_step:
  "pg_ensure_active T orgId factory s = (x, s') \<Longrightarrow> tenant_step (tx_org T) s s'"
  using pg_activate_tenant_step tenant.R_refl
  by (fastforce simp: pg_ensure_active_def split: option.splits)

section \<open>Encryption in a transaction\<close>

text \<open>
  \<^verbatim>\<open>SecretService.#encryption\<close>: a new service for every use, with an empty cache whose entries
  expire at once.
\<close>

definition tx_encryption :: "transaction \<Rightarrow> db encryption_service" where
  "tx_encryption T = \<lparr>es_store = pg_store T, es_wrapper = tx_wrapper T, es_cache_ttl = 0, es_max_entries = 1\<rparr>"

definition tx_encrypt :: "transaction \<Rightarrow> bytes \<Rightarrow> encryption_context \<Rightarrow> encrypted_value db_op" where
  "tx_encrypt T plaintext ctx = (\<lambda>s.
     case encrypt (tx_platform T) (tx_encryption T) (tx_clock T) (db_draws s) plaintext ctx []
            (s\<lparr>db_draws := db_draws s + 3\<rparr>) of
       (Inl e, _, _) \<Rightarrow> Inl e
     | (Inr ev, _, s') \<Rightarrow> Inr (ev, s'))"

definition tx_decrypt :: "transaction \<Rightarrow> encrypted_value \<Rightarrow> encryption_context \<Rightarrow> bytes db_op" where
  "tx_decrypt T ev ctx = (\<lambda>s.
     case fst (decrypt (tx_platform T) (tx_encryption T) (tx_clock T) ev ctx [] s) of
       Inl e \<Rightarrow> Inl e
     | Inr m \<Rightarrow> Inr (m, s))"

lemma tx_encryption_constructed:
  "new_encryption_service (pg_store T) (tx_wrapper T) 0 1 = Inr (tx_encryption T)"
  by (simp add: new_encryption_service_def tx_encryption_def is_safe_integer_def)

lemma tx_encryption_simps [simp]:
  "es_store (tx_encryption T) = pg_store T" "es_wrapper (tx_encryption T) = tx_wrapper T"
  by (simp_all add: tx_encryption_def)

lemma encrypt_store_step:
  "encrypt P sv now draw m ctx cache s = (x, cache', s') \<Longrightarrow>
     s' = s \<or> (\<exists>y. ensure_active (es_store sv) (context_org ctx)
       (generate_wrapped_key P (es_wrapper sv) draw (context_org ctx)) s = (y, s'))"
  by (auto simp: encrypt_def Let_def split: sum.splits prod.splits)

lemma obeys_tx_encrypt [contract_intros]: "obeys (tenant_step (tx_org T)) (tx_encrypt T m ctx)"
proof -
  have "tenant_step (tx_org T) s s'"
    if e: "encrypt P (tx_encryption T) now n m ctx [] (s\<lparr>db_draws := k\<rparr>) = (x, c, s')" for P now n x c s s' k
  proof -
    have "tenant_step (tx_org T) (s\<lparr>db_draws := k\<rparr>) s'"
      using encrypt_store_step[OF e] pg_ensure_tenant_step tenant.R_refl by (auto simp: pg_store_def)
    then show ?thesis using draw_tenant_step tenant.R_trans by blast
  qed
  then show ?thesis
    by (auto simp: obeys_def tx_encrypt_def split: prod.splits sum.splits)
qed

lemma obeys_tx_decrypt [contract_intros]: "obeys (tenant_step orgId) (tx_decrypt T ev ctx)"
  by (auto simp: obeys_def tx_decrypt_def tenant.R_refl split: sum.splits)

lemma tx_decrypt_state: "tx_decrypt T ev ctx s = Inr (m, s') \<Longrightarrow> s' = s"
  by (auto simp: tx_decrypt_def split: sum.splits)

lemma pg_keeps_keys:
  "keys_kept s t \<Longrightarrow> keeps_keys (pg_store T) s t"
  by (auto simp: keeps_keys_def keys_kept_def pg_store_def pg_get_version_eq)

lemma tx_decrypt_service:
  assumes "tx_org T' = tx_org T" and "tx_platform T' = tx_platform T" and "tx_wrapper T' = tx_wrapper T"
  shows "fst (decrypt (tx_platform T') (tx_encryption T') now ev ctx [] s)
       = fst (decrypt (tx_platform T) (tx_encryption T) now ev ctx [] s)"
proof -
  have "load_key (tx_encryption T') = load_key (tx_encryption T)"
    by (intro ext) (simp only: load_key_def tx_encryption_def encryption_service.simps assms(3))
  moreover have "pg_get_version T' = pg_get_version T"
    by (simp add: fun_eq_iff pg_get_version_eq assms(1))
  ultimately show ?thesis
    by (simp add: decrypt_def pg_store_def assms(2) split: option.split)
qed

text \<open>What one transaction encrypts, a later one of the organization decrypts.\<close>

lemma tx_decrypt_encrypt:
  assumes P: "gcm_correct (tx_platform T)" "gcm_lengths (tx_platform T)" "random_lengths (tx_platform T)"
    and ok: "db_keys_ok s" "db_keys_ok t" and kept: "keys_kept s' t"
    and T': "tx_org T' = tx_org T" "tx_platform T' = tx_platform T" "tx_wrapper T' = tx_wrapper T"
    and e: "tx_encrypt T m ctx s = Inr (ev, s')"
  shows "tx_decrypt T' ev ctx t = Inr (m, t)"
proof -
  obtain c where e': "encrypt (tx_platform T) (tx_encryption T) (tx_clock T) (db_draws s) m ctx []
      (s\<lparr>db_draws := db_draws s + 3\<rparr>) = (Inr ev, c, s')"
    using e by (auto simp: tx_encrypt_def split: prod.splits sum.splits)
  have "db_keys_ok (s\<lparr>db_draws := db_draws s + 3\<rparr>)"
    using ok(1) by (simp add: db_keys_ok_def org_keys_def)
  from pg.decrypt_encrypt[OF P this tx_encryption_simps(1) coherent_Nil e' ok(2) coherent_Nil pg_keeps_keys[OF kept]]
  have "fst (decrypt (tx_platform T) (tx_encryption T) (tx_clock T') ev ctx [] t) = Inr m" .
  then show ?thesis using tx_decrypt_service[OF T'] by (simp add: tx_decrypt_def)
qed

end
