(* ===== verification/Secret_Text.thy ===== *)
theory Secret_Text
  imports Platform Errors "HOL-Library.Multiset"
begin

text \<open>
  The pure part of \<^verbatim>\<open>packages/secrets/src/index.ts\<close>: validation of keys, values and notes, and
  \<^verbatim>\<open>serializeSecretExport\<close> with its three formats. The readers of the formats (a POSIX shell word,
  the flattening of a nested document) show that an export loses nothing.
\<close>

definition MAX_VALUE_BYTES :: nat where "MAX_VALUE_BYTES = 64 * 1024"
definition MAX_BULK_ITEMS :: nat where "MAX_BULK_ITEMS = 100"

section \<open>Validation\<close>

text \<open>\<^verbatim>\<open>conventionalKey\<close>: capitals and digits in words joined by single underscores, starting with a capital.\<close>

definition conventional_key :: "string \<Rightarrow> bool" where
  "conventional_key s \<longleftrightarrow> s \<noteq> [] \<and> is_upper (hd s)
     \<and> list_all (\<lambda>w. w \<noteq> [] \<and> list_all (\<lambda>c. is_upper c \<or> is_digit c) w) (split_on (CHR ''_'') s)"

definition key_char_ok :: "char \<Rightarrow> bool" where
  "key_char_ok c \<longleftrightarrow> \<not> is_ws c \<and> c \<noteq> CHR ''='' \<and> \<not> is_control c"

definition validate_secret_key :: "string \<Rightarrow> bool \<Rightarrow> error + string" where
  "validate_secret_key key allowNonConforming =
     (let normalized = trim key in
      if length normalized < 1 \<or> 255 < length normalized \<or> \<not> list_all key_char_ok normalized
      then Inl (Secret_error Secret_invalid_input)
      else if \<not> allowNonConforming \<and> \<not> conventional_key normalized
      then Inl (Secret_error Key_convention)
      else Inr normalized)"

definition validate_secret_value :: "string \<Rightarrow> error + bytes" where
  "validate_secret_value v = (let encoded = utf8 v in
     if MAX_VALUE_BYTES < length encoded then Inl (Secret_error Value_too_large) else Inr encoded)"

text \<open>\<^verbatim>\<open>validateNotes\<close> and \<^verbatim>\<open>validateChangeNote\<close>; absent and \<^verbatim>\<open>null\<close> are both \<open>None\<close>.\<close>

definition validate_text :: "nat \<Rightarrow> string option \<Rightarrow> error + string option" where
  "validate_text limit t = (case t of None \<Rightarrow> Inr None
     | Some t \<Rightarrow> if trim t = [] then Inr None
         else if limit < length (trim t) then Inl (Secret_error Secret_invalid_input)
         else Inr (Some (trim t)))"

definition validate_notes :: "string option \<Rightarrow> error + string option" where
  "validate_notes = validate_text 4000"

definition validate_change_note :: "string option \<Rightarrow> error + string option" where
  "validate_change_note = validate_text 1000"

section \<open>JavaScript objects\<close>

text \<open>
  A property whose key is an array index comes before the others, in ascending order; the others
  are enumerated in insertion order; a later value of a key replaces the earlier one.
\<close>

definition is_index :: "string \<Rightarrow> bool" where
  "is_index k \<longleftrightarrow> k \<noteq> [] \<and> list_all is_digit k \<and> js_nat (nat_value k) = k \<and> nat_value k < 4294967295"

definition from_entries :: "(string \<times> 'v) list \<Rightarrow> (string \<times> 'v) list" where
  "from_entries es = fold (\<lambda>(k, v) o'. AList.update k v o') es []"

definition enumeration :: "(string \<times> 'v) list \<Rightarrow> (string \<times> 'v) list" where
  "enumeration o' = sort_by (\<lambda>a b. nat_value (fst a) \<le> nat_value (fst b)) (filter (is_index \<circ> fst) o')
     @ filter (Not \<circ> is_index \<circ> fst) o'"

fun in_js_order :: "json \<Rightarrow> json" where
  "in_js_order (JObj ms) = JObj (enumeration (map (\<lambda>(k, v). (k, in_js_order v)) ms))"
| "in_js_order (JArr xs) = JArr (map in_js_order xs)"
| "in_js_order v = v"

section \<open>The export\<close>

datatype export_format = Export_dotenv | Export_json | Export_shell

record export_options =
  nested_json :: "bool option"
  json_delimiter :: "string option"

text \<open>\<^verbatim>\<open>/^[A-Za-z_][A-Za-z0-9_]*$/\<close>\<close>

definition is_exportable :: "string \<Rightarrow> bool" where
  "is_exportable key \<longleftrightarrow> key \<noteq> [] \<and> (is_alpha (hd key) \<or> hd key = CHR ''_'')
     \<and> list_all (\<lambda>c. is_alpha c \<or> is_digit c \<or> c = CHR ''_'') key"

definition exportable_key :: "string \<Rightarrow> error + string" where
  "exportable_key key = (if is_exportable key then Inr key else Inl (Secret_error Secret_invalid_input))"

abbreviation quote :: char where "quote \<equiv> CHR 0x27"

definition shell_quote :: "string \<Rightarrow> string" where
  "shell_quote v = quote # concat (map (\<lambda>c. if c = quote then [quote, backslash, quote, quote] else [c]) v) @ [quote]"

text \<open>\<^verbatim>\<open>key.split(delimiter)\<close> for a delimiter of any positive length.\<close>

fun split_text :: "string \<Rightarrow> string \<Rightarrow> string list" where
  "split_text d [] = [[]]"
| "split_text d (c # cs) =
     (if d \<noteq> [] \<and> starts_with d (c # cs) then [] # split_text d (drop (length d - 1) cs)
      else case split_text d cs of [] \<Rightarrow> [[c]] | w # ws \<Rightarrow> (c # w) # ws)"

text \<open>
  One key of a nested document: the members of the object the path descends into, with the value
  put at the end of the path. A value where an object is needed, or anything where the value is
  to go, is a conflict.
\<close>

fun insert_path :: "string list \<Rightarrow> string \<Rightarrow> (string \<times> json) list \<Rightarrow> error + (string \<times> json) list" where
  "insert_path [] v ms = Inr ms"
| "insert_path [segment] v ms =
     (if map_of ms segment \<noteq> None then Inl (Secret_error Secret_invalid_input)
      else Inr (ms @ [(segment, JStr v)]))"
| "insert_path (segment # inner # path) v ms =
     (case map_of ms segment of
        None \<Rightarrow> and_ok (insert_path (inner # path) v []) (\<lambda>child. Inr (ms @ [(segment, JObj child)]))
      | Some (JObj child) \<Rightarrow>
          and_ok (insert_path (inner # path) v child) (\<lambda>child'. Inr (AList.update segment (JObj child') ms))
      | Some _ \<Rightarrow> Inl (Secret_error Secret_invalid_input))"

fun nest :: "string \<Rightarrow> (string \<times> string) list \<Rightarrow> (string \<times> json) list \<Rightarrow> error + (string \<times> json) list" where
  "nest d [] root = Inr root"
| "nest d ((key, v) # entries) root =
     (let path = split_text d key in
      if [] \<in> set path then Inl (Secret_error Secret_invalid_input)
      else and_ok (insert_path path v root) (nest d entries))"

definition sorted_entries :: "platform \<Rightarrow> (string \<times> string) list \<Rightarrow> (string \<times> string) list" where
  "sorted_entries P secrets = sort_by (\<lambda>l r. locale_le P (fst l) (fst r)) secrets"

definition lines_of :: "string list \<Rightarrow> string" where
  "lines_of ls = join newline ls @ (if ls = [] then [] else newline)"

definition dotenv_line :: "string \<times> string \<Rightarrow> error + string" where
  "dotenv_line e = and_ok (exportable_key (fst e)) (\<lambda>k. Inr (k @ ''='' @ json_quote (snd e)))"

definition shell_line :: "string \<times> string \<Rightarrow> error + string" where
  "shell_line e = and_ok (exportable_key (fst e)) (\<lambda>k. Inr (''export '' @ k @ ''='' @ shell_quote (snd e)))"

definition serialize_secret_export ::
  "platform \<Rightarrow> (string \<times> string) list \<Rightarrow> export_format \<Rightarrow> export_options \<Rightarrow> error + string" where
  "serialize_secret_export P secrets format options =
     (let entries = sorted_entries P secrets in
      case format of
        Export_dotenv \<Rightarrow> and_ok (map_ok dotenv_line entries) (\<lambda>ls. Inr (lines_of ls))
      | Export_shell \<Rightarrow> and_ok (map_ok shell_line entries) (\<lambda>ls. Inr (lines_of ls))
      | Export_json \<Rightarrow>
          if nested_json options \<noteq> Some True
          then Inr (json_pretty 0 (in_js_order (JObj (from_entries (map (\<lambda>(k, v). (k, JStr v)) entries)))) @ newline)
          else let delimiter = (case json_delimiter options of None \<Rightarrow> ''__'' | Some d \<Rightarrow> d) in
            if length delimiter < 1 \<or> 10 < length delimiter then Inl (Secret_error Secret_invalid_input)
            else and_ok (nest delimiter entries [])
              (\<lambda>root. Inr (json_pretty 0 (in_js_order (JObj root)) @ newline)))"

section \<open>Lemmas of validation\<close>

lemma validate_secret_key_Inr:
  "validate_secret_key key allow = Inr k \<longleftrightarrow>
     k = trim key \<and> 1 \<le> length k \<and> length k \<le> 255 \<and> list_all key_char_ok k \<and> (allow \<or> conventional_key k)"
  by (auto simp: validate_secret_key_def Let_def Suc_le_eq)

lemma validate_text_Inr:
  "validate_text limit t = Inr (Some n) \<Longrightarrow> n \<noteq> [] \<and> length n \<le> limit \<and> trim n = n"
  by (auto simp: validate_text_def split: option.splits if_splits)

lemma conventional_chars: "conventional_key s \<Longrightarrow> c \<in> set s \<Longrightarrow> is_upper c \<or> is_digit c \<or> c = CHR ''_''"
proof -
  assume k: "conventional_key s" and c: "c \<in> set s"
  have "set (join [d] ws) \<subseteq> insert d (\<Union> (set ` set ws))" for d and ws :: "string list"
    by (induction "[d]" ws rule: join.induct) auto
  from this[of "CHR ''_''" "split_on (CHR ''_'') s"]
  show ?thesis using k c
    by (auto simp: join_split_on conventional_key_def list_all_iff)
qed

text \<open>Conventional keys can be exported in every format.\<close>

lemma conventional_exportable: "conventional_key s \<Longrightarrow> is_exportable s"
  using conventional_chars[of s] by (auto simp: is_exportable_def conventional_key_def is_alpha_def list_all_iff)

section \<open>Reading a shell script back\<close>

text \<open>
  One word as a POSIX shell reads it: literal text between single quotes, a quoted character after a
  backslash, the end at a newline. Any other unquoted character could be expanded: \<open>None\<close>.
\<close>

fun read_word :: "bool \<Rightarrow> string \<Rightarrow> (string \<times> string) option" where
  "read_word quoted [] = None"
| "read_word True (c # cs) = (if c = quote then read_word False cs else cons_fst c (read_word True cs))"
| "read_word False (c # cs) =
     (if c = quote then read_word True cs
      else if c = CHR 0x0A then Some ([], c # cs)
      else if c = backslash then (case cs of [] \<Rightarrow> None | d # ds \<Rightarrow> cons_fst d (read_word False ds))
      else None)"

definition read_export :: "string \<Rightarrow> ((string \<times> string) \<times> string) option" where
  "read_export t = (if take 7 t \<noteq> ''export '' then None
     else case index_of (CHR ''='') (drop 7 t) of
       None \<Rightarrow> None
     | Some i \<Rightarrow> (case read_word False (drop (Suc i) (drop 7 t)) of
         None \<Rightarrow> None
       | Some (v, rest) \<Rightarrow> Some ((take i (drop 7 t), v), drop 1 rest)))"

fun read_exports :: "nat \<Rightarrow> string \<Rightarrow> (string \<times> string) list option" where
  "read_exports 0 t = (if t = [] then Some [] else None)"
| "read_exports (Suc n) t =
     (case read_export t of None \<Rightarrow> None | Some (e, rest) \<Rightarrow> map_option (Cons e) (read_exports n rest))"

lemma read_word_quoted:
  "read_word True (concat (map (\<lambda>c. if c = quote then [quote, backslash, quote, quote] else [c]) v) @ quote # t)
     = map_option (\<lambda>(w, r). (v @ w, r)) (read_word False t)"
proof (induction v)
  case Nil
  then show ?case by (cases "read_word False t") auto
next
  case (Cons c v)
  then show ?case by (cases "read_word False t") (auto simp: cons_fst_def)
qed

lemma read_word_shell_quote: "read_word False (shell_quote v @ CHR 0x0A # t) = Some (v, CHR 0x0A # t)"
  using read_word_quoted[of v "CHR 0x0A # t"] by (simp add: shell_quote_def)

lemma exportable_no_equals: "is_exportable k \<Longrightarrow> CHR ''='' \<notin> set k"
  by (auto simp: is_exportable_def list_all_iff is_alpha_def is_upper_def is_lower_def is_digit_def)

lemma read_export_line:
  assumes "shell_line e = Inr l"
  shows "read_export (l @ CHR 0x0A # t) = Some (e, t)"
proof -
  have k: "is_exportable (fst e)" and l: "l = ''export '' @ fst e @ CHR ''='' # shell_quote (snd e)"
    using assms by (auto simp: shell_line_def and_ok_Inr exportable_key_def split: if_splits)
  have "index_of (CHR ''='') (fst e @ CHR ''='' # shell_quote (snd e) @ CHR 0x0A # t) = Some (length (fst e))"
    using index_of_append[OF exportable_no_equals[OF k]] by simp
  then show ?thesis by (simp add: read_export_def l read_word_shell_quote)
qed

lemma read_exports_lines:
  "map_ok shell_line es = Inr ls \<Longrightarrow> read_exports (length es) (concat (map (\<lambda>l. l @ newline) ls)) = Some es"
  by (induction es arbitrary: ls) (auto simp: and_ok_Inr newline_def read_export_line)

lemma lines_of_concat: "lines_of ls = concat (map (\<lambda>l. l @ newline) ls)"
proof -
  have "join newline (l # ls) @ newline = concat (map (\<lambda>l. l @ newline) (l # ls))" for l and ls :: "string list"
    by (induction ls arbitrary: l) auto
  then show ?thesis by (cases ls) (auto simp: lines_of_def)
qed

section \<open>Flattening a nested document\<close>

fun flat :: "json \<Rightarrow> (string list \<times> string) list" where
  "flat (JStr v) = [([], v)]"
| "flat (JObj ms) = concat (map (\<lambda>(k, j). map (\<lambda>(p, v). (k # p, v)) (flat j)) ms)"
| "flat v = []"

fun keys_distinct :: "json \<Rightarrow> bool" where
  "keys_distinct (JObj ms) \<longleftrightarrow> distinct (map fst ms) \<and> list_all (\<lambda>(k, j). keys_distinct j) ms"
| "keys_distinct v \<longleftrightarrow> True"

definition flat_member :: "string \<times> json \<Rightarrow> (string list \<times> string) multiset" where
  "flat_member m = mset (map (\<lambda>(p, v). (fst m # p, v)) (flat (snd m)))"

lemma mset_flat_obj: "mset (flat (JObj ms)) = (\<Sum>m\<in>#mset ms. flat_member m)"
  by (induction ms) (auto simp: flat_member_def)

lemma flat_update:
  "distinct (map fst ms) \<Longrightarrow> map_of ms k = Some j \<Longrightarrow>
     (\<Sum>m\<in>#mset (AList.update k j' ms). flat_member m) + flat_member (k, j)
       = (\<Sum>m\<in>#mset ms. flat_member m) + flat_member (k, j')"
proof (induction ms)
  case (Cons m ms)
  show ?case
  proof (cases "fst m = k")
    case True
    then show ?thesis using Cons.prems by (cases m) (simp add: ac_simps)
  next
    case False
    then have "map_of ms k = Some j" using Cons.prems by (cases m) simp
    then show ?thesis using Cons False by (cases m) (simp add: ac_simps)
  qed
qed simp

lemma flat_member_add:
  "mset (flat c') = add_mset (p, v) (mset (flat c)) \<Longrightarrow>
     flat_member (k, c') = add_mset (k # p, v) (flat_member (k, c))"
  by (simp add: flat_member_def)

lemma set_update: "x \<in> set (AList.update k v al) \<Longrightarrow> x = (k, v) \<or> x \<in> set al"
  by (induction al) (auto split: if_splits)

lemma insert_path_flat:
  "insert_path path v ms = Inr ms' \<Longrightarrow> path \<noteq> [] \<Longrightarrow> keys_distinct (JObj ms) \<Longrightarrow>
     mset (flat (JObj ms')) = add_mset (path, v) (mset (flat (JObj ms))) \<and> keys_distinct (JObj ms')"
proof (induction path v ms arbitrary: ms' rule: insert_path.induct)
  case (2 segment v ms)
  then show ?case
    by (auto simp: mset_flat_obj flat_member_def map_of_eq_None_iff split: if_splits)
next
  case (3 segment inner path v ms)
  consider (none) child where "map_of ms segment = None" "insert_path (inner # path) v [] = Inr child"
      "ms' = ms @ [(segment, JObj child)]"
    | (obj) child child' where "map_of ms segment = Some (JObj child)"
      "insert_path (inner # path) v child = Inr child'" "ms' = AList.update segment (JObj child') ms"
    using "3.prems"(1) by (auto simp: and_ok_Inr split: option.splits json.splits)
  then show ?case
  proof cases
    case none
    have c: "mset (flat (JObj child)) = add_mset (inner # path, v) {#}" "keys_distinct (JObj child)"
      using "3.IH"(1)[OF none(1,2)] by auto
    have "flat_member (segment, JObj child) = {#(segment # inner # path, v)#}"
      using flat_member_add[of "JObj child" "inner # path" v "JObj []" segment] c(1) by (simp add: flat_member_def)
    then show ?thesis
      using none "3.prems"(3) c(2) by (auto simp: mset_flat_obj map_of_eq_None_iff list_all_iff simp del: flat.simps)
  next
    case obj
    have kd: "keys_distinct (JObj child)"
      using "3.prems"(3) map_of_SomeD[OF obj(1)] unfolding keys_distinct.simps(1)[of ms] list_all_iff by fastforce
    have c: "mset (flat (JObj child')) = add_mset (inner # path, v) (mset (flat (JObj child)))"
      "keys_distinct (JObj child')"
      using "3.IH"(2)[OF obj(1) refl obj(2) _ kd] by auto
    have "mset (flat (JObj ms')) + flat_member (segment, JObj child)
        = add_mset (segment # inner # path, v) (mset (flat (JObj ms)) + flat_member (segment, JObj child))"
      using flat_update[OF _ obj(1), of "JObj child'"] "3.prems"(3) flat_member_add[OF c(1), of segment]
      unfolding mset_flat_obj obj(3) by simp
    then have "mset (flat (JObj ms')) = add_mset (segment # inner # path, v) (mset (flat (JObj ms)))"
      by (metis add_mset_add_single add_right_cancel union_mset_add_mset_left)
    moreover have "keys_distinct (JObj ms')"
      using "3.prems"(3) c(2) unfolding obj(3)
      by (auto simp: list_all_iff distinct_update dest!: set_update)
    ultimately show ?thesis by blast
  qed
qed simp

lemma nest_flat:
  "nest d es root = Inr root' \<Longrightarrow> keys_distinct (JObj root) \<Longrightarrow>
     mset (flat (JObj root')) = mset (map (\<lambda>(k, v). (split_text d k, v)) es) + mset (flat (JObj root))
     \<and> keys_distinct (JObj root')"
proof (induction d es root arbitrary: root' rule: nest.induct)
  case (2 d key v es root)
  have "split_text d key \<noteq> []" by (cases "split_text d key") (auto elim!: split_text.elims split: if_splits list.splits)
  then obtain r where r: "mset (flat (JObj r)) = add_mset (split_text d key, v) (mset (flat (JObj root)))"
      "keys_distinct (JObj r)" "[] \<notin> set (split_text d key)" "nest d es r = Inr root'"
    using "2.prems" insert_path_flat[of "split_text d key" v root]
    by (auto simp: Let_def and_ok_Inr split: if_splits)
  then show ?case using "2.IH"[OF refl r(3) r(4,2)] by simp
qed simp

lemma mset_insert_by [simp]: "mset (insert_by le x ys) = add_mset x (mset ys)"
  by (induction ys) auto

lemma mset_sort_by [simp]: "mset (sort_by le xs) = mset xs"
  by (induction xs) auto

lemma mset_enumeration: "mset (enumeration o') = mset o'"
proof -
  have "mset (filter P xs) + mset (filter (Not \<circ> P) xs) = mset xs" for P and xs :: "(string \<times> 'a) list"
    by (induction xs) auto
  from this[of "is_index \<circ> fst"] show ?thesis by (simp add: enumeration_def comp_assoc)
qed

lemma flat_in_js_order: "mset (flat (in_js_order j)) = mset (flat j)"
proof (induction j rule: flat.induct)
  case (2 ms)
  have "flat_member (k, in_js_order v) = flat_member (k, v)" if "(k, v) \<in> set ms" for k v
    using 2[OF that refl] by (simp add: flat_member_def)
  then have "(\<Sum>m\<in>#mset (map (\<lambda>(k, v). (k, in_js_order v)) ms). flat_member m) = (\<Sum>m\<in>#mset ms. flat_member m)"
    by (induction ms) auto
  then show ?case unfolding in_js_order.simps mset_flat_obj mset_enumeration .
qed simp_all

lemma split_text_not_Nil [simp]: "split_text d s \<noteq> []"
  by (cases s) (auto split: list.splits)

lemma join_split_text: "d \<noteq> [] \<Longrightarrow> join d (split_text d s) = s"
proof (induction d s rule: split_text.induct)
  case (2 d c cs)
  show ?case
  proof (cases "starts_with d (c # cs)")
    case True
    obtain w ws where w: "split_text d (drop (length d - 1) cs) = w # ws"
      by (cases "split_text d (drop (length d - 1) cs)") auto
    have "join d ([] # w # ws) = d @ drop (length d - 1) cs"
      using 2 True w by simp
    also have "\<dots> = take (length d) (c # cs) @ drop (length d) (c # cs)"
      using True "2.prems" by (cases d) (auto simp: starts_with_def)
    finally show ?thesis using True "2.prems" w by simp
  next
    case False
    obtain w ws where w: "split_text d cs = w # ws" by (cases "split_text d cs") auto
    then have "join d (w # ws) = cs" using 2 False by simp
    then show ?thesis using False w by (cases ws) auto
  qed
qed simp

section \<open>Properties\<close>

text \<open>
  A key accepted under the naming convention can be exported in every format, trimming it again
  changes nothing, and it contains no character that separates keys from values or ends a line.
\<close>
theorem conventional_keys_export:
  "validate_secret_key key False = Inr k \<Longrightarrow>
     exportable_key k = Inr k \<and> validate_secret_key k False = Inr k \<and> validate_secret_key k True = Inr k
     \<and> CHR ''='' \<notin> set k \<and> CHR 0x0A \<notin> set k \<and> length k \<le> 255"
proof -
  assume "validate_secret_key key False = Inr k"
  then have k: "k = trim key" "1 \<le> length k" "length k \<le> 255" "list_all key_char_ok k" "conventional_key k"
    by (auto simp: validate_secret_key_Inr)
  have t: "trim k = k" using k(1) by simp
  have "\<not> key_char_ok (CHR 0x0A)" by (simp add: key_char_ok_def is_ws_def)
  then have "CHR 0x0A \<notin> set k" using k(4) by (auto simp: list_all_iff)
  then show ?thesis
    using k(2-) t conventional_exportable[OF k(5)] exportable_no_equals[of k]
    by (simp add: validate_secret_key_Inr exportable_key_def)
qed

theorem conventional_keys_export_witness:
  "exportable_key ''API_KEY_2'' = Inr ''API_KEY_2''"
proof -
  have "validate_secret_key '' API_KEY_2 '' False = Inr ''API_KEY_2''" by code_simp
  from conventional_keys_export[OF this] show ?thesis by blast
qed

text \<open>
  C10: a shell export carries the secrets literally: a shell reads its lines back as exactly the
  exported keys and values, every character of a value quoted, so that no value is expanded,
  split or run, and every secret is there once.
\<close>
theorem shell_export_is_literal:
  "serialize_secret_export P secrets Export_shell options = Inr content \<Longrightarrow>
     read_exports (length secrets) content = Some (sorted_entries P secrets)
     \<and> mset (sorted_entries P secrets) = mset secrets"
proof -
  assume "serialize_secret_export P secrets Export_shell options = Inr content"
  then obtain ls where "map_ok shell_line (sorted_entries P secrets) = Inr ls" "content = lines_of ls"
    by (auto simp: serialize_secret_export_def Let_def and_ok_Inr)
  from read_exports_lines[OF this(1)] this(2) show ?thesis
    by (simp add: lines_of_concat) (simp add: sorted_entries_def)
qed

theorem shell_export_is_literal_witness:
  "\<exists>content. serialize_secret_export demo_platform [(''B'', ''x$(id)''), (''A'', [quote])] Export_shell
       \<lparr>nested_json = None, json_delimiter = None\<rparr> = Inr content
     \<and> read_exports 2 content = Some [(''A'', [quote]), (''B'', ''x$(id)'')]"
proof -
  let ?s = "[(''B'', ''x$(id)''), (''A'', [quote])]" and ?o = "\<lparr>nested_json = None, json_delimiter = None\<rparr>"
  have "\<not> isl (serialize_secret_export demo_platform ?s Export_shell ?o)" by code_simp
  then obtain content where c: "serialize_secret_export demo_platform ?s Export_shell ?o = Inr content"
    by (metis isl_def old.sum.exhaust)
  have "sorted_entries demo_platform ?s = [(''A'', [quote]), (''B'', ''x$(id)'')]" by code_simp
  then show ?thesis using shell_export_is_literal[OF c] c by (simp add: numeral_2_eq_2 del: read_exports.simps)
qed

text \<open>
  A nested export loses nothing: the document it prints holds, under the path each key splits
  into, exactly the exported values; joining the paths with the delimiter gives the keys back.
\<close>
theorem nested_export_is_lossless:
  assumes "serialize_secret_export P secrets Export_json \<lparr>nested_json = Some True, json_delimiter = delimiter\<rparr>
      = Inr content"
  shows "\<exists>root d. content = json_pretty 0 root @ newline \<and> d = (case delimiter of None \<Rightarrow> ''__'' | Some d \<Rightarrow> d)
    \<and> mset (map (\<lambda>(path, v). (join d path, v)) (flat root)) = mset secrets"
proof -
  define d where "d = (case delimiter of None \<Rightarrow> ''__'' | Some d \<Rightarrow> d)"
  obtain root where n: "nest d (sorted_entries P secrets) [] = Inr root" and d: "d \<noteq> []"
    and c: "content = json_pretty 0 (in_js_order (JObj root)) @ newline"
    using assms by (auto simp: serialize_secret_export_def Let_def and_ok_Inr d_def[symmetric] split: if_splits)
  have "mset (flat (in_js_order (JObj root))) = mset (map (\<lambda>(k, v). (split_text d k, v)) (sorted_entries P secrets))"
    using nest_flat[OF n] by (simp add: flat_in_js_order del: in_js_order.simps)
  then have "mset (map (\<lambda>(path, v). (join d path, v)) (flat (in_js_order (JObj root))))
      = mset (map (\<lambda>(path, v). (join d path, v)) (map (\<lambda>(k, v). (split_text d k, v)) (sorted_entries P secrets)))"
    by (metis mset_map)
  also have "map (\<lambda>(path, v). (join d path, v)) (map (\<lambda>(k, v). (split_text d k, v)) (sorted_entries P secrets))
      = sorted_entries P secrets"
    by (auto simp: o_def split_beta join_split_text[OF d] intro: map_idI)
  finally show ?thesis using c d_def by (auto simp: sorted_entries_def simp del: in_js_order.simps)
qed

theorem nested_export_is_lossless_witness:
  "\<exists>content root. serialize_secret_export demo_platform [(''DB__HOST'', ''h''), (''DB__PORT'', ''1'')] Export_json
       \<lparr>nested_json = Some True, json_delimiter = None\<rparr> = Inr content \<and> content = json_pretty 0 root @ newline"
proof -
  let ?s = "[(''DB__HOST'', ''h''), (''DB__PORT'', ''1'')]"
  have "\<not> isl (serialize_secret_export demo_platform ?s Export_json \<lparr>nested_json = Some True, json_delimiter = None\<rparr>)"
    by code_simp
  then obtain content where
    "serialize_secret_export demo_platform ?s Export_json \<lparr>nested_json = Some True, json_delimiter = None\<rparr> = Inr content"
    by (metis isl_def old.sum.exhaust)
  then show ?thesis using nested_export_is_lossless by blast
qed

end
