(* ===== verification/Secrets.thy ===== *)
theory Secrets
  imports Access Postgres_Key_Store Secret_Text
begin

text \<open>
  \<^verbatim>\<open>SecretService\<close> of \<^verbatim>\<open>packages/secrets/src/index.ts\<close>: reading, writing, versions and deletion of
  single secrets, the runtime configuration and the export of an environment. Bulk writes, imports
  and promotions are in theory \<open>Secret_Transfer\<close>. Plaintext buffers that are overwritten after
  use are values here.
\<close>

section \<open>Rows and views\<close>

record secret_metadata =
  sm_id :: uuid
  sm_org :: uuid
  sm_project :: uuid
  sm_environment :: uuid
  sm_key :: string
  sm_notes :: "string option"
  sm_tag_ids :: "uuid list"
  sm_tags :: "(uuid \<times> string \<times> string) list"
  sm_version :: int
  sm_created :: time
  sm_updated :: time

text \<open>The two aggregates of \<^verbatim>\<open>secretColumns\<close>, ordered by \<^verbatim>\<open>lower(t.name)\<close> and identifier.\<close>

definition tag_le :: "platform \<Rightarrow> tag_row \<Rightarrow> tag_row \<Rightarrow> bool" where
  "tag_le P a b = (if db_lower P (t_name a) = db_lower P (t_name b) then t_id a \<le> t_id b
     else collate_le P (db_lower P (t_name a)) (db_lower P (t_name b)))"

definition tags_of_secret :: "transaction \<Rightarrow> db \<Rightarrow> secret_row \<Rightarrow> tag_row list" where
  "tags_of_secret T s r = sort_by (tag_le (tx_platform T))
     (concat (map (\<lambda>st. filter (\<lambda>t. t_id t = st_tag st \<and> t_org t = st_org st) (visible t_org T (db_tags s)))
       (filter (\<lambda>st. st_org st = s_org r \<and> st_secret st = s_id r) (visible st_org T (db_secret_tags s)))))"

definition metadata_from_row :: "transaction \<Rightarrow> db \<Rightarrow> secret_row \<Rightarrow> secret_metadata" where
  "metadata_from_row T s r = \<lparr>sm_id = s_id r, sm_org = s_org r, sm_project = s_project r,
     sm_environment = s_environment r, sm_key = s_key r, sm_notes = s_notes r,
     sm_tag_ids = map t_id (tags_of_secret T s r),
     sm_tags = map (\<lambda>t. (t_id t, t_name t, t_color t)) (tags_of_secret T s r),
     sm_version = s_version r, sm_created = s_created r, sm_updated = s_updated r\<rparr>"

definition view_row :: "transaction \<Rightarrow> secret_row \<Rightarrow> secret_metadata db_op" where
  "view_row T r = reads (\<lambda>s. metadata_from_row T s r)"

definition not_found :: error where "not_found = Secret_error Secret_not_found"

definition is_active_secret :: "uuid \<Rightarrow> secret_row \<Rightarrow> bool" where
  "is_active_secret secretId r \<longleftrightarrow> s_id r = secretId \<and> s_deleted r = None"

definition metadata_row :: "transaction \<Rightarrow> uuid \<Rightarrow> secret_row db_op" where
  "metadata_row T secretId =
     bind (select_rows s_org db_secrets T (is_active_secret secretId)) (\<lambda>rows.
     from_option not_found (first_row rows))"

text \<open>A join of secrets with versions; \<open>Q\<close> is the condition on the version.\<close>

definition joined_versions ::
  "transaction \<Rightarrow> (secret_row \<Rightarrow> bool) \<Rightarrow> (secret_row \<Rightarrow> version_row \<Rightarrow> bool) \<Rightarrow> db \<Rightarrow> (secret_row \<times> version_row) list" where
  "joined_versions T P Q s = concat (map (\<lambda>r. map (Pair r)
     (filter (\<lambda>v. v_org v = s_org r \<and> v_secret v = s_id r \<and> Q r v) (visible v_org T (db_versions s))))
     (filter P (visible s_org T (db_secrets s))))"

definition current_rows :: "transaction \<Rightarrow> (secret_row \<Rightarrow> bool) \<Rightarrow> db \<Rightarrow> (secret_row \<times> version_row) list" where
  "current_rows T P s = joined_versions T P (\<lambda>r v. v_version v = s_version r) s"

definition value_row :: "transaction \<Rightarrow> uuid \<Rightarrow> (secret_row \<times> version_row) db_op" where
  "value_row T secretId = bind (reads (current_rows T (is_active_secret secretId))) (\<lambda>rows.
     from_option not_found (first_row rows))"

definition version_value_row :: "transaction \<Rightarrow> uuid \<Rightarrow> int \<Rightarrow> (secret_row \<times> version_row) db_op" where
  "version_value_row T secretId version =
     bind (reads (joined_versions T (is_active_secret secretId) (\<lambda>r v. v_version v = version))) (\<lambda>rows.
     from_option (Secret_error Version_not_found) (first_row rows))"

text \<open>\<^verbatim>\<open>#environment\<close>: an environment of the project, neither of them deleted.\<close>

definition active_project :: "uuid \<Rightarrow> project_row \<Rightarrow> bool" where
  "active_project projectId p \<longleftrightarrow> p_id p = projectId \<and> p_deleted p = None"

definition find_environment :: "transaction \<Rightarrow> uuid \<Rightarrow> uuid \<Rightarrow> db \<Rightarrow> (environment_row \<times> project_row) option" where
  "find_environment T projectId environmentId s =
     first_row (concat (map (\<lambda>e. map (Pair e)
       (filter (\<lambda>p. p_id p = e_project e \<and> p_org p = e_org e \<and> p_deleted p = None) (visible p_org T (db_projects s))))
       (filter (\<lambda>e. e_id e = environmentId \<and> e_project e = projectId \<and> e_deleted e = None)
         (visible e_org T (db_environments s)))))"

definition environment_scope :: "transaction \<Rightarrow> uuid \<Rightarrow> uuid \<Rightarrow> (environment_row \<times> project_row) db_op" where
  "environment_scope T projectId environmentId =
     bind (reads (find_environment T projectId environmentId)) (from_option not_found)"

text \<open>The environment is looked up and the permission required in it.\<close>

definition permit_in :: "transaction \<Rightarrow> uuid \<Rightarrow> uuid \<Rightarrow> uuid \<Rightarrow> permission \<Rightarrow> (environment_row \<times> project_row) db_op" where
  "permit_in T actorUserId projectId environmentId p =
     bind (environment_scope T projectId environmentId) (\<lambda>scope.
     andthen (permit T actorUserId (Some projectId) (e_protected (fst scope)) p) (ret scope))"

definition encrypted_of :: "version_row \<Rightarrow> encrypted_value" where
  "encrypted_of v = \<lparr>ev_algorithm = algorithm_name, ev_key_version = v_key_version v,
     ev_ciphertext = v_ciphertext v, ev_nonce = v_nonce v, ev_tag = v_tag v\<rparr>"

definition context_of :: "secret_row \<Rightarrow> int \<Rightarrow> encryption_context" where
  "context_of r version = \<lparr>context_org = s_org r, context_project = s_project r,
     context_environment = s_environment r, context_secret = s_id r, context_version = version\<rparr>"

text \<open>Decryption of the current version, and of the version the row stands for (\<^verbatim>\<open>#versionContext\<close>).\<close>

definition decrypt_row :: "transaction \<Rightarrow> secret_row \<times> version_row \<Rightarrow> bytes db_op" where
  "decrypt_row T rv = tx_decrypt T (encrypted_of (snd rv)) (context_of (fst rv) (s_version (fst rv)))"

definition decrypt_version :: "transaction \<Rightarrow> secret_row \<times> version_row \<Rightarrow> bytes db_op" where
  "decrypt_version T rv = tx_decrypt T (encrypted_of (snd rv)) (context_of (fst rv) (v_version (snd rv)))"

section \<open>Reading\<close>

definition json_count :: "nat \<Rightarrow> json" where "json_count n = JNum (js_nat n)"
definition json_version :: "int \<Rightarrow> json" where "json_version n = JNum (js_int n)"

text \<open>\<^verbatim>\<open>list\<close>, with the search text trimmed and empty searches dropped.\<close>

definition search_text :: "string option \<Rightarrow> string option" where
  "search_text t = (case t of None \<Rightarrow> None | Some t \<Rightarrow> if trim t = [] then None else Some (trim t))"

definition secret_listed :: "transaction \<Rightarrow> string option \<Rightarrow> uuid option \<Rightarrow> db \<Rightarrow> secret_row \<Rightarrow> bool" where
  "secret_listed T search tagId s r \<longleftrightarrow>
     (case search of None \<Rightarrow> True | Some t \<Rightarrow>
        let like = (\<lambda>column. ilike (tx_platform T) column (''%'' @ t @ ''%'')) in
        like (s_key r) \<or> like (case s_notes r of None \<Rightarrow> '''' | Some n \<Rightarrow> n)
        \<or> list_ex (\<lambda>tag. like (t_name tag)) (tags_of_secret T s r))
     \<and> (case tagId of None \<Rightarrow> True | Some i \<Rightarrow>
        list_ex (\<lambda>st. st_secret st = s_id r \<and> st_org st = s_org r \<and> st_tag st = i)
          (visible st_org T (db_secret_tags s)))"

definition key_le :: "platform \<Rightarrow> secret_row \<Rightarrow> secret_row \<Rightarrow> bool" where
  "key_le P a b = (if s_key a = s_key b then s_id a \<le> s_id b else collate_le P (s_key a) (s_key b))"

definition in_place :: "uuid \<Rightarrow> uuid \<Rightarrow> secret_row \<Rightarrow> bool" where
  "in_place projectId environmentId r \<longleftrightarrow>
     s_project r = projectId \<and> s_environment r = environmentId \<and> s_deleted r = None"

definition list_secrets ::
  "transaction \<Rightarrow> uuid \<Rightarrow> uuid \<Rightarrow> uuid \<Rightarrow> string option \<Rightarrow> uuid option \<Rightarrow> secret_metadata list db_op" where
  "list_secrets T actorUserId projectId environmentId search tagId =
     andthen (permit_in T actorUserId projectId environmentId Secret_read)
     (reads (\<lambda>s. map (metadata_from_row T s) (sort_by (key_le (tx_platform T))
        (filter (\<lambda>r. in_place projectId environmentId r \<and> secret_listed T (search_text search) tagId s r)
          (visible s_org T (db_secrets s))))))"

definition secret_event :: "transaction \<Rightarrow> uuid \<Rightarrow> audit_action \<Rightarrow> secret_row \<Rightarrow> audit_event" where
  "secret_event T actorUserId action r =
     (user_event (tx_org T) actorUserId action ''secret'' (s_id r))
       \<lparr>event_project := Some (s_project r), event_environment := Some (s_environment r)\<rparr>"

definition get_secret :: "transaction \<Rightarrow> uuid \<Rightarrow> uuid \<Rightarrow> (secret_metadata \<times> string) db_op" where
  "get_secret T actorUserId secretId =
     bind (value_row T secretId) (\<lambda>rv.
     let r = fst rv in
     andthen (permit_in T actorUserId (s_project r) (s_environment r) Secret_read)
     (bind (decrypt_row T rv) (\<lambda>plaintext.
      bind (view_row T r) (\<lambda>view.
      andthen (record_in_transaction T ((secret_event T actorUserId Secret_read_event r)
         \<lparr>event_details := Some [(''key'', JStr (s_key r)), (''version'', json_version (s_version r))]\<rparr>))
      (ret (view, utf8_decode (tx_platform T) plaintext))))))"

text \<open>The decrypted configuration of an environment, in key order.\<close>

definition decrypt_all :: "transaction \<Rightarrow> (secret_row \<times> version_row) list \<Rightarrow> (string \<times> string) list db_op" where
  "decrypt_all T rows = for_each (\<lambda>rv. bind (decrypt_row T rv) (\<lambda>plaintext.
     ret (s_key (fst rv), utf8_decode (tx_platform T) plaintext))) rows"

definition configuration_rows :: "transaction \<Rightarrow> uuid \<Rightarrow> uuid \<Rightarrow> db \<Rightarrow> (secret_row \<times> version_row) list" where
  "configuration_rows T projectId environmentId s =
     sort_by (\<lambda>a b. key_le (tx_platform T) (fst a) (fst b)) (current_rows T (in_place projectId environmentId) s)"

datatype known_versions = Known_any | Known "int list"

record runtime_config =
  config_version :: int
  config_secrets :: "(string \<times> string) list option"   \<comment> \<open>\<open>None\<close> when not modified\<close>

definition environment_event :: "transaction \<Rightarrow> audit_actor \<Rightarrow> audit_action \<Rightarrow> uuid \<Rightarrow> uuid \<Rightarrow> audit_event" where
  "environment_event T actor action projectId environmentId =
     (user_event (tx_org T) [] action ''environment'' environmentId)
       \<lparr>event_actor := actor, event_project := Some projectId, event_environment := Some environmentId\<rparr>"

definition runtime_configuration ::
  "transaction \<Rightarrow> uuid \<Rightarrow> uuid \<Rightarrow> uuid \<Rightarrow> known_versions \<Rightarrow> audit_actor \<Rightarrow> runtime_config db_op" where
  "runtime_configuration T actorUserId projectId environmentId knownVersions auditActor =
     bind (permit_in T actorUserId projectId environmentId Secret_read) (\<lambda>scope.
     let version = e_config_version (fst scope) in
     andthen (check (is_safe_integer version \<and> 0 \<le> version) Internal_error)
     (if (case knownVersions of Known_any \<Rightarrow> True | Known vs \<Rightarrow> version \<in> set vs)
      then ret \<lparr>config_version = version, config_secrets = None\<rparr>
      else
        bind (reads (configuration_rows T projectId environmentId)) (\<lambda>rows.
        bind (decrypt_all T rows) (\<lambda>entries.
        andthen (record_in_transaction T ((environment_event T auditActor Secret_read_event projectId environmentId)
          \<lparr>event_details := Some [(''count'', json_count (length entries)), (''configVersion'', json_version version)]\<rparr>))
        (ret \<lparr>config_version = version, config_secrets = Some (from_entries entries)\<rparr>)))))"

primrec format_text :: "export_format \<Rightarrow> string" where
  "format_text Export_dotenv = ''dotenv''"
| "format_text Export_json = ''json''"
| "format_text Export_shell = ''shell''"

primrec format_extension :: "export_format \<Rightarrow> string" where
  "format_extension Export_dotenv = ''env''"
| "format_extension Export_json = ''json''"
| "format_extension Export_shell = ''sh''"

record secret_export =
  se_format :: export_format
  se_filename :: string
  se_mime_type :: string
  se_content :: string
  se_count :: nat
  se_nested :: bool

definition export_config ::
  "transaction \<Rightarrow> uuid \<Rightarrow> uuid \<Rightarrow> uuid \<Rightarrow> export_format \<Rightarrow> export_options \<Rightarrow> audit_actor \<Rightarrow> secret_export db_op" where
  "export_config T actorUserId projectId environmentId format options auditActor =
     bind (permit_in T actorUserId projectId environmentId Secret_read) (\<lambda>scope.
     bind (reads (configuration_rows T projectId environmentId)) (\<lambda>rows.
     bind (decrypt_all T rows) (\<lambda>entries.
     let nested = (format = Export_json \<and> nested_json options = Some True) in
     bind (lift_sum (serialize_secret_export (tx_platform T) (enumeration (from_entries entries)) format options))
       (\<lambda>content.
     andthen (record_in_transaction T ((environment_event T auditActor Secret_exported projectId environmentId)
       \<lparr>event_details := Some [(''format'', JStr (format_text format)), (''nested'', JBool nested),
          (''count'', json_count (length entries))]\<rparr>))
     (ret \<lparr>se_format = format,
        se_filename = p_slug (snd scope) @ ''-'' @ e_slug (fst scope) @ ''.'' @ format_extension format,
        se_mime_type = (if format = Export_json then ''application/json'' else ''text/plain; charset=utf-8''),
        se_content = content, se_count = length entries, se_nested = nested\<rparr>)))))"

record version_metadata =
  vm_version :: int
  vm_author :: "uuid option"
  vm_change_note :: "string option"
  vm_key_version :: int
  vm_created :: time
  vm_current :: bool

definition list_versions :: "transaction \<Rightarrow> uuid \<Rightarrow> uuid \<Rightarrow> version_metadata list db_op" where
  "list_versions T actorUserId secretId =
     bind (metadata_row T secretId) (\<lambda>secret.
     andthen (permit_in T actorUserId (s_project secret) (s_environment secret) Secret_read)
     (bind (select_rows v_org db_versions T (\<lambda>v. v_secret v = secretId)) (\<lambda>rows.
      ret (map (\<lambda>v. \<lparr>vm_version = v_version v, vm_author = v_author v, vm_change_note = v_change_note v,
             vm_key_version = v_key_version v, vm_created = v_created v,
             vm_current = (v_version v = s_version secret)\<rparr>)
           (sort_by (\<lambda>a b. v_version b \<le> v_version a) rows)))))"

record version_comparison =
  cmp_from :: int
  cmp_to :: int
  cmp_changed :: bool
  cmp_masked :: bool
  cmp_values :: "(string \<times> string) option"

definition compare_versions ::
  "transaction \<Rightarrow> uuid \<Rightarrow> uuid \<Rightarrow> int \<Rightarrow> int \<Rightarrow> bool \<Rightarrow> version_comparison db_op" where
  "compare_versions T actorUserId secretId fromVersion toVersion reveal =
     andthen (check (1 \<le> fromVersion \<and> 1 \<le> toVersion) (Secret_error Secret_invalid_input))
     (bind (metadata_row T secretId) (\<lambda>secret.
      andthen (permit_in T actorUserId (s_project secret) (s_environment secret) Secret_read)
     (bind (reads (joined_versions T (is_active_secret secretId) (\<lambda>r v. v_version v \<in> {fromVersion, toVersion})))
        (\<lambda>rows.
      let byVersion = (\<lambda>n. find (\<lambda>rv. v_version (snd rv) = n) (rev rows)) in
      bind (from_option (Secret_error Version_not_found) (byVersion fromVersion)) (\<lambda>rvFrom.
      bind (from_option (Secret_error Version_not_found) (byVersion toVersion)) (\<lambda>rvTo.
      bind (decrypt_version T rvFrom) (\<lambda>fromPlaintext.
      bind (if fromVersion = toVersion then ret fromPlaintext else decrypt_version T rvTo) (\<lambda>toPlaintext.
      let changed = (fromPlaintext \<noteq> toPlaintext) in
      andthen (record_in_transaction T ((secret_event T actorUserId Secret_read_event secret)
         \<lparr>event_details := Some [(''operation'', JStr ''version_compare''), (''fromVersion'', json_version fromVersion),
            (''toVersion'', json_version toVersion), (''revealed'', JBool reveal), (''changed'', JBool changed)]\<rparr>))
      (ret \<lparr>cmp_from = fromVersion, cmp_to = toVersion, cmp_changed = changed, cmp_masked = (\<not> reveal),
         cmp_values = (if reveal then Some (utf8_decode (tx_platform T) fromPlaintext,
                                            utf8_decode (tx_platform T) toPlaintext) else None)\<rparr>)))))))))"

end
