(* ===== verification/Secret_Writes.thy ===== *)
theory Secret_Writes
  imports Secrets
begin

text \<open>
  The writing half of \<^verbatim>\<open>SecretService\<close> in \<^verbatim>\<open>packages/secrets/src/index.ts\<close>: \<^verbatim>\<open>#writeVersion\<close>,
  \<^verbatim>\<open>#writeMetadata\<close>, \<^verbatim>\<open>#create\<close>, \<^verbatim>\<open>#replaceTags\<close>, update, rollback and delete, and the contract they obey.
\<close>

section \<open>Operations\<close>

text \<open>An optional property that may be \<^verbatim>\<open>null\<close> is an option of an option: absent is \<open>None\<close>.\<close>

record version_input =
  wi_value :: string
  wi_notes :: "string option option"
  wi_change_note :: "string option"
  wi_tag_ids :: "uuid list option"

record secret_input =
  in_key :: string
  in_value :: string
  in_notes :: "string option option"
  in_change_note :: "string option"
  in_allow_nonconforming :: bool
  in_tag_ids :: "uuid list option"

record update_input =
  up_value :: "string option"
  up_notes :: "string option option"
  up_change_note :: "string option"
  up_expected_version :: "int option"
  up_tag_ids :: "uuid list option"

definition replace_tags :: "transaction \<Rightarrow> secret_row \<Rightarrow> uuid list \<Rightarrow> unit db_op" where
  "replace_tags T secret tagIds =
     (let uniqueTagIds = js_uniq tagIds in
      andthen (check (length uniqueTagIds \<le> 50) (Secret_error Secret_invalid_input))
     (bind (select_rows t_org db_tags T (\<lambda>t. t_id t \<in> set uniqueTagIds)) (\<lambda>found.
      andthen (check (uniqueTagIds = [] \<or> length found = length uniqueTagIds) (Secret_error Secret_tag_not_found))
     (andthen (delete_rows st_org db_secret_tags_update T (\<lambda>st. st_secret st = s_id secret))
     (andthen (for_each (\<lambda>i. insert_row st_org db_secret_tags db_secret_tags_update secret_tag_clash T
        \<lparr>st_org = tx_org T, st_project = s_project secret, st_environment = s_environment secret,
         st_secret = s_id secret, st_tag = i\<rparr>) uniqueTagIds)
      (ret ()))))))"

definition validated_notes :: "secret_row \<Rightarrow> string option option \<Rightarrow> error + string option" where
  "validated_notes before notes = (case notes of None \<Rightarrow> Inr (s_notes before) | Some n \<Rightarrow> validate_notes n)"

definition version_row_of ::
  "transaction \<Rightarrow> uuid \<Rightarrow> secret_row \<Rightarrow> encrypted_value \<Rightarrow> string option \<Rightarrow> version_row" where
  "version_row_of T actorUserId before encrypted changeNote =
     \<lparr>v_org = s_org before, v_project = s_project before, v_environment = s_environment before,
      v_secret = s_id before, v_version = s_version before + 1, v_ciphertext = ev_ciphertext encrypted,
      v_nonce = ev_nonce encrypted, v_tag = ev_tag encrypted, v_key_version = ev_key_version encrypted,
      v_author = Some actorUserId, v_change_note = changeNote, v_created = tx_now T\<rparr>"

text \<open>The two statements that make a version current.\<close>

definition store_version :: "transaction \<Rightarrow> uuid \<Rightarrow> secret_row \<Rightarrow> encrypted_value \<Rightarrow> string option \<Rightarrow> string option \<Rightarrow> unit db_op" where
  "store_version T actorUserId before encrypted changeNote notes =
     andthen (insert_version T (version_row_of T actorUserId before encrypted changeNote))
       (update_secrets T (is_active_secret (s_id before))
         (\<lambda>r. r\<lparr>s_version := s_version before + 1, s_notes := notes, s_updated := tx_now T\<rparr>))"

definition presence_metadata :: "secret_row \<Rightarrow> metadata" where
  "presence_metadata r = [(''key'', JStr (s_key r)), (''version'', json_version (s_version r)),
     (''notesPresent'', JBool (s_notes r \<noteq> None))]"

definition write_event :: "transaction \<Rightarrow> uuid \<Rightarrow> audit_action \<Rightarrow> secret_row \<Rightarrow> secret_row \<Rightarrow> audit_event" where
  "write_event T actorUserId action before r = (secret_event T actorUserId action r)
     \<lparr>event_before := (if action = Secret_updated then Some (presence_metadata before) else None),
      event_after := Some (presence_metadata r)\<rparr>"

definition write_version ::
  "transaction \<Rightarrow> uuid \<Rightarrow> secret_row \<Rightarrow> version_input \<Rightarrow> audit_action \<Rightarrow> bool \<Rightarrow> secret_metadata db_op" where
  "write_version T actorUserId before input action recordAudit =
     bind (lift_sum (validate_secret_value (wi_value input))) (\<lambda>plaintext.
     bind (lift_sum (validated_notes before (wi_notes input))) (\<lambda>notes.
     bind (lift_sum (validate_change_note (wi_change_note input))) (\<lambda>changeNote.
     bind (tx_encrypt T plaintext (context_of before (s_version before + 1))) (\<lambda>encrypted.
     andthen (store_version T actorUserId before encrypted changeNote notes)
     (bind (metadata_row T (s_id before)) (\<lambda>r.
      andthen (case wi_tag_ids input of None \<Rightarrow> ret () | Some tagIds \<Rightarrow> replace_tags T r tagIds)
     (andthen (if recordAudit then record_in_transaction T (write_event T actorUserId action before r) else ret ())
     (bind (metadata_row T (s_id r)) (view_row T)))))))))"

definition write_metadata ::
  "transaction \<Rightarrow> uuid \<Rightarrow> secret_row \<Rightarrow> string option option \<Rightarrow> uuid list option \<Rightarrow> secret_metadata db_op" where
  "write_metadata T actorUserId before notes tagIds =
     bind (lift_sum (validated_notes before notes)) (\<lambda>notes.
     andthen (update_secrets T (is_active_secret (s_id before)) (\<lambda>r. r\<lparr>s_notes := notes, s_updated := tx_now T\<rparr>))
     (bind (metadata_row T (s_id before)) (\<lambda>r.
      andthen (case tagIds of None \<Rightarrow> ret () | Some tagIds \<Rightarrow> replace_tags T r tagIds)
     (andthen (record_in_transaction T ((secret_event T actorUserId Secret_updated r)
        \<lparr>event_before := Some (presence_metadata before),
         event_after := Some (presence_metadata r @ [(''valueChanged'', JBool False)])\<rparr>))
     (bind (metadata_row T (s_id r)) (view_row T))))))"

text \<open>A soft-deleted secret that neither its project nor its environment took down.\<close>

definition recoverable :: "uuid \<Rightarrow> uuid \<Rightarrow> string \<Rightarrow> secret_row \<Rightarrow> bool" where
  "recoverable projectId environmentId key r \<longleftrightarrow>
     s_project r = projectId \<and> s_environment r = environmentId \<and> s_key r = key \<and> s_deleted r \<noteq> None
     \<and> s_deleted_by_project r = None \<and> s_deleted_by_environment r = None"

definition new_secret :: "transaction \<Rightarrow> uuid \<Rightarrow> uuid \<Rightarrow> uuid \<Rightarrow> uuid \<Rightarrow> string \<Rightarrow> string option \<Rightarrow> secret_row" where
  "new_secret T actorUserId secretId projectId environmentId key notes =
     \<lparr>s_id = secretId, s_org = tx_org T, s_project = projectId, s_environment = environmentId,
      s_key = key, s_notes = notes, s_version = 0, s_created_by = Some actorUserId,
      s_created = tx_now T, s_updated = tx_now T, s_deleted = None, s_deleted_by_project = None,
      s_deleted_by_environment = None\<rparr>"

text \<open>What \<^verbatim>\<open>#create\<close> does once the caller is authorized and the input is valid.\<close>

definition create_validated ::
  "transaction \<Rightarrow> uuid \<Rightarrow> uuid \<Rightarrow> uuid \<Rightarrow> string \<Rightarrow> version_input \<Rightarrow> bool \<Rightarrow> secret_metadata db_op" where
  "create_validated T actorUserId projectId environmentId key version_in recordAudit =
     bind (select_rows s_org db_secrets T (recoverable projectId environmentId key)) (\<lambda>deleted.
     case first_row deleted of
       Some r \<Rightarrow>
         andthen (update_secrets T (\<lambda>q. s_id q = s_id r) (\<lambda>q. q\<lparr>s_deleted := None, s_updated := tx_now T\<rparr>))
           (write_version T actorUserId r version_in Secret_created recordAudit)
     | None \<Rightarrow>
         bind (fresh_uuid T) (\<lambda>secretId.
         rethrow (on_unique_violation (Secret_error Key_exists))
           (let r = new_secret T actorUserId secretId projectId environmentId key
                      (case wi_notes version_in of None \<Rightarrow> None | Some n \<Rightarrow> n) in
            andthen (insert_secret T r) (write_version T actorUserId r version_in Secret_created recordAudit))))"

definition version_input_of :: "secret_input \<Rightarrow> string option \<Rightarrow> string option \<Rightarrow> version_input" where
  "version_input_of input newNotes changeNote = \<lparr>wi_value = in_value input, wi_notes = Some newNotes,
     wi_change_note = changeNote, wi_tag_ids = Some (case in_tag_ids input of None \<Rightarrow> [] | Some ts \<Rightarrow> ts)\<rparr>"

definition create_with ::
  "transaction \<Rightarrow> uuid \<Rightarrow> uuid \<Rightarrow> uuid \<Rightarrow> secret_input \<Rightarrow> bool \<Rightarrow> bool \<Rightarrow> secret_metadata db_op" where
  "create_with T actorUserId projectId environmentId input authorized recordAudit =
     andthen (if authorized then andthen (environment_scope T projectId environmentId) (ret ())
              else andthen (permit_in T actorUserId projectId environmentId Secret_write) (ret ()))
     (bind (lift_sum (validate_secret_key (in_key input) (in_allow_nonconforming input))) (\<lambda>key.
      bind (lift_sum (validate_notes (case in_notes input of None \<Rightarrow> None | Some n \<Rightarrow> n))) (\<lambda>newNotes.
      bind (lift_sum (validate_change_note (in_change_note input))) (\<lambda>changeNote.
      create_validated T actorUserId projectId environmentId key
        (version_input_of input newNotes changeNote) recordAudit))))"

definition create_secret :: "transaction \<Rightarrow> uuid \<Rightarrow> uuid \<Rightarrow> uuid \<Rightarrow> secret_input \<Rightarrow> secret_metadata db_op" where
  "create_secret T actorUserId projectId environmentId input =
     create_with T actorUserId projectId environmentId input False True"

definition expected_version_ok :: "int option \<Rightarrow> secret_row \<Rightarrow> bool" where
  "expected_version_ok expected r \<longleftrightarrow> (case expected of None \<Rightarrow> True | Some n \<Rightarrow> n = s_version r)"

definition update_secret :: "transaction \<Rightarrow> uuid \<Rightarrow> uuid \<Rightarrow> update_input \<Rightarrow> secret_metadata db_op" where
  "update_secret T actorUserId secretId input =
     bind (metadata_row T secretId) (\<lambda>before.
     andthen (permit_in T actorUserId (s_project before) (s_environment before) Secret_write)
     (andthen (check (expected_version_ok (up_expected_version input) before) (Secret_error Version_conflict))
     (case up_value input of
        None \<Rightarrow>
          andthen (check (up_change_note input = None \<or> up_change_note input = Some '''')
              (Secret_error Secret_invalid_input))
            (write_metadata T actorUserId before (up_notes input) (up_tag_ids input))
      | Some v \<Rightarrow> write_version T actorUserId before
          \<lparr>wi_value = v, wi_notes = up_notes input, wi_change_note = up_change_note input,
           wi_tag_ids = up_tag_ids input\<rparr> Secret_updated True)))"

definition rollback_secret ::
  "transaction \<Rightarrow> uuid \<Rightarrow> uuid \<Rightarrow> int \<Rightarrow> int option \<Rightarrow> string option \<Rightarrow> secret_metadata db_op" where
  "rollback_secret T actorUserId secretId targetVersion expectedVersion changeNote =
     andthen (check (1 \<le> targetVersion) (Secret_error Secret_invalid_input))
     (bind (metadata_row T secretId) (\<lambda>before.
      andthen (permit_in T actorUserId (s_project before) (s_environment before) Secret_write)
     (andthen (check (expected_version_ok expectedVersion before) (Secret_error Version_conflict))
     (andthen (check (targetVersion < s_version before) (Secret_error Secret_invalid_input))
     (bind (version_value_row T secretId targetVersion) (\<lambda>target.
      bind (decrypt_version T target) (\<lambda>plaintext.
      write_version T actorUserId before
        \<lparr>wi_value = utf8_decode (tx_platform T) plaintext, wi_notes = None,
         wi_change_note = Some (case changeNote of None \<Rightarrow> ''Rollback to version '' @ js_int targetVersion
           | Some n \<Rightarrow> n),
         wi_tag_ids = None\<rparr> Secret_updated True)))))))"

definition delete_secret :: "transaction \<Rightarrow> uuid \<Rightarrow> uuid \<Rightarrow> secret_metadata db_op" where
  "delete_secret T actorUserId secretId =
     bind (metadata_row T secretId) (\<lambda>r.
     bind (view_row T r) (\<lambda>view.
     andthen (permit_in T actorUserId (s_project r) (s_environment r) Secret_delete)
     (andthen (update_secrets T (is_active_secret secretId) (\<lambda>q. q\<lparr>s_deleted := Some (tx_now T), s_updated := tx_now T\<rparr>))
     (andthen (record_in_transaction T ((secret_event T actorUserId Secret_deleted r)
        \<lparr>event_before := Some [(''key'', JStr (s_key r)), (''version'', json_version (s_version r))]\<rparr>))
      (ret view)))))"

section \<open>Every operation obeys the contract\<close>

lemma obeys_view_row [contract_intros]: "obeys (tenant_step orgId) (view_row T r)"
  unfolding view_row_def by (auto intro!: contract_intros)

lemma obeys_metadata_row [contract_intros]: "obeys (tenant_step orgId) (metadata_row T secretId)"
  unfolding metadata_row_def by (auto intro!: contract_intros)

lemma obeys_value_row [contract_intros]: "obeys (tenant_step orgId) (value_row T secretId)"
  unfolding value_row_def by (auto intro!: contract_intros)

lemma obeys_version_value_row [contract_intros]: "obeys (tenant_step orgId) (version_value_row T secretId v)"
  unfolding version_value_row_def by (auto intro!: contract_intros)

lemma obeys_environment_scope [contract_intros]: "obeys (tenant_step orgId) (environment_scope T projectId environmentId)"
  unfolding environment_scope_def by (auto intro!: contract_intros)

lemma obeys_permit_in [contract_intros]: "obeys (tenant_step orgId) (permit_in T actorUserId projectId environmentId p)"
  unfolding permit_in_def by (auto intro!: contract_intros)

lemma obeys_decrypt_row [contract_intros]: "obeys (tenant_step orgId) (decrypt_row T rv)"
  unfolding decrypt_row_def by (auto intro!: contract_intros)

lemma obeys_decrypt_version [contract_intros]: "obeys (tenant_step orgId) (decrypt_version T rv)"
  unfolding decrypt_version_def by (auto intro!: contract_intros)

lemma obeys_decrypt_all [contract_intros]: "obeys (tenant_step orgId) (decrypt_all T rows)"
  unfolding decrypt_all_def by (auto intro!: contract_intros)

lemma obeys_list_secrets [contract_intros]:
  "obeys (tenant_step (tx_org T)) (list_secrets T actorUserId projectId environmentId search tagId)"
  unfolding list_secrets_def by (auto intro!: contract_intros)

lemma obeys_get_secret [contract_intros]: "obeys (tenant_step (tx_org T)) (get_secret T actorUserId secretId)"
  unfolding get_secret_def Let_def by (auto intro!: contract_intros)

lemma obeys_runtime_configuration [contract_intros]:
  "obeys (tenant_step (tx_org T)) (runtime_configuration T actorUserId projectId environmentId known auditActor)"
  unfolding runtime_configuration_def Let_def by (auto intro!: contract_intros)

lemma obeys_export_config [contract_intros]:
  "obeys (tenant_step (tx_org T)) (export_config T actorUserId projectId environmentId format options auditActor)"
  unfolding export_config_def Let_def by (auto intro!: contract_intros)

lemma obeys_list_versions [contract_intros]: "obeys (tenant_step (tx_org T)) (list_versions T actorUserId secretId)"
  unfolding list_versions_def by (auto intro!: contract_intros)

lemma obeys_compare_versions [contract_intros]:
  "obeys (tenant_step (tx_org T)) (compare_versions T actorUserId secretId fromVersion toVersion reveal)"
  unfolding compare_versions_def Let_def by (auto intro!: contract_intros)

lemma obeys_replace_tags [contract_intros]: "obeys (tenant_step (tx_org T)) (replace_tags T secret tagIds)"
  unfolding replace_tags_def Let_def by (auto intro!: contract_intros)

lemma obeys_store_version_op [contract_intros]:
  "obeys (tenant_step (tx_org T)) (store_version T actorUserId before encrypted changeNote notes)"
  unfolding store_version_def
  by (rule obeys_store_version)
    (auto simp: keeps_secret_place_def current_of_def version_row_of_def is_active_secret_def)

lemma obeys_write_version [contract_intros]:
  "obeys (tenant_step (tx_org T)) (write_version T actorUserId before input action recordAudit)"
  unfolding write_version_def by (auto intro!: contract_intros)

lemma obeys_write_metadata [contract_intros]:
  "obeys (tenant_step (tx_org T)) (write_metadata T actorUserId before notes tagIds)"
  unfolding write_metadata_def
  by (auto intro!: contract_intros simp: keeps_secret_place_def)

lemma obeys_create_validated [contract_intros]:
  "obeys (tenant_step (tx_org T)) (create_validated T actorUserId projectId environmentId key version_in recordAudit)"
  unfolding create_validated_def Let_def
  by (auto intro!: contract_intros obeys_insert_secret simp: keeps_secret_place_def new_secret_def)

lemma obeys_create_with [contract_intros]:
  "obeys (tenant_step (tx_org T)) (create_with T actorUserId projectId environmentId input authorized recordAudit)"
  unfolding create_with_def by (auto intro!: contract_intros)

lemma obeys_create_secret [contract_intros]:
  "obeys (tenant_step (tx_org T)) (create_secret T actorUserId projectId environmentId input)"
  unfolding create_secret_def by (rule contract_intros)

lemma obeys_update_secret [contract_intros]: "obeys (tenant_step (tx_org T)) (update_secret T actorUserId secretId input)"
  unfolding update_secret_def by (auto intro!: contract_intros)

lemma obeys_rollback_secret [contract_intros]:
  "obeys (tenant_step (tx_org T)) (rollback_secret T actorUserId secretId targetVersion expectedVersion changeNote)"
  unfolding rollback_secret_def by (auto intro!: contract_intros)

lemma obeys_delete_secret [contract_intros]: "obeys (tenant_step (tx_org T)) (delete_secret T actorUserId secretId)"
  unfolding delete_secret_def by (auto intro!: contract_intros simp: keeps_secret_place_def)

end
