(* ===== verification/Secret_Facts.thy ===== *)
theory Secret_Facts
  imports Secret_Writes
begin

text \<open>
  What the secret service promises its callers: a value that was written is the value that is
  read, for ever and whatever the organization does meanwhile; a rollback brings an old value
  back; two writers that saw the same version cannot both succeed; a write takes a permission
  in the environment of the secret; and the audit trail learns nothing about values.
\<close>

section \<open>What the building blocks change\<close>

text \<open>The transaction of another request to the same installation.\<close>

definition same_service :: "transaction \<Rightarrow> transaction \<Rightarrow> bool" where
  "same_service T T' \<longleftrightarrow> tx_org T' = tx_org T \<and> tx_platform T' = tx_platform T \<and> tx_wrapper T' = tx_wrapper T"

lemma same_service_refl [simp]: "same_service T T"
  by (simp add: same_service_def)

lemma visible_iff [simp]: "r \<in> set (visible org T rs) \<longleftrightarrow> r \<in> set rs \<and> org r = tx_org T"
  by (auto simp: visible_def)

lemma update_whereE:
  assumes "r \<in> set (update_where org T P f rs)"
  obtains p where "p \<in> set rs" and "r = (if org p = tx_org T \<and> P p then f p else p)"
proof -
  have "r \<in> (\<lambda>p. if org p = tx_org T \<and> P p then f p else p) ` set rs"
    using assms by (simp add: update_where_def image_iff)
  then show thesis by (elim imageE) (rule that)
qed

lemma first_row_Some: "first_row rs = Some r \<Longrightarrow> r \<in> set rs"
  by (auto simp: first_row_def split: list.splits)

lemma metadata_row_Inr:
  "metadata_row T i s = Inr (r, s') \<longleftrightarrow>
     s' = s \<and> find (is_active_secret i) (visible s_org T (db_secrets s)) = Some r"
  by (auto simp: metadata_row_def op_simps select_rows_def first_row_filter)

lemma active_secretD:
  assumes "find (is_active_secret i) (visible s_org T (db_secrets s)) = Some r"
  shows "r \<in> set (db_secrets s)" "s_org r = tx_org T" "s_id r = i" "s_deleted r = None"
  using find_SomeD[OF assms] by (auto simp: is_active_secret_def)

lemma view_row_Inr: "view_row T r s = Inr (v, s') \<longleftrightarrow> v = metadata_from_row T s r \<and> s' = s"
  by (auto simp: view_row_def op_simps)

lemma insert_each_frame:
  "for_each (\<lambda>i. insert_row org get upd clash T (row i)) is s = Inr (us, s') \<Longrightarrow>
     (\<And>g h s. upd g (upd h s) = upd (\<lambda>rs. g (h rs)) s) \<Longrightarrow> (\<And>s. upd (\<lambda>rs. rs) s = s) \<Longrightarrow>
     \<exists>g. s' = upd g s"
proof (induction "is" arbitrary: s us)
  case Nil
  then show ?case by (auto simp: op_simps intro: exI[of _ "\<lambda>rs. rs"])
next
  case (Cons i "is")
  then obtain t u vs where t: "t = upd (\<lambda>rs. rs @ [row i]) s"
    and f: "for_each (\<lambda>i. insert_row org get upd clash T (row i)) is t = Inr (vs, s')"
    by (auto simp: op_simps insert_row_def)
  obtain g where "s' = upd g t" using Cons.IH[OF f Cons.prems(2,3)] by blast
  then show ?case using t Cons.prems(2) by blast
qed

lemma replace_tags_frame:
  assumes "replace_tags T r tagIds s = Inr (u, s')"
  obtains g where "s' = db_secret_tags_update g s"
proof -
  obtain us where "for_each (\<lambda>i. insert_row st_org db_secret_tags db_secret_tags_update secret_tag_clash T
        \<lparr>st_org = tx_org T, st_project = s_project r, st_environment = s_environment r,
         st_secret = s_id r, st_tag = i\<rparr>) (js_uniq tagIds)
      (db_secret_tags_update (delete_where st_org T (\<lambda>st. st_secret st = s_id r)) s) = Inr (us, s')"
    using assms by (auto simp: replace_tags_def Let_def op_simps delete_rows_def select_rows_def)
  from insert_each_frame[OF this] obtain g where
    "s' = db_secret_tags_update g (db_secret_tags_update (delete_where st_org T (\<lambda>st. st_secret st = s_id r)) s)"
    by auto
  then show ?thesis using that[of "\<lambda>rs. g (delete_where st_org T (\<lambda>st. st_secret st = s_id r) rs)"] by simp
qed

lemma record_frame:
  assumes "record_in_transaction T ev s = Inr (u, s')"
  obtains g where "s' = db_audit_update g s"
  using assms by (auto simp: record_Inr)

lemma pg_ensure_frame:
  assumes "pg_ensure_active T orgId f s = (x, s')"
  shows "\<exists>g. s' = db_keys_update g s"
proof -
  have "\<exists>g. s = db_keys_update g s" by (rule exI[of _ "\<lambda>ks. ks"]) simp
  moreover have "\<exists>g. s' = db_keys_update g s" if "pg_activate T orgId f s = (y, s')" for y
    using that pg_activate_ok(8) pg_activate_error calculation by (cases y) blast+
  ultimately show ?thesis using assms by (auto simp: pg_ensure_active_def split: option.splits)
qed

lemma tx_encrypt_frame:
  assumes "tx_encrypt T m ctx s = Inr (ev, s')"
  obtains ks n where "s' = s\<lparr>db_keys := ks, db_draws := n\<rparr>"
proof -
  obtain c where e: "encrypt (tx_platform T) (tx_encryption T) (tx_clock T) (db_draws s) m ctx []
      (s\<lparr>db_draws := db_draws s + 3\<rparr>) = (Inr ev, c, s')"
    using assms by (auto simp: tx_encrypt_def split: prod.splits sum.splits)
  have "\<exists>g. s' = db_keys_update g (s\<lparr>db_draws := db_draws s + 3\<rparr>)"
    using encrypt_store_step[OF e] pg_ensure_frame
    by (auto simp: pg_store_def intro: exI[of _ "\<lambda>ks. ks"])
  then obtain g where "s' = s\<lparr>db_keys := g (db_keys s), db_draws := db_draws s + 3\<rparr>"
    by (cases s) auto
  then show ?thesis by (rule that)
qed

section \<open>Readable versions\<close>

text \<open>Version \<open>n\<close> of a secret is stored and decrypts to \<open>m\<close>.\<close>

definition version_readable :: "transaction \<Rightarrow> uuid \<Rightarrow> int \<Rightarrow> bytes \<Rightarrow> db \<Rightarrow> bool" where
  "version_readable T secretId n m s \<longleftrightarrow> (\<exists>r\<in>set (db_secrets s). \<exists>v\<in>set (db_versions s).
     s_id r = secretId \<and> version_key v = (s_org r, secretId, n) \<and> s_org r = tx_org T
     \<and> tx_decrypt T (encrypted_of v) (context_of r n) s = Inr (m, s))"

text \<open>A service with an empty cache unwraps the key that belongs to the ciphertext.\<close>

lemma decrypt_fresh:
  "fst (decrypt P sv now ev ctx [] s) =
     (if ev_algorithm ev \<noteq> algorithm_name \<or> length (ev_nonce ev) \<noteq> nonce_bytes \<or> length (ev_tag ev) \<noteq> tag_bytes
      then Inl (Crypto_error Decryption_failed)
      else case get_version (es_store sv) (context_org ctx) (ev_key_version ev) s of
             None \<Rightarrow> Inl (Crypto_error Decryption_failed)
           | Some r \<Rightarrow> (case unwrap (es_wrapper sv) (dk_org r) (dk_version r) (dk_wrapped r) of
               Inl e \<Rightarrow> Inl (decrypt_failure e)
             | Inr key \<Rightarrow> (case secret_aad ctx of
                 Inl e \<Rightarrow> Inl (decrypt_failure e)
               | Inr aad \<Rightarrow> (case gcm_open P key (ev_nonce ev) aad (ev_ciphertext ev) (ev_tag ev) of
                   None \<Rightarrow> Inl (Crypto_error Decryption_failed) | Some m \<Rightarrow> Inr m))))"
  by (simp add: decrypt_def load_key_def Let_def split: option.split sum.split)

lemma tx_decrypt_kept:
  assumes d: "tx_decrypt T ev ctx s = Inr (m, s)" and kept: "keys_kept s s'" and T': "same_service T T'"
  shows "tx_decrypt T' ev ctx s' = Inr (m, s')"
proof -
  let ?dec = "\<lambda>T s. fst (decrypt (tx_platform T) (tx_encryption T) (tx_clock T) ev ctx [] s)"
  have m: "?dec T s = Inr m" using d by (auto simp: tx_decrypt_def split: sum.splits)
  then obtain q where q: "pg_get_version T (context_org ctx) (ev_key_version ev) s = Some q"
    by (auto simp: decrypt_def pg_store_def split: if_splits option.splits)
  then have o: "context_org ctx = tx_org T" and k: "key_at s (tx_org T) (ev_key_version ev) = Some q"
    by (auto simp: pg_get_version_eq split: if_splits)
  obtain q' where "key_at s' (tx_org T) (ev_key_version ev) = Some q'" "dk_wrapped q' = dk_wrapped q"
    using kept k unfolding keys_kept_def by blast
  then have q': "pg_get_version T' (context_org ctx) (ev_key_version ev) s' = Some q'"
    "dk_wrapped q' = dk_wrapped q"
    using o T' by (simp_all add: pg_get_version_eq same_service_def)
  have "dk_org q' = dk_org q" "dk_version q' = dk_version q"
    using q q'(1) by (auto simp: pg_get_version_def dest!: find_SomeD)
  then have "?dec T' s' = ?dec T s"
    using q q' T' by (simp add: decrypt_fresh pg_store_def same_service_def)
  then show ?thesis using m by (simp add: tx_decrypt_def)
qed

text \<open>Nothing an organization does makes a stored version unreadable or changes its value.\<close>

lemma version_readable_step:
  assumes r: "version_readable T i n m s" and st: "tenant_step orgId s s'" and ok: "db_keys_ok s"
    and T': "same_service T T'"
  shows "version_readable T' i n m s'"
proof -
  obtain q v where q: "q \<in> set (db_secrets s)" "s_id q = i" "s_org q = tx_org T"
    and v: "v \<in> set (db_versions s)" "version_key v = (s_org q, i, n)"
    and d: "tx_decrypt T (encrypted_of v) (context_of q n) s = Inr (m, s)"
    using r by (auto simp: version_readable_def)
  have "secret_place q \<in> secret_place ` set (db_secrets s')" "v \<in> set (db_versions s')" "keys_kept s s'"
    using st q(1) v(1) ok by (auto simp: tenant_step_def prefix_def)
  then obtain q' where "q' \<in> set (db_secrets s')" "secret_place q' = secret_place q" by auto
  moreover from this have "context_of q' n = context_of q n"
    by (simp add: secret_place_def context_of_def)
  ultimately show ?thesis
    using q v d tx_decrypt_kept[OF d \<open>keys_kept s s'\<close> T'] \<open>v \<in> set (db_versions s')\<close> T'
    unfolding version_readable_def
    by (intro bexI[of _ q'] bexI[of _ v]) (auto simp: secret_place_def same_service_def)
qed

lemma distinct_map_eq:
  "distinct (map f xs) \<Longrightarrow> x \<in> set xs \<Longrightarrow> y \<in> set xs \<Longrightarrow> f x = f y \<Longrightarrow> x = y"
  by (auto simp: distinct_map dest: inj_onD)

lemma secret_identified:
  "versions_ok s \<Longrightarrow> q \<in> set (db_secrets s) \<Longrightarrow> r \<in> set (db_secrets s) \<Longrightarrow> s_id q = s_id r \<Longrightarrow> q = r"
  unfolding versions_ok_def by (elim conjE) (rule distinct_map_eq)

lemma version_identified:
  "versions_ok s \<Longrightarrow> v \<in> set (db_versions s) \<Longrightarrow> w \<in> set (db_versions s) \<Longrightarrow> version_key v = version_key w \<Longrightarrow> v = w"
  unfolding versions_ok_def by (elim conjE) (rule distinct_map_eq)

text \<open>In a well-formed database a secret and a version number determine what is decrypted.\<close>

lemma version_readable_unique:
  assumes r: "version_readable T i n m s" and ok: "versions_ok s"
    and q: "q \<in> set (db_secrets s)" "s_id q = i"
    and v: "v \<in> set (db_versions s)" "version_key v = (tx_org T, i, n)"
  shows "tx_decrypt T (encrypted_of v) (context_of q n) s = Inr (m, s)"
proof -
  obtain q' v' where h: "q' \<in> set (db_secrets s)" "v' \<in> set (db_versions s)" "s_id q' = i"
    "version_key v' = (tx_org T, i, n)" "tx_decrypt T (encrypted_of v') (context_of q' n) s = Inr (m, s)"
    using r unfolding version_readable_def by auto
  have "q' = q" "v' = v"
    using ok h(1-4) q v by (auto intro: secret_identified version_identified)
  then show ?thesis using h(5) by simp
qed

lemma current_rowsD:
  assumes "(q, v) \<in> set (current_rows T P s)"
  shows "q \<in> set (db_secrets s)" "s_org q = tx_org T" "P q" "v \<in> set (db_versions s)"
    "version_key v = (tx_org T, s_id q, s_version q)"
  using assms by (auto simp: current_rows_def joined_versions_def version_key_def)

lemma get_secret_readable:
  assumes g: "get_secret T u i s = Inr ((view, w), s')" and r: "version_readable T i (sm_version view) m s"
    and ok: "versions_ok s"
  shows "w = utf8_decode (tx_platform T) m"
proof -
  obtain q v x t where qv: "(q, v) \<in> set (current_rows T (is_active_secret i) s)"
    and view: "view = metadata_from_row T t q"
    and d: "tx_decrypt T (encrypted_of v) (context_of q (s_version q)) s = Inr (x, t)"
      "w = utf8_decode (tx_platform T) x"
    using g by (auto simp: get_secret_def Let_def op_simps value_row_def permit_in_def environment_scope_def permit_Inr
        decrypt_row_def view_row_Inr dest!: first_row_Some)
  note c = current_rowsD[OF qv]
  have "sm_version view = s_version q" "s_id q = i"
    using view c(3) by (auto simp: metadata_from_row_def is_active_secret_def)
  then have "tx_decrypt T (encrypted_of v) (context_of q (s_version q)) s = Inr (m, s)"
    using version_readable_unique[OF r ok c(1) _ c(4)] c(5) by simp
  then show ?thesis using d by simp
qed

section \<open>Writing a version\<close>

text \<open>The rows after a written version: the new version, and the secret pointing to it.\<close>

definition pointed :: "transaction \<Rightarrow> secret_row \<Rightarrow> string option \<Rightarrow> secret_row \<Rightarrow> secret_row" where
  "pointed T before notes r = r\<lparr>s_version := s_version before + 1, s_notes := notes, s_updated := tx_now T\<rparr>"

text \<open>The trigger changes nothing but configuration versions.\<close>

definition versioned :: "(environment_row \<Rightarrow> int) \<Rightarrow> environment_row \<Rightarrow> environment_row" where
  "versioned c e = e\<lparr>e_config_version := c e\<rparr>"

lemma fold_trigger_versioned:
  "\<exists>c. fold (\<lambda>r. secret_trigger (Some r) (f r)) rs es = map (versioned c) es"
proof (induction rs arbitrary: es)
  case Nil
  then show ?case by (intro exI[of _ e_config_version]) (simp add: versioned_def map_idI)
next
  case (Cons r rs)
  have "\<exists>c. secret_trigger (Some r) (f r) es = map (versioned c) es"
  proof (cases "s_version (f r) = s_version r \<and> s_deleted (f r) = s_deleted r")
    case True
    then show ?thesis by (intro exI[of _ e_config_version]) (simp add: secret_trigger_def versioned_def map_idI)
  next
    case False
    then show ?thesis
      by (intro exI[of _ "\<lambda>e. e_config_version (bump_environment (f r) e)"])
        (auto simp: secret_trigger_def versioned_def bump_environment_def)
  qed
  then obtain c where "secret_trigger (Some r) (f r) es = map (versioned c) es" by blast
  moreover obtain c' where "fold (\<lambda>r. secret_trigger (Some r) (f r)) rs (map (versioned c) es)
      = map (versioned c') (map (versioned c) es)" using Cons.IH by blast
  ultimately show ?case
    by (intro exI[of _ "\<lambda>e. c' (versioned c e)"]) (simp add: versioned_def)
qed

lemma find_environment_versioned:
  assumes "db_environments s' = map (versioned c) (db_environments s)" "db_projects s' = db_projects s"
  shows "find_environment T projectId environmentId s' =
    map_option (\<lambda>(e, p). (versioned c e, p)) (find_environment T projectId environmentId s)"
proof -
  have f: "first_row (map g xs) = map_option g (first_row xs)" for g :: "'x \<Rightarrow> 'y" and xs
    by (cases xs) (simp_all add: first_row_def)
  have "concat (map F (filter P (map h es))) = map G (concat (map F (filter P es)))"
    if "\<And>e. P (h e) = P e" "\<And>e. F (h e) = map G (F e)"
    for F :: "environment_row \<Rightarrow> (environment_row \<times> project_row) list" and G P h es
    using that by (induction es) auto
  from this[of "\<lambda>e. e_org e = tx_org T \<and> e_id e = environmentId \<and> e_project e = projectId \<and> e_deleted e = None"
      "versioned c" "\<lambda>e. map (Pair e) (filter (\<lambda>p. p_id p = e_project e \<and> p_org p = e_org e \<and> p_deleted p = None)
        (visible p_org T (db_projects s)))" "\<lambda>(e, p). (versioned c e, p)" "db_environments s"]
  show ?thesis
    unfolding find_environment_def assms visible_def filter_filter f[symmetric]
    by (simp add: versioned_def conj_ac)
qed

lemma write_version_effect:
  assumes w: "write_version T u before input action recordAudit s = Inr (view, s')"
  obtains m newNotes changeNote ev t q c where
    "validate_secret_value (wi_value input) = Inr m"
    and "validated_notes before (wi_notes input) = Inr newNotes"
    and "tx_encrypt T m (context_of before (s_version before + 1)) s = Inr (ev, t)"
    and "s_org before = tx_org T"
    and "version_check (version_row_of T u before ev changeNote)"
    and "db_secrets s' = update_where s_org T (is_active_secret (s_id before)) (pointed T before newNotes) (db_secrets s)"
    and "db_versions s' = db_versions s @ [version_row_of T u before ev changeNote]"
    and "db_keys s' = db_keys t"
    and "db_memberships s' = db_memberships s" "db_overrides s' = db_overrides s" "db_projects s' = db_projects s"
    and "db_environments s' = map (versioned c) (db_environments s)"
    and "find (is_active_secret (s_id before)) (visible s_org T (db_secrets s')) = Some q"
    and "view = metadata_from_row T s' q"
    and "if recordAudit then \<exists>md. metadata_for (write_event T u action before q) = Inr md \<and> db_audit s' = db_audit s @
        [audit_row_of T (write_event T u action before q) md (int (length (db_audit s)) + 1)]
      else db_audit s' = db_audit s"
proof -
  obtain m newNotes changeNote ev t t1 q t2 q' where
    h: "validate_secret_value (wi_value input) = Inr m" "validated_notes before (wi_notes input) = Inr newNotes"
    and e: "tx_encrypt T m (context_of before (s_version before + 1)) s = Inr (ev, t)"
    and i: "insert_version T (version_row_of T u before ev changeNote) t = Inr ((), t1)"
    and q: "find (is_active_secret (s_id before)) (visible s_org T
        (db_secrets (updated_secrets T (is_active_secret (s_id before)) (pointed T before newNotes) t1))) = Some q"
    and tags: "(case wi_tag_ids input of None \<Rightarrow> ret () | Some tagIds \<Rightarrow> replace_tags T q tagIds)
        (updated_secrets T (is_active_secret (s_id before)) (pointed T before newNotes) t1) = Inr ((), t2)"
    and au: "(if recordAudit then record_in_transaction T (write_event T u action before q) else ret ()) t2 = Inr ((), s')"
    and q': "find (is_active_secret (s_id q)) (visible s_org T (db_secrets s')) = Some q'"
    and view: "view = metadata_from_row T s' q'"
    using w by (auto simp: write_version_def op_simps store_version_def update_secrets_def metadata_row_Inr
        view_row_Inr pointed_def[abs_def])
  define t3 where "t3 = updated_secrets T (is_active_secret (s_id before)) (pointed T before newNotes) t1"
  obtain ks n where t: "t = s\<lparr>db_keys := ks, db_draws := n\<rparr>" using tx_encrypt_frame[OF e] by blast
  note iv = insert_version_step[OF i]
  obtain g where g: "t2 = db_secret_tags_update g t3"
  proof (cases "wi_tag_ids input")
    case None
    then show ?thesis using tags that[of "\<lambda>x. x"] by (auto simp: op_simps t3_def)
  next
    case (Some tagIds)
    then show ?thesis using tags that replace_tags_frame by (metis option.simps(5) t3_def)
  qed
  obtain f where f: "s' = db_audit_update f t2"
  proof (cases recordAudit)
    case True
    then show ?thesis using au that record_frame by (metis (full_types))
  next
    case False
    then show ?thesis using au that[of "\<lambda>x. x"] by (auto simp: op_simps)
  qed
  have sec: "db_secrets s' = update_where s_org T (is_active_secret (s_id before)) (pointed T before newNotes) (db_secrets s)"
    and ver: "db_versions s' = db_versions s @ [version_row_of T u before ev changeNote]"
    and keys: "db_keys s' = db_keys t"
    and other: "db_memberships s' = db_memberships s" "db_overrides s' = db_overrides s" "db_projects s' = db_projects s"
    by (simp_all add: f g t3_def iv(1) t updated_secrets_def)
  obtain c where env: "db_environments s' = map (versioned c) (db_environments s)"
    using fold_trigger_versioned[of "pointed T before newNotes"
        "filter (is_active_secret (s_id before)) (visible s_org T (db_secrets s))" "db_environments s"]
    by (auto simp: f g t3_def iv(1) t updated_secrets_def)
  have "s_id q = s_id before" using active_secretD(3)[OF q] .
  then have "q' = q" using q q' sec by (simp add: updated_secrets_def iv(1) t)
  have audit: "if recordAudit then \<exists>md. metadata_for (write_event T u action before q) = Inr md \<and> db_audit s' = db_audit s @
        [audit_row_of T (write_event T u action before q) md (int (length (db_audit s)) + 1)]
      else db_audit s' = db_audit s"
    using au record_audit[of T "write_event T u action before q" t2 "()" s']
    by (auto simp: op_simps g t3_def iv(1) t updated_secrets_def)
  have "s_org before = tx_org T" using iv(3) by (simp add: version_row_of_def)
  then show ?thesis
    using that[OF h e _ iv(4) sec ver keys other env _ _ audit] q' \<open>q' = q\<close> \<open>s_id q = s_id before\<close> view by simp
qed

lemma write_version_readable:
  assumes w: "write_version T u before input action recordAudit s = Inr (view, s')"
    and P: "gcm_correct (tx_platform T)" "gcm_lengths (tx_platform T)" "random_lengths (tx_platform T)"
    and ok: "db_keys_ok s" and before: "secret_place before \<in> secret_place ` set (db_secrets s)"
  shows "version_readable T (s_id before) (s_version before + 1) (utf8 (wi_value input)) s'"
    and "sm_version view = s_version before + 1" and "sm_id view = s_id before"
proof -
  obtain m newNotes changeNote ev t q where
    m: "validate_secret_value (wi_value input) = Inr m"
    and e: "tx_encrypt T m (context_of before (s_version before + 1)) s = Inr (ev, t)"
    and o: "s_org before = tx_org T"
    and sec: "db_secrets s' = update_where s_org T (is_active_secret (s_id before)) (pointed T before newNotes) (db_secrets s)"
    and ver: "db_versions s' = db_versions s @ [version_row_of T u before ev changeNote]"
    and keys: "db_keys s' = db_keys t"
    and q: "find (is_active_secret (s_id before)) (visible s_org T (db_secrets s')) = Some q"
    and view: "view = metadata_from_row T s' q"
    using write_version_effect[OF w] by metis
  have m': "m = utf8 (wi_value input)" using m by (auto simp: validate_secret_value_def Let_def split: if_splits)
  have "tenant_step (tx_org T) s t" using obeysD[OF obeys_tx_encrypt e] .
  then have "db_keys_ok t" using ok by (simp add: tenant_step_def)
  then have k: "db_keys_ok s'" "keys_kept t s'"
    using keys by (simp_all add: db_keys_ok_def org_keys_def keys_kept_def key_at_def)
  have d: "tx_decrypt T ev (context_of before (s_version before + 1)) s' = Inr (m, s')"
    by (rule tx_decrypt_encrypt[OF P ok k(1) k(2) refl refl refl e])
  let ?v = "version_row_of T u before ev changeNote"
  have alg: "ev_algorithm ev = algorithm_name"
    using e by (auto simp: tx_encrypt_def encrypt_def Let_def split: sum.splits prod.splits)
  have ve: "encrypted_of ?v = ev" using alg by (cases ev) (simp add: encrypted_of_def version_row_of_def)
  obtain r where r: "r \<in> set (db_secrets s)" "secret_place r = secret_place before" using before by auto
  obtain r' where r': "r' \<in> set (db_secrets s')" "secret_place r' = secret_place before"
    using r by (auto simp: sec update_where_def secret_place_def pointed_def
      intro!: that[of "if s_org r = tx_org T \<and> is_active_secret (s_id before) r then pointed T before newNotes r else r"])
  then have "context_of r' (s_version before + 1) = context_of before (s_version before + 1)"
    by (simp add: context_of_def secret_place_def)
  then show "version_readable T (s_id before) (s_version before + 1) (utf8 (wi_value input)) s'"
    unfolding version_readable_def
    using r' d ve m' o ver
    by (intro bexI[of _ r'] bexI[of _ ?v]) (auto simp: version_key_def version_row_of_def secret_place_def)
  note a = active_secretD[OF q]
  have "s_version q = s_version before + 1"
    using a by (auto simp: sec update_where_def pointed_def is_active_secret_def split: if_splits)
  then show "sm_version view = s_version before + 1" "sm_id view = s_id before"
    using view a(3) by (simp_all add: metadata_from_row_def)
qed

section \<open>Values survive\<close>

lemma permit_in_Inr:
  "permit_in T u projectId environmentId p s = Inr (scope, s') \<longleftrightarrow>
     s' = s \<and> find_environment T projectId environmentId s = Some scope
     \<and> permitted T u (Some projectId) (e_protected (fst scope)) p s"
  by (cases scope) (auto simp: permit_in_def environment_scope_def op_simps permit_Inr)

lemma update_secret_Inr:
  "update_secret T u i input s = Inr (view, s') \<longleftrightarrow> (\<exists>before scope.
     find (is_active_secret i) (visible s_org T (db_secrets s)) = Some before
     \<and> find_environment T (s_project before) (s_environment before) s = Some scope
     \<and> permitted T u (Some (s_project before)) (e_protected (fst scope)) Secret_write s
     \<and> expected_version_ok (up_expected_version input) before
     \<and> (case up_value input of
          None \<Rightarrow> (up_change_note input = None \<or> up_change_note input = Some '''')
            \<and> write_metadata T u before (up_notes input) (up_tag_ids input) s = Inr (view, s')
        | Some v \<Rightarrow> write_version T u before \<lparr>wi_value = v, wi_notes = up_notes input,
            wi_change_note = up_change_note input, wi_tag_ids = up_tag_ids input\<rparr> Secret_updated True s = Inr (view, s')))"
  by (cases "up_value input") (auto simp: update_secret_def op_simps metadata_row_Inr permit_in_Inr)

lemma rollback_secret_Inr:
  assumes "rollback_secret T u i n expected changeNote s = Inr (view, s')"
  obtains before q v plaintext scope where
    "find (is_active_secret i) (visible s_org T (db_secrets s)) = Some before"
    and "find_environment T (s_project before) (s_environment before) s = Some scope"
    and "permitted T u (Some (s_project before)) (e_protected (fst scope)) Secret_write s"
    and "1 \<le> n" "n < s_version before" "expected_version_ok expected before"
    and "q \<in> set (db_secrets s)" "s_id q = i" "v \<in> set (db_versions s)" "version_key v = (tx_org T, i, n)"
    and "tx_decrypt T (encrypted_of v) (context_of q n) s = Inr (plaintext, s)"
    and "write_version T u before \<lparr>wi_value = utf8_decode (tx_platform T) plaintext, wi_notes = None,
         wi_change_note = Some (case changeNote of None \<Rightarrow> ''Rollback to version '' @ js_int n | Some c \<Rightarrow> c),
         wi_tag_ids = None\<rparr> Secret_updated True s = Inr (view, s')"
proof -
  obtain before q v plaintext t scope where
    h: "find (is_active_secret i) (visible s_org T (db_secrets s)) = Some before"
    "find_environment T (s_project before) (s_environment before) s = Some scope"
    "permitted T u (Some (s_project before)) (e_protected (fst scope)) Secret_write s"
    "1 \<le> n" "n < s_version before" "expected_version_ok expected before"
    and qv: "(q, v) \<in> set (joined_versions T (is_active_secret i) (\<lambda>r v. v_version v = n) s)"
    and d: "decrypt_version T (q, v) s = Inr (plaintext, t)"
    and w: "write_version T u before \<lparr>wi_value = utf8_decode (tx_platform T) plaintext, wi_notes = None,
         wi_change_note = Some (case changeNote of None \<Rightarrow> ''Rollback to version '' @ js_int n | Some c \<Rightarrow> c),
         wi_tag_ids = None\<rparr> Secret_updated True t = Inr (view, s')"
    using assms
    by (auto simp: rollback_secret_def op_simps metadata_row_Inr permit_in_Inr version_value_row_def dest!: first_row_Some)
  have j: "q \<in> set (db_secrets s)" "s_id q = i" "v \<in> set (db_versions s)" "version_key v = (tx_org T, i, n)"
    using qv by (auto simp: joined_versions_def version_key_def is_active_secret_def)
  have "t = s" using d tx_decrypt_state by (auto simp: decrypt_version_def)
  then show ?thesis using that[OF h j] d w j(4) by (simp add: decrypt_version_def version_key_def)
qed


section \<open>Requests succeed\<close>

text \<open>How long the text of an audit payload can get; keys have at most 255 characters.\<close>

lemma json_quote_length: "length (json_quote t) \<le> 6 * length t + 2"
  by (induction t) (auto simp: json_quote_def json_escape_def json_escape_char_def Let_def)

lemma utf8_length: "length (utf8 t) \<le> 2 * length t"
  by (induction t) (auto simp: utf8_def utf8_char_def Let_def)

lemma join_length: "length (join sep ws) \<le> sum_list (map (\<lambda>w. length w + length sep) ws)"
  by (induction ws rule: induct_list012) auto

lemma json_object_length:
  "length (json_text (JObj ms)) \<le> 2 + sum_list (map (\<lambda>(k, v). length (json_quote k) + length (json_text v) + 2) ms)"
proof -
  have "sum_list (map (\<lambda>w. length w + 1) (map (\<lambda>(k, v). json_quote k @ '':'' @ json_text v) ms))
      = sum_list (map (\<lambda>(k, v). length (json_quote k) + length (json_text v) + 2) ms)"
    by (induction ms) auto
  then show ?thesis
    using join_length[of "'',''" "map (\<lambda>(k, v). json_quote k @ '':'' @ json_text v) ms"] by simp
qed

lemma js_nat_length: "n < 10 ^ Suc k \<Longrightarrow> length (js_nat n) \<le> Suc k"
proof (induction k arbitrary: n)
  case 0
  then show ?case by (subst js_nat.simps) simp
next
  case (Suc k)
  then have "n div 10 < 10 ^ Suc k" by (simp add: div_less_iff_less_mult mult.commute)
  then show ?case using Suc.IH by (subst js_nat.simps) auto
qed

lemma js_int_length: "0 \<le> n \<Longrightarrow> n \<le> 2147483647 \<Longrightarrow> length (js_int n) \<le> 10"
  using js_nat_length[of "nat n" 9] by (simp add: js_int_def)

text \<open>The keys the secret service puts into audit payloads.\<close>

lemma audit_keys_allowed [simp]:
  "\<not> forbidden_key ''key''" "\<not> forbidden_key ''version''" "\<not> forbidden_key ''notesPresent''"
  "\<not> forbidden_key ''valueChanged''"
  by code_simp+

definition small_object :: "metadata \<Rightarrow> bool" where
  "small_object ms \<longleftrightarrow> metadata_ok 0 (JObj ms) \<and> length (json_text (JObj ms)) \<le> 8000"

lemma sum_list_bound:
  "(\<And>x. x \<in> set xs \<Longrightarrow> f x \<le> b) \<Longrightarrow> sum_list (map f xs) \<le> length xs * b" for b :: nat
  using sum_list_mono[of xs f "\<lambda>_. b"] by (simp add: sum_list_triv)

lemma metadata_for_small:
  assumes "pred_option small_object (event_before ev)" "pred_option small_object (event_after ev)"
    "pred_option small_object (event_details ev)"
  shows "\<exists>md. metadata_for ev = Inr md"
proof -
  let ?opts = "[(''before'', event_before ev), (''after'', event_after ev), (''details'', event_details ev)]"
  define parts where "parts = List.map_filter (\<lambda>(k, v). map_option (\<lambda>m. (k, JObj m)) v) ?opts"
  have p: "\<exists>ms. v = JObj ms \<and> small_object ms \<and> length k \<le> 7" if "(k, v) \<in> set parts" for k v
    using that assms by (auto simp: parts_def List.map_filter_def pred_option_def split: if_splits)
  have "map_ok (\<lambda>(k, v). validate_metadata v) parts = Inr (map (\<lambda>_. ()) parts)"
    by (rule map_ok_Inr_map) (use p in \<open>force simp: validate_metadata_def small_object_def\<close>)
  moreover have "length (utf8 (json_text (JObj parts))) \<le> 64 * 1024"
  proof -
    have l: "length parts \<le> 3" by (auto simp: parts_def List.map_filter_def)
    have "length (json_quote k) + length (json_text v) + 2 \<le> 8046" if "(k, v) \<in> set parts" for k v
      using p[OF that] json_quote_length[of k] by (auto simp: small_object_def simp del: json_text.simps)
    then have "sum_list (map (\<lambda>(k, v). length (json_quote k) + length (json_text v) + 2) parts) \<le> length parts * 8046"
      unfolding split_def by (intro sum_list_bound) auto
    then show ?thesis
      using l json_object_length[of parts] utf8_length[of "json_text (JObj parts)"] by linarith
  qed
  ultimately show ?thesis by (simp add: metadata_for_def Let_def parts_def and_ok_def not_less)
qed

lemma record_succeeds:
  assumes "audit_ok s" "validate_event ev = Inr ()" "event_org ev = tx_org T" "length (event_resource_type ev) \<le> 80"
    and "metadata_for ev = Inr md"
  shows "record_in_transaction T ev s =
    Inr ((), db_audit_update (\<lambda>es. es @ [audit_row_of T ev md (int (length (db_audit s)) + 1)]) s)"
proof -
  have "\<not> list_ex (\<lambda>q. a_id q = int (length (db_audit s)) + 1) (db_audit s)"
  proof
    assume "list_ex (\<lambda>q. a_id q = int (length (db_audit s)) + 1) (db_audit s)"
    then have "int (length (db_audit s)) + 1 \<in> set (map a_id (db_audit s))" by (force simp: list_ex_iff)
    then show False using assms(1) unfolding audit_ok_def by (simp del: upt_Suc) auto
  qed
  then show ?thesis using assms by (simp add: record_Inr)
qed

lemma presence_small:
  assumes "length (s_key r) \<le> 255" "0 \<le> s_version r" "s_version r \<le> 2147483647"
  shows "small_object (presence_metadata r)"
    and "small_object [(''key'', JStr (s_key r)), (''version'', json_version (s_version r))]"
    and "small_object (presence_metadata r @ [(''valueChanged'', JBool b)])"
proof -
  have q: "length (json_quote (s_key r)) \<le> 1532" using json_quote_length[of "s_key r"] assms(1) by linarith
  have n: "length (json_text (json_version (s_version r))) \<le> 10"
    using js_int_length[OF assms(2,3)] js_int_finite by (simp add: json_version_def)
  have k: "length (json_quote ''key'') \<le> 20" "length (json_quote ''version'') \<le> 44"
    "length (json_quote ''notesPresent'') \<le> 74" "length (json_quote ''valueChanged'') \<le> 74"
    using json_quote_length[of "''key''"] json_quote_length[of "''version''"]
      json_quote_length[of "''notesPresent''"] json_quote_length[of "''valueChanged''"] by simp_all
  have "length (json_text (JObj (presence_metadata r))) \<le> 8000"
    "length (json_text (JObj [(''key'', JStr (s_key r)), (''version'', json_version (s_version r))])) \<le> 8000"
    "length (json_text (JObj (presence_metadata r @ [(''valueChanged'', JBool b)]))) \<le> 8000"
    by (rule order.trans[OF json_object_length], use q n k in \<open>simp add: presence_metadata_def\<close>)+
  then show "small_object (presence_metadata r)"
    "small_object [(''key'', JStr (s_key r)), (''version'', json_version (s_version r))]"
    "small_object (presence_metadata r @ [(''valueChanged'', JBool b)])"
    using js_int_finite by (simp_all add: small_object_def presence_metadata_def json_version_def del: json_text.simps)
qed

lemma version_bound:
  assumes "versions_ok s" "r \<in> set (db_secrets s)"
  shows "0 \<le> s_version r" "s_version r \<le> 2147483647" "length (s_key r) \<le> 255"
  using assms by (auto simp: versions_ok_def current_of_def) force+

lemma find_only:
  assumes "\<And>x. x \<in> set xs \<Longrightarrow> P x \<Longrightarrow> x = a" "a \<in> set xs" "P a"
  shows "find P xs = Some a"
  using assms by (intro find_unique)

text \<open>In a well-formed database the rows \<^verbatim>\<open>get\<close> joins are the secret and its current version.\<close>

lemma current_rows_unique:
  assumes ok: "versions_ok s" and r: "r \<in> set (db_secrets s)" "s_org r = tx_org T" "P r"
    and v: "v \<in> set (db_versions s)" "current_of r v"
    and only: "\<And>q. q \<in> set (db_secrets s) \<Longrightarrow> P q \<Longrightarrow> s_id q = s_id r"
  shows "first_row (current_rows T P s) = Some (r, v)"
proof -
  have all: "x = (r, v)" if "x \<in> set (current_rows T P s)" for x
  proof -
    obtain q w where x: "x = (q, w)" by (cases x)
    note c = current_rowsD[OF that[unfolded x]]
    have "q = r" by (rule secret_identified[OF ok c(1) r(1)]) (rule only[OF c(1,3)])
    moreover have "version_key w = version_key v" using c(5) v(2) r(2) calculation
      by (simp add: current_of_def version_key_def)
    then have "w = v" by (intro version_identified[OF ok c(4) v(1)])
    ultimately show ?thesis using x by simp
  qed
  have "(r, v) \<in> set (current_rows T P s)"
    using r v by (auto simp: current_rows_def joined_versions_def current_of_def)
  then obtain x where x: "first_row (current_rows T P s) = Some x"
    by (cases "current_rows T P s") (auto simp: first_row_def)
  then show ?thesis using all[OF first_row_Some[OF x]] by simp
qed

lemma readable_current:
  assumes ok: "versions_ok s" and r: "r \<in> set (db_secrets s)" "s_org r = tx_org T"
    and m: "version_readable T (s_id r) (s_version r) m s"
  obtains v where "v \<in> set (db_versions s)" "current_of r v"
    "tx_decrypt T (encrypted_of v) (context_of r (s_version r)) s = Inr (m, s)"
proof -
  obtain q v where v: "v \<in> set (db_versions s)" "version_key v = (tx_org T, s_id r, s_version r)"
    using m by (auto simp: version_readable_def)
  then have "current_of r v" using r by (simp add: version_key_def current_of_def)
  then show ?thesis using that v version_readable_unique[OF m ok r(1) refl v] by blast
qed

text \<open>
  Reading a secret, completely. For an active secret in an active environment: a user without
  the permission to read there gets an authorization error; a user with it gets the current value,
  and the read leaves exactly one event in the audit trail.
\<close>
lemma get_secret_outcome:
  assumes ok: "versions_ok s" "audit_ok s" and ids: "tx_org T \<noteq> []" "u \<noteq> []"
    and r: "find (is_active_secret i) (visible s_org T (db_secrets s)) = Some r"
    and env: "find_environment T (s_project r) (s_environment r) s = Some scope"
    and m: "version_readable T i (s_version r) m s"
  shows "if permitted T u (Some (s_project r)) (e_protected (fst scope)) Secret_read s
    then \<exists>s'. get_secret T u i s = Inr ((metadata_from_row T s r, utf8_decode (tx_platform T) m), s')
         \<and> length (db_audit s') = Suc (length (db_audit s)) \<and> db_secrets s' = db_secrets s
    else \<exists>d. get_secret T u i s = Inl (Authorization_error d)"
proof -
  note a = active_secretD[OF r]
  obtain v where v: "v \<in> set (db_versions s)" "current_of r v"
    and d: "tx_decrypt T (encrypted_of v) (context_of r (s_version r)) s = Inr (m, s)"
    using readable_current[OF ok(1) a(1,2)] m a(3) by metis
  have "first_row (current_rows T (is_active_secret i) s) = Some (r, v)"
    by (rule current_rows_unique[OF ok(1) a(1,2) _ v]) (use a in \<open>auto simp: is_active_secret_def\<close>)
  then have row: "value_row T i s = Inr ((r, v), s)"
    by (simp add: value_row_def op_defs)
  have scope: "environment_scope T (s_project r) (s_environment r) s = Inr (scope, s)"
    using env by (simp add: environment_scope_def op_defs)
  let ?ev = "(secret_event T u Secret_read_event r)
         \<lparr>event_details := Some [(''key'', JStr (s_key r)), (''version'', json_version (s_version r))]\<rparr>"
  show ?thesis
  proof (cases "permitted T u (Some (s_project r)) (e_protected (fst scope)) Secret_read s")
    case True
    then have p: "permit_in T u (s_project r) (s_environment r) Secret_read s = Inr (scope, s)"
      using env by (simp add: permit_in_Inr)
    have "\<exists>md. metadata_for ?ev = Inr md"
      using presence_small(2)[OF version_bound(3,1,2)[OF ok(1) a(1)]]
      by (intro metadata_for_small) (simp_all add: secret_event_def user_event_def)
    then obtain md where md: "metadata_for ?ev = Inr md" by blast
    have "validate_event ?ev = Inr ()"
      using ids by (simp add: validate_event_def secret_event_def user_event_def)
    from record_succeeds[OF ok(2) this _ _ md]
    have "record_in_transaction T ?ev s =
        Inr ((), db_audit_update (\<lambda>es. es @ [audit_row_of T ?ev md (int (length (db_audit s)) + 1)]) s)"
      by (simp add: secret_event_def user_event_def)
    then show ?thesis
      using True row p d
      by (simp add: get_secret_def Let_def bind_def andthen_def decrypt_row_def view_row_def reads_def ret_def)
  next
    case False
    then obtain e where "permit T u (Some (s_project r)) (e_protected (fst scope)) Secret_read s
        = Inl (Authorization_error e)" using permit_Inl by blast
    then show ?thesis using False row scope
      by (simp add: get_secret_def Let_def bind_def andthen_def permit_in_def)
  qed
qed

section \<open>Writes succeed\<close>

text \<open>
  A configured installation: the wrapper is a local master key whose identifier fits its column,
  and it unwraps the keys the organization has, which leave room for another one.
\<close>

definition configured :: "transaction \<Rightarrow> master_key \<Rightarrow> bool" where
  "configured T mk \<longleftrightarrow> tx_wrapper T = local_master_key (tx_platform T) mk
     \<and> 1 \<le> length (trim (master_id mk)) \<and> length (trim (master_id mk)) \<le> 255"

definition keys_usable :: "transaction \<Rightarrow> db \<Rightarrow> bool" where
  "keys_usable T s \<longleftrightarrow> next_version (org_keys s (tx_org T)) \<le> 2147483647
     \<and> (\<forall>q\<in>set (org_keys s (tx_org T)). \<exists>k. unwrap (tx_wrapper T) (dk_org q) (dk_version q) (dk_wrapped q) = Inr k)"

lemma generated_key_stored:
  assumes "gcm_lengths P" "random_lengths P" "generate_wrapped_key P (local_master_key P mk) draw orgId v = Inr w"
    and "1 \<le> length (trim (master_id mk))" "length (trim (master_id mk)) \<le> 255"
  shows "wrapped_check w"
  using assms
  by (auto simp: wrapped_check_def generate_wrapped_key_def local_master_key_def master_wrap_def Let_def
      random_lengths_def gcm_lengths_def key_bytes_def nonce_bytes_def split: if_splits)

lemma pg_activate_total:
  assumes P: "gcm_lengths (tx_platform T)" "random_lengths (tx_platform T)"
    and c: "configured T mk" and k: "next_version (org_keys s (tx_org T)) \<le> 2147483647"
  shows "\<exists>r s'. pg_activate T (tx_org T) (generate_wrapped_key (tx_platform T) (tx_wrapper T) draw (tx_org T)) s = (Inr r, s')"
proof -
  let ?v = "next_version (org_keys s (tx_org T))"
  have v: "next_version (filter (\<lambda>r. dk_org r = tx_org T) (visible dk_org T (db_keys s))) = ?v"
    by (simp add: visible_def org_keys_def)
  obtain w where w: "generate_wrapped_key (tx_platform T) (tx_wrapper T) draw (tx_org T) ?v = Inr w"
    using generate_wrapped_key_total[OF P(2), of mk draw "tx_org T" ?v] c by (auto simp: configured_def)
  have ck: "wrapped_check w"
    using generated_key_stored[OF P] w c by (auto simp: configured_def)
  have older: "dk_version q \<noteq> ?v" if "q \<in> set (db_keys s)" "dk_org q = tx_org T" for q
    using version_le_next[of q "org_keys s (tx_org T)"] that by (auto simp: org_keys_def)
  have "\<not> list_ex (key_clash \<lparr>dk_org = tx_org T, dk_version = ?v, dk_status = Key_active, dk_wrapped = w,
      dk_created_at = tx_now T, dk_retired_at = None\<rparr>)
    (update_where dk_org T (\<lambda>r. dk_org r = tx_org T \<and> dk_status r = Key_active) (retire (tx_now T)) (db_keys s))"
    using older by (fastforce simp: list_ex_iff key_clash_def update_where_def split: if_splits)
  then show ?thesis
    using w ck k v by (auto simp: pg_activate_def Let_def insert_row_def op_defs)
qed

lemma tx_encrypt_total:
  assumes P: "gcm_correct (tx_platform T)" "gcm_lengths (tx_platform T)" "random_lengths (tx_platform T)"
    and c: "configured T mk" and k: "keys_usable T s" and ok: "db_keys_ok s"
    and ctx: "context_valid ctx" "context_org ctx = tx_org T"
  shows "\<exists>ev s'. tx_encrypt T m ctx s = Inr (ev, s') \<and> 0 < ev_key_version ev
    \<and> length (ev_ciphertext ev) = length m \<and> length (ev_nonce ev) = 12 \<and> length (ev_tag ev) = 16"
proof -
  define t where "t = s\<lparr>db_draws := db_draws s + 3\<rparr>"
  let ?f = "generate_wrapped_key (tx_platform T) (tx_wrapper T) (db_draws s) (tx_org T)"
  have t: "org_keys t (tx_org T) = org_keys s (tx_org T)" "db_keys_ok t"
    using ok by (simp_all add: t_def org_keys_def db_keys_ok_def)
  have "\<exists>r s' key. pg_ensure_active T (tx_org T) ?f t = (Inr r, s') \<and> 0 < dk_version r
     \<and> unwrap (tx_wrapper T) (dk_org r) (dk_version r) (dk_wrapped r) = Inr key"
  proof (cases "pg_select_active T (tx_org T) t")
    case (Some r)
    then have "r \<in> set (org_keys s (tx_org T))"
      using t(1) by (auto simp: pg_select_active_eq dest: find_SomeD)
    then show ?thesis using Some k ok
      by (auto simp: pg_ensure_active_def keys_usable_def db_keys_ok_def keys_ok_def)
  next
    case None
    obtain r s' where a: "pg_activate T (tx_org T) ?f t = (Inr r, s')"
      using pg_activate_total[OF P(2,3) c] k t(1) by (metis keys_usable_def)
    note h = pg_activate_ok[OF a]
    have "\<exists>key. unwrap (tx_wrapper T) (tx_org T) (dk_version r) (dk_wrapped r) = Inr key"
      using generate_wrapped_key_unwraps[OF P(1)] h(5) c by (auto simp: configured_def local_master_key_def)
    then show ?thesis using None a h(2,3) next_version_pos by (auto simp: pg_ensure_active_def)
  qed
  then obtain r s' key where e: "pg_ensure_active T (tx_org T) ?f t = (Inr r, s')" "0 < dk_version r"
    and u: "unwrap (tx_wrapper T) (dk_org r) (dk_version r) (dk_wrapped r) = Inr key" by blast
  obtain aad where "secret_aad ctx = Inr aad" using ctx(1) by (simp add: secret_aad_def)
  then show ?thesis
    using e u ctx(2) P(2,3)
    by (simp add: tx_encrypt_def encrypt_def pg_store_def load_key_def Let_def t_def[symmetric] gcm_lengths_def
        random_lengths_def nonce_bytes_def)
qed

text \<open>
  The stages of \<^verbatim>\<open>#writeVersion\<close> one after another. The row \<open>before\<close> the caller read may differ
  from the stored row \<open>r\<close> in its deletion mark only, which is how a recovery calls it.
\<close>

lemma write_version_succeeds:
  assumes P: "gcm_correct (tx_platform T)" "gcm_lengths (tx_platform T)" "random_lengths (tx_platform T)"
    and conf: "configured T mk" "keys_usable T s"
    and ok: "db_keys_ok s" "versions_ok s" "audit_ok s"
    and ids: "tx_org T \<noteq> []" "u \<noteq> []" "i \<noteq> []" "s_project r \<noteq> []" "s_environment r \<noteq> []"
    and r: "find (is_active_secret i) (visible s_org T (db_secrets s)) = Some r"
    and before: "secret_place before = secret_place r" "s_version before = s_version r"
    and latest: "\<forall>v\<in>set (db_versions s). v_org v = tx_org T \<and> v_secret v = i \<longrightarrow> v_version v \<le> s_version r"
      "s_version r < 2147483647"
    and v: "length (utf8 (wi_value input)) \<le> 65536"
    and newNotes: "validated_notes before (wi_notes input) = Inr newNotes"
    and cnote: "validate_change_note (wi_change_note input) = Inr changeNote"
    and tags: "wi_tag_ids input = None \<or> wi_tag_ids input = Some []"
  shows "\<exists>view s'. write_version T u before input action recordAudit s = Inr (view, s')"
proof -
  note a = active_secretD[OF r]
  note b = version_bound[OF ok(2) a(1)]
  have p: "s_id before = i" "s_org before = tx_org T" "s_key before = s_key r"
    using before(1) a by (simp_all add: secret_place_def)
  let ?ctx = "context_of before (s_version before + 1)"
  have "context_valid ?ctx" "context_org ?ctx = tx_org T"
    using ids a b(1) latest(2) before by (auto simp: context_valid_def context_of_def is_safe_integer_def secret_place_def)
  from tx_encrypt_total[OF P conf ok(1) this, of "utf8 (wi_value input)"] obtain ev t where
    e: "tx_encrypt T (utf8 (wi_value input)) ?ctx s = Inr (ev, t)" and l: "0 < ev_key_version ev"
      "length (ev_ciphertext ev) = length (utf8 (wi_value input))" "length (ev_nonce ev) = 12" "length (ev_tag ev) = 16"
    by blast
  obtain ks n where t: "t = s\<lparr>db_keys := ks, db_draws := n\<rparr>" using tx_encrypt_frame[OF e] by blast
  let ?v = "version_row_of T u before ev changeNote"
  have cn: "case changeNote of None \<Rightarrow> True | Some c \<Rightarrow> length c \<le> 1000"
    using cnote by (auto simp: validate_change_note_def validate_text_def split: option.splits if_splits)
  have i: "insert_version T ?v t = Inr ((), db_versions_update (\<lambda>vs. vs @ [?v]) t)"
    using l v b(1) latest p before(2) cn
    by (auto simp: insert_version_def insert_row_def op_simps version_check_def version_row_of_def version_clash_def
        list_ex_iff t)
  define s1 where "s1 = updated_secrets T (is_active_secret i) (pointed T before newNotes) (db_versions_update (\<lambda>vs. vs @ [?v]) t)"
  define r1 where "r1 = pointed T before newNotes r"
  have q: "find (is_active_secret i) (visible s_org T (db_secrets s1)) = Some r1"
  proof -
    have "find (is_active_secret i) (visible s_org T (db_secrets s1))
        = map_option (\<lambda>r'. if is_active_secret i r' then pointed T before newNotes r' else r')
            (find (is_active_secret i) (visible s_org T (db_secrets s)))"
      unfolding s1_def updated_secrets_def t find_visible
      by (simp, rule find_update_where) (simp_all add: pointed_def is_active_secret_def)
    then show ?thesis using r a by (simp add: is_active_secret_def r1_def)
  qed
  have r1: "s_id r1 = i" "s_key r1 = s_key r" "s_version r1 = s_version r + 1"
    using a before(2) by (simp_all add: r1_def pointed_def)
  define s2 where "s2 = (case wi_tag_ids input of None \<Rightarrow> s1
    | Some _ \<Rightarrow> db_secret_tags_update (delete_where st_org T (\<lambda>st. st_secret st = i)) s1)"
  have tg: "(case wi_tag_ids input of None \<Rightarrow> ret () | Some tagIds \<Rightarrow> replace_tags T r1 tagIds) s1 = Inr ((), s2)"
    using tags r1(1) by (auto simp: s2_def replace_tags_def Let_def op_defs select_rows_def delete_rows_def)
  let ?ev = "write_event T u action before r1"
  have "\<exists>md. metadata_for ?ev = Inr md"
    using presence_small(1)[of before] presence_small(1)[of r1] r1 b latest(2) p(3) before(2)
    by (intro metadata_for_small) (simp_all add: write_event_def secret_event_def user_event_def)
  then obtain md where md: "metadata_for ?ev = Inr md" by blast
  have "audit_ok s2" using ok(3) tags by (auto simp: s2_def s1_def updated_secrets_def t audit_ok_def)
  moreover have "validate_event ?ev = Inr ()"
    using ids by (simp add: validate_event_def write_event_def secret_event_def user_event_def)
  ultimately have "record_in_transaction T ?ev s2 =
      Inr ((), db_audit_update (\<lambda>es. es @ [audit_row_of T ?ev md (int (length (db_audit s2)) + 1)]) s2)"
    by (rule record_succeeds[OF _ _ _ _ md]) (simp_all add: write_event_def secret_event_def user_event_def)
  then obtain s3 where rec: "(if recordAudit then record_in_transaction T ?ev else ret ()) s2 = Inr ((), s3)"
    and s3: "db_secrets s3 = db_secrets s1"
    using tags by (cases recordAudit) (auto simp: ret_def s2_def)
  have q2: "metadata_row T i s1 = Inr (r1, s1)" "metadata_row T i s3 = Inr (r1, s3)"
    using q s3 by (simp_all add: metadata_row_Inr)
  have val: "validate_secret_value (wi_value input) = Inr (utf8 (wi_value input))"
    using v by (simp add: validate_secret_value_def Let_def MAX_VALUE_BYTES_def)
  have st: "store_version T u before ev changeNote newNotes t = Inr ((), s1)"
    using i p(1) by (simp add: store_version_def andthen_def bind_def update_secrets_def writes_def s1_def pointed_def[abs_def])
  have "write_version T u before input action recordAudit s = Inr (metadata_from_row T s3 r1, s3)"
    unfolding write_version_def
    using val newNotes cnote e st q2 tg rec p(1) r1(1)
    by (simp add: bind_def andthen_def lift_sum_def view_row_def reads_def)
  then show ?thesis by blast
qed


section \<open>What the writer sees\<close>

lemma metadata_same_service: "same_service T T' \<Longrightarrow> metadata_from_row T' s r = metadata_from_row T s r"
  by (simp add: metadata_from_row_def tags_of_secret_def visible_def same_service_def)

lemma visible_same: "same_service T T' \<Longrightarrow> visible org T' rs = visible org T rs"
  by (simp add: visible_def same_service_def)

lemma permitted_same:
  "db_memberships s' = db_memberships s \<Longrightarrow> db_overrides s' = db_overrides s \<Longrightarrow>
     permitted T u projectId prot p s' = permitted T u projectId prot p s"
  by (simp add: permitted_def context_at_def cong: option.case_cong)

lemma permitted_same_service:
  "same_service T T' \<Longrightarrow> permitted T' u projectId prot p s = permitted T u projectId prot p s"
  by (simp add: permitted_def context_at_def visible_same cong: option.case_cong)

lemma find_environment_same_service:
  "same_service T T' \<Longrightarrow> find_environment T' projectId environmentId s = find_environment T projectId environmentId s"
  by (simp add: find_environment_def visible_same)

text \<open>
  Read your writes. Directly after a successful update every user who may read the secret gets
  exactly the metadata the writer was given and the value that was written, and the write itself
  has left exactly one audit event.
\<close>
theorem read_your_writes:
  assumes P: "gcm_correct (tx_platform T)" "gcm_lengths (tx_platform T)" "random_lengths (tx_platform T)"
    and ok: "db_keys_ok s" "versions_ok s" "audit_ok s" and ids: "tx_org T \<noteq> []" "u' \<noteq> []"
    and up: "update_secret T u i input s = Inr (view, s1)" and v: "up_value input = Some v"
    and T': "same_service T T'"
    and r: "find (is_active_secret i) (visible s_org T (db_secrets s)) = Some r"
    and env: "find_environment T (s_project r) (s_environment r) s = Some scope"
    and may: "permitted T u' (Some (s_project r)) (e_protected (fst scope)) Secret_read s"
  shows "(\<exists>s2. get_secret T' u' i s1 = Inr ((view, v), s2)) \<and> length (db_audit s1) = Suc (length (db_audit s))"
proof -
  have w: "write_version T u r \<lparr>wi_value = v, wi_notes = up_notes input,
            wi_change_note = up_change_note input, wi_tag_ids = up_tag_ids input\<rparr> Secret_updated True s = Inr (view, s1)"
    using up v r by (auto simp: update_secret_Inr)
  note a = active_secretD[OF r]
  obtain newNotes c q md where
    sec: "db_secrets s1 = update_where s_org T (is_active_secret (s_id r)) (pointed T r newNotes) (db_secrets s)"
    and other: "db_memberships s1 = db_memberships s" "db_overrides s1 = db_overrides s" "db_projects s1 = db_projects s"
    and envs: "db_environments s1 = map (versioned c) (db_environments s)"
    and q: "find (is_active_secret (s_id r)) (visible s_org T (db_secrets s1)) = Some q"
    and view: "view = metadata_from_row T s1 q"
    and audit: "db_audit s1 = db_audit s @
        [audit_row_of T (write_event T u Secret_updated r q) md (int (length (db_audit s)) + 1)]"
    by (rule write_version_effect[OF w]) (auto split: if_splits)
  have one: "length (db_audit s1) = Suc (length (db_audit s))" using audit by simp
  note q' = active_secretD[OF q]
  have place: "s_project q = s_project r" "s_environment q = s_environment r"
  proof -
    obtain p where p: "p \<in> set (db_secrets s)"
      "q = (if s_org p = tx_org T \<and> is_active_secret (s_id r) p then pointed T r newNotes p else p)"
      using q'(1) unfolding sec update_where_def by auto
    then have "p = r" using q'(3) by (intro secret_identified[OF ok(2) _ a(1)]) (auto simp: pointed_def split: if_splits)
    then show "s_project q = s_project r" "s_environment q = s_environment r" using p(2) by (auto simp: pointed_def)
  qed
  note rd = write_version_readable[OF w P ok(1) imageI[OF a(1)]]
  have "tenant_step (tx_org T) s s1" using obeysD[OF obeys_write_version w] .
  then have ok1: "db_keys_ok s1" "versions_ok s1" "audit_ok s1" using ok by (auto simp: tenant_step_def)
  have o: "tx_org T' = tx_org T" using T' by (simp add: same_service_def)
  obtain e p where scope: "scope = (e, p)" by (cases scope)
  have "sm_version view = s_version q" using view by (simp add: metadata_from_row_def)
  then have m: "version_readable T' i (s_version q) (utf8 v) s1"
    using version_readable_step[OF rd(1) tenant.R_refl ok1(1) T'] rd(2) a(3) by simp
  have "find_environment T' (s_project q) (s_environment q) s1 = Some (versioned c e, p)"
    using env scope place find_environment_versioned[OF envs other(3)] find_environment_same_service[OF T'] by simp
  moreover have "permitted T' u' (Some (s_project q)) (e_protected (versioned c e)) Secret_read s1"
    using may scope place permitted_same[OF other(1,2)] permitted_same_service[OF T'] by (simp add: versioned_def)
  moreover have "find (is_active_secret i) (visible s_org T' (db_secrets s1)) = Some q"
    using q a(3) by (simp add: visible_same[OF T'])
  ultimately have "\<exists>s2. get_secret T' u' i s1 = Inr ((metadata_from_row T' s1 q, utf8_decode (tx_platform T') (utf8 v)), s2)"
    using get_secret_outcome[OF ok1(2,3) _ ids(2), of T' i q] m ids(1) o by fastforce
  then show ?thesis using view metadata_same_service[OF T'] one by simp
qed



lemma first_row_None: "first_row xs = None \<longleftrightarrow> xs = []"
  by (cases xs) (simp_all add: first_row_def)

lemma get_secret_missing:
  assumes "\<And>r. r \<in> set (db_secrets s) \<Longrightarrow> s_org r = tx_org T \<Longrightarrow> \<not> is_active_secret i r"
  shows "get_secret T u i s = Inl not_found"
proof -
  have "(q, v) \<notin> set (current_rows T (is_active_secret i) s)" for q v
    using assms current_rowsD(1-3)[of q v T "is_active_secret i" s] by blast
  then have "current_rows T (is_active_secret i) s = []"
    by (metis list.set_intros(1) neq_Nil_conv surj_pair)
  then show ?thesis by (simp add: get_secret_def value_row_def op_defs first_row_def)
qed

lemma update_where_other:
  "(\<And>r. r \<in> set rs \<Longrightarrow> org r = tx_org T \<Longrightarrow> \<not> P r) \<Longrightarrow> update_where org T P f rs = rs"
  by (induction rs) (auto simp: update_where_def)

text \<open>
  The audit trail says nothing about values. Two updates of the same secret from the same state
  that differ only in the value they write leave identical audit trails and give their caller
  identical metadata.
\<close>
theorem audit_trail_independent_of_value:
  assumes "update_secret T u i input s = Inr (view1, s1)"
    and "update_secret T u i (input\<lparr>up_value := Some b\<rparr>) s = Inr (view2, s2)" and "up_value input = Some a"
  shows "db_audit s1 = db_audit s2 \<and> sm_version view1 = sm_version view2 \<and> db_secrets s1 = db_secrets s2"
proof -
  let ?in = "\<lambda>v. \<lparr>wi_value = v, wi_notes = up_notes input, wi_change_note = up_change_note input,
      wi_tag_ids = up_tag_ids input\<rparr>"
  obtain r where r: "find (is_active_secret i) (visible s_org T (db_secrets s)) = Some r"
    and w1: "write_version T u r (?in a) Secret_updated True s = Inr (view1, s1)"
    and w2: "write_version T u r (?in b) Secret_updated True s = Inr (view2, s2)"
    using assms by (auto simp: update_secret_Inr)
  have e: "\<exists>n q md. validated_notes r (up_notes input) = Inr n
      \<and> db_secrets t = update_where s_org T (is_active_secret (s_id r)) (pointed T r n) (db_secrets s)
      \<and> find (is_active_secret (s_id r)) (visible s_org T (db_secrets t)) = Some q
      \<and> sm_version view = s_version q
      \<and> metadata_for (write_event T u Secret_updated r q) = Inr md
      \<and> db_audit t = db_audit s @ [audit_row_of T (write_event T u Secret_updated r q) md (int (length (db_audit s)) + 1)]"
    if w: "write_version T u r (?in v) Secret_updated True s = Inr (view, t)" for v view t
    by (rule write_version_effect[OF w]) (auto simp: metadata_from_row_def)
  show ?thesis using e[OF w1] e[OF w2] by auto
qed

lemma create_with_recovers:
  assumes c: "create_with T u p e input authorized recordAudit s = Inr (view, s')"
    and k: "validate_secret_key (in_key input) (in_allow_nonconforming input) = Inr key"
    and f: "first_row (filter (recoverable p e key) (visible s_org T (db_secrets s))) = Some r"
  obtains newNotes changeNote where
    "write_version T u r (version_input_of input newNotes changeNote) Secret_created recordAudit
      (updated_secrets T (\<lambda>q. s_id q = s_id r) (\<lambda>q. q\<lparr>s_deleted := None, s_updated := tx_now T\<rparr>) s) = Inr (view, s')"
proof -
  have "\<exists>newNotes changeNote.
      create_validated T u p e key (version_input_of input newNotes changeNote) recordAudit s = Inr (view, s')"
  proof (cases authorized)
    case True
    then show ?thesis using c k by (auto simp: create_with_def op_simps environment_scope_def)
  next
    case False
    then show ?thesis using c k by (auto simp: create_with_def op_simps permit_in_Inr)
  qed
  then obtain newNotes changeNote where
    "create_validated T u p e key (version_input_of input newNotes changeNote) recordAudit s = Inr (view, s')" by blast
  then show ?thesis
    using f that by (auto simp: create_validated_def op_simps select_rows_def update_secrets_def)
qed

text \<open>
  Deletion and recreation. A deleted secret reads as not found. Creating a secret with the same
  key in the same environment brings the same record back: it keeps its identifier, continues the
  version numbers, and every old version stays readable.
\<close>
theorem recreation_recovers_history:
  assumes P: "gcm_correct (tx_platform T)" "gcm_lengths (tx_platform T)" "random_lengths (tx_platform T)"
    and ok: "db_keys_ok s" "versions_ok s"
    and unique: "distinct (map (\<lambda>r. (s_org r, s_project r, s_environment r, s_key r)) (db_secrets s))"
    and r: "find (is_active_secret i) (visible s_org T (db_secrets s)) = Some r"
      "s_deleted_by_project r = None" "s_deleted_by_environment r = None"
    and del: "delete_secret T u i s = Inr (view, s1)"
    and cr: "create_secret T' u' (s_project r) (s_environment r) input s1 = Inr (view', s2)"
    and key: "trim (in_key input) = s_key r" and T': "same_service T T'"
  shows "get_secret T u'' i s1 = Inl not_found \<and> sm_id view' = i \<and> sm_version view' = s_version r + 1
    \<and> version_readable T' i (s_version r + 1) (utf8 (in_value input)) s2
    \<and> (\<forall>n m. version_readable T i n m s \<longrightarrow> version_readable T' i n m s2)"
proof -
  note a = active_secretD[OF r(1)]
  have o: "tx_org T' = tx_org T" using T' by (simp add: same_service_def)
  let ?f = "\<lambda>q. q\<lparr>s_deleted := Some (tx_now T), s_updated := tx_now T\<rparr>"
  obtain t where d: "t = updated_secrets T (is_active_secret i) ?f s"
    and rec: "record_in_transaction T ((secret_event T u Secret_deleted r)
        \<lparr>event_before := Some [(''key'', JStr (s_key r)), (''version'', json_version (s_version r))]\<rparr>) t = Inr ((), s1)"
    using del r(1) by (auto simp: delete_secret_def op_simps metadata_row_Inr view_row_Inr permit_in_Inr update_secrets_def)
  obtain g where g: "s1 = db_audit_update g t" using record_frame[OF rec] by blast
  have sec: "db_secrets s1 = update_where s_org T (is_active_secret i) ?f (db_secrets s)"
    by (simp add: g d updated_secrets_def)
  have st1: "tenant_step (tx_org T) s s1" using obeysD[OF obeys_delete_secret del] .
  have ok1: "db_keys_ok s1" "versions_ok s1" using st1 ok by (auto simp: tenant_step_def)
  have gone: "get_secret T u'' i s1 = Inl not_found"
  proof (rule get_secret_missing)
    fix x assume "x \<in> set (db_secrets s1)" and o: "s_org x = tx_org T"
    then obtain p where "x = (if s_org p = tx_org T \<and> is_active_secret i p then ?f p else p)"
      unfolding sec by (blast elim: update_whereE)
    then show "\<not> is_active_secret i x"
      using o by (auto simp: is_active_secret_def split: if_splits)
  qed
  have row: "x = ?f r" if x: "x \<in> set (db_secrets s1)" "s_org x = tx_org T"
    "recoverable (s_project r) (s_environment r) (s_key r) x" for x
  proof -
    obtain p where p: "p \<in> set (db_secrets s)" "x = (if s_org p = tx_org T \<and> is_active_secret i p then ?f p else p)"
      using x(1) unfolding sec by (rule update_whereE)
    have "p = r" by (rule distinct_map_eq[OF unique p(1) a(1)])
      (use p(2) x(2,3) a in \<open>auto simp: recoverable_def split: if_splits\<close>)
    then show ?thesis using p(2) a by (auto simp: is_active_secret_def)
  qed
  have "?f r \<in> set (db_secrets s1)"
    using a unfolding sec by (force simp: update_where_def is_active_secret_def)
  moreover have "recoverable (s_project r) (s_environment r) (s_key r) (?f r)" "s_org (?f r) = tx_org T'"
    using r(2,3) a o by (auto simp: recoverable_def)
  ultimately have "?f r \<in> set (filter (recoverable (s_project r) (s_environment r) (s_key r)) (visible s_org T' (db_secrets s1)))"
    by simp
  then obtain x xs where xs: "filter (recoverable (s_project r) (s_environment r) (s_key r)) (visible s_org T' (db_secrets s1)) = x # xs"
    by (cases "filter (recoverable (s_project r) (s_environment r) (s_key r)) (visible s_org T' (db_secrets s1))") simp_all
  then have "x \<in> set (filter (recoverable (s_project r) (s_environment r) (s_key r)) (visible s_org T' (db_secrets s1)))" by simp
  then have x: "x = ?f r" using row o by simp
  let ?h = "\<lambda>q. q\<lparr>s_deleted := None, s_updated := tx_now T'\<rparr>"
  obtain k where "validate_secret_key (in_key input) (in_allow_nonconforming input) = Inr k"
    using cr by (auto simp: create_secret_def create_with_def op_simps)
  then have k: "validate_secret_key (in_key input) (in_allow_nonconforming input) = Inr (s_key r)"
    using key by (auto simp: validate_secret_key_def Let_def split: if_splits)
  have fr: "first_row (filter (recoverable (s_project r) (s_environment r) (s_key r)) (visible s_org T' (db_secrets s1)))
      = Some (?f r)" using xs x by (simp add: first_row_def)
  obtain n cn where w: "write_version T' u' (?f r) (version_input_of input n cn) Secret_created True
      (updated_secrets T' (\<lambda>q. s_id q = i) ?h s1) = Inr (view', s2)"
    using create_with_recovers[OF cr[unfolded create_secret_def] k fr] a(3) by auto
  let ?u = "updated_secrets T' (\<lambda>q. s_id q = i) ?h s1"
  have P': "gcm_correct (tx_platform T')" "gcm_lengths (tx_platform T')" "random_lengths (tx_platform T')"
    using P T' by (auto simp: same_service_def)
  have "tenant_step (tx_org T') s1 ?u"
    using obeysD[OF obeys_update_secrets[of ?h T' "\<lambda>q. s_id q = i"], of s1 "()" ?u]
    by (auto simp: keeps_secret_place_def update_secrets_def writes_def)
  then have u: "db_keys_ok ?u" "secret_place ` set (db_secrets s1) \<subseteq> secret_place ` set (db_secrets ?u)"
    using ok1 by (auto simp: tenant_step_def)
  then have "secret_place (?f r) \<in> secret_place ` set (db_secrets ?u)"
    using \<open>?f r \<in> set (db_secrets s1)\<close> by blast
  note rd = write_version_readable[OF w P' u(1) this]
  have "tenant_step (tx_org T) s1 s2" using obeysD[OF obeys_create_secret cr] o by simp
  then have "tenant_step (tx_org T) s s2" using st1 tenant.R_trans by blast
  then have "\<forall>n m. version_readable T i n m s \<longrightarrow> version_readable T' i n m s2"
    using version_readable_step[OF _ _ ok(1) T'] by blast
  then show ?thesis using gone rd a(3) by (simp add: version_input_of_def)
qed

section \<open>The promises at work\<close>

text \<open>
  A vault for witnesses: one project, one protected environment, one secret without a value yet;
  \<open>u\<close> owns the organization and \<open>w\<close> is a member.
\<close>

definition demo_project :: project_row where
  "demo_project = \<lparr>p_id = ''p'', p_org = ''o'', p_name = ''P'', p_slug = ''p'', p_description = None,
     p_default_environments = [], p_created_by = Some ''u'', p_created = 0, p_updated = 0,
     p_archived = None, p_deleted = None, p_purge_after = None\<rparr>"

definition demo_environment :: environment_row where
  "demo_environment = \<lparr>e_id = ''e'', e_org = ''o'', e_project = ''p'', e_name = ''Prod'', e_slug = ''prod'',
     e_order = 0, e_protected = True, e_config_version = 0, e_created = 0, e_updated = 0, e_deleted = None,
     e_purge_after = None, e_deleted_by_project = None\<rparr>"

definition demo_secret :: secret_row where
  "demo_secret = new_secret demo_tx ''u'' ''s'' ''p'' ''e'' ''K'' None"

definition demo_vault :: db where
  "demo_vault = demo_db\<lparr>db_projects := [demo_project], db_environments := [demo_environment],
     db_secrets := [demo_secret]\<rparr>"

definition demo_update :: "string \<Rightarrow> update_input" where
  "demo_update v = \<lparr>up_value = Some v, up_notes = None, up_change_note = None, up_expected_version = Some 0,
     up_tag_ids = None\<rparr>"

lemma demo_vault_ok [simp]:
  "db_keys_ok demo_vault" "versions_ok demo_vault" "audit_ok demo_vault"
  by (simp_all add: demo_vault_def demo_db_def empty_db_def db_keys_ok_def org_keys_def versions_ok_def audit_ok_def
      demo_secret_def new_secret_def)

lemma demo_configured [simp]:
  "configured demo_tx \<lparr>master_id = ''k'', master_bytes = replicate 32 7\<rparr>"
  by (simp add: configured_def demo_tx_def demo_wrapper_def) code_simp

lemma demo_rows [simp]:
  "find (is_active_secret ''s'') (visible s_org demo_tx [demo_secret]) = Some demo_secret"
  "find_environment demo_tx ''p'' ''e'' demo_vault = Some (demo_environment, demo_project)"
  "tx_org demo_tx = ''o''" "tx_platform demo_tx = demo_platform" "db_secrets demo_vault = [demo_secret]"
  "db_versions demo_vault = []" "org_keys demo_vault o' = []"
  by (simp_all add: demo_vault_def demo_db_def empty_db_def demo_tx_def demo_secret_def new_secret_def
      demo_environment_def demo_project_def is_active_secret_def find_environment_def visible_def first_row_def org_keys_def)

lemma demo_secret_fields [simp]:
  "s_id demo_secret = ''s''" "s_org demo_secret = ''o''" "s_project demo_secret = ''p''" "s_environment demo_secret = ''e''"
  "s_version demo_secret = 0" "s_notes demo_secret = None" "s_key demo_secret = ''K''"
  "s_deleted_by_project demo_secret = None" "s_deleted_by_environment demo_secret = None"
  by (simp_all add: demo_secret_def new_secret_def demo_tx_def)

lemma demo_may [simp]:
  "permitted demo_tx ''u'' (Some ''p'') True Secret_write demo_vault"
  "permitted demo_tx ''u'' (Some ''p'') True Secret_delete demo_vault"
  "permitted demo_tx ''w'' (Some ''p'') True Secret_read demo_vault"
  "\<not> permitted demo_tx ''w'' (Some ''p'') True Secret_write demo_vault"
  "e_protected demo_environment"
  by (code_simp, code_simp, code_simp, code_simp, simp add: demo_environment_def)

lemma demo_update_returns:
  assumes v: "length v \<le> 32768"
  obtains view s1 where "update_secret demo_tx ''u'' ''s'' (demo_update v) demo_vault = Inr (view, s1)"
    and "sm_version view = 1"
proof -
  let ?mk = "\<lparr>master_id = ''k'', master_bytes = replicate 32 7\<rparr>"
  let ?in = "\<lparr>wi_value = v, wi_notes = None, wi_change_note = None, wi_tag_ids = None\<rparr>"
  have "keys_usable demo_tx demo_vault" by (simp add: keys_usable_def next_version_def)
  moreover have "length (utf8 v) \<le> 65536" using v utf8_length[of v] by linarith
  ultimately obtain view s1 where w: "write_version demo_tx ''u'' demo_secret ?in Secret_updated True demo_vault = Inr (view, s1)"
    using write_version_succeeds[of demo_tx ?mk demo_vault "''u''" "''s''" demo_secret demo_secret ?in None None Secret_updated True]
    by (auto simp: validated_notes_def validate_change_note_def validate_text_def)
  have "sm_version view = 1" using write_version_readable(2)[OF w] by simp
  moreover have "update_secret demo_tx ''u'' ''s'' (demo_update v) demo_vault = Inr (view, s1)"
    using w by (auto simp: update_secret_Inr demo_update_def expected_version_ok_def)
  ultimately show thesis using that by blast
qed


theorem read_your_writes_witness:
  "\<exists>view s1 s2. update_secret demo_tx ''u'' ''s'' (demo_update ''hello'') demo_vault = Inr (view, s1)
     \<and> get_secret demo_tx ''w'' ''s'' s1 = Inr ((view, ''hello''), s2)"
proof -
  obtain view s1 where up: "update_secret demo_tx ''u'' ''s'' (demo_update ''hello'') demo_vault = Inr (view, s1)"
    by (rule demo_update_returns[of "''hello''"]) simp
  show ?thesis
    using read_your_writes[OF _ _ _ _ _ _ _ _ up, of "''w''" "''hello''" demo_tx demo_secret "(demo_environment, demo_project)"] up
    by (auto simp: demo_update_def)
qed




theorem audit_trail_independent_of_value_witness:
  "\<exists>view1 s1 view2 s2. update_secret demo_tx ''u'' ''s'' (demo_update ''one'') demo_vault = Inr (view1, s1)
     \<and> update_secret demo_tx ''u'' ''s'' (demo_update ''two'') demo_vault = Inr (view2, s2) \<and> db_audit s1 = db_audit s2"
proof -
  obtain view1 s1 where 1: "update_secret demo_tx ''u'' ''s'' (demo_update ''one'') demo_vault = Inr (view1, s1)"
    by (rule demo_update_returns[of "''one''"]) simp
  obtain view2 s2 where 2: "update_secret demo_tx ''u'' ''s'' (demo_update ''two'') demo_vault = Inr (view2, s2)"
    by (rule demo_update_returns[of "''two''"]) simp
  have "update_secret demo_tx ''u'' ''s'' (demo_update ''one''\<lparr>up_value := Some ''two''\<rparr>) demo_vault = Inr (view2, s2)"
    using 2 by (simp add: demo_update_def)
  from audit_trail_independent_of_value[OF 1 this, of "''one''"] show ?thesis using 1 2 by (auto simp: demo_update_def)
qed

theorem recreation_recovers_history_witness:
  "\<exists>v1 s1 v2 s2. delete_secret demo_tx ''u'' ''s'' demo_vault = Inr (v1, s1)
     \<and> create_secret demo_tx ''u'' ''p'' ''e'' \<lparr>in_key = ''K'', in_value = ''again'', in_notes = None,
          in_change_note = None, in_allow_nonconforming = False, in_tag_ids = None\<rparr> s1 = Inr (v2, s2)
     \<and> sm_id v2 = ''s'' \<and> get_secret demo_tx ''u'' ''s'' s1 = Inl not_found"
proof -
  let ?f = "\<lambda>q. q\<lparr>s_deleted := Some (tx_now demo_tx), s_updated := tx_now demo_tx\<rparr>"
  let ?h = "\<lambda>q. q\<lparr>s_deleted := None, s_updated := tx_now demo_tx\<rparr>"
  let ?ev = "(secret_event demo_tx ''u'' Secret_deleted demo_secret)
        \<lparr>event_before := Some [(''key'', JStr (s_key demo_secret)), (''version'', json_version (s_version demo_secret))]\<rparr>"
  define t where "t = updated_secrets demo_tx (is_active_secret ''s'') ?f demo_vault"
  have t: "db_secrets t = [?f demo_secret]" "audit_ok t" "db_versions t = []" "db_keys t = db_keys demo_vault"
    "db_projects t = db_projects demo_vault" "db_memberships t = db_memberships demo_vault" "db_overrides t = db_overrides demo_vault"
    using demo_vault_ok(3)
    by (simp_all add: t_def updated_secrets_def update_where_def is_active_secret_def audit_ok_def demo_secret_def new_secret_def)
  obtain md where md: "metadata_for ?ev = Inr md"
    using metadata_for_small[of ?ev] presence_small(2)[of demo_secret] by (auto simp: secret_event_def user_event_def)
  define s1 where "s1 = db_audit_update (\<lambda>es. es @ [audit_row_of demo_tx ?ev md (int (length (db_audit t)) + 1)]) t"
  have "record_in_transaction demo_tx ?ev t = Inr ((), s1)"
    unfolding s1_def
    by (rule record_succeeds[OF t(2) _ _ _ md]) (simp_all add: validate_event_def secret_event_def user_event_def)
  then obtain v1 where d: "delete_secret demo_tx ''u'' ''s'' demo_vault = Inr (v1, s1)"
    by (auto simp: delete_secret_def op_simps metadata_row_Inr view_row_Inr permit_in_Inr update_secrets_def t_def)
  let ?in = "\<lparr>in_key = ''K'', in_value = ''again'', in_notes = None, in_change_note = None,
      in_allow_nonconforming = False, in_tag_ids = None\<rparr>"
  have s1: "db_secrets s1 = [?f demo_secret]" "db_versions s1 = []" "db_keys s1 = db_keys demo_vault"
    "db_projects s1 = db_projects demo_vault" "db_memberships s1 = db_memberships demo_vault"
    "db_overrides s1 = db_overrides demo_vault"
    using t by (simp_all add: s1_def)
  have "tenant_step ''o'' demo_vault s1" using obeysD[OF obeys_delete_secret d] by simp
  then have ok1: "db_keys_ok s1" "versions_ok s1" "audit_ok s1" by (auto simp: tenant_step_def)
  obtain c where "db_environments s1 = map (versioned c) (db_environments demo_vault)"
    using fold_trigger_versioned[of ?f "filter (is_active_secret ''s'') (visible s_org demo_tx [demo_secret])" "db_environments demo_vault"]
    by (auto simp: s1_def t_def updated_secrets_def)
  from find_environment_versioned[OF this s1(4), of demo_tx "''p''" "''e''"]
  have env: "find_environment demo_tx ''p'' ''e'' s1 = Some (versioned c demo_environment, demo_project)" by simp
  have may: "permitted demo_tx ''u'' (Some ''p'') True Secret_write s1"
    using permitted_same[OF s1(5,6)] by simp
  have "\<exists>v2 s2. create_secret demo_tx ''u'' ''p'' ''e'' ?in s1 = Inr (v2, s2)"
  proof -
    define q where "q = updated_secrets demo_tx (\<lambda>q. s_id q = ''s'') ?h s1"
    have "tenant_step ''o'' s1 q"
      using obeysD[OF obeys_update_secrets[of ?h demo_tx "\<lambda>q. s_id q = ''s''"], of s1 "()" q]
      by (simp add: keeps_secret_place_def update_secrets_def writes_def q_def)
    then have okq: "db_keys_ok q" "versions_ok q" "audit_ok q" using ok1 by (auto simp: tenant_step_def)
    have sec: "db_secrets q = [?h (?f demo_secret)]" "db_versions q = []" "org_keys q ''o'' = []"
      by (simp_all add: q_def updated_secrets_def s1 update_where_def demo_secret_def new_secret_def org_keys_def)
        (simp add: demo_vault_def demo_db_def empty_db_def)
    have r: "find (is_active_secret ''s'') (visible s_org demo_tx (db_secrets q)) = Some (?h (?f demo_secret))"
      by (simp add: sec visible_def is_active_secret_def)
    have u: "length (utf8 ''again'') \<le> 65536" using utf8_length[of "''again''"] by simp
    have "keys_usable demo_tx q" by (simp add: keys_usable_def sec next_version_def)
    from write_version_succeeds[OF _ _ _ demo_configured this okq _ _ _ _ _ r, of "''u''" "?f demo_secret" "version_input_of ?in None None"
        None None Secret_created True]
    obtain v2 s2 where w: "write_version demo_tx ''u'' (?f demo_secret) (version_input_of ?in None None) Secret_created True q = Inr (v2, s2)"
      using u by (auto simp: sec version_input_of_def validated_notes_def validate_notes_def validate_change_note_def
          validate_text_def secret_place_def)
    have pin: "permit_in demo_tx ''u'' ''p'' ''e'' Secret_write s1 = Inr ((versioned c demo_environment, demo_project), s1)"
      using env may by (simp add: permit_in_Inr) (simp add: versioned_def)
    have k: "validate_secret_key ''K'' False = Inr ''K''" by code_simp
    have "create_validated demo_tx ''u'' ''p'' ''e'' ''K'' (version_input_of ?in None None) True s1 = Inr (v2, s2)"
      using w by (simp add: create_validated_def bind_def select_rows_def reads_def s1 visible_def recoverable_def
          first_row_def andthen_def update_secrets_def writes_def q_def)
    then have "create_secret demo_tx ''u'' ''p'' ''e'' ?in s1 = Inr (v2, s2)"
      using k pin
      by (simp add: create_secret_def create_with_def bind_def andthen_def lift_sum_def
          validate_notes_def validate_change_note_def validate_text_def ret_def)
    then show ?thesis by blast
  qed
  then obtain v2 s2 where c: "create_secret demo_tx ''u'' ''p'' ''e'' ?in s1 = Inr (v2, s2)" by blast
  have "trim ''K'' = ''K''" by code_simp
  then show ?thesis
    using recreation_recovers_history[OF _ _ _ demo_vault_ok(1,2) _ _ _ _ d, of demo_secret demo_tx "''u''" ?in v2 s2] d c by auto
qed

end
