(* ===== verification/Secret_Transfer.thy ===== *)
theory Secret_Transfer
  imports Secret_Facts
begin

text \<open>
  Writing many secrets at once: \<^verbatim>\<open>bulkSet\<close>, \<^verbatim>\<open>importBatch\<close>, \<^verbatim>\<open>previewPromotion\<close> and \<^verbatim>\<open>promote\<close> of
  \<^verbatim>\<open>SecretService\<close> in \<^verbatim>\<open>packages/secrets/src/index.ts\<close>. Each runs in one transaction, so an error of
  any item undoes all of them. What the items write is shown readable at the end.
\<close>

section \<open>Bulk writes\<close>

definition update_version_input :: "secret_input \<Rightarrow> version_input" where
  "update_version_input input = \<lparr>wi_value = in_value input, wi_notes = in_notes input,
     wi_change_note = in_change_note input, wi_tag_ids = in_tag_ids input\<rparr>"

definition active_keyed :: "uuid \<Rightarrow> uuid \<Rightarrow> string \<Rightarrow> secret_row \<Rightarrow> bool" where
  "active_keyed projectId environmentId key r \<longleftrightarrow> in_place projectId environmentId r \<and> s_key r = key"

definition bulk_item ::
  "transaction \<Rightarrow> uuid \<Rightarrow> uuid \<Rightarrow> uuid \<Rightarrow> string \<times> secret_input \<Rightarrow> secret_metadata db_op" where
  "bulk_item T actorUserId projectId environmentId item =
     bind (select_rows s_org db_secrets T (active_keyed projectId environmentId (fst item))) (\<lambda>existing.
     case first_row existing of
       None \<Rightarrow> create_with T actorUserId projectId environmentId (snd item\<lparr>in_key := fst item\<rparr>) True True
     | Some r \<Rightarrow> write_version T actorUserId r (update_version_input (snd item)) Secret_updated True)"

definition input_keys :: "secret_input list \<Rightarrow> error + string list" where
  "input_keys inputs = map_ok (\<lambda>i. validate_secret_key (in_key i) (in_allow_nonconforming i)) inputs"

definition bulk_set ::
  "transaction \<Rightarrow> uuid \<Rightarrow> uuid \<Rightarrow> uuid \<Rightarrow> secret_input list \<Rightarrow> secret_metadata list db_op" where
  "bulk_set T actorUserId projectId environmentId inputs =
     andthen (check (1 \<le> length inputs \<and> length inputs \<le> MAX_BULK_ITEMS) (Secret_error Secret_invalid_input))
     (bind (lift_sum (input_keys inputs)) (\<lambda>normalizedKeys.
      andthen (check (distinct normalizedKeys) (Secret_error Secret_invalid_input))
     (andthen (permit_in T actorUserId projectId environmentId Secret_write)
      (for_each (bulk_item T actorUserId projectId environmentId) (zip normalizedKeys inputs)))))"

section \<open>Imports\<close>

datatype import_strategy = Import_skip | Import_overwrite | Import_merge

definition strategy_of :: "string \<Rightarrow> import_strategy option" where
  "strategy_of t = (if t = ''skip'' then Some Import_skip else if t = ''overwrite'' then Some Import_overwrite
     else if t = ''merge'' then Some Import_merge else None)"

datatype import_action = Import_created secret_metadata | Import_updated secret_metadata | Import_skipped

primrec import_written :: "import_action \<Rightarrow> secret_metadata option" where
  "import_written (Import_created v) = Some v"
| "import_written (Import_updated v) = Some v"
| "import_written Import_skipped = None"

record import_result =
  ir_secrets :: "secret_metadata list"
  ir_requested :: nat
  ir_created :: nat
  ir_updated :: nat
  ir_skipped :: nat

text \<open>Whether an item is written, given whether its key exists.\<close>

definition import_included :: "import_strategy \<Rightarrow> string list \<Rightarrow> string \<Rightarrow> bool \<Rightarrow> bool" where
  "import_included strategy selected key exists \<longleftrightarrow> strategy = Import_overwrite
     \<or> (strategy = Import_skip \<and> \<not> exists) \<or> (strategy = Import_merge \<and> key \<in> set selected)"

definition noted :: "string \<Rightarrow> secret_input \<Rightarrow> secret_input" where
  "noted format input = input\<lparr>in_change_note :=
     Some (case in_change_note input of None \<Rightarrow> format @ '' import'' | Some n \<Rightarrow> n)\<rparr>"

definition import_item ::
  "transaction \<Rightarrow> uuid \<Rightarrow> uuid \<Rightarrow> uuid \<Rightarrow> import_strategy \<Rightarrow> string list \<Rightarrow> string \<Rightarrow> secret_row list \<Rightarrow>
     string \<times> secret_input \<Rightarrow> import_action db_op" where
  "import_item T actorUserId projectId environmentId strategy selected format existing item =
     (let key = fst item; row = find (\<lambda>r. s_key r = key) (rev existing) in
      if \<not> import_included strategy selected key (row \<noteq> None) then ret Import_skipped
      else case row of
        None \<Rightarrow> bind (create_with T actorUserId projectId environmentId (noted format (snd item)\<lparr>in_key := key\<rparr>) True False)
                  (\<lambda>v. ret (Import_created v))
      | Some r \<Rightarrow> bind (write_version T actorUserId r (update_version_input (noted format (snd item))) Secret_updated False)
                  (\<lambda>v. ret (Import_updated v)))"

definition import_summary :: "import_action list \<Rightarrow> import_result" where
  "import_summary actions = \<lparr>ir_secrets = List.map_filter import_written actions, ir_requested = length actions,
     ir_created = length (filter (\<lambda>a. case a of Import_created _ \<Rightarrow> True | _ \<Rightarrow> False) actions),
     ir_updated = length (filter (\<lambda>a. case a of Import_updated _ \<Rightarrow> True | _ \<Rightarrow> False) actions),
     ir_skipped = length (filter (\<lambda>a. a = Import_skipped) actions)\<rparr>"

definition import_event ::
  "transaction \<Rightarrow> uuid \<Rightarrow> uuid \<Rightarrow> uuid \<Rightarrow> string \<Rightarrow> string \<Rightarrow> import_result \<Rightarrow> audit_event" where
  "import_event T actorUserId projectId environmentId strategy format result =
     (environment_event T (Actor_user actorUserId) Secret_imported projectId environmentId)
       \<lparr>event_details := Some [(''format'', JStr format), (''strategy'', JStr strategy),
          (''requested'', json_count (ir_requested result)), (''created'', json_count (ir_created result)),
          (''updated'', json_count (ir_updated result)), (''skipped'', json_count (ir_skipped result)),
          (''keys'', JArr (map (\<lambda>v. JStr (sm_key v)) (ir_secrets result)))]\<rparr>"

definition import_batch ::
  "transaction \<Rightarrow> uuid \<Rightarrow> uuid \<Rightarrow> uuid \<Rightarrow> secret_input list \<Rightarrow> string \<Rightarrow> string list \<Rightarrow> string \<Rightarrow> import_result db_op" where
  "import_batch T actorUserId projectId environmentId inputs strategyName selectedKeys format =
     andthen (check (1 \<le> length inputs \<and> length inputs \<le> MAX_BULK_ITEMS) (Secret_error Secret_invalid_input))
     (bind (from_option (Secret_error Secret_invalid_input) (strategy_of strategyName)) (\<lambda>strategy.
      bind (lift_sum (input_keys inputs)) (\<lambda>keys.
      andthen (check (distinct keys) (Secret_error Secret_invalid_input))
     (andthen (check (strategy = Import_merge \<longrightarrow> selectedKeys \<noteq> [] \<and> set selectedKeys \<subseteq> set keys)
        (Secret_error Secret_invalid_input))
     (andthen (permit_in T actorUserId projectId environmentId Secret_write)
     (bind (select_rows s_org db_secrets T (\<lambda>r. in_place projectId environmentId r \<and> s_key r \<in> set keys)) (\<lambda>existing.
      bind (for_each (import_item T actorUserId projectId environmentId strategy selectedKeys format
              (sort_by (key_le (tx_platform T)) existing)) (zip keys inputs)) (\<lambda>actions.
      let result = import_summary actions in
      andthen (record_in_transaction T (import_event T actorUserId projectId environmentId strategyName format result))
        (ret result)))))))))"

section \<open>Promotion\<close>

record promotion_item =
  pi_key :: string
  pi_create :: bool                     \<comment> \<open>\<^verbatim>\<open>action === "create"\<close>\<close>
  pi_changed :: bool
  pi_source_version :: int
  pi_target_version :: "int option"

record promotion_preview =
  pp_source :: uuid
  pp_target :: uuid
  pp_items :: "promotion_item list"
  pp_selected :: nat
  pp_created :: nat
  pp_overwritten :: nat

definition authorize_promotion ::
  "transaction \<Rightarrow> uuid \<Rightarrow> uuid \<Rightarrow> uuid \<Rightarrow> uuid \<Rightarrow> string list option \<Rightarrow> string list option db_op" where
  "authorize_promotion T actorUserId projectId sourceId targetId keys =
     andthen (check (sourceId \<noteq> targetId) (Secret_error Secret_invalid_input))
     (bind (lift_sum (case keys of None \<Rightarrow> Inr None
         | Some ks \<Rightarrow> and_ok (map_ok (\<lambda>k. validate_secret_key k True) ks) (\<lambda>ns. Inr (Some ns)))) (\<lambda>normalizedKeys.
      andthen (check (case normalizedKeys of None \<Rightarrow> True | Some ks \<Rightarrow> 1 \<le> length ks \<and> distinct ks)
         (Secret_error Secret_invalid_input))
     (bind (environment_scope T projectId sourceId) (\<lambda>source.
      bind (environment_scope T projectId targetId) (\<lambda>target.
      andthen (permit T actorUserId (Some projectId) (e_protected (fst source)) Secret_read)
     (andthen (permit T actorUserId (Some projectId) (e_protected (fst target)) Secret_write)
      (ret normalizedKeys)))))))"

text \<open>\<^verbatim>\<open>ORDER BY s.environment_id, s.key\<close>\<close>

definition promotion_le :: "platform \<Rightarrow> secret_row \<times> version_row \<Rightarrow> secret_row \<times> version_row \<Rightarrow> bool" where
  "promotion_le P a b = (if s_environment (fst a) = s_environment (fst b) then key_le P (fst a) (fst b)
     else s_environment (fst a) \<le> s_environment (fst b))"

definition promotion_rows ::
  "transaction \<Rightarrow> uuid \<Rightarrow> uuid \<Rightarrow> uuid \<Rightarrow> string list option \<Rightarrow> db \<Rightarrow> (secret_row \<times> version_row) list" where
  "promotion_rows T projectId sourceId targetId keys s =
     sort_by (promotion_le (tx_platform T)) (current_rows T (\<lambda>r. s_project r = projectId
       \<and> s_environment r \<in> {sourceId, targetId} \<and> s_deleted r = None
       \<and> (case keys of None \<Rightarrow> True | Some ks \<Rightarrow> s_key r \<in> set ks)) s)"

definition rows_in :: "uuid \<Rightarrow> (secret_row \<times> version_row) list \<Rightarrow> (secret_row \<times> version_row) list" where
  "rows_in environmentId rows = filter (\<lambda>rv. s_environment (fst rv) = environmentId) rows"

text \<open>\<^verbatim>\<open>new Map(rows.map((row) => [row.key, row])).get(key)\<close>\<close>

definition keyed :: "string \<Rightarrow> (secret_row \<times> version_row) list \<Rightarrow> (secret_row \<times> version_row) option" where
  "keyed key rows = find (\<lambda>rv. s_key (fst rv) = key) (rev rows)"

definition values_differ ::
  "transaction \<Rightarrow> secret_row \<times> version_row \<Rightarrow> secret_row \<times> version_row \<Rightarrow> bool db_op" where
  "values_differ T source target =
     bind (decrypt_row T source) (\<lambda>sourcePlaintext.
     bind (decrypt_row T target) (\<lambda>targetPlaintext.
     ret (sourcePlaintext \<noteq> targetPlaintext)))"

definition preview_item ::
  "transaction \<Rightarrow> (secret_row \<times> version_row) list \<Rightarrow> secret_row \<times> version_row \<Rightarrow> promotion_item db_op" where
  "preview_item T targets source =
     (case keyed (s_key (fst source)) targets of
        None \<Rightarrow> ret \<lparr>pi_key = s_key (fst source), pi_create = True, pi_changed = True,
                  pi_source_version = s_version (fst source), pi_target_version = None\<rparr>
      | Some target \<Rightarrow> bind (values_differ T source target) (\<lambda>changed.
          ret \<lparr>pi_key = s_key (fst source), pi_create = False, pi_changed = changed,
               pi_source_version = s_version (fst source), pi_target_version = Some (s_version (fst target))\<rparr>))"

definition make_preview ::
  "transaction \<Rightarrow> (secret_row \<times> version_row) list \<Rightarrow> uuid \<Rightarrow> uuid \<Rightarrow> string list option \<Rightarrow> promotion_preview db_op" where
  "make_preview T rows sourceId targetId selectedKeys =
     (let sources = rows_in sourceId rows; targets = rows_in targetId rows in
      andthen (check (case selectedKeys of None \<Rightarrow> True
          | Some ks \<Rightarrow> set ks \<subseteq> set (map (\<lambda>rv. s_key (fst rv)) sources)) not_found)
     (bind (for_each (preview_item T targets) sources) (\<lambda>items.
      ret \<lparr>pp_source = sourceId, pp_target = targetId, pp_items = items, pp_selected = length items,
           pp_created = length (filter pi_create items),
           pp_overwritten = length (filter (\<lambda>i. \<not> pi_create i) items)\<rparr>)))"

definition preview_promotion ::
  "transaction \<Rightarrow> uuid \<Rightarrow> uuid \<Rightarrow> uuid \<Rightarrow> uuid \<Rightarrow> string list option \<Rightarrow> promotion_preview db_op" where
  "preview_promotion T actorUserId projectId sourceId targetId keys =
     bind (authorize_promotion T actorUserId projectId sourceId targetId keys) (\<lambda>normalizedKeys.
     bind (reads (promotion_rows T projectId sourceId targetId normalizedKeys)) (\<lambda>rows.
     make_preview T rows sourceId targetId normalizedKeys))"

definition promote_item ::
  "transaction \<Rightarrow> uuid \<Rightarrow> uuid \<Rightarrow> uuid \<Rightarrow> uuid \<Rightarrow> (secret_row \<times> version_row) list \<Rightarrow>
     secret_row \<times> version_row \<Rightarrow> secret_metadata db_op" where
  "promote_item T actorUserId projectId sourceId targetId targets source =
     bind (decrypt_row T source) (\<lambda>plaintext.
     let v = utf8_decode (tx_platform T) plaintext; r = fst source;
         changeNote = Some (''Promoted from environment '' @ sourceId) in
     case keyed (s_key r) targets of
       None \<Rightarrow> create_with T actorUserId projectId targetId
         \<lparr>in_key = s_key r, in_value = v, in_notes = Some (s_notes r), in_change_note = changeNote,
          in_allow_nonconforming = True, in_tag_ids = None\<rparr> True False
     | Some target \<Rightarrow> write_version T actorUserId (fst target)
         \<lparr>wi_value = v, wi_notes = Some (s_notes r), wi_change_note = changeNote, wi_tag_ids = None\<rparr>
         Secret_updated False)"

definition promotion_event :: "transaction \<Rightarrow> uuid \<Rightarrow> uuid \<Rightarrow> promotion_preview \<Rightarrow> audit_event" where
  "promotion_event T actorUserId projectId preview =
     (environment_event T (Actor_user actorUserId) Secret_promoted projectId (pp_target preview))
       \<lparr>event_details := Some [(''sourceEnvironmentId'', JStr (pp_source preview)),
          (''targetEnvironmentId'', JStr (pp_target preview)), (''created'', json_count (pp_created preview)),
          (''overwritten'', json_count (pp_overwritten preview)),
          (''keys'', JArr (map (\<lambda>i. JStr (pi_key i)) (pp_items preview)))]\<rparr>"

definition promote ::
  "transaction \<Rightarrow> uuid \<Rightarrow> uuid \<Rightarrow> uuid \<Rightarrow> uuid \<Rightarrow> string list option \<Rightarrow>
     (promotion_preview \<times> secret_metadata list) db_op" where
  "promote T actorUserId projectId sourceId targetId keys =
     bind (authorize_promotion T actorUserId projectId sourceId targetId keys) (\<lambda>normalizedKeys.
     bind (reads (promotion_rows T projectId sourceId targetId normalizedKeys)) (\<lambda>rows.
     bind (make_preview T rows sourceId targetId normalizedKeys) (\<lambda>preview.
     bind (for_each (promote_item T actorUserId projectId sourceId targetId (rows_in targetId rows))
             (rows_in sourceId rows)) (\<lambda>promoted.
     andthen (record_in_transaction T (promotion_event T actorUserId projectId preview))
       (ret (preview, promoted))))))"

section \<open>The contract\<close>

lemma obeys_bulk_set [contract_intros]:
  "obeys (tenant_step (tx_org T)) (bulk_set T actorUserId projectId environmentId inputs)"
  unfolding bulk_set_def bulk_item_def by (auto intro!: contract_intros)

lemma obeys_import_item [contract_intros]:
  "obeys (tenant_step (tx_org T)) (import_item T actorUserId projectId environmentId strategy selected format existing item)"
  unfolding import_item_def Let_def by (auto intro!: contract_intros)

lemma obeys_import_batch [contract_intros]:
  "obeys (tenant_step (tx_org T)) (import_batch T actorUserId projectId environmentId inputs strategyName selectedKeys format)"
  unfolding import_batch_def Let_def by (intro contract_intros)

lemma obeys_authorize_promotion [contract_intros]:
  "obeys (tenant_step orgId) (authorize_promotion T actorUserId projectId sourceId targetId keys)"
  unfolding authorize_promotion_def by (intro contract_intros)

lemma obeys_make_preview [contract_intros]:
  "obeys (tenant_step orgId) (make_preview T rows sourceId targetId selectedKeys)"
  unfolding make_preview_def preview_item_def values_differ_def Let_def by (intro contract_intros)

lemma obeys_preview_promotion [contract_intros]:
  "obeys (tenant_step orgId) (preview_promotion T actorUserId projectId sourceId targetId keys)"
  unfolding preview_promotion_def by (intro contract_intros)

lemma obeys_promote_item [contract_intros]:
  "obeys (tenant_step (tx_org T)) (promote_item T actorUserId projectId sourceId targetId targets source)"
  unfolding promote_item_def Let_def by (intro contract_intros)

lemma obeys_promote [contract_intros]:
  "obeys (tenant_step (tx_org T)) (promote T actorUserId projectId sourceId targetId keys)"
  unfolding promote_def by (intro contract_intros)

end
