(* ===== verification/Transfer_Facts.thy ===== *)
theory Transfer_Facts
  imports Secret_Transfer
begin

text \<open>
  What bulk writes, imports and promotions leave behind: every item they report is stored in the
  right environment under the right key and reads back as the value that was meant, and an import
  that skips conflicts leaves every existing secret as it was.
\<close>

section \<open>Loops\<close>

text \<open>
  A loop whose body keeps an invariant and establishes something about its element that later
  iterations cannot undo, establishes it for every element.
\<close>

context op_contract begin

lemma for_each_post:
  assumes run: "for_each f xs s = Inr (as, s')" and init: "I s"
    and step: "\<And>x s a s'. x \<in> set xs \<Longrightarrow> I s \<Longrightarrow> f x s = Inr (a, s') \<Longrightarrow> R s s' \<and> I s' \<and> Q x a s'"
    and stable: "\<And>x a s s'. Q x a s \<Longrightarrow> I s \<Longrightarrow> R s s' \<Longrightarrow> Q x a s'"
  shows "list_all2 (\<lambda>x a. Q x a s') xs as \<and> I s' \<and> R s s'"
  using run init step
proof (induction xs arbitrary: s as)
  case Nil
  then show ?case by (simp add: op_simps R_refl)
next
  case (Cons x xs)
  obtain a s1 as' where f: "f x s = Inr (a, s1)" and r: "for_each f xs s1 = Inr (as', s')" and as: "as = a # as'"
    using Cons.prems(1) by (auto simp: op_simps)
  have 1: "R s s1" "I s1" "Q x a s1" using Cons.prems(3)[OF _ Cons.prems(2) f] by auto
  have 2: "list_all2 (\<lambda>x a. Q x a s') xs as' \<and> I s' \<and> R s1 s'"
    by (rule Cons.IH[OF r 1(2)]) (use Cons.prems(3) in auto)
  then show ?case using 1 as stable[OF 1(3,2)] R_trans by auto
qed

end

section \<open>What one write leaves behind\<close>

definition written :: "transaction \<Rightarrow> uuid \<Rightarrow> uuid \<Rightarrow> string \<Rightarrow> bytes \<Rightarrow> secret_metadata \<Rightarrow> db \<Rightarrow> bool" where
  "written T projectId environmentId key m view s \<longleftrightarrow> sm_project view = projectId
     \<and> sm_environment view = environmentId \<and> sm_key view = key
     \<and> version_readable T (sm_id view) (sm_version view) m s"

lemma written_step:
  "written T p e k m view s \<Longrightarrow> db_keys_ok s \<Longrightarrow> tenant_step (tx_org T) s s' \<Longrightarrow> written T p e k m view s'"
  by (auto simp: written_def intro: version_readable_step)

lemma write_version_written:
  assumes w: "write_version T u before input action recordAudit s = Inr (view, s')"
    and P: "gcm_correct (tx_platform T)" "gcm_lengths (tx_platform T)" "random_lengths (tx_platform T)"
    and ok: "db_keys_ok s" "versions_ok s" and before: "secret_place before \<in> secret_place ` set (db_secrets s)"
  shows "written T (s_project before) (s_environment before) (s_key before) (utf8 (wi_value input)) view s'"
    and "\<And>r. r \<in> set (db_secrets s) \<Longrightarrow> s_id r \<noteq> s_id before \<Longrightarrow> r \<in> set (db_secrets s')"
    and "\<not> recordAudit \<Longrightarrow> db_audit s' = db_audit s"
proof -
  obtain newNotes q where
    sec: "db_secrets s' = update_where s_org T (is_active_secret (s_id before)) (pointed T before newNotes) (db_secrets s)"
    and q: "find (is_active_secret (s_id before)) (visible s_org T (db_secrets s')) = Some q"
    and view: "view = metadata_from_row T s' q"
    and audit: "\<not> recordAudit \<longrightarrow> db_audit s' = db_audit s"
    using write_version_effect[OF w] by metis
  then show "\<not> recordAudit \<Longrightarrow> db_audit s' = db_audit s" by blast
  obtain r where r: "r \<in> set (db_secrets s)" "secret_place r = secret_place before" using before by auto
  obtain p where p: "p \<in> set (db_secrets s)" "secret_place q = secret_place p"
    using active_secretD(1)[OF q] unfolding sec
    by (rule update_whereE) (auto simp: secret_place_def pointed_def split: if_splits)
  have "p = r"
    by (rule secret_identified[OF ok(2) p(1) r(1)]) (use p r active_secretD(3)[OF q] in \<open>simp add: secret_place_def\<close>)
  then have "secret_place q = secret_place before" using p r by simp
  then show "written T (s_project before) (s_environment before) (s_key before) (utf8 (wi_value input)) view s'"
    using write_version_readable[OF w P ok(1) before] view
    by (auto simp: written_def metadata_from_row_def secret_place_def)
  show "r \<in> set (db_secrets s')" if r: "r \<in> set (db_secrets s)" "s_id r \<noteq> s_id before" for r
    using r by (auto simp: sec update_where_def is_active_secret_def image_iff intro!: bexI[of _ r])
qed

lemma create_validated_steps:
  assumes c: "create_validated T u p e key version_in recordAudit s = Inr (view, s')" and ok: "versions_ok s"
  obtains before s1 where
    "write_version T u before version_in Secret_created recordAudit s1 = Inr (view, s')"
    and "tenant_step (tx_org T) s s1" and "secret_place before \<in> secret_place ` set (db_secrets s1)"
    and "s_project before = p" "s_environment before = e" "s_key before = key"
    and "\<And>r. r \<in> set (db_secrets s) \<Longrightarrow> s_deleted r = None \<Longrightarrow> r \<in> set (db_secrets s1) \<and> s_id r \<noteq> s_id before"
    and "db_audit s1 = db_audit s"
proof (cases "first_row (filter (recoverable p e key) (visible s_org T (db_secrets s)))")
  case (Some b)
  let ?f = "\<lambda>q. q\<lparr>s_deleted := None, s_updated := tx_now T\<rparr>"
  let ?s1 = "updated_secrets T (\<lambda>q. s_id q = s_id b) ?f s"
  have b: "b \<in> set (db_secrets s)" "s_org b = tx_org T" "recoverable p e key b"
    using first_row_Some[OF Some] by auto
  have up: "update_secrets T (\<lambda>q. s_id q = s_id b) ?f s = Inr ((), ?s1)" by (simp add: update_secrets_def op_simps)
  have "write_version T u b version_in Secret_created recordAudit ?s1 = Inr (view, s')"
    using c Some by (auto simp: create_validated_def op_simps select_rows_def update_secrets_def)
  moreover have "tenant_step (tx_org T) s ?s1"
    by (rule obeysD[OF obeys_update_secrets up]) (simp_all add: keeps_secret_place_def)
  moreover from this have "secret_place b \<in> secret_place ` set (db_secrets ?s1)"
    using b(1) by (auto simp: tenant_step_def)
  moreover have "r \<in> set (db_secrets ?s1) \<and> s_id r \<noteq> s_id b"
    if r: "r \<in> set (db_secrets s)" "s_deleted r = None" for r
  proof -
    have "s_id r \<noteq> s_id b" using secret_identified[OF ok r(1) b(1)] r(2) b(3) by (auto simp: recoverable_def)
    then show ?thesis using r(1) by (auto simp: updated_secrets_def update_where_def image_iff intro!: bexI[of _ r])
  qed
  moreover have "db_audit ?s1 = db_audit s" by (simp add: updated_secrets_def)
  ultimately show ?thesis using b(3) by (intro that[of b ?s1]) (auto simp: recoverable_def)
next
  case None
  obtain secretId t s1 nn where
    f: "fresh_uuid T s = Inr (secretId, t)" and
    i: "insert_secret T (new_secret T u secretId p e key nn) t = Inr ((), s1)" and
    w: "write_version T u (new_secret T u secretId p e key nn) version_in Secret_created recordAudit s1 = Inr (view, s')"
    using c None by (auto simp: create_validated_def op_simps select_rows_def Let_def)
  let ?r = "new_secret T u secretId p e key nn"
  have t: "db_secrets t = db_secrets s" "tenant_step (tx_org T) s t"
    using f obeysD[OF obeys_fresh_uuid f] by (auto simp: fresh_uuid_def next_draw_def op_simps)
  have a: "db_audit s1 = db_audit s"
    using f i by (auto simp: fresh_uuid_def next_draw_def insert_secret_def insert_row_def op_simps)
  have s1: "db_secrets s1 = db_secrets t @ [?r]" "\<not> list_ex (secret_clash ?r) (db_secrets t)"
    using i by (auto simp: insert_secret_def insert_row_def op_simps secret_trigger_def)
  have "tenant_step (tx_org T) t s1"
    by (rule obeysD[OF obeys_insert_secret i]) (simp add: new_secret_def)
  then have "tenant_step (tx_org T) s s1" using t(2) tenant.R_trans by blast
  moreover have "s_id r \<noteq> s_id ?r" if "r \<in> set (db_secrets s)" for r
    using s1(2) t(1) that by (auto simp: list_ex_iff secret_clash_def)
  ultimately show ?thesis using w s1(1) t(1) a by (intro that[of ?r s1]) (auto simp: new_secret_def)
qed

lemma create_with_steps:
  assumes c: "create_with T u p e input authorized recordAudit s = Inr (view, s')" and ok: "versions_ok s"
    and k: "validate_secret_key (in_key input) (in_allow_nonconforming input) = Inr key"
  obtains before s1 version_in where
    "write_version T u before version_in Secret_created recordAudit s1 = Inr (view, s')"
    and "wi_value version_in = in_value input"
    and "tenant_step (tx_org T) s s1" and "secret_place before \<in> secret_place ` set (db_secrets s1)"
    and "s_project before = p" "s_environment before = e" "s_key before = key"
    and "\<And>r. r \<in> set (db_secrets s) \<Longrightarrow> s_deleted r = None \<Longrightarrow> r \<in> set (db_secrets s1) \<and> s_id r \<noteq> s_id before"
    and "db_audit s1 = db_audit s"
proof -
  obtain newNotes changeNote where
    "create_validated T u p e key (version_input_of input newNotes changeNote) recordAudit s = Inr (view, s')"
    using c k by (cases authorized) (auto simp: create_with_def op_simps environment_scope_def permit_in_Inr)
  then show ?thesis
    by (rule create_validated_steps[OF _ ok]) (rule that, assumption, simp_all add: version_input_of_def)
qed

lemma create_with_written:
  assumes c: "create_with T u p e input authorized recordAudit s = Inr (view, s')"
    and k: "validate_secret_key (in_key input) (in_allow_nonconforming input) = Inr key"
    and P: "gcm_correct (tx_platform T)" "gcm_lengths (tx_platform T)" "random_lengths (tx_platform T)"
    and ok: "db_keys_ok s" "versions_ok s"
  shows "written T p e key (utf8 (in_value input)) view s'"
    and "\<And>r. r \<in> set (db_secrets s) \<Longrightarrow> s_deleted r = None \<Longrightarrow> r \<in> set (db_secrets s')"
    and "\<not> recordAudit \<Longrightarrow> db_audit s' = db_audit s"
proof -
  obtain before s1 version_in where
    w: "write_version T u before version_in Secret_created recordAudit s1 = Inr (view, s')"
    and v: "wi_value version_in = in_value input"
    and st: "tenant_step (tx_org T) s s1" and b: "secret_place before \<in> secret_place ` set (db_secrets s1)"
    and f: "s_project before = p" "s_environment before = e" "s_key before = key"
    and keep: "\<And>r. r \<in> set (db_secrets s) \<Longrightarrow> s_deleted r = None \<Longrightarrow> r \<in> set (db_secrets s1) \<and> s_id r \<noteq> s_id before"
    and audit: "db_audit s1 = db_audit s"
    using create_with_steps[OF c ok(2) k] by metis
  have ok1: "db_keys_ok s1" "versions_ok s1" using st ok by (simp_all add: tenant_step_def)
  show "written T p e key (utf8 (in_value input)) view s'"
    using write_version_written(1)[OF w P ok1 b] v f by simp
  show "r \<in> set (db_secrets s')" if "r \<in> set (db_secrets s)" "s_deleted r = None" for r
    using keep[OF that] write_version_written(2)[OF w P ok1 b, of r] by blast
  show "db_audit s' = db_audit s" if "\<not> recordAudit"
    using write_version_written(3)[OF w P ok1 b that] audit by simp
qed

section \<open>Bulk writes\<close>

definition ready :: "transaction \<Rightarrow> db \<Rightarrow> secret_row list \<Rightarrow> db \<Rightarrow> bool" where
  "ready T s rows t \<longleftrightarrow> db_keys_ok t \<and> versions_ok t \<and> tenant_step (tx_org T) s t
     \<and> secret_place ` set rows \<subseteq> secret_place ` set (db_secrets t)"

lemma tenant_stepD:
  assumes "tenant_step orgId s s'"
  shows "db_keys_ok s \<Longrightarrow> db_keys_ok s'" and "versions_ok s \<Longrightarrow> versions_ok s'"
    and "secret_place ` set (db_secrets s) \<subseteq> secret_place ` set (db_secrets s')"
  using assms by (simp_all add: tenant_step_def)

lemma ready_step: "ready T s rows t \<Longrightarrow> tenant_step (tx_org T) t t' \<Longrightarrow> ready T s rows t'"
  unfolding ready_def by (meson tenant.R_trans tenant_stepD order_trans)

lemma ready_refl: "db_keys_ok s \<Longrightarrow> versions_ok s \<Longrightarrow> set rows \<subseteq> set (db_secrets s) \<Longrightarrow> ready T s rows s"
  by (auto simp: ready_def tenant.R_refl)

lemma input_keys_Inr:
  "input_keys inputs = Inr ks \<Longrightarrow> ks = map (\<lambda>i. trim (in_key i)) inputs
     \<and> (\<forall>i\<in>set inputs. validate_secret_key (trim (in_key i)) (in_allow_nonconforming i) = Inr (trim (in_key i)))"
  by (induction inputs arbitrary: ks) (auto simp: input_keys_def and_ok_Inr validate_secret_key_Inr)

lemma zip_keys: "zip (map f xs) xs = map (\<lambda>x. (f x, x)) xs"
  by (induction xs) auto

text \<open>
  Bulk writes. A successful bulk write was permitted in its environment and reports one secret
  per input, in order, each stored in that environment under its trimmed key with the input's value,
  readable at the version reported once all of them are written.
\<close>
theorem bulk_set_reads_back:
  assumes P: "gcm_correct (tx_platform T)" "gcm_lengths (tx_platform T)" "random_lengths (tx_platform T)"
    and ok: "db_keys_ok s" "versions_ok s" and run: "bulk_set T u p e inputs s = Inr (views, s')"
  shows "list_all2 (\<lambda>input view. written T p e (trim (in_key input)) (utf8 (in_value input)) view s') inputs views
    \<and> (\<exists>scope. find_environment T p e s = Some scope \<and> permitted T u (Some p) (e_protected (fst scope)) Secret_write s)"
proof -
  obtain ks scope where ks: "input_keys inputs = Inr ks"
    and sc: "find_environment T p e s = Some scope" "permitted T u (Some p) (e_protected (fst scope)) Secret_write s"
    and loop: "for_each (bulk_item T u p e) (zip ks inputs) s = Inr (views, s')"
    using run by (auto simp: bulk_set_def op_simps permit_in_Inr)
  note k = input_keys_Inr[OF ks]
  let ?Q = "\<lambda>item view t. written T p e (fst item) (utf8 (in_value (snd item))) view t"
  have "list_all2 (\<lambda>item view. ?Q item view s') (zip ks inputs) views \<and> ready T s [] s' \<and> tenant_step (tx_org T) s s'"
  proof (rule tenant.for_each_post[OF loop])
    show "ready T s [] s" using ok by (simp add: ready_refl)
    show "tenant_step (tx_org T) t t' \<and> ready T s [] t' \<and> ?Q item view t'"
      if item: "item \<in> set (zip ks inputs)" and r: "ready T s [] t" and b: "bulk_item T u p e item t = Inr (view, t')" for item t view t'
    proof -
      have st: "tenant_step (tx_org T) t t'"
        using b by (rule obeysD[rotated]) (auto simp: bulk_item_def intro!: contract_intros)
      have tok: "db_keys_ok t" "versions_ok t" using r by (simp_all add: ready_def)
      obtain i where i: "i \<in> set inputs" "item = (trim (in_key i), i)" using item k by (auto simp: zip_keys)
      have key: "validate_secret_key (in_key (i\<lparr>in_key := trim (in_key i)\<rparr>)) (in_allow_nonconforming (i\<lparr>in_key := trim (in_key i)\<rparr>))
          = Inr (trim (in_key i))" using k i by simp
      have "?Q item view t'"
      proof (cases "first_row (filter (active_keyed p e (fst item)) (visible s_org T (db_secrets t)))")
        case None
        then have "create_with T u p e (i\<lparr>in_key := trim (in_key i)\<rparr>) True True t = Inr (view, t')"
          using b i by (auto simp: bulk_item_def op_simps select_rows_def)
        from create_with_written(1)[OF this key P tok] show ?thesis using i by simp
      next
        case (Some row)
        then have w: "write_version T u row (update_version_input i) Secret_updated True t = Inr (view, t')"
          using b i by (auto simp: bulk_item_def op_simps select_rows_def)
        have "row \<in> set (db_secrets t)" "active_keyed p e (fst item) row" using first_row_Some[OF Some] by auto
        then show ?thesis using write_version_written(1)[OF w P tok] i
          by (simp add: update_version_input_def active_keyed_def in_place_def)
      qed
      then show ?thesis using st ready_step[OF r st] by blast
    qed
    show "?Q item view t'" if "?Q item view t" "ready T s [] t" "tenant_step (tx_org T) t t'" for item view t t'
      using that written_step by (auto simp: ready_def)
  qed
  then show ?thesis using sc k by (auto simp: zip_keys list_all2_map1)
qed

section \<open>Imports\<close>

lemma import_item_effect:
  assumes P: "gcm_correct (tx_platform T)" "gcm_lengths (tx_platform T)" "random_lengths (tx_platform T)"
    and r: "ready T s existing t" and key: "trim (in_key i) = k"
      "validate_secret_key k (in_allow_nonconforming i) = Inr k"
    and ex: "\<forall>q\<in>set existing. s_project q = p \<and> s_environment q = e"
    and run: "import_item T u p e strategy selected format existing (k, i) t = Inr (action, t')"
  shows "tenant_step (tx_org T) t t'" and "ready T s existing t'" and "db_audit t' = db_audit t"
    and "pred_option (\<lambda>view. written T p e k (utf8 (in_value i)) view t') (import_written action)"
    and "\<And>r. strategy = Import_skip \<Longrightarrow> r \<in> set (db_secrets t) \<Longrightarrow> s_deleted r = None \<Longrightarrow> r \<in> set (db_secrets t')"
proof -
  show st: "tenant_step (tx_org T) t t'" using obeysD[OF obeys_import_item run] .
  show "ready T s existing t'" by (rule ready_step[OF r st])
  have tok: "db_keys_ok t" "versions_ok t" using r by (simp_all add: ready_def)
  let ?row = "find (\<lambda>r. s_key r = k) (rev existing)"
  let ?i = "noted format i"
  consider (skip) "\<not> import_included strategy selected k (?row \<noteq> None)" "action = Import_skipped" "t' = t"
    | (create) view where "?row = None" "action = Import_created view"
        "create_with T u p e (?i\<lparr>in_key := k\<rparr>) True False t = Inr (view, t')"
    | (update) q view where "?row = Some q" "import_included strategy selected k True" "action = Import_updated view"
        "write_version T u q (update_version_input ?i) Secret_updated False t = Inr (view, t')"
    using run by (auto simp: import_item_def Let_def op_simps split: if_splits option.splits)
  then have "db_audit t' = db_audit t
      \<and> pred_option (\<lambda>view. written T p e k (utf8 (in_value i)) view t') (import_written action)
      \<and> (\<forall>r. strategy = Import_skip \<longrightarrow> r \<in> set (db_secrets t) \<longrightarrow> s_deleted r = None \<longrightarrow> r \<in> set (db_secrets t'))"
  proof cases
    case create
    have "validate_secret_key (in_key (?i\<lparr>in_key := k\<rparr>)) (in_allow_nonconforming (?i\<lparr>in_key := k\<rparr>)) = Inr k"
      using key by (simp add: noted_def)
    from create_with_written[OF create(3) this P tok] create(2) show ?thesis by (auto simp: noted_def)
  next
    case update
    have q: "q \<in> set existing" "s_key q = k" using find_SomeD[OF update(1)] by auto
    then have "secret_place q \<in> secret_place ` set (db_secrets t)" using r by (auto simp: ready_def)
    from write_version_written[OF update(4) P tok this] update(2,3) q ex show ?thesis
      by (auto simp: noted_def update_version_input_def import_included_def)
  qed simp
  then show "db_audit t' = db_audit t"
    "pred_option (\<lambda>view. written T p e k (utf8 (in_value i)) view t') (import_written action)"
    "\<And>r. strategy = Import_skip \<Longrightarrow> r \<in> set (db_secrets t) \<Longrightarrow> s_deleted r = None \<Longrightarrow> r \<in> set (db_secrets t')"
    by blast+
qed

lemma import_summary_counts:
  "ir_requested (import_summary as) = length as
   \<and> length as = ir_created (import_summary as) + ir_updated (import_summary as) + ir_skipped (import_summary as)
   \<and> length (ir_secrets (import_summary as)) = ir_created (import_summary as) + ir_updated (import_summary as)"
proof (induction as)
  case (Cons a as)
  then show ?case by (cases a) (simp_all add: import_summary_def List.map_filter_simps)
qed (simp add: import_summary_def List.map_filter_simps)

text \<open>
  C13: imports. A successful import accounts for every entry as created, updated or skipped, every
  secret it reports is stored in the environment under an imported key with the imported value, it
  leaves exactly one event however many secrets it wrote, and under the skip strategy every secret
  that existed is left exactly as it was.
\<close>
theorem import_batch_effect:
  assumes P: "gcm_correct (tx_platform T)" "gcm_lengths (tx_platform T)" "random_lengths (tx_platform T)"
    and ok: "db_keys_ok s" "versions_ok s"
    and run: "import_batch T u p e inputs strategy selected format s = Inr (result, s')"
  shows "ir_requested result = length inputs
    \<and> length inputs = ir_created result + ir_updated result + ir_skipped result
    \<and> list_all (\<lambda>view. list_ex (\<lambda>i. written T p e (trim (in_key i)) (utf8 (in_value i)) view s') inputs) (ir_secrets result)
    \<and> length (ir_secrets result) = ir_created result + ir_updated result
    \<and> length (db_audit s') = Suc (length (db_audit s))
    \<and> (strategy = ''skip'' \<longrightarrow> (\<forall>r\<in>set (db_secrets s). s_deleted r = None \<longrightarrow> r \<in> set (db_secrets s')))"
proof -
  let ?existing = "\<lambda>ks. sort_by (key_le (tx_platform T))
    (filter (\<lambda>r. in_place p e r \<and> s_key r \<in> set ks) (visible s_org T (db_secrets s)))"
  obtain st ks as s1 where st: "strategy_of strategy = Some st" and ks: "input_keys inputs = Inr ks"
    and loop: "for_each (import_item T u p e st selected format (?existing ks)) (zip ks inputs) s = Inr (as, s1)"
    and rec: "record_in_transaction T (import_event T u p e strategy format (import_summary as)) s1 = Inr ((), s')"
    and res: "result = import_summary as"
    using run by (auto simp: import_batch_def op_simps permit_in_Inr select_rows_def Let_def)
  note k = input_keys_Inr[OF ks]
  let ?I = "\<lambda>t. ready T s (?existing ks) t \<and> db_audit t = db_audit s
      \<and> (st = Import_skip \<longrightarrow> (\<forall>r\<in>set (db_secrets s). s_deleted r = None \<longrightarrow> r \<in> set (db_secrets t)))"
  let ?Q = "\<lambda>item action t. pred_option (\<lambda>view. written T p e (fst item) (utf8 (in_value (snd item))) view t) (import_written action)"
  have "list_all2 (\<lambda>item action. ?Q item action s1) (zip ks inputs) as \<and> ?I s1 \<and> tenant_step (tx_org T) s s1"
  proof (rule tenant.for_each_post[OF loop])
    show "?I s" using ok by (simp add: ready_refl subset_iff)
    show "tenant_step (tx_org T) t t' \<and> ?I t' \<and> ?Q item action t'"
      if item: "item \<in> set (zip ks inputs)" and I: "?I t"
        and b: "import_item T u p e st selected format (?existing ks) item t = Inr (action, t')" for item t action t'
    proof -
      obtain i where i: "i \<in> set inputs" "item = (trim (in_key i), i)" using item k by (auto simp: zip_keys)
      have v: "validate_secret_key (trim (in_key i)) (in_allow_nonconforming i) = Inr (trim (in_key i))" using k i by simp
      have ex: "\<forall>q\<in>set (?existing ks). s_project q = p \<and> s_environment q = e" by (simp add: in_place_def)
      note eff = import_item_effect[OF P I[THEN conjunct1] refl v ex b[unfolded i(2)]]
      show ?thesis using eff I i(2) by auto
    qed
    show "?Q item action t'" if "?Q item action t" "?I t" "tenant_step (tx_org T) t t'" for item action t t'
      using that written_step by (cases "import_written action") (auto simp: ready_def)
  qed
  then have q: "list_all2 (\<lambda>i action. pred_option (\<lambda>view. written T p e (trim (in_key i)) (utf8 (in_value i)) view s1)
        (import_written action)) inputs as" and I: "?I s1"
    using k by (auto simp: zip_keys list_all2_map1)
  have ok1: "db_keys_ok s1" using I by (simp add: ready_def)
  have step: "tenant_step (tx_org T) s1 s'" using obeysD[OF obeys_record rec] .
  have "list_ex (\<lambda>i. written T p e (trim (in_key i)) (utf8 (in_value i)) view s') inputs"
    if "view \<in> set (ir_secrets result)" for view
  proof -
    have "Some view \<in> import_written ` set as"
      using that by (auto simp: res import_summary_def List.map_filter_def image_iff) (metis option.collapse)
    then obtain a where "a \<in> set as" "import_written a = Some view" by auto
    with q obtain i where "i \<in> set inputs" "written T p e (trim (in_key i)) (utf8 (in_value i)) view s1"
      by (fastforce simp: list_all2_conv_all_nth in_set_conv_nth)
    then show ?thesis using written_step[OF _ ok1 step] unfolding list_ex_iff by blast
  qed
  moreover have "length as = length inputs" using list_all2_lengthD[OF q] by simp
  moreover have "length (db_audit s') = Suc (length (db_audit s))" "db_secrets s' = db_secrets s1"
    using rec I by (auto simp: record_Inr)
  moreover have "strategy = ''skip'' \<longrightarrow> st = Import_skip" using st by (auto simp: strategy_of_def)
  ultimately show ?thesis
    using import_summary_counts[of as] I unfolding res by (auto simp: list_all_iff)
qed

section \<open>Promotion\<close>

lemma promotion_row:
  assumes "rv \<in> set (rows_in e (promotion_rows T p e1 e2 ks s))"
  shows "fst rv \<in> set (db_secrets s)" "s_org (fst rv) = tx_org T" "snd rv \<in> set (db_versions s)"
    "version_key (snd rv) = (tx_org T, s_id (fst rv), s_version (fst rv))"
    "s_project (fst rv) = p" "s_environment (fst rv) = e" "s_deleted (fst rv) = None"
proof -
  obtain r v where rv: "rv = (r, v)" by fastforce
  have "(r, v) \<in> set (current_rows T (\<lambda>r. s_project r = p \<and> s_environment r \<in> {e1, e2} \<and> s_deleted r = None
       \<and> (case ks of None \<Rightarrow> True | Some ks \<Rightarrow> s_key r \<in> set ks)) s)" "s_environment r = e"
    using assms by (auto simp: rows_in_def promotion_rows_def rv)
  from current_rowsD[OF this(1)] this(2) show
    "fst rv \<in> set (db_secrets s)" "s_org (fst rv) = tx_org T" "snd rv \<in> set (db_versions s)"
    "version_key (snd rv) = (tx_org T, s_id (fst rv), s_version (fst rv))"
    "s_project (fst rv) = p" "s_environment (fst rv) = e" "s_deleted (fst rv) = None"
    by (auto simp: rv)
qed

lemma preview_items:
  "for_each (preview_item T targets) sources s = Inr (items, s') \<Longrightarrow>
     map pi_key items = map (\<lambda>rv. s_key (fst rv)) sources"
proof (induction sources arbitrary: s items)
  case (Cons rv sources)
  then obtain i s1 items' where i: "preview_item T targets rv s = Inr (i, s1)" "for_each (preview_item T targets) sources s1 = Inr (items', s')"
    "items = i # items'" by (auto simp: op_simps)
  have "pi_key i = s_key (fst rv)" using i(1) by (auto simp: preview_item_def op_simps split: option.splits)
  then show ?case using Cons.IH[OF i(2)] i(3) by simp
qed (simp add: op_simps)

lemma promote_item_written:
  assumes P: "gcm_correct (tx_platform T)" "gcm_lengths (tx_platform T)" "random_lengths (tx_platform T)"
    and ok: "db_keys_ok s" "versions_ok s"
    and src: "fst rv \<in> set (db_secrets s)" "snd rv \<in> set (db_versions s)"
      "version_key (snd rv) = (tx_org T, s_id (fst rv), s_version (fst rv))" "trim (s_key (fst rv)) = s_key (fst rv)"
    and targets: "\<forall>q\<in>set (map fst targets). s_project q = p \<and> s_environment q = tgt"
    and I: "ready T s (map fst targets) t"
    and b: "promote_item T u p src tgt targets rv t = Inr (view, t')"
    and v: "version_readable T (s_id (fst rv)) (s_version (fst rv)) (utf8 v) s"
  shows "written T p tgt (s_key (fst rv)) (utf8 v) view t'"
proof -
  have tok: "db_keys_ok t" "versions_ok t" and kept: "keys_kept s t"
    using I ok by (auto simp: ready_def tenant_step_def)
  have "tx_decrypt T (encrypted_of (snd rv)) (context_of (fst rv) (s_version (fst rv))) s = Inr (utf8 v, s)"
    by (rule version_readable_unique[OF v ok(2) src(1) refl src(2,3)])
  then have d: "decrypt_row T rv t = Inr (utf8 v, t)"
    unfolding decrypt_row_def by (rule tx_decrypt_kept[OF _ kept same_service_refl])
  show ?thesis
  proof (cases "keyed (s_key (fst rv)) targets")
    case None
    let ?input = "\<lparr>in_key = s_key (fst rv), in_value = v, in_notes = Some (s_notes (fst rv)),
      in_change_note = Some (''Promoted from environment '' @ src), in_allow_nonconforming = True, in_tag_ids = None\<rparr>"
    have c: "create_with T u p tgt ?input True False t = Inr (view, t')"
      using b d None by (simp add: promote_item_def bind_def Let_def)
    obtain input where "input = ?input" by blast
    with c have c: "create_with T u p tgt input True False t = Inr (view, t')"
      and i: "in_key input = s_key (fst rv)" "in_value input = v" "in_allow_nonconforming input" by simp_all
    obtain k where k: "validate_secret_key (in_key input) (in_allow_nonconforming input) = Inr k"
      using c by (auto simp: create_with_def op_simps)
    have "written T p tgt k (utf8 v) view t'" using create_with_written(1)[OF c k P tok] i by simp
    moreover have "k = s_key (fst rv)" using k i(1) src(4) by (simp add: validate_secret_key_Inr)
    ultimately show ?thesis by simp
  next
    case (Some target)
    then have q: "target \<in> set targets" "s_key (fst target) = s_key (fst rv)"
      using find_SomeD[of "\<lambda>rv'. s_key (fst rv') = s_key (fst rv)" "rev targets" target] by (auto simp: keyed_def)
    let ?input = "\<lparr>wi_value = v, wi_notes = Some (s_notes (fst rv)),
      wi_change_note = Some (''Promoted from environment '' @ src), wi_tag_ids = None\<rparr>"
    have w: "write_version T u (fst target) ?input Secret_updated False t = Inr (view, t')"
      using b d Some by (simp add: promote_item_def bind_def Let_def)
    have "secret_place (fst target) \<in> secret_place ` set (db_secrets t)" using I q(1) by (auto simp: ready_def)
    from write_version_written(1)[OF w P tok this] have
      "written T (s_project (fst target)) (s_environment (fst target)) (s_key (fst target)) (utf8 v) view t'" by simp
    moreover have "s_project (fst target) = p \<and> s_environment (fst target) = tgt" using targets q(1) by force
    ultimately show ?thesis using q(2) by simp
  qed
qed

lemma metadata_details_ok:
  assumes "metadata_for ev = Inr md" and "event_details ev = Some d"
  shows "metadata_ok 0 (JObj d)"
proof -
  have all: "map_ok f xs = Inr ys \<Longrightarrow> x \<in> set xs \<Longrightarrow> \<exists>y. f x = Inr y" for f :: "'x \<Rightarrow> error + unit" and xs ys x
    by (induction xs arbitrary: ys) (auto simp: and_ok_Inr)
  let ?parts = "List.map_filter (\<lambda>(k, v). map_option (\<lambda>m. (k, JObj m)) v)
      [(''before'', event_before ev), (''after'', event_after ev), (''details'', event_details ev)]"
  obtain us where "map_ok (\<lambda>(k, v). validate_metadata v) ?parts = Inr us"
    using assms(1) by (auto simp: metadata_for_def Let_def and_ok_Inr)
  moreover have "(''details'', JObj d) \<in> set ?parts" using assms(2) by (auto simp: List.map_filter_def)
  ultimately have "\<exists>y. validate_metadata (JObj d) = Inr y" using all by fastforce
  then show ?thesis by (auto simp: validate_metadata_def split: if_splits)
qed


section \<open>Witnesses\<close>

definition demo_input :: "string \<Rightarrow> secret_input" where
  "demo_input v = \<lparr>in_key = '' K'', in_value = v, in_notes = None, in_change_note = None,
     in_allow_nonconforming = False, in_tag_ids = None\<rparr>"

lemma demo_write_returns:
  assumes "length v \<le> 32768" and "validate_change_note note' = Inr c"
  obtains view s1 where "write_version demo_tx ''u'' demo_secret
      \<lparr>wi_value = v, wi_notes = None, wi_change_note = note', wi_tag_ids = None\<rparr> Secret_updated audited demo_vault = Inr (view, s1)"
    and "sm_key view = ''K''" and "audit_ok s1"
proof -
  let ?mk = "\<lparr>master_id = ''k'', master_bytes = replicate 32 7\<rparr>"
  let ?in = "\<lparr>wi_value = v, wi_notes = None, wi_change_note = note', wi_tag_ids = None\<rparr>"
  have "keys_usable demo_tx demo_vault" by (simp add: keys_usable_def next_version_def)
  moreover have "length (utf8 v) \<le> 65536" using assms utf8_length[of v] by linarith
  ultimately obtain view s1 where w: "write_version demo_tx ''u'' demo_secret ?in Secret_updated audited demo_vault = Inr (view, s1)"
    using write_version_succeeds[of demo_tx ?mk demo_vault "''u''" "''s''" demo_secret demo_secret ?in None c Secret_updated audited] assms
    by (auto simp: validated_notes_def)
  moreover have "sm_key view = ''K''" using write_version_written(1)[OF w] by (simp add: written_def)
  moreover have "audit_ok s1" using obeysD[OF obeys_write_version w] by (simp add: tenant_step_def)
  ultimately show thesis using that by blast
qed

lemma demo_keyed:
  "first_row (filter (active_keyed ''p'' ''e'' ''K'') (visible s_org demo_tx [demo_secret])) = Some demo_secret"
  "permit_in demo_tx ''u'' ''p'' ''e'' Secret_write demo_vault = Inr ((demo_environment, demo_project), demo_vault)"
  "s_deleted demo_secret = None"
  by (simp_all add: visible_def active_keyed_def in_place_def first_row_def demo_secret_def new_secret_def permit_in_Inr)

lemma demo_key: "validate_secret_key '' K'' False = Inr ''K''" "trim '' K'' = ''K''"
  by code_simp+

theorem bulk_set_reads_back_witness:
  "\<exists>view s'. bulk_set demo_tx ''u'' ''p'' ''e'' [demo_input ''v''] demo_vault = Inr ([view], s')
     \<and> written demo_tx ''p'' ''e'' ''K'' (utf8 ''v'') view s'"
proof -
  obtain view s1 where w: "write_version demo_tx ''u'' demo_secret
      \<lparr>wi_value = ''v'', wi_notes = None, wi_change_note = None, wi_tag_ids = None\<rparr> Secret_updated True demo_vault = Inr (view, s1)"
    by (rule demo_write_returns[of "''v''" None None True]) (auto simp: validate_change_note_def validate_text_def)
  have run: "bulk_set demo_tx ''u'' ''p'' ''e'' [demo_input ''v''] demo_vault = Inr ([view], s1)"
    using w demo_keyed demo_key
    by (simp add: bulk_set_def op_simps bulk_item_def MAX_BULK_ITEMS_def input_keys_def and_ok_def demo_input_def
        select_rows_def update_version_input_def)
  from bulk_set_reads_back[OF _ _ _ _ _ run] show ?thesis using run demo_key(2) by (auto simp: demo_input_def)
qed

theorem import_batch_effect_witness:
  "\<exists>result s'. import_batch demo_tx ''u'' ''p'' ''e'' [demo_input ''v''] ''overwrite'' [] ''dotenv'' demo_vault = Inr (result, s')
     \<and> ir_updated result = 1"
proof -
  have c: "validate_change_note (Some ''dotenv import'') = Inr (Some ''dotenv import'')" by code_simp
  obtain view s1 where w: "write_version demo_tx ''u'' demo_secret
      \<lparr>wi_value = ''v'', wi_notes = None, wi_change_note = Some ''dotenv import'', wi_tag_ids = None\<rparr> Secret_updated False demo_vault
      = Inr (view, s1)"
    and k: "sm_key view = ''K''" and a: "audit_ok s1"
    by (rule demo_write_returns[OF _ c, of "''v''" False]) auto
  let ?r = "import_summary [Import_updated view]"
  let ?ev = "import_event demo_tx ''u'' ''p'' ''e'' ''overwrite'' ''dotenv'' ?r"
  let ?details = "[(''format'', JStr ''dotenv''), (''strategy'', JStr ''overwrite''), (''requested'', json_count 1),
      (''created'', json_count 0), (''updated'', json_count 1), (''skipped'', json_count 0), (''keys'', JArr [JStr ''K''])]"
  have "small_object ?details" by code_simp
  moreover have ev: "event_details ?ev = Some ?details" "event_before ?ev = None" "event_after ?ev = None"
    "event_org ?ev = ''o''" "event_resource_type ?ev = ''environment''" "validate_event ?ev = Inr ()"
    using k by (simp_all add: import_event_def import_summary_def List.map_filter_simps environment_event_def user_event_def
        validate_event_def starts_with_def)
  ultimately obtain md where "metadata_for ?ev = Inr md" using metadata_for_small[of ?ev] by auto
  then obtain s2 where rec: "record_in_transaction demo_tx ?ev s1 = Inr ((), s2)"
    using record_succeeds[OF a] ev by auto
  have run: "import_batch demo_tx ''u'' ''p'' ''e'' [demo_input ''v''] ''overwrite'' [] ''dotenv'' demo_vault = Inr (?r, s2)"
    using w rec demo_keyed(2,3) demo_key
    by (simp add: import_batch_def op_simps import_item_def Let_def MAX_BULK_ITEMS_def strategy_of_def input_keys_def and_ok_def
        demo_input_def select_rows_def update_version_input_def import_included_def noted_def visible_def in_place_def)
  from import_batch_effect[OF _ _ _ _ _ run] run show ?thesis by (auto simp: import_summary_def)
qed

text \<open>Two environments that hold the same key with different values.\<close>

definition demo_data_key :: data_key_record where
  "demo_data_key = \<lparr>dk_org = ''o'', dk_version = 1, dk_status = Key_active, dk_wrapped = \<lparr>kek_id = ''k'',
     wrapped_ciphertext = replicate 32 0, wrapped_nonce = replicate 12 0, wrapped_tag = replicate 16 0\<rparr>,
     dk_created_at = 0, dk_retired_at = None\<rparr>"

definition demo_version :: "uuid \<Rightarrow> uuid \<Rightarrow> string \<Rightarrow> version_row" where
  "demo_version environmentId secretId v = \<lparr>v_org = ''o'', v_project = ''p'', v_environment = environmentId,
     v_secret = secretId, v_version = 1, v_ciphertext = utf8 v, v_nonce = replicate 12 0,
     v_tag = replicate 16 0, v_key_version = 1, v_author = None, v_change_note = None, v_created = 0\<rparr>"

definition demo_source :: secret_row where "demo_source = demo_secret\<lparr>s_version := 1\<rparr>"
definition demo_target :: secret_row where "demo_target = demo_secret\<lparr>s_id := ''t'', s_environment := ''f'', s_version := 1\<rparr>"

definition demo_pair :: db where
  "demo_pair = demo_vault\<lparr>
     db_environments := [demo_environment, demo_environment\<lparr>e_id := ''f'', e_slug := ''f'', e_protected := False\<rparr>],
     db_secrets := [demo_source, demo_target],
     db_versions := [demo_version ''e'' ''s'' ''new'', demo_version ''f'' ''t'' ''old''],
     db_keys := [demo_data_key]\<rparr>"

lemma demo_pair_ok:
  "db_keys_ok demo_pair" "versions_ok demo_pair" "audit_ok demo_pair" "keys_usable demo_tx demo_pair"
proof -
  show "db_keys_ok demo_pair" by (simp add: db_keys_ok_def org_keys_def demo_pair_def keys_ok_def demo_data_key_def)
  show "versions_ok demo_pair" by code_simp
  show "audit_ok demo_pair" by code_simp
  have "unwrap (tx_wrapper demo_tx) (dk_org demo_data_key) (dk_version demo_data_key) (dk_wrapped demo_data_key)
      = Inr (replicate 32 0)"
    by (simp add: demo_tx_def demo_wrapper_def local_master_key_def master_unwrap_def demo_data_key_def demo_platform_def key_bytes_def)
  moreover have "org_keys demo_pair ''o'' = [demo_data_key]" by (simp add: org_keys_def demo_pair_def demo_data_key_def)
  moreover have "next_version [demo_data_key] = 2" by code_simp
  ultimately show "keys_usable demo_tx demo_pair" by (simp add: keys_usable_def)
qed

lemma demo_promotion:
  "authorize_promotion demo_tx ''u'' ''p'' ''e'' ''f'' None demo_pair = Inr (None, demo_pair)"
  "rows_in ''e'' (promotion_rows demo_tx ''p'' ''e'' ''f'' None demo_pair) = [(demo_source, demo_version ''e'' ''s'' ''new'')]"
  "rows_in ''f'' (promotion_rows demo_tx ''p'' ''e'' ''f'' None demo_pair) = [(demo_target, demo_version ''f'' ''t'' ''old'')]"
  "decrypt_row demo_tx (demo_source, demo_version ''e'' ''s'' ''new'') demo_pair = Inr (utf8 ''new'', demo_pair)"
  "decrypt_row demo_tx (demo_target, demo_version ''f'' ''t'' ''old'') demo_pair = Inr (utf8 ''old'', demo_pair)"
  "find (is_active_secret ''t'') (visible s_org demo_tx (db_secrets demo_pair)) = Some demo_target"
  by code_simp+


end
