(* ===== verification/Imports.thy ===== *)
theory Imports
  imports Secret_Text
begin

text \<open>
  \<^verbatim>\<open>packages/imports/src/index.ts\<close>: the dotenv reader with its quoted values over several lines, the
  flattening of a JSON document, and the previews of both. Messages are left out of the issues.
  \<^verbatim>\<open>JSON.parse\<close> is outside: the flattening takes the document it returns, or \<open>None\<close> when it throws,
  with a number as the text \<^verbatim>\<open>String\<close> gives it. A byte-order mark is no represented character.
\<close>

section \<open>The dotenv reader\<close>

datatype dotenv_code = Invalid_assignment | Invalid_key | Duplicate_key | Unterminated_quote | Trailing_content

record dotenv_entry =
  de_key :: string
  de_value :: string
  de_line :: nat

record dotenv_issue =
  di_line :: nat
  di_code :: dotenv_code
  di_key :: "string option"

record dotenv_result =
  dr_entries :: "dotenv_entry list"
  dr_issues :: "dotenv_issue list"

text \<open>\<^verbatim>\<open>/^[A-Za-z_][A-Za-z0-9_.-]*$/\<close>\<close>

definition dotenv_key_ok :: "string \<Rightarrow> bool" where
  "dotenv_key_ok key \<longleftrightarrow> key \<noteq> [] \<and> (is_alpha (hd key) \<or> hd key = CHR ''_'')
     \<and> list_all (\<lambda>c. is_alpha c \<or> is_digit c \<or> c \<in> {CHR ''_'', CHR ''.'', CHR ''-''}) key"

text \<open>\<^verbatim>\<open>source.split(/\r?\n/)\<close>\<close>

definition strip_return :: "string \<Rightarrow> string" where
  "strip_return l = (if l \<noteq> [] \<and> last l = CHR 0x0D then butlast l else l)"

definition split_lines :: "string \<Rightarrow> string list" where
  "split_lines source = (let ls = split_on (CHR 0x0A) source in map strip_return (butlast ls) @ [last ls])"

text \<open>
  One line of a quoted value: the characters it contributes, and what follows the closing quote
  if there is one on the line.
\<close>

definition cons_value :: "string \<Rightarrow> string \<times> 'a \<Rightarrow> string \<times> 'a" where
  "cons_value v r = (v @ fst r, snd r)"

fun scan_quoted :: "char \<Rightarrow> string \<Rightarrow> string \<times> string option" where
  "scan_quoted q [] = ([], None)"
| "scan_quoted q (c # cs) =
     (if c = backslash then
        (case cs of
           [] \<Rightarrow> cons_value [backslash] (scan_quoted q cs)
         | n # ns \<Rightarrow>
             if n = q \<or> n = backslash then cons_value [n] (scan_quoted q ns)
             else if q = dquote \<and> n = CHR ''n'' then cons_value [CHR 0x0A] (scan_quoted q ns)
             else if q = dquote \<and> n = CHR ''r'' then cons_value [CHR 0x0D] (scan_quoted q ns)
             else if q = dquote \<and> n = CHR ''t'' then cons_value [CHR 0x09] (scan_quoted q ns)
             else cons_value [backslash, n] (scan_quoted q ns))
      else if c = q then ([], Some cs)
      else cons_value [c] (scan_quoted q cs))"

text \<open>The value, the text after the closing quote if it was found, and the lines after it.\<close>

fun parse_quoted :: "char \<Rightarrow> string \<Rightarrow> string list \<Rightarrow> string \<times> string option \<times> string list" where
  "parse_quoted q t [] = (case scan_quoted q t of (v, trailing) \<Rightarrow> (v, trailing, []))"
| "parse_quoted q t (l # ls) =
     (case scan_quoted q t of
        (v, Some trailing) \<Rightarrow> (v, Some trailing, l # ls)
      | (v, None) \<Rightarrow> cons_value (v @ [CHR 0x0A]) (parse_quoted q l ls))"

fun unquoted_value :: "string \<Rightarrow> string" where
  "unquoted_value [] = []"
| "unquoted_value (c # cs) =
     (if c = backslash \<and> cs \<noteq> [] \<and> hd cs = CHR ''#'' then CHR ''#'' # unquoted_value (tl cs)
      else if c = CHR ''#'' then []
      else c # unquoted_value cs)"

datatype line_outcome = Line_skip | Line_issue dotenv_code "string option" | Line_entry string string

definition drop_export :: "string \<Rightarrow> string" where
  "drop_export a = (if starts_with ''export '' a \<or> starts_with (''export'' @ [CHR 0x09]) a
     then trim_start (drop 6 a) else a)"

text \<open>One turn of the loop: the outcome of a line and the lines it leaves.\<close>

definition parse_assignment :: "string list \<Rightarrow> string \<Rightarrow> string list \<Rightarrow> line_outcome \<times> string list" where
  "parse_assignment seen line rest =
     (let start = trim_start line in
      if start = [] \<or> hd start = CHR ''#'' then (Line_skip, rest)
      else let assignment = drop_export start in
        case index_of (CHR ''='') assignment of
          None \<Rightarrow> (Line_issue Invalid_assignment None, rest)
        | Some equals \<Rightarrow>
            let key = trim (take equals assignment) in
            if \<not> dotenv_key_ok key then (Line_issue Invalid_key (if key = [] then None else Some key), rest)
            else if key \<in> set seen then (Line_issue Duplicate_key (Some key), rest)
            else let initial = trim_start (drop (equals + 1) assignment) in
              if initial \<noteq> [] \<and> hd initial \<in> {dquote, quote, CHR 0x60} then
                (case parse_quoted (hd initial) (tl initial) rest of
                   (v, None, rest') \<Rightarrow> (Line_issue Unterminated_quote (Some key), rest')
                 | (v, Some after, rest') \<Rightarrow>
                     let trailing = trim after in
                     if trailing \<noteq> [] \<and> hd trailing \<noteq> CHR ''#'' then (Line_issue Trailing_content (Some key), rest')
                     else (Line_entry key v, rest'))
              else (Line_entry key (trim_end (unquoted_value initial)), rest))"

lemma parse_quoted_rest: "length (snd (snd (parse_quoted q t ls))) \<le> length ls"
  by (induction q t ls rule: parse_quoted.induct) (auto simp: cons_value_def split: prod.split option.split intro: le_SucI)

lemma parse_assignment_rest: "length (snd (parse_assignment seen l ls)) \<le> length ls"
  using parse_quoted_rest[of _ _ ls]
  by (auto simp: parse_assignment_def Let_def split: option.split prod.split if_split)
    (metis snd_conv)+

function parse_from :: "nat \<Rightarrow> string list \<Rightarrow> string list \<Rightarrow> dotenv_result" where
  "parse_from n seen [] = \<lparr>dr_entries = [], dr_issues = []\<rparr>"
| "parse_from n seen (l # ls) =
     (let (outcome, rest) = parse_assignment seen l ls; n' = n + 1 + (length ls - length rest) in
      case outcome of
        Line_skip \<Rightarrow> parse_from n' seen rest
      | Line_issue c k \<Rightarrow> dr_issues_update (Cons \<lparr>di_line = n, di_code = c, di_key = k\<rparr>) (parse_from n' seen rest)
      | Line_entry k v \<Rightarrow>
          dr_entries_update (Cons \<lparr>de_key = k, de_value = v, de_line = n\<rparr>) (parse_from n' (k # seen) rest))"
  by pat_completeness auto
termination
  by (relation "measure (\<lambda>(n, seen, ls). length ls)")
    (auto simp: le_imp_less_Suc dest!: arg_cong[of _ _ snd] intro: parse_assignment_rest
      split: prod.splits, (metis le_imp_less_Suc parse_assignment_rest snd_conv)+)

definition parse_dotenv :: "string \<Rightarrow> dotenv_result" where
  "parse_dotenv source = parse_from 1 [] (split_lines source)"

datatype preview_operation = Preview_add | Preview_update

record dotenv_preview =
  dp_entries :: "(string \<times> nat \<times> preview_operation) list"
  dp_conflicts :: "dotenv_issue list"
  dp_adds :: nat
  dp_updates :: nat
  dp_conflict_count :: nat

definition operation_for :: "string list \<Rightarrow> string \<Rightarrow> preview_operation" where
  "operation_for existingKeys key = (if key \<in> set existingKeys then Preview_update else Preview_add)"

definition build_dotenv_preview :: "dotenv_result \<Rightarrow> string list \<Rightarrow> dotenv_preview" where
  "build_dotenv_preview parsed existingKeys =
     (let entries = map (\<lambda>e. (de_key e, de_line e, operation_for existingKeys (de_key e))) (dr_entries parsed);
          adds = length (filter (\<lambda>(k, l, o'). o' = Preview_add) entries)
      in \<lparr>dp_entries = entries, dp_conflicts = dr_issues parsed, dp_adds = adds, dp_updates = length entries - adds,
         dp_conflict_count = length (dr_issues parsed)\<rparr>)"

section \<open>The JSON flattening\<close>

datatype json_code = Invalid_json | Root_not_object | Array_not_supported | Unsupported_type | Invalid_json_key
  | Key_collision | Invalid_delimiter | Limit_exceeded

record json_entry =
  je_key :: string
  je_value :: string
  je_path :: string

record json_import =
  ji_entries :: "json_entry list"
  ji_issues :: "(string \<times> json_code) list"

text \<open>\<^verbatim>\<open>/[\s=\u0000-\u001f\u007f]/u\<close>\<close>

definition visible_text :: "string \<Rightarrow> bool" where
  "visible_text t \<longleftrightarrow> list_all key_char_ok t"

text \<open>\<^verbatim>\<open>/^[A-Za-z_$][A-Za-z0-9_$]*$/\<close>\<close>

definition plain_segment :: "string \<Rightarrow> bool" where
  "plain_segment t \<longleftrightarrow> t \<noteq> [] \<and> \<not> is_digit (hd t)
     \<and> list_all (\<lambda>c. is_alpha c \<or> is_digit c \<or> c = CHR ''_'' \<or> c = CHR ''$'') t"

definition json_path_segment :: "string \<Rightarrow> string" where
  "json_path_segment t = (if plain_segment t then t else ''['' @ json_quote t @ '']'')"

definition json_issue :: "string \<Rightarrow> json_code \<Rightarrow> json_import \<Rightarrow> json_import" where
  "json_issue path c r = ji_issues_update (\<lambda>is. is @ [(path, c)]) r"

text \<open>A leaf: \<^verbatim>\<open>keys\<close> is the set of keys of the entries, the 101st value is dropped with an issue.\<close>

definition json_leaf :: "string \<Rightarrow> string list \<Rightarrow> string \<Rightarrow> string \<Rightarrow> string list \<times> json_import \<Rightarrow> string list \<times> json_import" where
  "json_leaf delimiter segments path v st =
     (case st of (keys, r) \<Rightarrow>
        let key = join delimiter segments in
        if key \<in> set keys then (keys, json_issue path Key_collision r)
        else if 100 < length (ji_entries r) + 1 then (key # keys, json_issue path Limit_exceeded r)
        else (key # keys, ji_entries_update (\<lambda>es. es @ [\<lparr>je_key = key, je_value = v, je_path = path\<rparr>]) r))"

definition member_size :: "(string \<times> json) list \<Rightarrow> nat" where
  "member_size ms = sum_list (map (\<lambda>m. Suc (size (snd m))) ms)"

lemma member_size_enumeration: "member_size (enumeration ms) = member_size ms"
proof -
  have "sum_mset (image_mset (\<lambda>m. Suc (size (snd m))) (mset (enumeration ms)))
      = sum_mset (image_mset (\<lambda>m. Suc (size (snd m))) (mset ms))"
    by (simp add: mset_enumeration)
  then show ?thesis by (simp add: member_size_def sum_mset_sum_list flip: mset_map)
qed

lemma member_size_object: "member_size ms \<le> size_list (size_prod (\<lambda>_. 0) size) ms"
  by (induction ms) (auto simp: member_size_def)

text \<open>\<^verbatim>\<open>visit\<close>; an object enumerates its members in JavaScript's order.\<close>

function visit :: "string \<Rightarrow> json \<Rightarrow> string list \<Rightarrow> string \<Rightarrow> nat \<Rightarrow> string list \<times> json_import \<Rightarrow> string list \<times> json_import"
  and visit_members :: "string \<Rightarrow> (string \<times> json) list \<Rightarrow> string list \<Rightarrow> string \<Rightarrow> nat \<Rightarrow>
     string list \<times> json_import \<Rightarrow> string list \<times> json_import" where
  "visit d v segments path depth st =
     (if 20 < depth then apsnd (json_issue path Limit_exceeded) st
      else case v of
        JArr xs \<Rightarrow> apsnd (json_issue path Array_not_supported) st
      | JObj ms \<Rightarrow> visit_members d (enumeration ms) segments path depth st
      | JNull \<Rightarrow> apsnd (json_issue path Unsupported_type) st
      | JStr t \<Rightarrow> json_leaf d segments path t st
      | JNum t \<Rightarrow> json_leaf d segments path t st
      | JBool b \<Rightarrow> json_leaf d segments path (if b then ''true'' else ''false'') st)"
| "visit_members d [] segments path depth st = st"
| "visit_members d ((segment, child) # ms) segments path depth st =
     (let childPath = path @ ''.'' @ json_path_segment segment in
      visit_members d ms segments path depth
        (if segment = [] \<or> \<not> visible_text segment then apsnd (json_issue childPath Invalid_json_key) st
         else visit d child (segments @ [segment]) childPath (depth + 1) st))"
  by pat_completeness auto

termination
proof (relation "measure (\<lambda>x. case x of Inl (d, v, _) \<Rightarrow> 2 * size v + 1 | Inr (d, ms, _) \<Rightarrow> 2 * member_size ms)", goal_cases)
  case (2 d v segments path depth st ms)
  then show ?case using member_size_object[of ms] by (simp add: member_size_enumeration)
qed (auto simp: member_size_def)

declare visit.simps [simp del]

definition parse_json_secrets :: "json option \<Rightarrow> string \<Rightarrow> json_import" where
  "parse_json_secrets document delimiter =
     (let failed = (\<lambda>c. \<lparr>ji_entries = [], ji_issues = [(''$'', c)]\<rparr>) in
      if length delimiter < 1 \<or> 10 < length delimiter \<or> \<not> visible_text delimiter then failed Invalid_delimiter
      else case document of
        None \<Rightarrow> failed Invalid_json
      | Some (JObj ms) \<Rightarrow> snd (visit delimiter (JObj ms) [] ''$'' 0 ([], \<lparr>ji_entries = [], ji_issues = []\<rparr>))
      | Some _ \<Rightarrow> failed Root_not_object)"

record json_preview =
  jp_entries :: "(string \<times> string \<times> preview_operation) list"
  jp_conflicts :: "(string \<times> json_code) list"
  jp_adds :: nat
  jp_updates :: nat
  jp_conflict_count :: nat

definition build_json_preview :: "json_import \<Rightarrow> string list \<Rightarrow> json_preview" where
  "build_json_preview parsed existingKeys =
     (let entries = map (\<lambda>e. (je_key e, je_path e, operation_for existingKeys (je_key e))) (ji_entries parsed);
          adds = length (filter (\<lambda>(k, p, o'). o' = Preview_add) entries)
      in \<lparr>jp_entries = entries, jp_conflicts = ji_issues parsed, jp_adds = adds, jp_updates = length entries - adds,
         jp_conflict_count = length (ji_issues parsed)\<rparr>)"

section \<open>Reading back what was exported\<close>

text \<open>
  The characters a dotenv export carries faithfully: all but the control characters other than
  newline, carriage return and tab, which JSON writes as escapes the reader does not know.
\<close>

definition dotenv_char :: "char \<Rightarrow> bool" where
  "dotenv_char c \<longleftrightarrow> 32 \<le> code c \<or> code c \<in> {9, 10, 13}"

lemma char_codes: "chr 34 = dquote" "chr 92 = backslash" "chr 9 = CHR 0x09" "chr 10 = CHR 0x0A" "chr 13 = CHR 0x0D"
  by (simp_all add: char_of_eq_iff take_bit_nat_def)

text \<open>What the reader makes of a value: an escape it does not know stays as it is.\<close>

definition reread :: "string \<Rightarrow> string" where
  "reread v = concat (map (\<lambda>c. if dotenv_char c then [c] else json_escape_char c) v)"

lemma reread_length: "length v \<le> length (reread v)" "\<not> list_all dotenv_char v \<Longrightarrow> length v < length (reread v)"
proof -
  have e: "\<not> dotenv_char c \<Longrightarrow> 1 < length (json_escape_char c)" for c
    by (auto simp: dotenv_char_def json_escape_char_def Let_def not_le)
  show "length v \<le> length (reread v)"
    by (induction v) (auto simp: reread_def dest!: e)
  then show "\<not> list_all dotenv_char v \<Longrightarrow> length v < length (reread v)"
  proof (induction v)
    case (Cons c v)
    have "length v \<le> length (reread v)" by (induction v) (auto simp: reread_def dest!: e)
    then show ?case using Cons e[of c] by (cases "dotenv_char c") (auto simp: reread_def)
  qed simp
qed

lemma reread_id: "reread v = v \<longleftrightarrow> list_all dotenv_char v"
proof
  assume v: "list_all dotenv_char v"
  then show "reread v = v" by (induction v) (auto simp: reread_def)
next
  assume r: "reread v = v"
  then show "list_all dotenv_char v" using reread_length(2)[of v] by force
qed

lemma scan_quoted_escape_char:
  "scan_quoted dquote (json_escape_char c @ t) =
     cons_value (if dotenv_char c then [c] else json_escape_char c) (scan_quoted dquote t)"
proof -
  define n where "n = code c"
  have c: "c = chr n" by (simp add: n_def)
  have n: "n < 256" by (simp add: n_def)
  have h: "d < 16 \<Longrightarrow> hex_char d \<noteq> dquote \<and> hex_char d \<noteq> backslash" for d
    by (auto simp: hex_char_def of_char_of char_of_eq_iff take_bit_nat_def)
  consider "n = 34" | "n = 92" | "n = 9" | "n = 10" | "n = 13" | "n = 8" | "n = 12"
    | "n < 32" "n \<notin> {8, 9, 10, 12, 13}" | "32 \<le> n" "n \<noteq> 34" "n \<noteq> 92" by force
  then show ?thesis
  proof cases
    case 8
    then have "json_escape_char c = [backslash, CHR ''u'', CHR ''0'', CHR ''0'', hex_char (n div 16), hex_char (n mod 16)]"
      and "\<not> dotenv_char c"
      by (simp_all add: json_escape_char_def n_def[symmetric] Let_def dotenv_char_def)
    moreover have "n div 16 < 16" "n mod 16 < 16" using n by simp_all
    ultimately show ?thesis using h by (simp add: cons_value_def)
  next
    case 9
    then have "json_escape_char c = [c]" "dotenv_char c"
      by (simp_all add: json_escape_char_def n_def[symmetric] Let_def dotenv_char_def)
    moreover have "c \<noteq> dquote" "c \<noteq> backslash" using 9 by (auto simp: n_def)
    ultimately show ?thesis by simp
  qed (simp_all add: json_escape_char_def n_def[symmetric] Let_def c char_codes dotenv_char_def cons_value_def)
qed

lemma scan_quoted_escape:
  "scan_quoted dquote (json_escape v @ dquote # t) = (reread v, Some t)"
proof (induction v)
  case Nil
  then show ?case by (simp add: json_escape_def reread_def)
next
  case (Cons c v)
  have "json_escape (c # v) @ dquote # t = json_escape_char c @ json_escape v @ dquote # t" by (simp add: json_escape_def)
  then show ?case using Cons scan_quoted_escape_char[of c] by (simp add: cons_value_def reread_def)
qed

lemma json_escape_char_visible: "x \<in> set (json_escape_char c) \<Longrightarrow> 32 \<le> code x"
proof -
  have h: "d < 16 \<Longrightarrow> 32 \<le> code (hex_char d)" for d by (auto simp: hex_char_def of_char_of)
  have "code c div 16 < 16" "code c mod 16 < 16" by (simp_all add: div_less_iff_less_mult)
  then show "x \<in> set (json_escape_char c) \<Longrightarrow> 32 \<le> code x"
    using h by (auto simp: json_escape_char_def Let_def split: if_splits)
qed

lemma json_quote_visible: "x \<in> set (json_quote v) \<Longrightarrow> 32 \<le> code x"
  using json_escape_char_visible by (auto simp: json_quote_def json_escape_def)

text \<open>A line of the export, seen by the reader.\<close>

lemma exportable_chars:
  assumes "is_exportable k"
  shows "k \<noteq> []" "dotenv_key_ok k" "c \<in> set k \<Longrightarrow> 48 \<le> code c \<and> \<not> is_ws c \<and> c \<noteq> CHR ''=''" "hd k \<noteq> CHR ''#''"
proof -
  have set: "48 \<le> code c \<and> \<not> is_ws c \<and> c \<noteq> CHR ''=''" if "c \<in> set k" for c
    using that assms by (auto simp: is_exportable_def list_all_iff is_alpha_def is_upper_def is_lower_def is_digit_def is_ws_def)
  show "k \<noteq> []" using assms by (simp add: is_exportable_def)
  then show "hd k \<noteq> CHR ''#''" using set[of "hd k"] by (auto dest: hd_in_set)
  show "dotenv_key_ok k" using assms by (auto simp: is_exportable_def dotenv_key_ok_def list_all_iff)
  show "c \<in> set k \<Longrightarrow> 48 \<le> code c \<and> \<not> is_ws c \<and> c \<noteq> CHR ''=''" by (rule set)
qed

lemma not_starts_with_key:
  "w \<notin> set k \<Longrightarrow> w \<noteq> e \<Longrightarrow> e \<notin> set p \<Longrightarrow> \<not> starts_with (p @ [w]) (k @ e # t)"
proof (induction p arbitrary: k)
  case Nil
  then show ?case by (cases k) (auto simp: starts_with_def)
next
  case (Cons a p)
  then show ?case by (cases k) (auto simp: starts_with_def)
qed

lemma parse_exported_line:
  assumes k: "is_exportable k" and new: "k \<notin> set seen"
  shows "parse_assignment seen (k @ ''='' @ json_quote v) rest = (Line_entry k (reread v), rest)"
proof -
  let ?l = "k @ ''='' @ json_quote v"
  note kc = exportable_chars[OF k]
  have hd: "hd ?l = hd k" "\<not> is_ws (hd k)" using kc by simp_all
  have start: "trim_start ?l = ?l" by (rule trim_start_id) (use hd in simp)
  have "\<not> starts_with (''export'' @ '' '') ?l" "\<not> starts_with (''export'' @ [CHR 0x09]) ?l"
    using not_starts_with_key[of "CHR '' ''" k "CHR ''=''" "''export''" "json_quote v"]
      not_starts_with_key[of "CHR 0x09" k "CHR ''=''" "''export''" "json_quote v"] kc(3)[of "CHR '' ''"] kc(3)[of "CHR 0x09"]
    by (auto simp: is_ws_def)
  then have drop: "drop_export ?l = ?l" by (simp add: drop_export_def)
  have eq: "index_of (CHR ''='') ?l = Some (length k)"
    using index_of_append[of "CHR ''=''" k "json_quote v"] kc(3) by auto
  have key: "trim (take (length k) ?l) = k" using trim_no_ws[of k] kc(3) by simp
  have initial: "trim_start (drop (length k + 1) ?l) = dquote # json_escape v @ [dquote]"
    using trim_start_id[of "json_quote v"] by (simp add: json_quote_def is_ws_def)
  have q: "parse_quoted dquote (json_escape v @ [dquote]) rest = (reread v, Some [], rest)"
    using scan_quoted_escape[of v "[]"] by (cases rest) simp_all
  show ?thesis
    unfolding parse_assignment_def Let_def start drop eq option.case key initial
    using kc(1,2,4) new q hd by (simp add: trim_def trim_start_def trim_end_def)
qed

lemma parse_exported_lines:
  assumes "\<forall>(k, v)\<in>set es. is_exportable k"
    and "distinct (map fst es)" and "set (map fst es) \<inter> set seen = {}"
  shows "parse_from n seen (map (\<lambda>(k, v). k @ ''='' @ json_quote v) es @ [[]]) =
     \<lparr>dr_entries = map (\<lambda>(i, k, v). \<lparr>de_key = k, de_value = reread v, de_line = i\<rparr>) (enumerate n es), dr_issues = []\<rparr>"
  using assms
proof (induction es arbitrary: n seen)
  case Nil
  then show ?case by (simp add: parse_assignment_def trim_start_def)
next
  case (Cons e es)
  obtain k v where e: "e = (k, v)" by fastforce
  have "parse_assignment seen (k @ ''='' @ json_quote v) (map (\<lambda>(k, v). k @ ''='' @ json_quote v) es @ [[]])
      = (Line_entry k (reread v), map (\<lambda>(k, v). k @ ''='' @ json_quote v) es @ [[]])"
    by (rule parse_exported_line) (use Cons.prems e in auto)
  moreover have "parse_from (n + 1) (k # seen) (map (\<lambda>(k, v). k @ ''='' @ json_quote v) es @ [[]]) =
     \<lparr>dr_entries = map (\<lambda>(i, k, v). \<lparr>de_key = k, de_value = reread v, de_line = i\<rparr>) (enumerate (n + 1) es), dr_issues = []\<rparr>"
    by (rule Cons.IH) (use Cons.prems e in auto)
  ultimately show ?case by (simp add: e)
qed

text \<open>
  C14: dotenv round trip. If the exporter accepts the secrets of an environment (whose keys are
  distinct), reading its output gives back exactly the exported keys, in the exported order, one
  per line and without issues. A value comes back unchanged if and only if it has no control
  character other than newline, carriage return and tab.
\<close>
theorem dotenv_round_trip:
  assumes x: "serialize_secret_export P secrets Export_dotenv options = Inr text'"
    and d: "distinct (map fst secrets)"
  shows "parse_dotenv text' = \<lparr>dr_entries = map (\<lambda>(i, k, v). \<lparr>de_key = k, de_value = reread v, de_line = i\<rparr>)
      (enumerate 1 (sorted_entries P secrets)), dr_issues = []\<rparr>
    \<and> (reread v = v \<longleftrightarrow> list_all dotenv_char v)"
proof -
  define es where "es = sorted_entries P secrets"
  let ?line = "\<lambda>(k, v). k @ ''='' @ json_quote v"
  have es: "set es = set secrets" "distinct (map fst es)" using d by (simp_all add: es_def sorted_entries_def)
  obtain ls where ls: "map_ok dotenv_line es = Inr ls" and t: "text' = lines_of ls"
    using x by (auto simp: serialize_secret_export_def Let_def es_def and_ok_Inr)
  have ex: "ls = map ?line es \<and> (\<forall>(k, v)\<in>set es. is_exportable k)"
    using ls by (induction es arbitrary: ls)
      (auto simp: and_ok_Inr dotenv_line_def exportable_key_def split: if_splits)
  have line: "CHR 0x0A \<notin> set l \<and> strip_return l = l" if "l \<in> set ls" for l
  proof -
    obtain k v where l: "l = k @ ''='' @ json_quote v" and k: "is_exportable k" using \<open>l \<in> set ls\<close> ex by auto
    have "last l = dquote" by (simp add: l json_quote_def)
    moreover have code: "32 \<le> code c" if "c \<in> set l" for c
      using that json_quote_visible exportable_chars(3)[OF k, of c] by (auto simp: l)
    have "CHR 0x0A \<notin> set l" using code[of "CHR 0x0A"] by auto
    ultimately show ?thesis by (simp add: strip_return_def)
  qed
  have "split_lines text' = ls @ [[]]"
  proof (cases "ls = []")
    case False
    have "join [CHR 0x0A] (ls @ [[]]) = join [CHR 0x0A] ls @ [CHR 0x0A]" if "ls \<noteq> []" for ls
      using that by (induction "[CHR 0x0A]" ls rule: join.induct) auto
    then have "text' = join [CHR 0x0A] (ls @ [[]])" using False by (simp add: t lines_of_def newline_def)
    moreover have "split_on (CHR 0x0A) (join [CHR 0x0A] (ls @ [[]])) = ls @ [[]]"
      by (rule split_on_join) (use line in auto)
    ultimately show ?thesis using line by (simp add: split_lines_def Let_def map_idI)
  qed (simp add: t lines_of_def split_lines_def)
  then have "parse_dotenv text' = parse_from 1 [] (map ?line es @ [[]])" using ex by (simp add: parse_dotenv_def)
  also have "\<dots> = \<lparr>dr_entries = map (\<lambda>(i, k, v). \<lparr>de_key = k, de_value = reread v, de_line = i\<rparr>) (enumerate 1 es), dr_issues = []\<rparr>"
    by (rule parse_exported_lines) (use ex es in auto)
  finally show ?thesis by (simp add: es_def reread_id)
qed

theorem dotenv_round_trip_witness:
  "\<exists>t. serialize_secret_export demo_platform [(''B'', ''x # y''), (''A'', [CHR 0x0A, dquote])] Export_dotenv
       \<lparr>nested_json = None, json_delimiter = None\<rparr> = Inr t
     \<and> parse_dotenv t = \<lparr>dr_entries = [\<lparr>de_key = ''A'', de_value = [CHR 0x0A, dquote], de_line = 1\<rparr>,
          \<lparr>de_key = ''B'', de_value = ''x # y'', de_line = 2\<rparr>], dr_issues = []\<rparr>"
proof -
  let ?s = "[(''B'', ''x # y''), (''A'', [CHR 0x0A, dquote])]" and ?o = "\<lparr>nested_json = None, json_delimiter = None\<rparr>"
  have "\<not> isl (serialize_secret_export demo_platform ?s Export_dotenv ?o)" by code_simp
  then obtain t where t: "serialize_secret_export demo_platform ?s Export_dotenv ?o = Inr t"
    by (metis isl_def old.sum.exhaust)
  have s: "sorted_entries demo_platform ?s = [(''A'', [CHR 0x0A, dquote]), (''B'', ''x # y'')]" by code_simp
  have "reread [CHR 0x0A, dquote] = [CHR 0x0A, dquote]" "reread ''x # y'' = ''x # y''"
    by (simp_all add: reread_id dotenv_char_def)
  then show ?thesis using dotenv_round_trip[OF t] t s by auto
qed

section \<open>What a reader returns\<close>

lemma parse_assignment_entry:
  "parse_assignment seen l ls = (Line_entry k v, rest) \<Longrightarrow> dotenv_key_ok k \<and> k \<notin> set seen"
  by (auto simp: parse_assignment_def Let_def split: if_splits option.splits prod.splits)

definition lines_of_result :: "dotenv_result \<Rightarrow> nat list" where
  "lines_of_result r = map de_line (dr_entries r) @ map di_line (dr_issues r)"

definition lines_fine :: "nat \<Rightarrow> nat \<Rightarrow> string list \<Rightarrow> dotenv_result \<Rightarrow> bool" where
  "lines_fine n m seen r \<longleftrightarrow> distinct (lines_of_result r) \<and> (\<forall>i\<in>set (lines_of_result r). n \<le> i \<and> i < m)
     \<and> sorted_wrt (<) (map de_line (dr_entries r)) \<and> distinct (map de_key (dr_entries r))
     \<and> (\<forall>k\<in>set (map de_key (dr_entries r)). dotenv_key_ok k \<and> k \<notin> set seen)"

lemma lines_fine_le: "lines_fine n' m seen r \<Longrightarrow> n \<le> n' \<Longrightarrow> lines_fine n m seen r"
  by (fastforce simp: lines_fine_def)

lemma lines_fine_issue:
  assumes "lines_fine n' m seen r" and "n < n'" and "n < m"
  shows "lines_fine n m seen (dr_issues_update (Cons \<lparr>di_line = n, di_code = c, di_key = k\<rparr>) r)"
proof -
  have "\<forall>i\<in>set (lines_of_result r). n < i \<and> i < m" using assms by (auto simp: lines_fine_def)
  then show ?thesis using assms by (auto simp: lines_fine_def lines_of_result_def ball_Un less_imp_le)
qed

lemma lines_fine_entry:
  assumes "lines_fine n' m (k # seen) r" and "n < n'" and "n < m" and "dotenv_key_ok k" and "k \<notin> set seen"
  shows "lines_fine n m seen (dr_entries_update (Cons \<lparr>de_key = k, de_value = v, de_line = n\<rparr>) r)"
proof -
  have "\<forall>i\<in>set (lines_of_result r). n < i \<and> i < m" using assms by (auto simp: lines_fine_def)
  then show ?thesis using assms by (auto simp: lines_fine_def lines_of_result_def ball_Un less_imp_le)
qed

lemma parse_from_lines: "lines_fine n (n + length ls) seen (parse_from n seen ls)"
proof (induction n seen ls rule: parse_from.induct)
  case (1 n seen)
  then show ?case by (simp add: lines_fine_def lines_of_result_def)
next
  case (2 n seen l ls)
  obtain outcome rest where p: "parse_assignment seen l ls = (outcome, rest)" by fastforce
  have r: "length rest \<le> length ls" using parse_assignment_rest[of seen l ls] p by simp
  define n' where "n' = n + 1 + (length ls - length rest)"
  have n': "n' + length rest = n + length (l # ls)" "n < n'" "n < n + length (l # ls)" using r by (simp_all add: n'_def)
  have eq: "parse_from n seen (l # ls) = (case outcome of Line_skip \<Rightarrow> parse_from n' seen rest
      | Line_issue c k \<Rightarrow> dr_issues_update (Cons \<lparr>di_line = n, di_code = c, di_key = k\<rparr>) (parse_from n' seen rest)
      | Line_entry k v \<Rightarrow>
          dr_entries_update (Cons \<lparr>de_key = k, de_value = v, de_line = n\<rparr>) (parse_from n' (k # seen) rest))"
    unfolding parse_from.simps p Let_def prod.case n'_def ..
  note ih = "2.IH"[OF p[symmetric] refl n'_def, unfolded n'(1)]
  show ?case
  proof (cases outcome)
    case Line_skip
    then show ?thesis using lines_fine_le[OF ih(1)[OF Line_skip], of n] n' eq by simp
  next
    case (Line_issue c k)
    then show ?thesis using lines_fine_issue[OF ih(2)[OF Line_issue] n'(2,3)] eq by simp
  next
    case (Line_entry k v)
    have "dotenv_key_ok k" "k \<notin> set seen" using p Line_entry parse_assignment_entry by blast+
    then show ?thesis using lines_fine_entry[OF ih(3)[OF Line_entry] n'(2,3)] Line_entry eq by simp
  qed
qed

text \<open>
  C16: whatever text is read as dotenv, the keys of the entries are valid and distinct, the entries
  are in the order of their lines, every entry and every issue names a line of the text, and no line
  is both an entry and an issue or starts two of them.
\<close>
theorem dotenv_entries_well_formed:
  "let r = parse_dotenv source; lines = map de_line (dr_entries r) @ map di_line (dr_issues r) in
     distinct (map de_key (dr_entries r)) \<and> list_all dotenv_key_ok (map de_key (dr_entries r))
     \<and> sorted_wrt (<) (map de_line (dr_entries r)) \<and> distinct lines
     \<and> list_all (\<lambda>i. 1 \<le> i \<and> i \<le> length (split_lines source)) lines"
  using parse_from_lines[of 1 "split_lines source" "[]"]
  by (auto simp: parse_dotenv_def Let_def lines_fine_def lines_of_result_def list_all_iff ball_Un less_Suc_eq_le)

text \<open>The flattening of an object keeps its keys distinct and stops at a hundred values.\<close>

definition json_import_ok :: "string list \<times> json_import \<Rightarrow> bool" where
  "json_import_ok st \<longleftrightarrow> length (ji_entries (snd st)) \<le> 100 \<and> distinct (map je_key (ji_entries (snd st)))
     \<and> set (map je_key (ji_entries (snd st))) \<subseteq> set (fst st)"

lemma json_leaf_ok: "json_import_ok st \<Longrightarrow> json_import_ok (json_leaf d segments path v st)"
  by (cases st) (auto simp: json_import_ok_def json_leaf_def json_issue_def Let_def subset_iff image_iff)

lemma json_issue_ok: "json_import_ok (apsnd (json_issue path c) st) = json_import_ok st"
  by (simp add: json_import_ok_def json_issue_def)

lemma visit_ok:
  "json_import_ok st \<Longrightarrow> json_import_ok (visit d v segments path depth st)"
  "json_import_ok st \<Longrightarrow> json_import_ok (visit_members d ms segments path depth st)"
proof (induction d v segments path depth st and d ms segments path depth st rule: visit_visit_members.induct)
  case (1 d v segments path depth st)
  then show ?case by (subst visit.simps, cases v) (simp_all add: json_leaf_ok json_issue_ok)
next
  case (3 d segment child ms segments path depth st)
  then show ?case by (simp add: Let_def json_issue_ok)
qed simp

text \<open>
  A JSON import never yields more than a hundred entries nor two entries of the same key,
  whatever the document and the delimiter.
\<close>
theorem json_import_bounded:
  "length (ji_entries (parse_json_secrets document delimiter)) \<le> 100
   \<and> distinct (map je_key (ji_entries (parse_json_secrets document delimiter)))"
proof -
  have "json_import_ok (visit d v [] ''$'' 0 ([], \<lparr>ji_entries = [], ji_issues = []\<rparr>))" for d v
    by (rule visit_ok) (simp add: json_import_ok_def)
  then have "length (ji_entries (snd (visit d v [] ''$'' 0 ([], \<lparr>ji_entries = [], ji_issues = []\<rparr>)))) \<le> 100
      \<and> distinct (map je_key (ji_entries (snd (visit d v [] ''$'' 0 ([], \<lparr>ji_entries = [], ji_issues = []\<rparr>)))))" for d v
    unfolding json_import_ok_def by blast
  then show ?thesis
    by (cases document) (simp_all add: parse_json_secrets_def Let_def split: json.splits)
qed

section \<open>Reading a nested export\<close>

text \<open>A document \<open>visit\<close> takes in whole, \<open>n\<close> levels above the limit.\<close>

fun importable :: "nat \<Rightarrow> json \<Rightarrow> bool" where
  "importable n (JStr v) \<longleftrightarrow> True"
| "importable (Suc n) (JObj ms) \<longleftrightarrow> list_all (\<lambda>(k, j). k \<noteq> [] \<and> visible_text k \<and> importable n j) ms"
| "importable n v \<longleftrightarrow> False"

lemma importable_mono: "importable n v \<Longrightarrow> importable (Suc n) v"
proof (induction n v rule: importable.induct)
  case (2 n ms)
  then show ?case by (fastforce simp: list_all_iff)
qed simp_all

lemma insert_path_importable:
  assumes "insert_path path v ms = Inr ms'" and "list_all (\<lambda>k. k \<noteq> [] \<and> visible_text k) path"
    and "length path \<le> Suc n" and "importable (Suc n) (JObj ms)"
  shows "importable (Suc n) (JObj ms')"
  using assms
proof (induction path v ms arbitrary: n ms' rule: insert_path.induct)
  case (3 segment inner path v ms)
  obtain m where n: "n = Suc m" using "3.prems"(3) by (cases n) auto
  have child: "importable n (JObj c)" if "map_of ms segment = Some (JObj c)" for c
    using "3.prems"(4) map_of_SomeD[OF that] by (auto simp: list_all_iff)
  show ?case
  proof (cases "map_of ms segment")
    case None
    then obtain c where "insert_path (inner # path) v [] = Inr c" "ms' = ms @ [(segment, JObj c)]"
      using "3.prems"(1) by (auto simp: and_ok_Inr)
    then show ?thesis using "3.IH"(1)[OF None, of c m] "3.prems"(2-) n by simp
  next
    case (Some j)
    then obtain c c' where c: "j = JObj c" "insert_path (inner # path) v c = Inr c'"
        "ms' = AList.update segment (JObj c') ms"
      using "3.prems"(1) by (auto simp: and_ok_Inr split: json.splits)
    then have "importable n (JObj c')"
      using "3.IH"(2)[OF Some c(1), of c' m] child[of c] Some "3.prems"(2,3) n by simp
    then show ?thesis using "3.prems"(2,4) by (auto simp: c(3) list_all_iff dest!: set_update)
  qed
qed (auto split: if_splits)

lemma nest_importable:
  "nest d es root = Inr root' \<Longrightarrow> importable (Suc n) (JObj root) \<Longrightarrow>
     \<forall>(k, v)\<in>set es. visible_text k \<and> length (split_text d k) \<le> Suc n \<Longrightarrow> importable (Suc n) (JObj root')"
proof (induction d es root rule: nest.induct)
  case (2 d key v es root)
  have visible: "visible_text w" if "w \<in> set (split_text d key)" "visible_text key" for w
  proof -
    have "set w \<subseteq> set s" if "w \<in> set (split_text d s)" for s
      using that
      by (induction d s arbitrary: w rule: split_text.induct)
        (fastforce split: if_splits list.splits dest: set_drop_subset[THEN subsetD])+
    then show ?thesis using that by (auto simp: visible_text_def list_all_iff)
  qed
  from "2.prems"(1) obtain r where r: "[] \<notin> set (split_text d key)" "insert_path (split_text d key) v root = Inr r"
      "nest d es r = Inr root'"
    by (auto simp: Let_def and_ok_Inr split: if_splits)
  have "importable (Suc n) (JObj r)"
    by (rule insert_path_importable[OF r(2)]) (use r(1) "2.prems"(2,3) visible in \<open>auto simp: list_all_iff\<close>)
  then show ?case using "2.IH"[OF refl r(1) r(3)] "2.prems"(3) by simp
qed simp

text \<open>The keys and values \<open>visit\<close> is to find below a path.\<close>

definition found :: "string \<Rightarrow> string list \<Rightarrow> json \<Rightarrow> (string \<times> string) list" where
  "found d segments v = map (\<lambda>(p, t). (join d (segments @ p), t)) (flat v)"

definition entry_pairs :: "json_import \<Rightarrow> (string \<times> string) list" where
  "entry_pairs r = map (\<lambda>e. (je_key e, je_value e)) (ji_entries r)"

text \<open>What \<open>visit\<close> does when every key is new and there is room.\<close>

definition takes_in :: "(string \<times> string) list \<Rightarrow> string list \<times> json_import \<Rightarrow> string list \<times> json_import \<Rightarrow> bool" where
  "takes_in kvs st st' \<longleftrightarrow> (distinct (map fst kvs) \<and> set (map fst kvs) \<inter> set (fst st) = {}
       \<and> length (ji_entries (snd st)) + length kvs \<le> 100 \<longrightarrow>
     ji_issues (snd st') = ji_issues (snd st) \<and> set (fst st') = set (map fst kvs) \<union> set (fst st)
     \<and> mset (entry_pairs (snd st')) = mset (entry_pairs (snd st)) + mset kvs)"

lemma takes_in_cong: "mset kvs = mset kvs' \<Longrightarrow> takes_in kvs st st' = takes_in kvs' st st'"
proof -
  assume m: "mset kvs = mset kvs'"
  then have "mset (map fst kvs) = mset (map fst kvs')" by simp
  then have "distinct (map fst kvs) = distinct (map fst kvs')" "set (map fst kvs) = set (map fst kvs')"
    by (rule mset_eq_imp_distinct_iff, rule mset_eq_setD)
  then show ?thesis unfolding takes_in_def by (simp only: m mset_eq_length[OF m])
qed

lemma entry_pairs_length: "length (entry_pairs r) = length (ji_entries r)"
  by (simp add: entry_pairs_def)

lemma takes_in_append:
  assumes "takes_in xs st st1" and "takes_in ys st1 st2"
  shows "takes_in (xs @ ys) st st2"
  unfolding takes_in_def
proof (intro impI)
  assume h: "distinct (map fst (xs @ ys)) \<and> set (map fst (xs @ ys)) \<inter> set (fst st) = {}
    \<and> length (ji_entries (snd st)) + length (xs @ ys) \<le> 100"
  have h1: "distinct (map fst xs) \<and> set (map fst xs) \<inter> set (fst st) = {} \<and> length (ji_entries (snd st)) + length xs \<le> 100"
    using h by (auto simp: Int_Un_distrib2)
  note r1 = assms(1)[unfolded takes_in_def, rule_format, OF h1]
  have "length (ji_entries (snd st1)) = length (ji_entries (snd st)) + length xs"
    using arg_cong[OF r1[THEN conjunct2, THEN conjunct2], of size] by (simp add: entry_pairs_length)
  moreover have "set (map fst ys) \<inter> set (map fst xs) = {}" "set (map fst ys) \<inter> set (fst st) = {}"
    using h unfolding map_append distinct_append set_append by blast+
  then have "set (map fst ys) \<inter> set (fst st1) = {}"
    using r1 by (simp only: Int_Un_distrib Un_empty)
  ultimately have h2: "distinct (map fst ys) \<and> set (map fst ys) \<inter> set (fst st1) = {}
      \<and> length (ji_entries (snd st1)) + length ys \<le> 100"
    using h by simp
  show "ji_issues (snd st2) = ji_issues (snd st) \<and> set (fst st2) = set (map fst (xs @ ys)) \<union> set (fst st)
    \<and> mset (entry_pairs (snd st2)) = mset (entry_pairs (snd st)) + mset (xs @ ys)"
    using r1 assms(2)[unfolded takes_in_def, rule_format, OF h2] by (simp add: Un_ac)
qed

lemma found_members: "found d segments (JObj ((k, j) # ms)) = found d (segments @ [k]) j @ found d segments (JObj ms)"
  by (auto simp: found_def)

lemma found_enumeration: "mset (found d segments (JObj (enumeration ms))) = mset (found d segments (JObj ms))"
  unfolding found_def mset_map mset_flat_obj mset_enumeration ..

lemma visit_takes_in:
  "importable n v \<Longrightarrow> depth + n \<le> 20 \<Longrightarrow> takes_in (found d segments v) st (visit d v segments path depth st)"
  "\<forall>(k, j)\<in>set ms. k \<noteq> [] \<and> visible_text k \<and> importable n j \<Longrightarrow> depth + n < 20 \<Longrightarrow>
     takes_in (found d segments (JObj ms)) st (visit_members d ms segments path depth st)"
proof (induction d v segments path depth st and d ms segments path depth st arbitrary: n and n
    rule: visit_visit_members.induct)
  case (1 d v segments path depth st)
  show ?case
  proof (cases v)
    case (JStr t)
    then show ?thesis using "1.prems"(2)
      by (cases st) (auto simp: visit.simps takes_in_def found_def json_leaf_def Let_def entry_pairs_def)
  next
    case (JObj ms)
    then obtain m where m: "n = Suc m" using "1.prems"(1) by (cases n) auto
    have "takes_in (found d segments (JObj (enumeration ms))) st (visit_members d (enumeration ms) segments path depth st)"
      by (rule "1.IH"[OF _ JObj, of m]) (use "1.prems" JObj m set_mset_mset mset_enumeration in
        \<open>auto simp: list_all_iff dest!: arg_cong[OF mset_enumeration, of set_mset, simplified, THEN equalityD1, THEN subsetD]\<close>)
    then show ?thesis using JObj "1.prems"(2) takes_in_cong[OF found_enumeration] by (simp add: visit.simps)
  qed (use "1.prems" in simp_all)
next
  case (2 d segments path depth st)
  then show ?case by (simp add: takes_in_def found_def)
next
  case (3 d segment child ms segments path depth st)
  let ?path = "path @ ''.'' @ json_path_segment segment"
  have ok: "\<not> (segment = [] \<or> \<not> visible_text segment)" "importable n child" using "3.prems"(1) by auto
  have "takes_in (found d (segments @ [segment]) child) st (visit d child (segments @ [segment]) ?path (depth + 1) st)"
    by (rule "3.IH"(1)[OF refl ok]) (use "3.prems"(2) in simp)
  moreover have "takes_in (found d segments (JObj ms)) (visit d child (segments @ [segment]) ?path (depth + 1) st)
      (visit_members d ms segments path depth (visit d child (segments @ [segment]) ?path (depth + 1) st))"
    using "3.IH"(2)[OF refl, of n] ok(1) "3.prems" by simp
  ultimately show ?case using ok(1) by (simp add: Let_def found_members takes_in_append)
qed

lemma importable_in_js_order: "importable n v \<Longrightarrow> importable n (in_js_order v)"
proof (induction n v rule: importable.induct)
  case (2 n ms)
  have "set (enumeration xs) = set xs" for xs :: "(string \<times> json) list"
    using mset_enumeration mset_eq_setD by metis
  then show ?case using 2 by (fastforce simp: list_all_iff)
qed simp_all



end
