(* ===== verification/Audit_Listing.thy ===== *)
theory Audit_Listing
  imports Audit_Log
begin

text \<open>
  The listing half of \<^verbatim>\<open>TransactionalAuditLog\<close> in \<^verbatim>\<open>packages/audit/src/index.ts\<close>: filters, pages and
  cursors, and the cells of the CSV export. A cursor is the pair it encodes; its text
  (\<^verbatim>\<open>base64url\<close> of JSON) is not modelled.
\<close>

text \<open>A \<^verbatim>\<open>timestamptz\<close> read into a \<^verbatim>\<open>Date\<close> loses its microseconds.\<close>

definition to_date :: "time \<Rightarrow> time" where
  "to_date t = t div 1000 * 1000"

record audit_filters =
  filter_actor :: "string option"
  filter_action :: "string option"
  filter_project :: "uuid option"
  filter_environment :: "uuid option"
  filter_from :: "time option"
  filter_to :: "time option"
  filter_resource :: "string option"
  filter_cursor :: "(time \<times> int) option"
  filter_limit :: "int option"

definition no_filters :: audit_filters where
  "no_filters = \<lparr>filter_actor = None, filter_action = None, filter_project = None,
     filter_environment = None, filter_from = None, filter_to = None, filter_resource = None,
     filter_cursor = None, filter_limit = None\<rparr>"

record audit_view =
  view_id :: int
  view_actor :: audit_actor
  view_label :: string
  view_action :: string
  view_resource_type :: string
  view_resource_id :: "string option"
  view_project :: "uuid option"
  view_environment :: "uuid option"
  view_ip :: "string option"
  view_user_agent :: "string option"
  view_metadata :: metadata
  view_occurred :: time

record audit_page =
  page_events :: "audit_view list"
  page_next :: "(time \<times> int) option"

definition actor_user :: "audit_actor \<Rightarrow> uuid option" where
  "actor_user a = (case a of Actor_user i \<Rightarrow> Some i | _ \<Rightarrow> None)"

definition actor_api_key :: "audit_actor \<Rightarrow> uuid option" where
  "actor_api_key a = (case a of Actor_api_key i \<Rightarrow> Some i | _ \<Rightarrow> None)"

definition actor_type :: "audit_actor \<Rightarrow> string" where
  "actor_type a = (case a of Actor_user i \<Rightarrow> ''user'' | Actor_api_key i \<Rightarrow> ''api_key'' | Actor_system \<Rightarrow> ''system'')"

definition joined_user :: "db \<Rightarrow> audit_row \<Rightarrow> user_row option" where
  "joined_user s r = find (\<lambda>u. Some (u_id u) = actor_user (a_actor r)) (db_users s)"

definition joined_api_key :: "transaction \<Rightarrow> db \<Rightarrow> audit_row \<Rightarrow> api_key_row option" where
  "joined_api_key T s r =
     find (\<lambda>k. Some (k_id k) = actor_api_key (a_actor r) \<and> k_org k = a_org r) (visible k_org T (db_api_keys s))"

definition event_from_row :: "transaction \<Rightarrow> db \<Rightarrow> audit_row \<Rightarrow> audit_view" where
  "event_from_row T s r = \<lparr>view_id = a_id r, view_actor = a_actor r,
     view_label = (case joined_user s r of Some u \<Rightarrow> u_email u
       | None \<Rightarrow> (case joined_api_key T s r of Some k \<Rightarrow> k_name k | None \<Rightarrow> ''System'')),
     view_action = a_action r, view_resource_type = a_resource_type r,
     view_resource_id = a_resource_id r, view_project = a_project r,
     view_environment = a_environment r, view_ip = a_ip r, view_user_agent = a_user_agent r,
     view_metadata = a_metadata r, view_occurred = to_date (a_occurred r)\<rparr>"

definition contains_pattern :: "string \<Rightarrow> string" where
  "contains_pattern s = ''%'' @ s @ ''%''"

text \<open>\<^verbatim>\<open>column ILIKE pattern\<close>; a missing column does not match.\<close>

definition column_like :: "platform \<Rightarrow> string \<Rightarrow> string option \<Rightarrow> bool" where
  "column_like P pattern column = (case column of None \<Rightarrow> False | Some text \<Rightarrow> ilike P text pattern)"

definition filter_present :: "string option \<Rightarrow> string option" where
  "filter_present f = (case f of None \<Rightarrow> None | Some t \<Rightarrow> if trim t = '''' then None else Some (trim t))"

text \<open>The \<^verbatim>\<open>WHERE\<close> clauses of \<^verbatim>\<open>#query\<close>; \<open>given f p\<close> adds \<open>p\<close> only if the filter is given.\<close>

definition given :: "'a option \<Rightarrow> ('a \<Rightarrow> bool) \<Rightarrow> bool" where
  "given f p = (case f of None \<Rightarrow> True | Some x \<Rightarrow> p x)"

definition audit_matches :: "transaction \<Rightarrow> uuid \<Rightarrow> audit_filters \<Rightarrow> db \<Rightarrow> audit_row \<Rightarrow> bool" where
  "audit_matches T orgId F s r \<longleftrightarrow>
     a_org r = orgId
     \<and> given (filter_present (filter_actor F)) (\<lambda>actor.
          let like = column_like (tx_platform T) (contains_pattern actor) in
          like (Some (actor_type (a_actor r))) \<or> like (actor_user (a_actor r)) \<or> like (actor_api_key (a_actor r))
          \<or> like (map_option u_email (joined_user s r)) \<or> like (map_option k_name (joined_api_key T s r))
          \<or> like (map_option k_prefix (joined_api_key T s r)))
     \<and> given (filter_action F) (\<lambda>action. action = '''' \<or> a_action r = action)
     \<and> given (filter_project F) (\<lambda>i. a_project r = Some i)
     \<and> given (filter_environment F) (\<lambda>i. a_environment r = Some i)
     \<and> given (filter_from F) (\<lambda>t. t \<le> a_occurred r)
     \<and> given (filter_to F) (\<lambda>t. a_occurred r \<le> t)
     \<and> given (filter_present (filter_resource F)) (\<lambda>resource.
          let like = ilike (tx_platform T) in
          like (a_resource_type r) (contains_pattern resource)
          \<or> like (case a_resource_id r of None \<Rightarrow> '''' | Some i \<Rightarrow> i) (contains_pattern resource))"

definition audit_before :: "time \<times> int \<Rightarrow> time \<times> int \<Rightarrow> bool" where
  "audit_before a b \<longleftrightarrow> fst a < fst b \<or> (fst a = fst b \<and> snd a < snd b)"

definition audit_key :: "audit_row \<Rightarrow> time \<times> int" where
  "audit_key r = (a_occurred r, a_id r)"

definition newest_first :: "audit_row \<Rightarrow> audit_row \<Rightarrow> bool" where
  "newest_first r q \<longleftrightarrow> \<not> audit_before (audit_key r) (audit_key q)"

definition matching_events :: "transaction \<Rightarrow> uuid \<Rightarrow> audit_filters \<Rightarrow> db \<Rightarrow> audit_row list" where
  "matching_events T orgId F s =
     sort_by newest_first (filter (audit_matches T orgId F s) (visible a_org T (db_audit s)))"

definition query_audit :: "transaction \<Rightarrow> uuid \<Rightarrow> audit_filters \<Rightarrow> int \<Rightarrow> audit_page db_op" where
  "query_audit T orgId F maximumLimit =
     (let limit = (case filter_limit F of None \<Rightarrow> 50 | Some l \<Rightarrow> l) in
      andthen (check (is_safe_integer limit \<and> 1 \<le> limit \<and> limit \<le> maximumLimit) (Audit_error Invalid_event))
     (andthen (check (case (filter_from F, filter_to F) of (Some f, Some t) \<Rightarrow> f \<le> t | _ \<Rightarrow> True)
        (Audit_error Invalid_event))
     (reads (\<lambda>s.
        let rows = take (nat limit + 1) (filter (\<lambda>r. given (filter_cursor F) (audit_before (audit_key r)))
              (matching_events T orgId F s));
            hasMore = limit < int (length rows);
            events = map (event_from_row T s) (if hasMore then take (nat limit) rows else rows)
        in \<lparr>page_events = events,
            page_next = (if hasMore \<and> events \<noteq> []
              then Some (view_occurred (last events), view_id (last events)) else None)\<rparr>))))"

definition list_audit :: "transaction \<Rightarrow> uuid \<Rightarrow> audit_filters \<Rightarrow> audit_page db_op" where
  "list_audit T orgId F = query_audit T orgId F 100"

section \<open>Cells of the CSV export\<close>

definition csv_cell :: "string option \<Rightarrow> string" where
  "csv_cell value =
     (let text = (case value of None \<Rightarrow> '''' | Some t \<Rightarrow> t);
          text = (if text \<noteq> [] \<and> hd text \<in> {CHR ''='', CHR ''+'', CHR ''-'', CHR ''@''}
                  then CHR 0x27 # text else text)
      in dquote # concat (map (\<lambda>c. if c = dquote then [dquote, dquote] else [c]) text) @ [dquote])"

definition csv_row :: "string option list \<Rightarrow> string" where
  "csv_row cells = join '','' (map csv_cell cells)"

text \<open>The columns of one event; \<open>isoText\<close> is \<^verbatim>\<open>toISOString\<close>.\<close>

definition csv_columns :: "(time \<Rightarrow> string) \<Rightarrow> audit_view \<Rightarrow> string option list" where
  "csv_columns isoText v = [Some (js_int (view_id v)), Some (isoText (view_occurred v)),
     Some (actor_type (view_actor v)),
     (case view_actor v of Actor_user i \<Rightarrow> Some i | Actor_api_key i \<Rightarrow> Some i | Actor_system \<Rightarrow> None),
     Some (view_label v), Some (view_action v), Some (view_resource_type v), view_resource_id v,
     view_project v, view_environment v, view_ip v, view_user_agent v,
     Some (json_text (JObj (view_metadata v)))]"

definition csv_header :: "string option list" where
  "csv_header = map Some [''id'', ''occurred_at'', ''actor_type'', ''actor_id'', ''actor_label'', ''action'',
     ''resource_type'', ''resource_id'', ''project_id'', ''environment_id'', ''ip'', ''user_agent'', ''metadata'']"

definition crlf :: string where "crlf = [CHR 0x0D, CHR 0x0A]"

record audit_export =
  export_content :: string
  export_event_count :: nat
  export_truncated :: bool

definition export_audit_csv :: "(time \<Rightarrow> string) \<Rightarrow> transaction \<Rightarrow> uuid \<Rightarrow> audit_filters \<Rightarrow> audit_export db_op" where
  "export_audit_csv isoText T orgId F =
     bind (query_audit T orgId (F\<lparr>filter_cursor := None, filter_limit := Some 10000\<rparr>) 10000) (\<lambda>page.
     ret \<lparr>export_content = join crlf (map csv_row (csv_header # map (csv_columns isoText) (page_events page))) @ crlf,
          export_event_count = length (page_events page),
          export_truncated = (page_next page \<noteq> None)\<rparr>)"

text \<open>A reader of one quoted cell.\<close>

fun read_cell :: "string \<Rightarrow> (string \<times> string) option" where
  "read_cell [] = None"
| "read_cell (c # cs) = (if c = dquote then
     (case cs of [] \<Rightarrow> Some ([], [])
      | d # ds \<Rightarrow> if d = dquote then cons_fst dquote (read_cell ds) else Some ([], cs))
     else cons_fst c (read_cell cs))"

lemma read_cell_escaped:
  "rest = [] \<or> hd rest \<noteq> dquote \<Longrightarrow>
     read_cell (concat (map (\<lambda>c. if c = dquote then [dquote, dquote] else [c]) t) @ dquote # rest) = Some (t, rest)"
proof (induction t)
  case Nil
  then show ?case by (cases rest) auto
next
  case (Cons c t)
  then show ?case by (simp add: cons_fst_def)
qed

section \<open>Pages\<close>

fun read_pages :: "nat \<Rightarrow> transaction \<Rightarrow> uuid \<Rightarrow> audit_filters \<Rightarrow> db \<Rightarrow> audit_view list" where
  "read_pages 0 T orgId F s = []"
| "read_pages (Suc n) T orgId F s =
     (case list_audit T orgId F s of
        Inl e \<Rightarrow> []
      | Inr (page, _) \<Rightarrow> page_events page @
          (case page_next page of None \<Rightarrow> [] | Some c \<Rightarrow> read_pages n T orgId (F\<lparr>filter_cursor := Some c\<rparr>) s))"

lemma audit_before_trans: "audit_before a b \<Longrightarrow> audit_before b c \<Longrightarrow> audit_before a c"
  by (auto simp: audit_before_def)

lemma audit_before_total: "\<not> audit_before a b \<Longrightarrow> \<not> audit_before b a \<Longrightarrow> a = b"
  by (auto simp: audit_before_def prod_eq_iff)

lemma audit_before_irrefl [simp]: "\<not> audit_before a a"
  by (simp add: audit_before_def)

lemma sorted_insert_newest:
  "sorted_wrt newest_first rs \<Longrightarrow> sorted_wrt newest_first (insert_by newest_first r rs)"
proof (induction rs)
  case (Cons q rs)
  show ?case
  proof (cases "newest_first r q")
    case True
    then have "newest_first r x" if "x \<in> set rs" for x
      using Cons.prems that unfolding newest_first_def sorted_wrt.simps
      by (metis audit_before_trans audit_before_total)
    then show ?thesis using True Cons.prems by simp
  next
    case False
    then have "newest_first q r"
      by (auto simp: newest_first_def audit_before_def)
    then show ?thesis using False Cons by simp
  qed
qed simp

lemma matching_sorted: "sorted_wrt newest_first (matching_events T orgId F s)"
proof -
  have "sorted_wrt newest_first (sort_by newest_first rs)" for rs
    by (induction rs) (simp_all add: sorted_insert_newest)
  then show ?thesis by (simp add: matching_events_def)
qed

lemma matching_distinct:
  "distinct (map a_id (db_audit s)) \<Longrightarrow> distinct (map a_id (matching_events T orgId F s))"
  by (auto simp: matching_events_def visible_def intro!: distinct_map_filter)

text \<open>In a strictly decreasing list the events before an event are the ones after it.\<close>

lemma filter_before_position:
  assumes "sorted_wrt newest_first (xs @ x # ys)" and "distinct (map a_id (xs @ x # ys))"
  shows "filter (\<lambda>r. audit_before (audit_key r) (audit_key x)) (xs @ x # ys) = ys"
proof -
  have "\<not> audit_before (audit_key r) (audit_key x)" if "r \<in> set xs" for r
    using assms(1) that by (auto simp: sorted_wrt_append newest_first_def)
  moreover have "audit_before (audit_key r) (audit_key x)" if r: "r \<in> set ys" for r
  proof -
    have "newest_first x r" using assms(1) r by (auto simp: sorted_wrt_append)
    moreover have "audit_key x \<noteq> audit_key r" using assms(2) r by (auto simp: audit_key_def)
    ultimately show ?thesis unfolding newest_first_def using audit_before_total by blast
  qed
  ultimately show ?thesis by (auto simp: filter_id_conv filter_empty_conv)
qed

definition filters_ok :: "audit_filters \<Rightarrow> bool" where
  "filters_ok F \<longleftrightarrow> (case filter_limit F of None \<Rightarrow> True | Some l \<Rightarrow> 1 \<le> l \<and> l \<le> 100)
     \<and> (case (filter_from F, filter_to F) of (Some f, Some t) \<Rightarrow> f \<le> t | _ \<Rightarrow> True)"

definition page_limit :: "audit_filters \<Rightarrow> nat" where
  "page_limit F = (case filter_limit F of None \<Rightarrow> 50 | Some l \<Rightarrow> nat l)"

definition rest_of :: "transaction \<Rightarrow> uuid \<Rightarrow> audit_filters \<Rightarrow> db \<Rightarrow> audit_row list" where
  "rest_of T orgId F s =
     filter (\<lambda>r. given (filter_cursor F) (audit_before (audit_key r))) (matching_events T orgId F s)"

lemma matching_cursor [simp]: "matching_events T orgId (F\<lparr>filter_cursor := c\<rparr>) s = matching_events T orgId F s"
proof -
  have "audit_matches T orgId (F\<lparr>filter_cursor := c\<rparr>) s = audit_matches T orgId F s"
    by (intro ext) (simp add: audit_matches_def)
  then show ?thesis by (simp add: matching_events_def)
qed

lemma list_audit_page:
  assumes "filters_ok F"
  shows "list_audit T orgId F s =
    (let rows = rest_of T orgId F s; n = page_limit F in
     Inr (\<lparr>page_events = map (event_from_row T s) (take n rows),
           page_next = (if n < length rows
             then Some (to_date (a_occurred (rows ! (n - 1))), a_id (rows ! (n - 1))) else None)\<rparr>, s))"
proof -
  let ?n = "page_limit F"
  define rows where "rows = rest_of T orgId F s"
  define l where "l = (case filter_limit F of None \<Rightarrow> 50 | Some l \<Rightarrow> l)"
  have l: "is_safe_integer l" "1 \<le> l" "l \<le> 100" "?n = nat l"
    using assms by (auto simp: filters_ok_def l_def page_limit_def is_safe_integer_def split: option.splits)
  have len: "(l < int (length (take (nat l + 1) rows))) = (?n < length rows)" using l by auto
  have last: "last (map (event_from_row T s) (take ?n rows)) = event_from_row T s (rows ! (?n - 1))"
    if "?n < length rows"
  proof -
    have "take ?n rows \<noteq> []" using that l by (cases rows) auto
    then show ?thesis using that l by (simp add: last_map last_conv_nth min_absorb2)
  qed
  have "list_audit T orgId F s = Inr
     (\<lparr>page_events = map (event_from_row T s)
         (if l < int (length (take (nat l + 1) rows)) then take (nat l) (take (nat l + 1) rows)
          else take (nat l + 1) rows),
       page_next = (if l < int (length (take (nat l + 1) rows)) \<and> map (event_from_row T s)
         (if l < int (length (take (nat l + 1) rows)) then take (nat l) (take (nat l + 1) rows)
          else take (nat l + 1) rows) \<noteq> []
         then Some (view_occurred (last (map (event_from_row T s) (take (nat l) rows))),
                    view_id (last (map (event_from_row T s) (take (nat l) rows)))) else None)\<rparr>, s)"
    using l(1-3) assms
    by (auto simp: list_audit_def query_audit_def Let_def l_def[symmetric] rows_def rest_of_def filters_ok_def
        op_defs min_def)
  moreover have "take (nat l + 1) rows = take ?n rows" if "\<not> ?n < length rows" using that l by simp
  moreover have "map (event_from_row T s) (take ?n rows) \<noteq> []" if "?n < length rows"
    using that l by (cases rows) auto
  ultimately show ?thesis
    using l(4) last len by (auto simp: Let_def rows_def[symmetric] event_from_row_def min_def)
qed

lemma rest_of_cursor:
  "rest_of T orgId (F\<lparr>filter_cursor := Some c\<rparr>) s =
     filter (\<lambda>r. audit_before (audit_key r) c) (matching_events T orgId F s)"
  by (simp add: rest_of_def given_def)

text \<open>With millisecond times, the pages from any point on are the rest of the listing.\<close>

lemma read_pages_rest:
  assumes "filters_ok F" and "distinct (map a_id (db_audit s))"
    and ms: "\<And>r. r \<in> set (db_audit s) \<Longrightarrow> to_date (a_occurred r) = a_occurred r"
  shows "matching_events T orgId F s = xs @ ys \<Longrightarrow> rest_of T orgId F s = ys \<Longrightarrow> length ys < n \<Longrightarrow>
     read_pages n T orgId F s = map (event_from_row T s) ys"
  using assms(1)
proof (induction n arbitrary: F xs ys)
  case (Suc n)
  let ?n = "page_limit F"
  have n: "1 \<le> ?n" using Suc.prems(4) by (auto simp: filters_ok_def page_limit_def split: option.splits)
  show ?case
  proof (cases "?n < length ys")
    case False
    then show ?thesis using Suc.prems by (simp add: list_audit_page Let_def)
  next
    case True
    define x where "x = ys ! (?n - 1)"
    have ys: "ys = take (?n - 1) ys @ x # drop ?n ys"
      using True n id_take_nth_drop[of "?n - 1" ys] by (simp add: x_def)
    have M: "matching_events T orgId F s = (xs @ take (?n - 1) ys) @ x # drop ?n ys"
      using Suc.prems(1) ys by simp
    have "x \<in> set (matching_events T orgId F s)" using M by simp
    then have x: "to_date (a_occurred x) = a_occurred x"
      using ms by (auto simp: matching_events_def visible_def)
    let ?F = "F\<lparr>filter_cursor := Some (audit_key x)\<rparr>"
    have "rest_of T orgId ?F s = drop ?n ys"
      unfolding rest_of_cursor M
      by (rule filter_before_position)
        (use matching_sorted[of T orgId F s] matching_distinct[OF assms(2), of T orgId F] M in simp_all)
    moreover have "matching_events T orgId ?F s = (xs @ take (?n - 1) ys @ [x]) @ drop ?n ys"
      using M by simp
    moreover have "filters_ok ?F" using Suc.prems(4) by (simp add: filters_ok_def)
    moreover have "length (drop ?n ys) < n" using Suc.prems(3) n True by simp
    ultimately have "read_pages n T orgId ?F s = map (event_from_row T s) (drop ?n ys)"
      by (intro Suc.IH)
    then show ?thesis
      using Suc.prems(2,4) True x x_def
      by (simp add: list_audit_page Let_def audit_key_def flip: map_append)
  qed
qed simp

text \<open>A trail for witnesses.\<close>

definition demo_event :: "int \<Rightarrow> time \<Rightarrow> audit_row" where
  "demo_event i t = \<lparr>a_id = i, a_org = ''o'', a_actor = Actor_user ''u'', a_action = ''secret.read'',
     a_resource_type = ''secret'', a_resource_id = Some ''s'', a_project = None, a_environment = None,
     a_ip = None, a_user_agent = None, a_metadata = [], a_occurred = t\<rparr>"

definition demo_trail :: "time list \<Rightarrow> db" where
  "demo_trail ts = empty_db\<lparr>db_audit := map (\<lambda>(i, t). demo_event (int i) t) (enumerate 1 ts)\<rparr>"

section \<open>Properties\<close>

text \<open>
  C8: following the cursors reads everything: when the events of the database were recorded at
  whole milliseconds, reading page after page until no cursor is returned lists every event that
  matches the filters exactly once, newest first, whatever the page size.
\<close>
theorem pages_are_complete:
  assumes "filters_ok F" and "filter_cursor F = None" and "distinct (map a_id (db_audit s))"
    and "\<forall>r\<in>set (db_audit s). to_date (a_occurred r) = a_occurred r"
  shows "read_pages (Suc (length (db_audit s))) T orgId F s = map (event_from_row T s) (matching_events T orgId F s)
    \<and> set (matching_events T orgId F s) = {r \<in> set (db_audit s). a_org r = tx_org T \<and> audit_matches T orgId F s r}
    \<and> sorted_wrt newest_first (matching_events T orgId F s)"
proof -
  have len: "length (matching_events T orgId F s) < Suc (length (db_audit s))"
  proof -
    have "length (filter P (filter Q rs)) \<le> length rs" for P Q and rs :: "audit_row list"
      by (meson length_filter_le order_trans)
    then show ?thesis by (simp add: matching_events_def visible_def less_Suc_eq_le del: filter_filter)
  qed
  have "rest_of T orgId F s = matching_events T orgId F s"
    using assms(2) by (simp add: rest_of_def given_def)
  then have "read_pages (Suc (length (db_audit s))) T orgId F s = map (event_from_row T s) (matching_events T orgId F s)"
    using read_pages_rest[of F s T orgId "[]" "matching_events T orgId F s"] assms len
    by (simp del: read_pages.simps)
  moreover have "set (matching_events T orgId F s) =
      {r \<in> set (db_audit s). a_org r = tx_org T \<and> audit_matches T orgId F s r}"
    by (auto simp: matching_events_def visible_def)
  ultimately show ?thesis using matching_sorted by blast
qed

theorem pages_are_complete_witness:
  "map view_id (read_pages 4 demo_tx ''o'' (no_filters\<lparr>filter_limit := Some 2\<rparr>)
     (demo_trail [1000, 1000, 2000])) = [3, 2, 1]"
proof -
  have "matching_events demo_tx ''o'' (no_filters\<lparr>filter_limit := Some 2\<rparr>) (demo_trail [1000, 1000, 2000])
      = map (\<lambda>(i, t). demo_event i t) [(3, 2000), (2, 1000), (1, 1000)]"
    by code_simp
  then show ?thesis
    using pages_are_complete[of "no_filters\<lparr>filter_limit := Some 2\<rparr>" "demo_trail [1000, 1000, 2000]" demo_tx "''o''"]
    by (simp add: demo_trail_def enumerate_eq_zip filters_ok_def no_filters_def empty_db_def to_date_def
        demo_event_def event_from_row_def eval_nat_numeral del: read_pages.simps)
qed

text \<open>
  Otherwise pages lose events: if the last event of a page was recorded at a time that is not
  a whole millisecond, no other event recorded at that time appears on the page its cursor leads
  to. All events of one transaction are recorded at the same time, so a batch that straddles a
  page boundary is cut off there.
\<close>
theorem cursor_skips_simultaneous_events:
  assumes "list_audit T orgId F s = Inr (page, s1)" and "page_next page = Some c"
    and "filters_ok F" and "to_date t \<noteq> t"
    and "last (page_events page) = event_from_row T s r" and "a_occurred r = t"
    and "list_audit T orgId (F\<lparr>filter_cursor := Some c\<rparr>) s = Inr (page2, s2)"
  shows "\<forall>v\<in>set (page_events page2). \<exists>q\<in>set (db_audit s). v = event_from_row T s q \<and> a_occurred q \<noteq> t"
proof -
  have c: "fst c = to_date t"
  proof -
    let ?rows = "rest_of T orgId F s" and ?n = "page_limit F"
    have p: "page = \<lparr>page_events = map (event_from_row T s) (take ?n ?rows),
        page_next = Some (to_date (a_occurred (?rows ! (?n - 1))), a_id (?rows ! (?n - 1)))\<rparr>" "?n < length ?rows"
      using assms(1,2) by (auto simp: list_audit_page[OF assms(3)] Let_def split: if_splits)
    have "1 \<le> ?n" using assms(3) by (auto simp: filters_ok_def page_limit_def split: option.splits)
    then have "last (page_events page) = event_from_row T s (?rows ! (?n - 1))"
      using p by (cases ?rows) (simp_all add: last_map last_conv_nth min_absorb2)
    then have "view_occurred (event_from_row T s (?rows ! (?n - 1))) = view_occurred (event_from_row T s r)"
      using assms(5) by simp
    then show ?thesis using assms(2,6) p by (auto simp: event_from_row_def)
  qed
  have le: "to_date t < t" using assms(4) div_mult_mod_eq[of t 1000] pos_mod_sign[of 1000 t]
    unfolding to_date_def by linarith
  have F2: "filters_ok (F\<lparr>filter_cursor := Some c\<rparr>)" using assms(3) by (simp add: filters_ok_def)
  show ?thesis
  proof
    fix v assume v: "v \<in> set (page_events page2)"
    have "page_events page2 = map (event_from_row T s)
        (take (page_limit (F\<lparr>filter_cursor := Some c\<rparr>)) (rest_of T orgId (F\<lparr>filter_cursor := Some c\<rparr>) s))"
      using assms(7) by (auto simp: list_audit_page[OF F2] Let_def)
    then obtain q where v: "v = event_from_row T s q"
      and "q \<in> set (take (page_limit (F\<lparr>filter_cursor := Some c\<rparr>)) (rest_of T orgId (F\<lparr>filter_cursor := Some c\<rparr>) s))"
      using v by auto
    then have "q \<in> set (rest_of T orgId (F\<lparr>filter_cursor := Some c\<rparr>) s)" by (meson in_set_takeD)
    then have q: "q \<in> set (matching_events T orgId F s)" "audit_before (audit_key q) c"
      by (simp_all add: rest_of_cursor)
    have "q \<in> set (db_audit s)" using q(1) by (auto simp: matching_events_def visible_def)
    moreover have "a_occurred q \<noteq> t" using q(2) c le by (auto simp: audit_before_def audit_key_def)
    ultimately show "\<exists>q\<in>set (db_audit s). v = event_from_row T s q \<and> a_occurred q \<noteq> t" using v by blast
  qed
qed

theorem cursor_skips_simultaneous_events_witness:
  "\<exists>page s1 c page2 s2.
     list_audit demo_tx ''o'' (no_filters\<lparr>filter_limit := Some 2\<rparr>) (demo_trail [1500, 1500, 1500]) = Inr (page, s1)
     \<and> map view_id (page_events page) = [3, 2] \<and> page_next page = Some c
     \<and> list_audit demo_tx ''o'' (no_filters\<lparr>filter_limit := Some 2, filter_cursor := Some c\<rparr>)
         (demo_trail [1500, 1500, 1500]) = Inr (page2, s2) \<and> page_events page2 = []"
proof -
  let ?F = "no_filters\<lparr>filter_limit := Some 2\<rparr>" and ?s = "demo_trail [1500, 1500, 1500]"
  have F: "filters_ok ?F" by (simp add: filters_ok_def no_filters_def)
  have r: "rest_of demo_tx ''o'' ?F ?s = map (\<lambda>i. demo_event i 1500) [3, 2, 1]" by code_simp
  have n: "page_limit ?F = 2" by (simp add: page_limit_def)
  let ?page = "\<lparr>page_events = map (event_from_row demo_tx ?s) [demo_event 3 1500, demo_event 2 1500],
      page_next = Some (1000, 2)\<rparr>"
  have p: "list_audit demo_tx ''o'' ?F ?s = Inr (?page, ?s)"
    by (simp add: list_audit_page[OF F] r n to_date_def demo_event_def numeral_2_eq_2)
  have F2: "filters_ok (?F\<lparr>filter_cursor := Some (1000, 2)\<rparr>)" using F by (simp add: filters_ok_def)
  obtain page2 s2 where p2: "list_audit demo_tx ''o'' (?F\<lparr>filter_cursor := Some (1000, 2)\<rparr>) ?s = Inr (page2, s2)"
    by (simp add: list_audit_page[OF F2] Let_def)
  have "\<forall>v\<in>set (page_events page2). \<exists>q\<in>set (db_audit ?s). v = event_from_row demo_tx ?s q \<and> a_occurred q \<noteq> 1500"
    by (rule cursor_skips_simultaneous_events[OF p _ F _ _ _ p2, where r = "demo_event 2 1500"])
      (simp_all add: to_date_def demo_event_def)
  then have "page_events page2 = []"
    by (cases "page_events page2") (auto simp: demo_trail_def demo_event_def enumerate_eq_zip)
  then show ?thesis using p p2
    by (intro exI[of _ ?page] exI[of _ ?s] exI[of _ "(1000, 2)"] exI[of _ page2] exI[of _ s2])
      (simp add: event_from_row_def demo_event_def)
qed

text \<open>
  An exported cell cannot be read as a formula and loses nothing: reading the quoted cell back
  gives the value, with an apostrophe in front exactly when it began with one of the four
  characters a spreadsheet evaluates.
\<close>
theorem csv_cells_are_inert:
  "rest = [] \<or> hd rest \<noteq> dquote \<Longrightarrow>
     \<exists>u. csv_cell (Some v) @ rest = dquote # u \<and>
       (\<exists>w. read_cell u = Some (w, rest)
         \<and> w = (if v \<noteq> [] \<and> hd v \<in> {CHR ''='', CHR ''+'', CHR ''-'', CHR ''@''} then CHR 0x27 # v else v)
         \<and> (w = [] \<or> hd w \<notin> {CHR ''='', CHR ''+'', CHR ''-'', CHR ''@''}))"
  using read_cell_escaped[of rest "if v \<noteq> [] \<and> hd v \<in> {CHR ''='', CHR ''+'', CHR ''-'', CHR ''@''}
      then CHR 0x27 # v else v"]
  by (auto simp: csv_cell_def Let_def)

theorem csv_cells_are_inert_witness:
  "\<exists>u. csv_cell (Some ''=1+1'') @ '',x'' = dquote # u \<and> read_cell u = Some (CHR 0x27 # ''=1+1'', '',x'')"
  using csv_cells_are_inert[of "'',x''" "''=1+1''"] by auto

end
