(* ===== verification/Slugs.thy ===== *)
theory Slugs
  imports Errors Crypto
begin

text \<open>
  Slugs and names as projects, environments and organizations normalise them: the functions
  \<^verbatim>\<open>normalizeProjectSlug\<close>, \<^verbatim>\<open>normalizeEnvironmentSlug\<close> and \<^verbatim>\<open>normalizeOrganizationSlug\<close> differ only
  in the error they throw, which is an argument here.
\<close>

definition slug_char :: "char \<Rightarrow> bool" where
  "slug_char c \<longleftrightarrow> is_lower c \<or> is_digit c"

text \<open>\<^verbatim>\<open>/^[a-z0-9]+(?:-[a-z0-9]+)*$/\<close>\<close>

definition slug_ok :: "string \<Rightarrow> bool" where
  "slug_ok t \<longleftrightarrow> list_all (\<lambda>w. w \<noteq> [] \<and> list_all slug_char w) (split_on (CHR ''-'') t)"

definition normalize_slug :: "error \<Rightarrow> string \<Rightarrow> error + string" where
  "normalize_slug e slug = (let normalized = js_lower (trim slug) in
     if slug_ok normalized \<and> length normalized \<le> 80 then Inr normalized else Inl e)"

text \<open>A trimmed name between one and \<open>limit\<close> characters.\<close>

definition normalize_name :: "error \<Rightarrow> nat \<Rightarrow> string \<Rightarrow> error + string" where
  "normalize_name e limit name = (let normalized = trim name in
     if length normalized < 1 \<or> limit < length normalized then Inl e else Inr normalized)"

text \<open>\<^verbatim>\<open>recoveryDays\<close> of the constructors, in microseconds.\<close>

definition recovery_window :: "error \<Rightarrow> int option \<Rightarrow> error + int" where
  "recovery_window e recoveryDays = (let days = (case recoveryDays of None \<Rightarrow> 30 | Some d \<Rightarrow> d) in
     if \<not> is_safe_integer days \<or> days < 1 \<or> 365 < days then Inl e
     else Inr (days * 24 * 60 * 60 * 1000 * 1000))"

section \<open>Lemmas\<close>

lemma slug_chars: "slug_ok t \<Longrightarrow> c \<in> set t \<Longrightarrow> slug_char c \<or> c = CHR ''-''"
proof -
  assume ok: "slug_ok t" and c: "c \<in> set t"
  have "set (join [d] ws) \<subseteq> \<Union>(set ` set ws) \<union> {d}" for d ws
    by (induction "[d]" ws rule: join.induct) auto
  from this[of "CHR ''-''" "split_on (CHR ''-'') t"]
  have "set t \<subseteq> \<Union>(set ` set (split_on (CHR ''-'') t)) \<union> {CHR ''-''}" by (simp add: join_split_on)
  then show ?thesis using ok c by (fastforce simp: slug_ok_def list_all_iff)
qed

lemma slug_not_empty: "slug_ok t \<Longrightarrow> t \<noteq> []"
  by (auto simp: slug_ok_def)

lemma slug_char_lower: "slug_char c \<Longrightarrow> lower_char c = c" "slug_char c \<Longrightarrow> \<not> is_ws c"
  by (auto simp: slug_char_def is_lower_def is_digit_def lower_char_def is_ws_def Let_def)

lemma slug_fixed: "slug_ok t \<Longrightarrow> js_lower t = t \<and> trim t = t"
proof -
  assume ok: "slug_ok t"
  have "lower_char (CHR ''-'') = CHR ''-''" "\<not> is_ws (CHR ''-'')"
    by (simp_all add: lower_char_def is_ws_def Let_def)
  then have "lower_char c = c \<and> \<not> is_ws c" if "c \<in> set t" for c
    using slug_chars[OF ok that] slug_char_lower by blast
  then show ?thesis using trim_no_ws[of t] by (auto simp: js_lower_def intro: map_idI)
qed

lemma normalize_slug_Inr:
  "normalize_slug e slug = Inr t \<longleftrightarrow> t = js_lower (trim slug) \<and> slug_ok t \<and> length t \<le> 80"
  by (auto simp: normalize_slug_def Let_def)

lemma normalize_slug_fixed: "slug_ok t \<Longrightarrow> length t \<le> 80 \<Longrightarrow> normalize_slug e t = Inr t"
  using slug_fixed[of t] by (simp add: normalize_slug_Inr)

lemma recovery_window_pos: "recovery_window e d = Inr w \<Longrightarrow> 0 < w \<and> w \<le> 365 * 24 * 60 * 60 * 1000 * 1000"
  by (auto simp: recovery_window_def Let_def split: if_splits option.splits)

end
