(* ===== verification/Projects.thy ===== *)
theory Projects
  imports Slugs Secrets Audit_Listing Secret_Writes
begin

text \<open>
  \<^verbatim>\<open>ProjectService\<close> of \<^verbatim>\<open>packages/projects/src/index.ts\<close>: creation with default environments and
  tags, lookup, update, archiving, deletion with its recovery window and restoration. A project row
  without default environments in its settings has the empty list. Instants a service passes to the
  database are \<^verbatim>\<open>Date\<close>s: whole milliseconds.
\<close>

section \<open>Validation\<close>

definition project_invalid :: error where "project_invalid = Project_error Project_invalid_input"
definition project_missing :: error where "project_missing = Project_error Project_not_found"

definition project_description :: "string option \<Rightarrow> error + string option" where
  "project_description description =
     (case description of None \<Rightarrow> Inr None
      | Some d \<Rightarrow> if trim d = [] then Inr None
          else if 4000 < length (trim d) then Inl project_invalid else Inr (Some (trim d)))"

definition validate_default_environments :: "string list option \<Rightarrow> error + string list" where
  "validate_default_environments values' =
     (let environments = (case values' of None \<Rightarrow> [''development'', ''staging'', ''production''] | Some es \<Rightarrow> es) in
      if length environments < 1 \<or> 20 < length environments then Inl project_invalid
      else and_ok (map_ok (normalize_slug project_invalid) environments) (\<lambda>normalized.
        if distinct normalized then Inr normalized else Inl project_invalid))"

section \<open>Views\<close>

record project_environment =
  pe_id :: uuid
  pe_name :: string
  pe_slug :: string
  pe_protected :: bool

record project_view =
  pv_id :: uuid
  pv_org :: uuid
  pv_name :: string
  pv_slug :: string
  pv_description :: "string option"
  pv_default_environments :: "string list"
  pv_tag_ids :: "uuid list"
  pv_tags :: "(uuid \<times> string \<times> string) list"
  pv_environments :: "project_environment list"
  pv_archived :: "time option"
  pv_deleted :: "time option"
  pv_purge_after :: "time option"

text \<open>The aggregates of \<^verbatim>\<open>projectSelect\<close>.\<close>

definition tags_of_project :: "transaction \<Rightarrow> db \<Rightarrow> project_row \<Rightarrow> tag_row list" where
  "tags_of_project T s r = sort_by (tag_le (tx_platform T))
     (concat (map (\<lambda>pt. filter (\<lambda>t. t_id t = pt_tag pt \<and> t_org t = pt_org pt) (visible t_org T (db_tags s)))
       (filter (\<lambda>pt. pt_project pt = p_id r \<and> pt_org pt = p_org r) (visible pt_org T (db_project_tags s)))))"

definition order_le :: "environment_row \<Rightarrow> environment_row \<Rightarrow> bool" where
  "order_le a b = (if e_order a = e_order b then e_id a \<le> e_id b else e_order a \<le> e_order b)"

definition active_environments :: "transaction \<Rightarrow> uuid \<Rightarrow> db \<Rightarrow> environment_row list" where
  "active_environments T projectId s = sort_by order_le
     (filter (\<lambda>e. e_project e = projectId \<and> e_deleted e = None) (visible e_org T (db_environments s)))"

definition project_from_row :: "transaction \<Rightarrow> db \<Rightarrow> project_row \<Rightarrow> error + project_view" where
  "project_from_row T s r =
     and_ok (validate_default_environments
         (if p_default_environments r = [] then None else Some (p_default_environments r))) (\<lambda>defaults.
     Inr \<lparr>pv_id = p_id r, pv_org = p_org r, pv_name = p_name r, pv_slug = p_slug r,
          pv_description = p_description r, pv_default_environments = defaults,
          pv_tag_ids = map t_id (tags_of_project T s r),
          pv_tags = map (\<lambda>t. (t_id t, t_name t, t_color t)) (tags_of_project T s r),
          pv_environments = map (\<lambda>e. \<lparr>pe_id = e_id e, pe_name = e_name e, pe_slug = e_slug e,
             pe_protected = e_protected e\<rparr>) (active_environments T (p_id r) s),
          pv_archived = map_option to_date (p_archived r), pv_deleted = map_option to_date (p_deleted r),
          pv_purge_after = map_option to_date (p_purge_after r)\<rparr>)"

section \<open>Operations\<close>

text \<open>The clock of the service, and \<^verbatim>\<open>#getById\<close>.\<close>

definition service_now :: "transaction \<Rightarrow> time" where
  "service_now T = to_date (tx_clock T)"

definition view_project :: "transaction \<Rightarrow> uuid \<Rightarrow> project_row list \<Rightarrow> project_view db_op" where
  "view_project T actorUserId rows =
     bind (from_option project_missing (first_row rows)) (\<lambda>r.
     andthen (permit T actorUserId (Some (p_id r)) False Project_read)
     (bind (reads (\<lambda>s. project_from_row T s r)) lift_sum))"

definition get_project :: "transaction \<Rightarrow> uuid \<Rightarrow> uuid \<Rightarrow> bool \<Rightarrow> project_view db_op" where
  "get_project T actorUserId projectId includeDeleted =
     bind (select_rows p_org db_projects T (\<lambda>r. p_id r = projectId \<and> (includeDeleted \<or> p_deleted r = None)))
       (view_project T actorUserId)"

definition get_project_by_slug :: "transaction \<Rightarrow> uuid \<Rightarrow> string \<Rightarrow> bool \<Rightarrow> project_view db_op" where
  "get_project_by_slug T actorUserId slug includeDeleted =
     bind (lift_sum (normalize_slug project_invalid slug)) (\<lambda>normalized.
     bind (select_rows p_org db_projects T (\<lambda>r. p_slug r = normalized \<and> (includeDeleted \<or> p_deleted r = None)))
       (view_project T actorUserId))"

definition project_le :: "platform \<Rightarrow> project_row \<Rightarrow> project_row \<Rightarrow> bool" where
  "project_le P a b = (if db_lower P (p_name a) = db_lower P (p_name b) then p_id a \<le> p_id b
     else collate_le P (db_lower P (p_name a)) (db_lower P (p_name b)))"

definition list_projects :: "transaction \<Rightarrow> uuid \<Rightarrow> project_view list db_op" where
  "list_projects T actorUserId =
     andthen (permit T actorUserId None False Project_read)
     (bind (select_rows p_org db_projects T (\<lambda>r. p_deleted r = None)) (\<lambda>rows.
      bind (reads (\<lambda>s. map_ok (project_from_row T s) (sort_by (project_le (tx_platform T)) rows))) lift_sum))"

definition replace_project_tags :: "transaction \<Rightarrow> uuid \<Rightarrow> uuid list \<Rightarrow> unit db_op" where
  "replace_project_tags T projectId tagIds =
     (let uniqueTagIds = js_uniq tagIds in
      andthen (check (length uniqueTagIds \<le> 50) project_invalid)
     (bind (select_rows t_org db_tags T (\<lambda>t. t_id t \<in> set uniqueTagIds)) (\<lambda>found.
      andthen (check (uniqueTagIds = [] \<or> length found = length uniqueTagIds) (Project_error Project_tag_not_found))
     (andthen (delete_rows pt_org db_project_tags_update T (\<lambda>pt. pt_project pt = projectId))
     (andthen (for_each (\<lambda>i. insert_row pt_org db_project_tags db_project_tags_update project_tag_clash T
        \<lparr>pt_org = tx_org T, pt_project = projectId, pt_tag = i\<rparr>) uniqueTagIds)
      (ret ()))))))"

record project_input =
  pj_name :: string
  pj_slug :: string
  pj_description :: "string option"
  pj_default_environments :: "string list option"
  pj_tag_ids :: "uuid list option"

definition project_event :: "transaction \<Rightarrow> uuid \<Rightarrow> audit_action \<Rightarrow> uuid \<Rightarrow> audit_event" where
  "project_event T actorUserId action projectId =
     (user_event (tx_org T) actorUserId action ''project'' projectId)\<lparr>event_project := Some projectId\<rparr>"

definition json_texts :: "string list \<Rightarrow> json" where
  "json_texts ts = JArr (map JStr ts)"

definition new_project ::
  "transaction \<Rightarrow> uuid \<Rightarrow> uuid \<Rightarrow> string \<Rightarrow> string \<Rightarrow> string option \<Rightarrow> string list \<Rightarrow> project_row" where
  "new_project T actorUserId projectId name slug description defaults =
     \<lparr>p_id = projectId, p_org = tx_org T, p_name = name, p_slug = slug, p_description = description,
      p_default_environments = defaults, p_created_by = Some actorUserId, p_created = tx_now T,
      p_updated = tx_now T, p_archived = None, p_deleted = None, p_purge_after = None\<rparr>"

text \<open>What \<^verbatim>\<open>create\<close> does inside its \<^verbatim>\<open>try\<close> once the row is known.\<close>

definition store_project :: "transaction \<Rightarrow> uuid \<Rightarrow> project_row \<Rightarrow> uuid list \<Rightarrow> project_view db_op" where
  "store_project T actorUserId r tagIds =
     andthen (insert_project T r)
     (andthen (replace_project_tags T (p_id r) tagIds)
     (bind (get_project T actorUserId (p_id r) True) (\<lambda>project.
      andthen (record_in_transaction T ((project_event T actorUserId Project_created (p_id r))
        \<lparr>event_after := Some [(''name'', JStr (pv_name project)), (''slug'', JStr (pv_slug project)),
           (''defaultEnvironments'', json_texts (pv_default_environments project)),
           (''tagIds'', json_texts (pv_tag_ids project))]\<rparr>))
      (ret project))))"

definition create_project :: "transaction \<Rightarrow> uuid \<Rightarrow> project_input \<Rightarrow> project_view db_op" where
  "create_project T actorUserId input =
     andthen (permit T actorUserId None False Project_create)
     (bind (lift_sum (validate_default_environments (pj_default_environments input))) (\<lambda>defaults.
      rethrow (on_unique_violation (Project_error Project_slug_exists))
       (bind (lift_sum (normalize_name project_invalid 120 (pj_name input))) (\<lambda>name.
        bind (lift_sum (normalize_slug project_invalid (pj_slug input))) (\<lambda>slug.
        bind (lift_sum (project_description (pj_description input))) (\<lambda>description.
        bind (fresh_uuid T) (\<lambda>projectId.
        store_project T actorUserId (new_project T actorUserId projectId name slug description defaults)
          (case pj_tag_ids input of None \<Rightarrow> [] | Some ts \<Rightarrow> ts))))))))"

record project_changes =
  pc_name :: "string option"
  pc_slug :: "string option"
  pc_description :: "string option option"
  pc_default_environments :: "string list option"
  pc_tag_ids :: "uuid list option"

definition changed :: "'a \<Rightarrow> ('b \<Rightarrow> error + 'a) \<Rightarrow> 'b option \<Rightarrow> error + 'a" where
  "changed before validate input = (case input of None \<Rightarrow> Inr before | Some v \<Rightarrow> validate v)"

definition write_project ::
  "transaction \<Rightarrow> uuid \<Rightarrow> uuid \<Rightarrow> project_view \<Rightarrow> string \<Rightarrow> string \<Rightarrow> string option \<Rightarrow> string list \<Rightarrow>
     uuid list option \<Rightarrow> project_view db_op" where
  "write_project T actorUserId projectId before name slug description defaults tagIds =
     andthen (update_unique p_org db_projects db_projects_update (\<lambda>r. (p_org r, p_slug r)) T
        (\<lambda>r. p_id r = projectId \<and> p_deleted r = None)
        (\<lambda>r. r\<lparr>p_name := name, p_slug := slug, p_description := description,
               p_default_environments := defaults, p_updated := tx_now T\<rparr>))
     (andthen (case tagIds of None \<Rightarrow> ret () | Some ts \<Rightarrow> replace_project_tags T projectId ts)
     (bind (get_project T actorUserId projectId False) (\<lambda>after'.
      andthen (record_in_transaction T ((project_event T actorUserId Project_updated projectId)
        \<lparr>event_before := Some [(''name'', JStr (pv_name before)), (''slug'', JStr (pv_slug before))],
         event_after := Some [(''name'', JStr (pv_name after')), (''slug'', JStr (pv_slug after'))]\<rparr>))
      (ret after'))))"

definition update_project :: "transaction \<Rightarrow> uuid \<Rightarrow> uuid \<Rightarrow> project_changes \<Rightarrow> project_view db_op" where
  "update_project T actorUserId projectId input =
     bind (get_project T actorUserId projectId False) (\<lambda>before.
     andthen (permit T actorUserId (Some projectId) False Project_update)
     (bind (lift_sum (changed (pv_name before) (normalize_name project_invalid 120) (pc_name input))) (\<lambda>name.
      bind (lift_sum (changed (pv_slug before) (normalize_slug project_invalid) (pc_slug input))) (\<lambda>slug.
      bind (lift_sum (changed (pv_description before) project_description (pc_description input))) (\<lambda>description.
      bind (lift_sum (changed (pv_default_environments before) (\<lambda>es. validate_default_environments (Some es))
        (pc_default_environments input))) (\<lambda>defaults.
      rethrow (on_unique_violation (Project_error Project_slug_exists))
        (write_project T actorUserId projectId before name slug description defaults (pc_tag_ids input))))))))"

definition set_archived :: "transaction \<Rightarrow> uuid \<Rightarrow> uuid \<Rightarrow> bool \<Rightarrow> project_view db_op" where
  "set_archived T actorUserId projectId archived =
     andthen (get_project T actorUserId projectId False)
     (andthen (permit T actorUserId (Some projectId) False Project_archive)
     (andthen (update_rows p_org db_projects_update T (\<lambda>r. p_id r = projectId \<and> p_deleted r = None)
        (\<lambda>r. r\<lparr>p_archived := (if archived then Some (tx_now T) else None), p_updated := tx_now T\<rparr>))
     (bind (get_project T actorUserId projectId False) (\<lambda>project.
      andthen (record_in_transaction T ((project_event T actorUserId Project_archived projectId)
        \<lparr>event_after := Some [(''archived'', JBool archived)]\<rparr>))
      (ret project)))))"

text \<open>The three updates of \<^verbatim>\<open>delete\<close>, and of \<^verbatim>\<open>restore\<close>. \<open>isoText\<close> is \<^verbatim>\<open>toISOString\<close>.\<close>

definition take_down_project :: "transaction \<Rightarrow> uuid \<Rightarrow> time \<Rightarrow> time \<Rightarrow> unit db_op" where
  "take_down_project T projectId deletedAt purgeAfter =
     andthen (update_rows p_org db_projects_update T (\<lambda>r. p_id r = projectId \<and> p_deleted r = None)
       (\<lambda>r. r\<lparr>p_deleted := Some deletedAt, p_purge_after := Some purgeAfter, p_updated := tx_now T\<rparr>))
     (andthen (update_rows e_org db_environments_update T (\<lambda>e. e_project e = projectId \<and> e_deleted e = None)
       (\<lambda>e. e\<lparr>e_deleted := Some deletedAt, e_deleted_by_project := Some deletedAt, e_updated := tx_now T\<rparr>))
     (update_secrets T (\<lambda>r. s_project r = projectId \<and> s_deleted r = None)
       (\<lambda>r. r\<lparr>s_deleted := Some deletedAt, s_deleted_by_project := Some deletedAt, s_updated := tx_now T\<rparr>)))"

definition delete_project ::
  "(time \<Rightarrow> string) \<Rightarrow> int \<Rightarrow> transaction \<Rightarrow> uuid \<Rightarrow> uuid \<Rightarrow> project_view db_op" where
  "delete_project isoText window T actorUserId projectId =
     andthen (get_project T actorUserId projectId False)
     (andthen (permit T actorUserId (Some projectId) False Project_delete)
     (let deletedAt = service_now T; purgeAfter = deletedAt + window in
      andthen (take_down_project T projectId deletedAt purgeAfter)
     (bind (get_project T actorUserId projectId True) (\<lambda>project.
      andthen (record_in_transaction T ((project_event T actorUserId Project_deleted projectId)
        \<lparr>event_after := Some [(''recoveryEndsAt'', JStr (isoText purgeAfter))]\<rparr>))
      (ret project)))))"

definition bring_back_project :: "transaction \<Rightarrow> uuid \<Rightarrow> time \<Rightarrow> unit db_op" where
  "bring_back_project T projectId deletedAt =
     andthen (update_rows p_org db_projects_update T (\<lambda>r. p_id r = projectId)
       (\<lambda>r. r\<lparr>p_deleted := None, p_purge_after := None, p_updated := tx_now T\<rparr>))
     (andthen (update_rows e_org db_environments_update T
         (\<lambda>e. e_project e = projectId \<and> e_deleted_by_project e = Some deletedAt)
       (\<lambda>e. e\<lparr>e_deleted := None, e_deleted_by_project := None, e_updated := tx_now T\<rparr>))
     (update_secrets T (\<lambda>r. s_project r = projectId \<and> s_deleted_by_project r = Some deletedAt)
       (\<lambda>r. r\<lparr>s_deleted := None, s_deleted_by_project := None, s_updated := tx_now T\<rparr>)))"

definition restore_project :: "transaction \<Rightarrow> uuid \<Rightarrow> uuid \<Rightarrow> project_view db_op" where
  "restore_project T actorUserId projectId =
     bind (get_project T actorUserId projectId True) (\<lambda>project.
     andthen (permit T actorUserId (Some projectId) False Project_delete)
     (case (pv_deleted project, pv_purge_after project) of
        (Some deletedAt, Some purgeAfter) \<Rightarrow>
          andthen (check (service_now T < purgeAfter) (Project_error Project_recovery_expired))
         (andthen (bring_back_project T projectId deletedAt)
         (bind (get_project T actorUserId projectId False) (\<lambda>restored.
          andthen (record_in_transaction T (project_event T actorUserId Project_restored projectId))
          (ret restored))))
      | _ \<Rightarrow> throw project_missing))"

section \<open>The contract\<close>

lemma obeys_get_project [contract_intros]: "obeys (tenant_step orgId) (get_project T actorUserId projectId incl)"
  unfolding get_project_def view_project_def by (intro contract_intros)

lemma obeys_get_project_by_slug [contract_intros]:
  "obeys (tenant_step orgId) (get_project_by_slug T actorUserId slug incl)"
  unfolding get_project_by_slug_def view_project_def by (intro contract_intros)

lemma obeys_list_projects [contract_intros]: "obeys (tenant_step orgId) (list_projects T actorUserId)"
  unfolding list_projects_def by (intro contract_intros)

lemma obeys_replace_project_tags [contract_intros]:
  "obeys (tenant_step (tx_org T)) (replace_project_tags T projectId tagIds)"
  unfolding replace_project_tags_def Let_def by (intro contract_intros)

lemma obeys_insert_project [contract_intros]: "obeys (tenant_step (tx_org T)) (insert_project T p)"
  unfolding insert_project_def project_trigger_def Let_def by (intro contract_intros)

lemma obeys_create_project [contract_intros]: "obeys (tenant_step (tx_org T)) (create_project T actorUserId input)"
  unfolding create_project_def store_project_def by (intro contract_intros)

lemma obeys_update_project [contract_intros]:
  "obeys (tenant_step (tx_org T)) (update_project T actorUserId projectId input)"
  unfolding update_project_def write_project_def by (intro contract_intros) simp_all

lemma obeys_set_archived [contract_intros]:
  "obeys (tenant_step (tx_org T)) (set_archived T actorUserId projectId archived)"
  unfolding set_archived_def by (intro contract_intros) simp_all

lemma obeys_take_down_project [contract_intros]:
  "obeys (tenant_step (tx_org T)) (take_down_project T projectId deletedAt purgeAfter)"
  unfolding take_down_project_def
  by (intro contract_intros) (simp_all add: keeps_config_fields_def keeps_secret_place_def)

lemma obeys_bring_back_project [contract_intros]:
  "obeys (tenant_step (tx_org T)) (bring_back_project T projectId deletedAt)"
  unfolding bring_back_project_def
  by (intro contract_intros) (simp_all add: keeps_config_fields_def keeps_secret_place_def)

lemma obeys_delete_project [contract_intros]:
  "obeys (tenant_step (tx_org T)) (delete_project isoText window T actorUserId projectId)"
  unfolding delete_project_def Let_def by (intro contract_intros)

lemma obeys_restore_project [contract_intros]:
  "obeys (tenant_step (tx_org T)) (restore_project T actorUserId projectId)"
  unfolding restore_project_def by (auto intro!: contract_intros split: option.splits)

end
