(* ===== verification/Environments.thy ===== *)
theory Environments
  imports Projects
begin

text \<open>
  \<^verbatim>\<open>EnvironmentService\<close> of \<^verbatim>\<open>packages/environments/src/index.ts\<close>: the environments of a project in
  their display order, creation, update, reordering, and deletion with its recovery window. The last
  active environment of a project cannot be deleted, and deleting one with active secrets has to be
  confirmed.
\<close>

definition environment_invalid :: error where "environment_invalid = Environment_error Environment_invalid_input"
definition environment_missing :: error where "environment_missing = Environment_error Environment_not_found"

definition MAX_ENVIRONMENTS :: nat where "MAX_ENVIRONMENTS = 50"

record environment_view =
  vw_id :: uuid
  vw_org :: uuid
  vw_project :: uuid
  vw_name :: string
  vw_slug :: string
  vw_order :: int
  vw_protected :: bool
  vw_deleted :: "time option"
  vw_purge_after :: "time option"

definition environment_from_row :: "environment_row \<Rightarrow> environment_view" where
  "environment_from_row e = \<lparr>vw_id = e_id e, vw_org = e_org e, vw_project = e_project e, vw_name = e_name e,
     vw_slug = e_slug e, vw_order = e_order e, vw_protected = e_protected e,
     vw_deleted = map_option to_date (e_deleted e), vw_purge_after = map_option to_date (e_purge_after e)\<rparr>"

section \<open>Lookups\<close>

definition require_active_project :: "transaction \<Rightarrow> uuid \<Rightarrow> unit db_op" where
  "require_active_project T projectId =
     bind (select_rows p_org db_projects T (active_project projectId)) (\<lambda>rows.
     check (length rows = 1) environment_missing)"

definition in_project :: "uuid \<Rightarrow> environment_row \<Rightarrow> bool" where
  "in_project projectId e \<longleftrightarrow> e_project e = projectId \<and> e_deleted e = None"

definition is_active_environment :: "uuid \<Rightarrow> environment_row \<Rightarrow> bool" where
  "is_active_environment environmentId e \<longleftrightarrow> e_id e = environmentId \<and> e_deleted e = None"

definition list_environments :: "transaction \<Rightarrow> uuid \<Rightarrow> uuid \<Rightarrow> environment_view list db_op" where
  "list_environments T actorUserId projectId =
     andthen (require_active_project T projectId)
     (andthen (permit T actorUserId (Some projectId) False Environment_read)
     (bind (reads (active_environments T projectId)) (\<lambda>rows. ret (map environment_from_row rows))))"

definition get_environment :: "transaction \<Rightarrow> uuid \<Rightarrow> uuid \<Rightarrow> bool \<Rightarrow> environment_view db_op" where
  "get_environment T actorUserId environmentId includeDeleted =
     bind (select_rows e_org db_environments T (\<lambda>e. e_id e = environmentId \<and> (includeDeleted \<or> e_deleted e = None))) (\<lambda>rows.
     bind (from_option environment_missing (first_row rows)) (\<lambda>e.
     andthen (permit T actorUserId (Some (e_project e)) False Environment_read)
     (ret (environment_from_row e))))"

section \<open>Creation and update\<close>

definition environment_fields :: "environment_view \<Rightarrow> metadata" where
  "environment_fields v = [(''name'', JStr (vw_name v)), (''slug'', JStr (vw_slug v)), (''protected'', JBool (vw_protected v))]"

definition environment_change ::
  "transaction \<Rightarrow> uuid \<Rightarrow> audit_action \<Rightarrow> uuid \<Rightarrow> uuid \<Rightarrow> audit_event" where
  "environment_change T actorUserId action projectId environmentId =
     environment_event T (Actor_user actorUserId) action projectId environmentId"

text \<open>\<^verbatim>\<open>COALESCE(max(display_order) + 1, 0)\<close>\<close>

definition next_order :: "environment_row list \<Rightarrow> int" where
  "next_order es = (if es = [] then 0 else Max (set (map e_order es)) + 1)"

definition new_environment ::
  "transaction \<Rightarrow> uuid \<Rightarrow> uuid \<Rightarrow> string \<Rightarrow> string \<Rightarrow> int \<Rightarrow> bool \<Rightarrow> environment_row" where
  "new_environment T environmentId projectId name slug order prot =
     \<lparr>e_id = environmentId, e_org = tx_org T, e_project = projectId, e_name = name, e_slug = slug,
      e_order = order, e_protected = prot, e_config_version = 0, e_created = tx_now T,
      e_updated = tx_now T, e_deleted = None, e_purge_after = None, e_deleted_by_project = None\<rparr>"

definition create_environment ::
  "transaction \<Rightarrow> uuid \<Rightarrow> uuid \<Rightarrow> string \<Rightarrow> string \<Rightarrow> bool option \<Rightarrow> environment_view db_op" where
  "create_environment T actorUserId projectId name slug prot =
     andthen (require_active_project T projectId)
     (let isProtected = (prot = Some True) in
      andthen (permit T actorUserId (Some projectId) isProtected Environment_create)
     (bind (select_rows e_org db_environments T (in_project projectId)) (\<lambda>active.
      andthen (check (length active < MAX_ENVIRONMENTS) environment_invalid)
     (rethrow (on_unique_violation (Environment_error Environment_slug_exists))
       (bind (lift_sum (normalize_name environment_invalid 80 name)) (\<lambda>name.
        bind (lift_sum (normalize_slug environment_invalid slug)) (\<lambda>slug.
        bind (fresh_uuid T) (\<lambda>environmentId.
        let e = new_environment T environmentId projectId name slug (next_order active) isProtected;
            environment = environment_from_row e in
        andthen (insert_environment T e)
       (andthen (record_in_transaction T ((environment_change T actorUserId Environment_created projectId environmentId)
          \<lparr>event_after := Some (environment_fields environment)\<rparr>))
        (ret environment))))))))))"

definition update_environment ::
  "transaction \<Rightarrow> uuid \<Rightarrow> uuid \<Rightarrow> string option \<Rightarrow> string option \<Rightarrow> bool option \<Rightarrow> environment_view db_op" where
  "update_environment T actorUserId environmentId name slug prot =
     bind (get_environment T actorUserId environmentId False) (\<lambda>before.
     andthen (permit T actorUserId (Some (vw_project before)) (vw_protected before \<or> prot = Some True) Environment_update)
     (bind (lift_sum (changed (vw_name before) (normalize_name environment_invalid 80) name)) (\<lambda>name.
      bind (lift_sum (changed (vw_slug before) (normalize_slug environment_invalid) slug)) (\<lambda>slug.
      let isProtected = (case prot of None \<Rightarrow> vw_protected before | Some b \<Rightarrow> b) in
      rethrow (on_unique_violation (Environment_error Environment_slug_exists))
       (andthen (update_unique e_org db_environments db_environments_update
           (\<lambda>e. (e_org e, e_project e, e_slug e)) T (is_active_environment environmentId)
           (\<lambda>e. e\<lparr>e_name := name, e_slug := slug, e_protected := isProtected, e_updated := tx_now T\<rparr>))
       (bind (select_rows e_org db_environments T (is_active_environment environmentId)) (\<lambda>rows.
        bind (from_option environment_missing (first_row rows)) (\<lambda>e.
        andthen (record_in_transaction T ((environment_change T actorUserId Environment_updated (vw_project before) environmentId)
          \<lparr>event_before := Some (environment_fields before),
           event_after := Some (environment_fields (environment_from_row e))\<rparr>))
        (ret (environment_from_row e))))))))))"

section \<open>Reordering\<close>

definition order_of :: "uuid list \<Rightarrow> uuid \<Rightarrow> int" where
  "order_of ids i = int (length (takeWhile (\<lambda>j. j \<noteq> i) ids))"

definition place_environments :: "transaction \<Rightarrow> uuid \<Rightarrow> uuid list \<Rightarrow> unit db_op" where
  "place_environments T projectId environmentIds =
     update_rows e_org db_environments_update T (\<lambda>e. e_id e \<in> set environmentIds \<and> in_project projectId e)
       (\<lambda>e. e\<lparr>e_order := order_of environmentIds (e_id e), e_updated := tx_now T\<rparr>)"

definition reorder_environments ::
  "transaction \<Rightarrow> uuid \<Rightarrow> uuid \<Rightarrow> uuid list \<Rightarrow> environment_view list db_op" where
  "reorder_environments T actorUserId projectId environmentIds =
     andthen (require_active_project T projectId)
     (andthen (permit T actorUserId (Some projectId) False Environment_update)
     (andthen (check (distinct environmentIds) (Environment_error Order_mismatch))
     (bind (select_rows e_org db_environments T (in_project projectId)) (\<lambda>current.
      andthen (check (length current = length environmentIds \<and> (\<forall>e\<in>set current. e_id e \<in> set environmentIds))
         (Environment_error Order_mismatch))
     (andthen (if list_ex e_protected current then permit T actorUserId (Some projectId) True Environment_update else ret ())
     (andthen (place_environments T projectId environmentIds)
     (andthen (record_in_transaction T ((project_event T actorUserId Environment_reordered projectId)
        \<lparr>event_after := Some [(''environmentIds'', json_texts environmentIds)]\<rparr>))
      (list_environments T actorUserId projectId))))))))"

section \<open>Deletion and recovery\<close>

definition take_down_environment :: "transaction \<Rightarrow> uuid \<Rightarrow> time \<Rightarrow> time \<Rightarrow> unit db_op" where
  "take_down_environment T environmentId deletedAt purgeAfter =
     andthen (update_rows e_org db_environments_update T (is_active_environment environmentId)
       (\<lambda>e. e\<lparr>e_deleted := Some deletedAt, e_purge_after := Some purgeAfter, e_updated := tx_now T\<rparr>))
     (update_secrets T (\<lambda>r. s_environment r = environmentId \<and> s_deleted r = None)
       (\<lambda>r. r\<lparr>s_deleted := Some deletedAt, s_deleted_by_environment := Some deletedAt, s_updated := tx_now T\<rparr>))"

definition delete_environment ::
  "(time \<Rightarrow> string) \<Rightarrow> int \<Rightarrow> transaction \<Rightarrow> uuid \<Rightarrow> uuid \<Rightarrow> bool \<Rightarrow> environment_view db_op" where
  "delete_environment isoText window T actorUserId environmentId confirmSecrets =
     bind (get_environment T actorUserId environmentId False) (\<lambda>environment.
     andthen (permit T actorUserId (Some (vw_project environment)) (vw_protected environment) Environment_delete)
     (bind (select_rows e_org db_environments T (in_project (vw_project environment))) (\<lambda>active.
      bind (select_rows s_org db_secrets T (\<lambda>r. s_environment r = environmentId \<and> s_deleted r = None)) (\<lambda>secrets.
      andthen (check (1 < length active) (Environment_error Last_environment))
     (andthen (check (secrets = [] \<or> confirmSecrets) (Environment_error Secrets_require_confirmation))
     (let deletedAt = service_now T; purgeAfter = deletedAt + window in
      andthen (take_down_environment T environmentId deletedAt purgeAfter)
     (andthen (record_in_transaction T
        ((environment_change T actorUserId Environment_deleted (vw_project environment) environmentId)
          \<lparr>event_after := Some [(''recoveryEndsAt'', JStr (isoText purgeAfter)),
             (''deletedSecretCount'', json_count (length secrets))]\<rparr>))
      (ret (environment\<lparr>vw_deleted := Some deletedAt, vw_purge_after := Some purgeAfter\<rparr>)))))))))"

definition bring_back_environment :: "transaction \<Rightarrow> uuid \<Rightarrow> time \<Rightarrow> unit db_op" where
  "bring_back_environment T environmentId deletedAt =
     andthen (update_rows e_org db_environments_update T
         (\<lambda>e. e_id e = environmentId \<and> e_deleted e = Some deletedAt \<and> e_deleted_by_project e = None)
       (\<lambda>e. e\<lparr>e_deleted := None, e_purge_after := None, e_updated := tx_now T\<rparr>))
     (update_secrets T (\<lambda>r. s_environment r = environmentId \<and> s_deleted_by_environment r = Some deletedAt
         \<and> s_deleted_by_project r = None)
       (\<lambda>r. r\<lparr>s_deleted := None, s_deleted_by_environment := None, s_updated := tx_now T\<rparr>))"

definition restore_environment :: "transaction \<Rightarrow> uuid \<Rightarrow> uuid \<Rightarrow> environment_view db_op" where
  "restore_environment T actorUserId environmentId =
     bind (get_environment T actorUserId environmentId True) (\<lambda>environment.
     case (vw_deleted environment, vw_purge_after environment) of
       (Some deletedAt, Some purgeAfter) \<Rightarrow>
         andthen (check (service_now T < purgeAfter) (Environment_error Environment_recovery_expired))
        (bind (select_rows e_org db_environments T (\<lambda>e. e_id e = environmentId)) (\<lambda>rows.
         andthen (check (map_option e_deleted_by_project (first_row rows) = Some None) environment_missing)
        (andthen (require_active_project T (vw_project environment))
        (andthen (permit T actorUserId (Some (vw_project environment)) (vw_protected environment) Environment_delete)
        (andthen (bring_back_environment T environmentId deletedAt)
        (andthen (record_in_transaction T
           (environment_change T actorUserId Environment_restored (vw_project environment) environmentId))
         (get_environment T actorUserId environmentId False)))))))
     | _ \<Rightarrow> throw (Environment_error Environment_recovery_expired))"

section \<open>The contract\<close>

lemma obeys_require_active_project [contract_intros]: "obeys (tenant_step orgId) (require_active_project T projectId)"
  unfolding require_active_project_def by (intro contract_intros)

lemma obeys_list_environments [contract_intros]: "obeys (tenant_step orgId) (list_environments T actorUserId projectId)"
  unfolding list_environments_def by (intro contract_intros)

lemma obeys_get_environment [contract_intros]:
  "obeys (tenant_step orgId) (get_environment T actorUserId environmentId incl)"
  unfolding get_environment_def by (intro contract_intros)

lemma obeys_create_environment [contract_intros]:
  "obeys (tenant_step (tx_org T)) (create_environment T actorUserId projectId name slug prot)"
  unfolding create_environment_def Let_def by (intro contract_intros)

lemma obeys_update_environment [contract_intros]:
  "obeys (tenant_step (tx_org T)) (update_environment T actorUserId environmentId name slug prot)"
  unfolding update_environment_def Let_def by (intro contract_intros) (simp add: keeps_config_fields_def)

lemma obeys_reorder_environments [contract_intros]:
  "obeys (tenant_step (tx_org T)) (reorder_environments T actorUserId projectId environmentIds)"
  unfolding reorder_environments_def place_environments_def
  by (intro contract_intros) (simp add: keeps_config_fields_def)

lemma obeys_delete_environment [contract_intros]:
  "obeys (tenant_step (tx_org T)) (delete_environment isoText window T actorUserId environmentId confirmSecrets)"
  unfolding delete_environment_def take_down_environment_def Let_def
  by (intro contract_intros) (simp_all add: keeps_config_fields_def keeps_secret_place_def)

lemma obeys_bring_back_environment [contract_intros]:
  "obeys (tenant_step (tx_org T)) (bring_back_environment T environmentId deletedAt)"
  unfolding bring_back_environment_def
  by (intro contract_intros) (simp_all add: keeps_config_fields_def keeps_secret_place_def)

lemma obeys_restore_environment [contract_intros]:
  "obeys (tenant_step (tx_org T)) (restore_environment T actorUserId environmentId)"
  unfolding restore_environment_def by (auto intro!: contract_intros split: option.splits)

end
