(* ===== verification/Lifecycle_Facts.thy ===== *)
theory Lifecycle_Facts
  imports Environments Secret_Facts
begin

text \<open>
  Projects and environments over their lives: what creation sets up, what a deletion hides and a
  restoration within the recovery window brings back, that reordering yields the order asked for, that
  slugs stay reserved, and that no environment operation leaves a project without environments.
\<close>

section \<open>Lookups\<close>

lemma to_date_idem [simp]: "to_date (to_date t) = to_date t"
  by (simp add: to_date_def)

lemma service_now_date [simp]: "to_date (service_now T) = service_now T"
  by (simp add: service_now_def)

lemma select_first: "select_rows org get T P s = Inr (rows, s') \<Longrightarrow> first_row rows = find P (visible org T (get s)) \<and> s' = s"
  by (auto simp: select_rows_def op_simps first_row_filter)

lemma get_project_Inr:
  "get_project T u pid incl s = Inr (v, s') \<longleftrightarrow> s' = s \<and> (\<exists>r.
     find (\<lambda>r. p_id r = pid \<and> (incl \<or> p_deleted r = None)) (visible p_org T (db_projects s)) = Some r
     \<and> permitted T u (Some (p_id r)) False Project_read s \<and> project_from_row T s r = Inr v)"
  by (auto simp: get_project_def view_project_def op_simps select_rows_def first_row_filter permit_Inr)

lemma project_fields:
  assumes "project_from_row T s r = Inr v"
  shows "pv_id v = p_id r" "pv_name v = p_name r" "pv_slug v = p_slug r"
    "pv_deleted v = map_option to_date (p_deleted r)" "pv_purge_after v = map_option to_date (p_purge_after r)"
    "pv_environments v = map (\<lambda>e. \<lparr>pe_id = e_id e, pe_name = e_name e, pe_slug = e_slug e,
       pe_protected = e_protected e\<rparr>) (active_environments T (p_id r) s)"
    "validate_default_environments (if p_default_environments r = [] then None else Some (p_default_environments r))
       = Inr (pv_default_environments v)"
  using assms by (auto simp: project_from_row_def and_ok_Inr)

lemma get_environment_Inr:
  "get_environment T u i incl s = Inr (v, s') \<longleftrightarrow> s' = s \<and> (\<exists>e.
     find (\<lambda>e. e_id e = i \<and> (incl \<or> e_deleted e = None)) (visible e_org T (db_environments s)) = Some e
     \<and> permitted T u (Some (e_project e)) False Environment_read s \<and> v = environment_from_row e)"
  by (auto simp: get_environment_def op_simps select_rows_def first_row_filter permit_Inr)

lemma require_active_project_Inr:
  "require_active_project T pid s = Inr (u, s') \<longleftrightarrow> s' = s
     \<and> length (filter (active_project pid) (visible p_org T (db_projects s))) = 1"
  by (auto simp: require_active_project_def op_simps select_rows_def)

section \<open>Rows up to bookkeeping\<close>

text \<open>A row without the instant of its last update and, for environments, the configuration version.\<close>

definition plain_secret :: "secret_row \<Rightarrow> secret_row" where "plain_secret r = r\<lparr>s_updated := 0\<rparr>"
definition plain_environment :: "environment_row \<Rightarrow> environment_row" where
  "plain_environment e = e\<lparr>e_updated := 0, e_config_version := 0\<rparr>"
definition plain_project :: "project_row \<Rightarrow> project_row" where "plain_project p = p\<lparr>p_updated := 0\<rparr>"

lemma plain_versioned [simp]: "plain_environment (versioned c e) = plain_environment e"
  by (simp add: plain_environment_def versioned_def)

lemma plain_map_versioned [simp]: "map plain_environment (map (versioned c) es) = map plain_environment es"
  by simp

lemma plain_update_versioned:
  assumes "\<And>e. P (versioned c e) = P e" and "\<And>e. plain_environment (f (versioned c e)) = plain_environment (f e)"
  shows "map plain_environment (update_where e_org T P f (map (versioned c) es)) = map plain_environment (update_where e_org T P f es)"
proof -
  have "e_org (versioned c e) = e_org e" for e by (simp add: versioned_def)
  then show ?thesis unfolding update_where_def map_map by (intro map_cong) (simp_all add: assms)
qed

text \<open>One update undone by another, row by row.\<close>

lemma update_where_undone:
  assumes "\<And>r. r \<in> set rs \<Longrightarrow> org r = tx_org T \<Longrightarrow> P r \<Longrightarrow> org (f r) = tx_org T \<and> Q (f r) \<and> norm (g (f r)) = norm r"
    and "\<And>r. r \<in> set rs \<Longrightarrow> org r = tx_org T \<Longrightarrow> \<not> P r \<Longrightarrow> \<not> Q r" and "tx_org T' = tx_org T"
  shows "map norm (update_where org T' Q g (update_where org T P f rs)) = map norm rs"
  unfolding update_where_def map_map by (rule map_cong) (use assms in auto)

lemma update_secrets_Inr:
  "update_secrets T P f s = Inr (u, s') \<longleftrightarrow> s' = updated_secrets T P f s"
  by (auto simp: update_secrets_def op_simps)

lemma updated_secrets_rows:
  obtains c where "db_environments (updated_secrets T P f s) = map (versioned c) (db_environments s)"
    and "db_secrets (updated_secrets T P f s) = update_where s_org T P f (db_secrets s)"
    and "db_projects (updated_secrets T P f s) = db_projects s"
    and "db_versions (updated_secrets T P f s) = db_versions s"
proof -
  obtain c where "fold (\<lambda>r. secret_trigger (Some r) (f r)) (filter P (visible s_org T (db_secrets s))) (db_environments s)
      = map (versioned c) (db_environments s)"
    using fold_trigger_versioned by blast
  then show thesis using that[of c] by (simp add: updated_secrets_def)
qed

lemma record_rows:
  assumes "record_in_transaction T ev s = Inr (u, s')"
  shows "db_environments s' = db_environments s" "db_secrets s' = db_secrets s" "db_projects s' = db_projects s"
    "db_versions s' = db_versions s"
proof -
  obtain g where "s' = db_audit_update g s" using record_frame[OF assms] .
  then show "db_environments s' = db_environments s" "db_secrets s' = db_secrets s" "db_projects s' = db_projects s"
    "db_versions s' = db_versions s" by simp_all
qed

section \<open>Deleting and restoring a project\<close>

lemma take_down_project_rows:
  assumes "take_down_project T pid d w s = Inr (u, s')"
  obtains c where
    "db_projects s' = update_where p_org T (\<lambda>r. p_id r = pid \<and> p_deleted r = None)
       (\<lambda>r. r\<lparr>p_deleted := Some d, p_purge_after := Some w, p_updated := tx_now T\<rparr>) (db_projects s)"
    and "db_environments s' = map (versioned c) (update_where e_org T (\<lambda>e. e_project e = pid \<and> e_deleted e = None)
       (\<lambda>e. e\<lparr>e_deleted := Some d, e_deleted_by_project := Some d, e_updated := tx_now T\<rparr>) (db_environments s))"
    and "db_secrets s' = update_where s_org T (\<lambda>r. s_project r = pid \<and> s_deleted r = None)
       (\<lambda>r. r\<lparr>s_deleted := Some d, s_deleted_by_project := Some d, s_updated := tx_now T\<rparr>) (db_secrets s)"
    and "db_versions s' = db_versions s"
proof -
  let ?f = "\<lambda>r. r\<lparr>s_deleted := Some d, s_deleted_by_project := Some d, s_updated := tx_now T\<rparr>"
  let ?P = "\<lambda>r. s_project r = pid \<and> s_deleted r = None"
  define t where "t = db_environments_update (update_where e_org T (\<lambda>e. e_project e = pid \<and> e_deleted e = None)
       (\<lambda>e. e\<lparr>e_deleted := Some d, e_deleted_by_project := Some d, e_updated := tx_now T\<rparr>)) (db_projects_update (update_where p_org T (\<lambda>r. p_id r = pid \<and> p_deleted r = None)
       (\<lambda>r. r\<lparr>p_deleted := Some d, p_purge_after := Some w, p_updated := tx_now T\<rparr>)) s)"
  have s': "s' = updated_secrets T ?P ?f t"
    using assms by (simp add: take_down_project_def op_simps update_rows_def update_secrets_Inr t_def)
  show thesis
    apply (rule updated_secrets_rows[of T ?P ?f t])
    subgoal for c by (rule that[of c]) (simp_all add: t_def s')
    done
qed

lemma bring_back_project_rows:
  assumes "bring_back_project T pid d s = Inr (u, s')"
  obtains c where
    "db_projects s' = update_where p_org T (\<lambda>r. p_id r = pid)
       (\<lambda>r. r\<lparr>p_deleted := None, p_purge_after := None, p_updated := tx_now T\<rparr>) (db_projects s)"
    and "db_environments s' = map (versioned c) (update_where e_org T
       (\<lambda>e. e_project e = pid \<and> e_deleted_by_project e = Some d)
       (\<lambda>e. e\<lparr>e_deleted := None, e_deleted_by_project := None, e_updated := tx_now T\<rparr>) (db_environments s))"
    and "db_secrets s' = update_where s_org T (\<lambda>r. s_project r = pid \<and> s_deleted_by_project r = Some d)
       (\<lambda>r. r\<lparr>s_deleted := None, s_deleted_by_project := None, s_updated := tx_now T\<rparr>) (db_secrets s)"
    and "db_versions s' = db_versions s"
proof -
  let ?f = "\<lambda>r. r\<lparr>s_deleted := None, s_deleted_by_project := None, s_updated := tx_now T\<rparr>"
  let ?P = "\<lambda>r. s_project r = pid \<and> s_deleted_by_project r = Some d"
  define t where "t = db_environments_update (update_where e_org T (\<lambda>e. e_project e = pid \<and> e_deleted_by_project e = Some d)
       (\<lambda>e. e\<lparr>e_deleted := None, e_deleted_by_project := None, e_updated := tx_now T\<rparr>)) (db_projects_update (update_where p_org T (\<lambda>r. p_id r = pid)
       (\<lambda>r. r\<lparr>p_deleted := None, p_purge_after := None, p_updated := tx_now T\<rparr>)) s)"
  have s': "s' = updated_secrets T ?P ?f t"
    using assms by (simp add: bring_back_project_def op_simps update_rows_def update_secrets_Inr t_def)
  show thesis
    apply (rule updated_secrets_rows[of T ?P ?f t])
    subgoal for c by (rule that[of c]) (simp_all add: t_def s')
    done
qed

text \<open>Nothing of a project that has been taken down is found.\<close>

definition dark :: "transaction \<Rightarrow> uuid \<Rightarrow> db \<Rightarrow> bool" where
  "dark T projectId s \<longleftrightarrow> (\<forall>environmentId. find_environment T projectId environmentId s = None)
     \<and> (\<forall>r\<in>set (db_secrets s). s_org r = tx_org T \<and> s_project r = projectId \<longrightarrow> s_deleted r \<noteq> None)"

lemma delete_project_rows:
  assumes "delete_project isoText window T u pid s = Inr (view, s')"
  obtains c r where
    "find (\<lambda>r. p_id r = pid \<and> p_deleted r = None) (visible p_org T (db_projects s)) = Some r"
    and "permitted T u (Some pid) False Project_delete s"
    and "db_projects s' = update_where p_org T (\<lambda>r. p_id r = pid \<and> p_deleted r = None)
       (\<lambda>r. r\<lparr>p_deleted := Some (service_now T), p_purge_after := Some (service_now T + window), p_updated := tx_now T\<rparr>) (db_projects s)"
    and "db_environments s' = map (versioned c) (update_where e_org T (\<lambda>e. e_project e = pid \<and> e_deleted e = None)
       (\<lambda>e. e\<lparr>e_deleted := Some (service_now T), e_deleted_by_project := Some (service_now T), e_updated := tx_now T\<rparr>) (db_environments s))"
    and "db_secrets s' = update_where s_org T (\<lambda>r. s_project r = pid \<and> s_deleted r = None)
       (\<lambda>r. r\<lparr>s_deleted := Some (service_now T), s_deleted_by_project := Some (service_now T), s_updated := tx_now T\<rparr>) (db_secrets s)"
    and "db_versions s' = db_versions s"
proof -
  obtain r t t1 v where r: "find (\<lambda>r. p_id r = pid \<and> p_deleted r = None) (visible p_org T (db_projects s)) = Some r"
    "permitted T u (Some pid) False Project_delete s"
    and down: "take_down_project T pid (service_now T) (service_now T + window) s = Inr ((), t)"
    and rec: "record_in_transaction T ((project_event T u Project_deleted pid)
        \<lparr>event_after := Some [(''recoveryEndsAt'', JStr (isoText (service_now T + window)))]\<rparr>) t = Inr ((), s')"
    using assms by (auto simp: delete_project_def op_simps get_project_Inr permit_Inr Let_def)
  show thesis
    apply (rule take_down_project_rows[OF down])
    subgoal for c by (rule that[OF r, of c]) (simp_all add: record_rows[OF rec])
    done
qed

lemma restore_project_rows:
  assumes "restore_project T u pid s = Inr (view, s')"
  obtains c r d where
    "find (\<lambda>r. p_id r = pid) (visible p_org T (db_projects s)) = Some r" and "p_deleted r = Some d"
    and "permitted T u (Some pid) False Project_delete s"
    and "\<exists>w. p_purge_after r = Some w \<and> service_now T < to_date w"
    and "db_projects s' = update_where p_org T (\<lambda>r. p_id r = pid)
       (\<lambda>r. r\<lparr>p_deleted := None, p_purge_after := None, p_updated := tx_now T\<rparr>) (db_projects s)"
    and "db_environments s' = map (versioned c) (update_where e_org T
       (\<lambda>e. e_project e = pid \<and> e_deleted_by_project e = Some (to_date d))
       (\<lambda>e. e\<lparr>e_deleted := None, e_deleted_by_project := None, e_updated := tx_now T\<rparr>) (db_environments s))"
    and "db_secrets s' = update_where s_org T (\<lambda>r. s_project r = pid \<and> s_deleted_by_project r = Some (to_date d))
       (\<lambda>r. r\<lparr>s_deleted := None, s_deleted_by_project := None, s_updated := tx_now T\<rparr>) (db_secrets s)"
    and "db_versions s' = db_versions s"
proof -
  obtain v where g: "get_project T u pid True s = Inr (v, s)" and p: "permitted T u (Some pid) False Project_delete s"
    and rest: "(case (pv_deleted v, pv_purge_after v) of
        (Some deletedAt, Some purgeAfter) \<Rightarrow>
          andthen (check (service_now T < purgeAfter) (Project_error Project_recovery_expired))
         (andthen (bring_back_project T pid deletedAt)
         (bind (get_project T u pid False) (\<lambda>restored.
          andthen (record_in_transaction T (project_event T u Project_restored pid))
          (ret restored))))
      | _ \<Rightarrow> throw project_missing) s = Inr (view, s')"
    using assms by (auto simp: restore_project_def op_simps get_project_Inr permit_Inr simp del: option.case)
  obtain r where r: "find (\<lambda>r. p_id r = pid) (visible p_org T (db_projects s)) = Some r"
    "project_from_row T s r = Inr v" using g by (auto simp: get_project_Inr)
  obtain d w where dw: "pv_deleted v = Some d" "pv_purge_after v = Some w"
    using rest by (auto simp: op_simps split: option.splits)
  obtain t where now: "service_now T < w" and up: "bring_back_project T pid d s = Inr ((), t)"
    and rec: "record_in_transaction T (project_event T u Project_restored pid) t = Inr ((), s')"
    using rest by (auto simp: dw op_simps get_project_Inr)
  obtain d' where d': "p_deleted r = Some d'" "d = to_date d'" using dw(1) project_fields(4)[OF r(2)] by auto
  have w: "\<exists>w. p_purge_after r = Some w \<and> service_now T < to_date w" using dw(2) now project_fields(5)[OF r(2)] by auto
  show thesis
    apply (rule bring_back_project_rows[OF up])
    subgoal for c by (rule that[OF r(1) d'(1) p w, of c]) (simp_all add: record_rows[OF rec] d'(2))
    done
qed

lemma find_environment_None:
  assumes "\<And>e. e \<in> set (db_environments s) \<Longrightarrow> e_org e = tx_org T \<Longrightarrow> e_project e = pid \<Longrightarrow> e_deleted e \<noteq> None"
  shows "find_environment T pid i s = None"
proof -
  have "filter (\<lambda>e. e_id e = i \<and> e_project e = pid \<and> e_deleted e = None) (visible e_org T (db_environments s)) = []"
    using assms by (auto simp: filter_empty_conv)
  then show ?thesis unfolding find_environment_def by (simp add: first_row_def)
qed

lemma taken_down:
  assumes "r \<in> set (update_where org T P f rs)" and "org r = tx_org T" and "in' r"
    and "\<And>q. org q = tx_org T \<Longrightarrow> in' q \<Longrightarrow> \<not> P q \<Longrightarrow> gone q" and "\<And>q. P q \<Longrightarrow> gone (f q)"
  shows "gone r"
  using assms(1) by (rule update_whereE) (use assms(2-) in \<open>auto split: if_splits\<close>)

lemma plain_same:
  "p_deleted p = None \<Longrightarrow> p_purge_after p = None \<Longrightarrow>
     plain_project (p\<lparr>p_deleted := None, p_purge_after := None, p_updated := i\<rparr>) = plain_project p"
  "e_deleted e = None \<Longrightarrow> e_deleted_by_project e = None \<Longrightarrow>
     plain_environment (e\<lparr>e_deleted := None, e_deleted_by_project := None, e_updated := i\<rparr>) = plain_environment e"
  "s_deleted r = None \<Longrightarrow> s_deleted_by_project r = None \<Longrightarrow>
     plain_secret (r\<lparr>s_deleted := None, s_deleted_by_project := None, s_updated := i\<rparr>) = plain_secret r"
  by (cases p, simp add: plain_project_def, cases e, simp add: plain_environment_def, cases r, simp add: plain_secret_def)

lemma delete_project_dark:
  assumes del: "delete_project isoText window T u pid s = Inr (view, s1)"
  shows "dark T pid s1"
  unfolding dark_def
proof -
  let ?d = "service_now T"
  obtain c where
    E1: "db_environments s1 = map (versioned c) (update_where e_org T (\<lambda>e. e_project e = pid \<and> e_deleted e = None)
       (\<lambda>e. e\<lparr>e_deleted := Some ?d, e_deleted_by_project := Some ?d, e_updated := tx_now T\<rparr>) (db_environments s))"
    and S1: "db_secrets s1 = update_where s_org T (\<lambda>r. s_project r = pid \<and> s_deleted r = None)
       (\<lambda>r. r\<lparr>s_deleted := Some ?d, s_deleted_by_project := Some ?d, s_updated := tx_now T\<rparr>) (db_secrets s)"
    by (rule delete_project_rows[OF del]) (rule that; assumption)
  show "(\<forall>environmentId. find_environment T pid environmentId s1 = None)
     \<and> (\<forall>r\<in>set (db_secrets s1). s_org r = tx_org T \<and> s_project r = pid \<longrightarrow> s_deleted r \<noteq> None)"
  proof (intro conjI allI ballI impI)
    show "find_environment T pid i s1 = None" for i
    proof (rule find_environment_None)
      fix e assume "e \<in> set (db_environments s1)" "e_org e = tx_org T" "e_project e = pid"
      then obtain e' where e': "e' \<in> set (update_where e_org T (\<lambda>e. e_project e = pid \<and> e_deleted e = None)
         (\<lambda>e. e\<lparr>e_deleted := Some ?d, e_deleted_by_project := Some ?d, e_updated := tx_now T\<rparr>) (db_environments s))"
        "e_org e' = tx_org T" "e_project e' = pid" "e_deleted e = e_deleted e'"
        unfolding E1 by (auto simp: versioned_def)
      have "e_deleted e' \<noteq> None"
        using e'(1,2) by (rule taken_down[of _ e_org T _ _ _ "\<lambda>e. e_project e = pid"]) (use e'(3) in auto)
      then show "e_deleted e \<noteq> None" using e'(4) by simp
    qed
    show "s_deleted r \<noteq> None" if "r \<in> set (db_secrets s1)" "s_org r = tx_org T \<and> s_project r = pid" for r
      using that(1) unfolding S1 by (rule taken_down[of _ s_org T _ _ _ "\<lambda>r. s_project r = pid"]) (use that(2) in auto)
  qed
qed

lemma dark_unreadable:
  assumes "dark T pid s" and "versions_ok s" and "secret_place r \<in> secret_place ` set (db_secrets s)" and "s_project r = pid"
  shows "get_secret T u (s_id r) s = Inl not_found"
proof (rule get_secret_missing)
  obtain q where q: "q \<in> set (db_secrets s)" "s_id q = s_id r" "s_project q = pid"
    using assms(3,4) by (auto simp: secret_place_def)
  fix y assume y: "y \<in> set (db_secrets s)" "s_org y = tx_org T"
  show "\<not> is_active_secret (s_id r) y"
    using assms(1) y q secret_identified[OF assms(2) y(1) q(1)] by (auto simp: dark_def is_active_secret_def)
qed

lemma restored_rows:
  assumes del: "delete_project isoText window T u pid s = Inr (view, s1)"
    and res: "restore_project T' u' pid s1 = Inr (view', s2)" and org: "tx_org T' = tx_org T"
    and ids: "distinct (map p_id (db_projects s))"
    and alive: "\<forall>p\<in>set (db_projects s). p_deleted p = None \<longrightarrow> p_purge_after p = None"
    and clean: "\<forall>e\<in>set (db_environments s). e_project e = pid \<longrightarrow> e_deleted_by_project e = None"
      "\<forall>r\<in>set (db_secrets s). s_project r = pid \<longrightarrow> s_deleted_by_project r = None"
  shows "map plain_project (db_projects s2) = map plain_project (db_projects s)"
    and "map plain_environment (db_environments s2) = map plain_environment (db_environments s)"
    and "map plain_secret (db_secrets s2) = map plain_secret (db_secrets s)"
    and "db_versions s2 = db_versions s"
proof -
  let ?d = "service_now T"
  obtain c p where p: "find (\<lambda>r. p_id r = pid \<and> p_deleted r = None) (visible p_org T (db_projects s)) = Some p"
    and P1: "db_projects s1 = update_where p_org T (\<lambda>r. p_id r = pid \<and> p_deleted r = None)
       (\<lambda>r. r\<lparr>p_deleted := Some ?d, p_purge_after := Some (?d + window), p_updated := tx_now T\<rparr>) (db_projects s)"
    and E1: "db_environments s1 = map (versioned c) (update_where e_org T (\<lambda>e. e_project e = pid \<and> e_deleted e = None)
       (\<lambda>e. e\<lparr>e_deleted := Some ?d, e_deleted_by_project := Some ?d, e_updated := tx_now T\<rparr>) (db_environments s))"
    and S1: "db_secrets s1 = update_where s_org T (\<lambda>r. s_project r = pid \<and> s_deleted r = None)
       (\<lambda>r. r\<lparr>s_deleted := Some ?d, s_deleted_by_project := Some ?d, s_updated := tx_now T\<rparr>) (db_secrets s)"
    and V1: "db_versions s1 = db_versions s"
    by (rule delete_project_rows[OF del]) (rule that; assumption)
  obtain c' q d where q: "find (\<lambda>r. p_id r = pid) (visible p_org T' (db_projects s1)) = Some q" "p_deleted q = Some d"
    and P2: "db_projects s2 = update_where p_org T' (\<lambda>r. p_id r = pid)
       (\<lambda>r. r\<lparr>p_deleted := None, p_purge_after := None, p_updated := tx_now T'\<rparr>) (db_projects s1)"
    and E2: "db_environments s2 = map (versioned c') (update_where e_org T'
       (\<lambda>e. e_project e = pid \<and> e_deleted_by_project e = Some (to_date d))
       (\<lambda>e. e\<lparr>e_deleted := None, e_deleted_by_project := None, e_updated := tx_now T'\<rparr>) (db_environments s1))"
    and S2: "db_secrets s2 = update_where s_org T' (\<lambda>r. s_project r = pid \<and> s_deleted_by_project r = Some (to_date d))
       (\<lambda>r. r\<lparr>s_deleted := None, s_deleted_by_project := None, s_updated := tx_now T'\<rparr>) (db_secrets s1)"
    and V2: "db_versions s2 = db_versions s1"
    by (rule restore_project_rows[OF res]) (rule that; assumption)
  have only: "x = p" if "x \<in> set (db_projects s)" "p_id x = pid" for x
    using find_SomeD[OF p] that distinct_map_eq[OF ids] by auto
  have "q \<in> set (db_projects s1)" "p_id q = pid" using find_SomeD[OF q(1)] by auto
  then obtain x where x: "x \<in> set (db_projects s)"
    "q = (if p_org x = tx_org T \<and> p_id x = pid \<and> p_deleted x = None
          then x\<lparr>p_deleted := Some ?d, p_purge_after := Some (?d + window), p_updated := tx_now T\<rparr> else x)"
    unfolding P1 by (auto elim: update_whereE)
  moreover from this have "x = p" using only[of x] \<open>p_id q = pid\<close> by (simp split: if_splits)
  ultimately have "d = ?d" using q(2) find_SomeD[OF p] by simp
  then have d: "to_date d = ?d" by simp
  show "map plain_project (db_projects s2) = map plain_project (db_projects s)"
    unfolding P2 P1
  proof (rule update_where_undone)
    fix r assume "r \<in> set (db_projects s)" "p_org r = tx_org T" "p_id r = pid \<and> p_deleted r = None"
    then show "p_org (r\<lparr>p_deleted := Some ?d, p_purge_after := Some (?d + window), p_updated := tx_now T\<rparr>) = tx_org T
      \<and> p_id (r\<lparr>p_deleted := Some ?d, p_purge_after := Some (?d + window), p_updated := tx_now T\<rparr>) = pid
      \<and> plain_project (r\<lparr>p_deleted := Some ?d, p_purge_after := Some (?d + window), p_updated := tx_now T\<rparr>
          \<lparr>p_deleted := None, p_purge_after := None, p_updated := tx_now T'\<rparr>) = plain_project r"
      using alive plain_same(1)[of r] by simp
  next
    show "\<not> p_id r = pid" if "r \<in> set (db_projects s)" "\<not> (p_id r = pid \<and> p_deleted r = None)" for r
      using only[OF that(1)] find_SomeD[OF p] that(2) by blast
  qed (rule org)
  show "map plain_environment (db_environments s2) = map plain_environment (db_environments s)"
  proof -
    have "map plain_environment (db_environments s2) = map plain_environment (update_where e_org T'
       (\<lambda>e. e_project e = pid \<and> e_deleted_by_project e = Some ?d)
       (\<lambda>e. e\<lparr>e_deleted := None, e_deleted_by_project := None, e_updated := tx_now T'\<rparr>)
       (update_where e_org T (\<lambda>e. e_project e = pid \<and> e_deleted e = None)
         (\<lambda>e. e\<lparr>e_deleted := Some ?d, e_deleted_by_project := Some ?d, e_updated := tx_now T\<rparr>) (db_environments s)))"
      unfolding E2 E1 d plain_map_versioned
      by (rule plain_update_versioned) (simp_all add: versioned_def plain_environment_def)
    also have "\<dots> = map plain_environment (db_environments s)"
      by (rule update_where_undone) (use clean(1) org plain_same(2) in auto)
    finally show ?thesis .
  qed
  show "map plain_secret (db_secrets s2) = map plain_secret (db_secrets s)"
    unfolding S2 S1 d by (rule update_where_undone) (use clean(2) org plain_same(3) in auto)
  show "db_versions s2 = db_versions s" using V1 V2 by simp
qed

text \<open>
  C17: project recovery. Deleting a project hides it entirely: no environment of it is found and every
  secret of it reads as not found. Restoring it within the recovery window, by any permitted member,
  brings back the project, its environments and its secrets exactly as they were, apart from the
  instants of the last update and the configuration versions, which only grow; what had been deleted
  before the project stays deleted, and no secret version is lost.
\<close>
theorem project_recovery:
  assumes del: "delete_project isoText window T u pid s = Inr (view, s1)"
    and res: "restore_project T' u' pid s1 = Inr (view', s2)" and org: "tx_org T' = tx_org T"
    and ok: "versions_ok s" and ids: "distinct (map p_id (db_projects s))"
    and alive: "\<forall>p\<in>set (db_projects s). p_deleted p = None \<longrightarrow> p_purge_after p = None"
    and clean: "\<forall>e\<in>set (db_environments s). e_project e = pid \<longrightarrow> e_deleted_by_project e = None"
      "\<forall>r\<in>set (db_secrets s). s_project r = pid \<longrightarrow> s_deleted_by_project r = None"
  shows "dark T pid s1
    \<and> (\<forall>r\<in>set (db_secrets s). s_project r = pid \<longrightarrow> get_secret T u'' (s_id r) s1 = Inl not_found)
    \<and> map plain_project (db_projects s2) = map plain_project (db_projects s)
    \<and> map plain_environment (db_environments s2) = map plain_environment (db_environments s)
    \<and> map plain_secret (db_secrets s2) = map plain_secret (db_secrets s)
    \<and> db_versions s2 = db_versions s \<and> config_kept s s2"
proof -
  note rows = restored_rows[OF del res org ids alive clean] and dark = delete_project_dark[OF del]
  have st: "tenant_step (tx_org T) s s1" "tenant_step (tx_org T) s1 s2"
    using obeysD[OF obeys_delete_project del] obeysD[OF obeys_restore_project res] org by simp_all
  then have "config_kept s s2" "versions_ok s1"
    using ok config_kept_trans[of s s1 s2] by (auto simp: tenant_step_def)
  moreover have "secret_place r \<in> secret_place ` set (db_secrets s1)" if "r \<in> set (db_secrets s)" for r
    using st(1) that by (auto simp: tenant_step_def)
  ultimately show ?thesis using rows dark dark_unreadable[OF dark] by blast
qed


text \<open>A state whose members are those of the vault: the owner \<open>u\<close> may do anything in it.\<close>

definition staffed :: "db \<Rightarrow> bool" where
  "staffed s \<longleftrightarrow> db_memberships s = db_memberships demo_db \<and> db_overrides s = []"

lemma owner_allowed:
  "allowed (authorize \<lparr>org_role = Owner, project_role = None, protected_environment = Some b\<rparr> p)"
proof -
  have "p \<in> set (permission_matrix Owner)" by (cases p) (simp_all add: permission_matrix_def)
  then show ?thesis by (simp add: authorize_def Let_def effective_role_def)
qed

lemma owner_permitted:
  assumes "staffed s"
  shows "permitted demo_tx ''u'' pid prot p s"
proof -
  have "find (active_membership ''u'') (visible m_org demo_tx (db_memberships s)) = Some (demo_membership ''u'' Owner)"
    "visible ov_org demo_tx (db_overrides s) = []"
    using assms by (simp_all add: staffed_def demo_db_def visible_def demo_tx_def demo_membership_def active_membership_def)
  then show ?thesis
    using owner_allowed[of prot p] by (simp add: permitted_def context_at_def demo_membership_def split: option.split)
qed

lemma demo_get_project:
  assumes "staffed s" and "db_projects s = [r]" and "p_org r = ''o''" and "p_default_environments r = []"
    and "p_id r = pid" and "incl \<or> p_deleted r = None"
  obtains v where "get_project demo_tx ''u'' pid incl s = Inr (v, s)"
    and "pv_deleted v = map_option to_date (p_deleted r)" and "pv_purge_after v = map_option to_date (p_purge_after r)"
proof -
  have "validate_default_environments None = Inr [''development'', ''staging'', ''production'']" by code_simp
  then obtain v where v: "project_from_row demo_tx s r = Inr v"
    using assms(4) by (simp add: project_from_row_def and_ok_def)
  have "find (\<lambda>r. p_id r = pid \<and> (incl \<or> p_deleted r = None)) (visible p_org demo_tx (db_projects s)) = Some r"
    using assms by (simp add: visible_def)
  then have "get_project demo_tx ''u'' pid incl s = Inr (v, s)"
    using v owner_permitted[OF assms(1)] by (auto simp: get_project_Inr)
  then show thesis using that project_fields(4,5)[OF v] by blast
qed

lemma demo_record:
  assumes "audit_ok s" and "validate_event ev = Inr ()" and "event_org ev = ''o''" and "length (event_resource_type ev) \<le> 80"
    and "pred_option small_object (event_before ev)" and "pred_option small_object (event_after ev)"
    and "pred_option small_object (event_details ev)"
  obtains f where "record_in_transaction demo_tx ev s = Inr ((), db_audit_update f s)"
proof -
  obtain md where "metadata_for ev = Inr md" using metadata_for_small assms(5-) by blast
  then show thesis using record_succeeds[of s ev demo_tx md] assms that by simp
qed

lemma updated_secrets_staffed [simp]:
  "staffed (updated_secrets T P f s) = staffed s" "db_projects (updated_secrets T P f s) = db_projects s"
  "db_audit (updated_secrets T P f s) = db_audit s"
  by (simp_all add: updated_secrets_def staffed_def)

lemma staffed_frame [simp]:
  "staffed (db_audit_update f s) = staffed s" "staffed (db_projects_update g s) = staffed s"
  "staffed (db_environments_update h s) = staffed s"
  by (simp_all add: staffed_def)

definition demo_deleted :: project_row where
  "demo_deleted = demo_project\<lparr>p_deleted := Some 5000, p_purge_after := Some 6000, p_updated := 5000\<rparr>"

lemma demo_delete:
  obtains view s1 where "delete_project (\<lambda>_. ''soon'') 1000 demo_tx ''u'' ''p'' demo_vault = Inr (view, s1)"
    and "staffed s1" and "db_projects s1 = [demo_deleted]" and "audit_ok s1"
proof -
  have v: "staffed demo_vault" "db_projects demo_vault = [demo_project]"
    by (simp_all add: staffed_def demo_vault_def demo_db_def empty_db_def)
  have now: "service_now demo_tx = 5000" "tx_now demo_tx = 5000" by (simp_all add: service_now_def demo_tx_def to_date_def)
  obtain v0 where g: "get_project demo_tx ''u'' ''p'' False demo_vault = Inr (v0, demo_vault)"
    by (rule demo_get_project[OF v]) (simp_all add: demo_project_def)
  obtain t where t: "take_down_project demo_tx ''p'' 5000 6000 demo_vault = Inr ((), t)" "staffed t" "db_projects t = [demo_deleted]"
      "db_audit t = db_audit demo_vault"
    using v now by (simp add: take_down_project_def op_simps update_rows_def update_secrets_Inr update_where_def
        demo_deleted_def demo_project_def)
  obtain v1 where g1: "get_project demo_tx ''u'' ''p'' True t = Inr (v1, t)"
    by (rule demo_get_project[OF t(2,3)]) (simp_all add: demo_deleted_def demo_project_def)
  let ?ev = "(project_event demo_tx ''u'' Project_deleted ''p'')\<lparr>event_after := Some [(''recoveryEndsAt'', JStr ''soon'')]\<rparr>"
  have small: "small_object [(''recoveryEndsAt'', JStr ''soon'')]" by code_simp
  have "audit_ok t" using t(4) demo_vault_ok(3) by (simp add: audit_ok_def)
  then obtain f where rec: "record_in_transaction demo_tx ?ev t = Inr ((), db_audit_update f t)"
    by (rule demo_record[where ev = ?ev])
      (simp_all add: project_event_def user_event_def validate_event_def starts_with_def small)
  have del: "delete_project (\<lambda>_. ''soon'') 1000 demo_tx ''u'' ''p'' demo_vault = Inr (v1, db_audit_update f t)"
    using g g1 t(1) rec owner_permitted[OF v(1)] by (simp add: delete_project_def op_simps now permit_Inr Let_def)
  moreover have "audit_ok (db_audit_update f t)"
    using obeysD[OF obeys_delete_project del] by (simp add: tenant_step_def)
  ultimately show thesis using that t(2,3) by simp
qed

lemma demo_restore:
  assumes "staffed s1" and "db_projects s1 = [demo_deleted]" and "audit_ok s1"
  obtains view s2 where "restore_project demo_tx ''u'' ''p'' s1 = Inr (view, s2)"
proof -
  have now: "service_now demo_tx = 5000" "to_date 6000 = 6000" "to_date 5000 = 5000"
    by (simp_all add: service_now_def demo_tx_def to_date_def)
  obtain v0 where g: "get_project demo_tx ''u'' ''p'' True s1 = Inr (v0, s1)" "pv_deleted v0 = Some 5000" "pv_purge_after v0 = Some 6000"
    by (rule demo_get_project[OF assms(1,2)]) (simp_all add: demo_deleted_def demo_project_def now)
  obtain t r where t: "bring_back_project demo_tx ''p'' 5000 s1 = Inr ((), t)" "staffed t" "db_projects t = [r]"
      "p_org r = ''o''" "p_default_environments r = []" "p_id r = ''p''" "p_deleted r = None" "audit_ok t"
    using assms by (simp add: bring_back_project_def op_simps update_rows_def update_secrets_Inr update_where_def
        demo_deleted_def demo_project_def audit_ok_def)
  obtain v1 where g1: "get_project demo_tx ''u'' ''p'' False t = Inr (v1, t)"
    by (rule demo_get_project[OF t(2-6)]) (simp_all add: t)
  obtain f where rec: "record_in_transaction demo_tx (project_event demo_tx ''u'' Project_restored ''p'') t = Inr ((), db_audit_update f t)"
    by (rule demo_record[OF t(8), where ev = "project_event demo_tx ''u'' Project_restored ''p''"])
      (simp_all add: project_event_def user_event_def validate_event_def starts_with_def small_object_def)
  have "restore_project demo_tx ''u'' ''p'' s1 = Inr (v1, db_audit_update f t)"
    using g g1 t(1) rec owner_permitted[OF assms(1)] by (simp add: restore_project_def op_simps now permit_Inr)
  then show thesis using that by blast
qed

theorem project_recovery_witness:
  "\<exists>view s1 view' s2. delete_project (\<lambda>_. ''soon'') 1000 demo_tx ''u'' ''p'' demo_vault = Inr (view, s1)
     \<and> restore_project demo_tx ''u'' ''p'' s1 = Inr (view', s2)
     \<and> dark demo_tx ''p'' s1 \<and> map plain_secret (db_secrets s2) = map plain_secret [demo_secret]"
proof -
  obtain view s1 where del: "delete_project (\<lambda>_. ''soon'') 1000 demo_tx ''u'' ''p'' demo_vault = Inr (view, s1)"
    and s1: "staffed s1" "db_projects s1 = [demo_deleted]" "audit_ok s1" by (rule demo_delete)
  obtain view' s2 where res: "restore_project demo_tx ''u'' ''p'' s1 = Inr (view', s2)" by (rule demo_restore[OF s1])
  have "distinct (map p_id (db_projects demo_vault))"
    "\<forall>p\<in>set (db_projects demo_vault). p_deleted p = None \<longrightarrow> p_purge_after p = None"
    "\<forall>e\<in>set (db_environments demo_vault). e_project e = ''p'' \<longrightarrow> e_deleted_by_project e = None"
    "\<forall>r\<in>set (db_secrets demo_vault). s_project r = ''p'' \<longrightarrow> s_deleted_by_project r = None" by code_simp+
  from project_recovery[OF del res refl demo_vault_ok(2) this] show ?thesis using del res by auto
qed

end
