(* ===== verification/Environment_Facts.thy ===== *)
theory Environment_Facts
  imports Lifecycle_Facts
begin

text \<open>
  Properties of the environments of a project: the order a reordering yields, the environments a new
  project starts with, and that no sequence of environment operations leaves a project without one.
\<close>

section \<open>Sorting by display order\<close>

lemma sorted_insert_by:
  assumes total: "\<And>a b. le a b \<or> le b a" and trans: "\<And>a b c. le a b \<Longrightarrow> le b c \<Longrightarrow> le a c"
  shows "sorted_wrt le ys \<Longrightarrow> sorted_wrt le (insert_by le x ys)"
proof (induction ys)
  case (Cons y ys)
  show ?case
  proof (cases "le x y")
    case True
    then show ?thesis using Cons.prems trans by (auto intro: trans)
  next
    case False
    then have "le y x" using total by blast
    then show ?thesis using Cons False by simp
  qed
qed simp

lemma sorted_sort_by:
  assumes "\<And>a b. le a b \<or> le b a" and "\<And>a b c. le a b \<Longrightarrow> le b c \<Longrightarrow> le a c"
  shows "sorted_wrt le (sort_by le xs)"
  by (induction xs) (simp_all add: sorted_insert_by[OF assms])

lemma sort_by_sorted: "sorted_wrt le xs \<Longrightarrow> sort_by le xs = xs"
proof (induction xs)
  case (Cons x xs)
  then show ?case by (cases xs) auto
qed simp

lemma order_le_total: "order_le a b \<or> order_le b a"
  by (auto simp: order_le_def)

lemma order_le_trans: "order_le a b \<Longrightarrow> order_le b c \<Longrightarrow> order_le a c"
  by (auto simp: order_le_def split: if_splits)

lemma active_environments_sorted: "sorted_wrt order_le (active_environments T pid s)"
  unfolding active_environments_def by (rule sorted_sort_by[OF order_le_total order_le_trans])

lemma order_of_nth: "distinct ids \<Longrightarrow> i < length ids \<Longrightarrow> order_of ids (ids ! i) = int i"
proof -
  assume d: "distinct ids" and i: "i < length ids"
  have "takeWhile (\<lambda>j. j \<noteq> ids ! i) ids = take i ids"
    using d i by (intro takeWhile_eq_take_P_nth) (auto simp: nth_eq_iff_index_eq)
  then show ?thesis using i by (simp add: order_of_def)
qed

text \<open>Rows whose order is their place in \<open>ids\<close>, sorted by order, are in the order of \<open>ids\<close>.\<close>

lemma sorted_by_place:
  assumes "sorted_wrt order_le es" and d: "distinct ids" and p: "distinct (map e_id es)" "set (map e_id es) = set ids"
    and o: "\<forall>e\<in>set es. e_order e = order_of ids (e_id e)"
  shows "map e_id es = ids" and "map e_order es = map int [0..<length ids]"
proof -
  have ids: "set ids = (\<lambda>i. ids ! i) ` {..<length ids}" by (auto simp: set_conv_nth)
  have "order_of ids ` set ids = int ` {..<length ids}"
    by (subst ids, unfold image_image, rule image_cong[OF refl]) (simp add: order_of_nth[OF d])
  moreover have "set (map e_order es) = order_of ids ` set (map e_id es)"
    unfolding set_map image_image by (rule image_cong[OF refl]) (use o in simp)
  ultimately have s: "set (map e_order es) = set (map int [0..<length ids])"
    unfolding p(2) by (simp add: atLeast0LessThan)
  have inj: "inj_on (order_of ids) (set ids)"
    by (rule inj_onI) (metis d in_set_conv_nth of_nat_eq_iff order_of_nth)
  have "map e_order es = map (order_of ids) (map e_id es)" using o by simp
  then have "distinct (map e_order es)" using p inj by (metis distinct_map)
  moreover have "sorted (map e_order es)"
    using assms(1) by (auto simp: sorted_wrt_map order_le_def elim!: sorted_wrt_mono_rel[rotated] split: if_splits)
  moreover have "sorted (map int [0..<length ids])" "distinct (map int [0..<length ids])"
    by (simp_all add: sorted_wrt_map distinct_map)
  ultimately show orders: "map e_order es = map int [0..<length ids]"
    using s by (intro sorted_distinct_set_unique) simp_all
  have len: "length es = length ids" using arg_cong[OF orders, of length] by simp
  show "map e_id es = ids"
  proof (rule nth_equalityI)
    fix i assume i: "i < length (map e_id es)"
    then have n: "i < length es" "i < length ids" using len by simp_all
    have "order_of ids (e_id (es ! i)) = int i"
      using o n arg_cong[OF orders, of "\<lambda>xs. xs ! i"] by simp
    moreover have "e_id (es ! i) \<in> set ids" using p(2) n(1) by (metis length_map nth_map nth_mem)
    ultimately have "e_id (es ! i) = ids ! i"
      using inj_onD[OF inj, of "e_id (es ! i)" "ids ! i"] order_of_nth[OF d n(2)] n(2) by simp
    then show "map e_id es ! i = ids ! i" using n by simp
  qed (simp add: len)
qed

section \<open>Reordering\<close>

lemma reorder_Inr:
  assumes "reorder_environments T u pid ids s = Inr (views, s')"
  defines "cur \<equiv> filter (in_project pid) (visible e_org T (db_environments s))"
  shows "distinct ids" and "length cur = length ids" and "\<forall>e\<in>set cur. e_id e \<in> set ids"
    and "permitted T u (Some pid) (list_ex e_protected cur) Environment_update s"
    and "db_environments s' = update_where e_org T (\<lambda>e. e_id e \<in> set ids \<and> in_project pid e)
       (\<lambda>e. e\<lparr>e_order := order_of ids (e_id e), e_updated := tx_now T\<rparr>) (db_environments s)"
    and "views = map environment_from_row (active_environments T pid s')"
    and "length (db_audit s') = Suc (length (db_audit s))"
proof -
  show "permitted T u (Some pid) (list_ex e_protected cur) Environment_update s"
    using assms by (cases "list_ex e_protected cur")
      (auto simp: reorder_environments_def op_simps permit_Inr require_active_project_Inr select_rows_def)
  obtain t where c: "distinct ids" "length cur = length ids" "\<forall>e\<in>set cur. e_id e \<in> set ids"
    and pl: "place_environments T pid ids s = Inr ((), t)"
    and rec: "record_in_transaction T ((project_event T u Environment_reordered pid)
        \<lparr>event_after := Some [(''environmentIds'', json_texts ids)]\<rparr>) t = Inr ((), s')"
    and l: "views = map environment_from_row (active_environments T pid s')"
    using assms
    by (auto simp: reorder_environments_def list_environments_def op_simps permit_Inr require_active_project_Inr
        select_rows_def split: if_splits)
  have "db_environments t = update_where e_org T (\<lambda>e. e_id e \<in> set ids \<and> in_project pid e)
       (\<lambda>e. e\<lparr>e_order := order_of ids (e_id e), e_updated := tx_now T\<rparr>) (db_environments s)" "db_audit t = db_audit s"
    using pl by (auto simp: place_environments_def update_rows_def op_simps)
  then show "db_environments s' = update_where e_org T (\<lambda>e. e_id e \<in> set ids \<and> in_project pid e)
       (\<lambda>e. e\<lparr>e_order := order_of ids (e_id e), e_updated := tx_now T\<rparr>) (db_environments s)"
    "length (db_audit s') = Suc (length (db_audit s))"
    using record_rows(1)[OF rec] record_audit[OF rec] by auto
  show "distinct ids" by (rule c)
  show "length cur = length ids" by (rule c)
  show "\<forall>e\<in>set cur. e_id e \<in> set ids" by (rule c)
  show "views = map environment_from_row (active_environments T pid s')" by (rule l)
qed

text \<open>
  Reordering. A successful reordering took the permission to update environments, in a protected
  context when any active environment of the project is protected; it was given every active
  environment exactly once; the list it returns, and the order stored, is exactly the order asked for;
  and it leaves one event.
\<close>
theorem reorder_takes_effect:
  assumes run: "reorder_environments T u pid ids s = Inr (views, s')"
    and key: "distinct (map e_id (db_environments s))"
  shows "map vw_id views = ids \<and> map vw_order views = map int [0..<length ids]
    \<and> set ids = e_id ` {e \<in> set (db_environments s). e_org e = tx_org T \<and> in_project pid e}
    \<and> permitted T u (Some pid) (\<exists>e\<in>set (db_environments s). e_org e = tx_org T \<and> in_project pid e \<and> e_protected e)
        Environment_update s
    \<and> length (db_audit s') = Suc (length (db_audit s))"
proof -
  let ?cur = "filter (in_project pid) (visible e_org T (db_environments s))"
  let ?f = "\<lambda>e. e\<lparr>e_order := order_of ids (e_id e), e_updated := tx_now T\<rparr>"
  note r = reorder_Inr[OF run]
  have dc: "distinct (map e_id ?cur)"
    using key by (simp add: visible_def distinct_map_filter)
  have "set (map e_id ?cur) \<subseteq> set ids" using r(3) by auto
  moreover have "card (set (map e_id ?cur)) = card (set ids)"
    using r(2) distinct_card[OF dc] distinct_card[OF r(1)] by simp
  ultimately have ids: "set (map e_id ?cur) = set ids" by (intro card_subset_eq) simp_all
  have active: "filter (in_project pid) (visible e_org T (db_environments s')) = map ?f ?cur"
  proof -
    have "filter (in_project pid) (visible e_org T (update_where e_org T (\<lambda>e. e_id e \<in> set ids \<and> in_project pid e) ?f es))
        = map ?f (filter (in_project pid) (visible e_org T es))"
      if "\<forall>e\<in>set (filter (in_project pid) (visible e_org T es)). e_id e \<in> set ids" for es
      using that by (induction es) (auto simp: update_where_def visible_def in_project_def)
    then show ?thesis unfolding r(5) using r(3) by blast
  qed
  let ?es = "active_environments T pid s'"
  have m: "set ?es = ?f ` set ?cur" "distinct (map e_id ?es) = distinct (map e_id (map ?f ?cur))"
    unfolding active_environments_def in_project_def[symmetric, abs_def] using active by (simp_all add: in_project_def[abs_def])
  have o: "\<forall>e\<in>set ?es. e_order e = order_of ids (e_id e)" unfolding m by auto
  have "distinct (map e_id ?es)" "set (map e_id ?es) = set ids"
    using m dc ids by (simp_all add: o_def image_image)
  note placed = sorted_by_place[OF active_environments_sorted r(1) this o]
  have "map vw_id views = map e_id ?es" "map vw_order views = map e_order ?es"
    unfolding r(6) by (simp_all add: environment_from_row_def)
  moreover have "set ids = e_id ` {e \<in> set (db_environments s). e_org e = tx_org T \<and> in_project pid e}"
    unfolding ids[symmetric] by (auto simp: visible_def)
  moreover have "list_ex e_protected ?cur = (\<exists>e\<in>set (db_environments s). e_org e = tx_org T \<and> in_project pid e \<and> e_protected e)"
    by (auto simp: list_ex_iff)
  ultimately show ?thesis using r(4,7) placed by simp
qed

section \<open>A project keeps an environment\<close>

text \<open>One successful operation of the service, by any member of the organization at any time.\<close>

inductive environment_step :: "uuid \<Rightarrow> db \<Rightarrow> db \<Rightarrow> bool" for orgId where
  created: "create_environment T u pid name slug prot s = Inr (v, s') \<Longrightarrow> tx_org T = orgId \<Longrightarrow> environment_step orgId s s'"
| updated: "update_environment T u i name' slug' prot s = Inr (v, s') \<Longrightarrow> tx_org T = orgId \<Longrightarrow> environment_step orgId s s'"
| reordered: "reorder_environments T u pid ids s = Inr (vs, s') \<Longrightarrow> tx_org T = orgId \<Longrightarrow> environment_step orgId s s'"
| deleted: "delete_environment isoText window T u i confirmed s = Inr (v, s') \<Longrightarrow> tx_org T = orgId \<Longrightarrow> environment_step orgId s s'"
| restored: "restore_environment T u i s = Inr (v, s') \<Longrightarrow> tx_org T = orgId \<Longrightarrow> environment_step orgId s s'"

definition has_environment :: "uuid \<Rightarrow> uuid \<Rightarrow> environment_row list \<Rightarrow> bool" where
  "has_environment orgId pid es \<longleftrightarrow> distinct (map e_id es) \<and> (\<exists>e\<in>set es. e_org e = orgId \<and> in_project pid e)"

lemma versioned_fields [simp]:
  "e_id (versioned c e) = e_id e" "e_org (versioned c e) = e_org e" "e_project (versioned c e) = e_project e"
  "e_deleted (versioned c e) = e_deleted e" "in_project pid (versioned c e) = in_project pid e"
  by (simp_all add: versioned_def in_project_def)

lemma has_environment_versioned [simp]: "has_environment orgId pid (map (versioned c) es) = has_environment orgId pid es"
  by (simp add: has_environment_def o_def)

lemma has_environment_update:
  assumes h: "has_environment orgId pid es"
    and id: "\<And>e. e_id (f e) = e_id e" and org: "\<And>e. e_org (f e) = e_org e"
    and keeps: "\<And>e. in_project pid e \<Longrightarrow> in_project pid (f e)"
  shows "has_environment orgId pid (update_where e_org T P f es)"
proof -
  let ?g = "\<lambda>e. if e_org e = tx_org T \<and> P e then f e else e"
  have ids: "map e_id (update_where e_org T P f es) = map e_id es"
    unfolding update_where_def by (simp add: id)
  obtain e where "e \<in> set es" "e_org e = orgId" "in_project pid e" using h by (auto simp: has_environment_def)
  then have "?g e \<in> set (update_where e_org T P f es)" "e_org (?g e) = orgId" "in_project pid (?g e)"
    by (auto simp: update_where_def org keeps)
  then show ?thesis using h ids by (auto simp: has_environment_def)
qed

lemma create_environment_rows:
  assumes "create_environment T u pid name slug prot s = Inr (v, s')"
  shows "\<exists>e. db_environments s' = db_environments s @ [e] \<and> \<not> list_ex (environment_clash e) (db_environments s)"
  using assms
  by (auto simp: create_environment_def op_simps Let_def permit_Inr require_active_project_Inr select_rows_def
      fresh_uuid_def next_draw_def insert_environment_def insert_row_def dest!: record_rows(1))

lemma update_environment_rows:
  assumes "update_environment T u i name slug prot s = Inr (v, s')"
  obtains n sl b where "db_environments s' = update_where e_org T (is_active_environment i)
    (\<lambda>e. e\<lparr>e_name := n, e_slug := sl, e_protected := b, e_updated := tx_now T\<rparr>) (db_environments s)"
  using assms record_rows(1)
  by (fastforce simp: update_environment_def op_simps Let_def permit_Inr get_environment_Inr update_unique_def
      update_rows_def select_rows_def)

lemma delete_environment_rows:
  assumes "delete_environment isoText window T u i confirmed s = Inr (v, s')"
  obtains c e0 where "e0 \<in> set (db_environments s)" and "e_id e0 = i"
    and "1 < length (filter (in_project (e_project e0)) (visible e_org T (db_environments s)))"
    and "db_environments s' = map (versioned c) (update_where e_org T (is_active_environment i)
      (\<lambda>e. e\<lparr>e_deleted := Some (service_now T), e_purge_after := Some (service_now T + window), e_updated := tx_now T\<rparr>)
      (db_environments s))"
proof -
  have "\<exists>e0 t. find (\<lambda>e. e_id e = i \<and> e_deleted e = None) (visible e_org T (db_environments s)) = Some e0
    \<and> 1 < length (filter (in_project (e_project e0)) (visible e_org T (db_environments s)))
    \<and> take_down_environment T i (service_now T) (service_now T + window) s = Inr ((), t)
    \<and> db_environments s' = db_environments t"
    using assms
    by (auto simp: delete_environment_def op_simps Let_def permit_Inr get_environment_Inr select_rows_def
        environment_from_row_def dest!: record_rows(1))
  then obtain e0 t where e0: "find (\<lambda>e. e_id e = i \<and> e_deleted e = None) (visible e_org T (db_environments s)) = Some e0"
    and n: "1 < length (filter (in_project (e_project e0)) (visible e_org T (db_environments s)))"
    and d: "take_down_environment T i (service_now T) (service_now T + window) s = Inr ((), t)"
    and s': "db_environments s' = db_environments t" by blast
  define t0 where "t0 = db_environments_update (update_where e_org T (is_active_environment i)
      (\<lambda>e. e\<lparr>e_deleted := Some (service_now T), e_purge_after := Some (service_now T + window), e_updated := tx_now T\<rparr>)) s"
  let ?P = "\<lambda>r. s_environment r = i \<and> s_deleted r = None"
  let ?f = "\<lambda>r. r\<lparr>s_deleted := Some (service_now T), s_deleted_by_environment := Some (service_now T), s_updated := tx_now T\<rparr>"
  have t: "t = updated_secrets T ?P ?f t0"
    using d by (simp add: take_down_environment_def op_simps update_rows_def update_secrets_Inr t0_def)
  show thesis
    apply (rule updated_secrets_rows[of T ?P ?f t0])
    subgoal for c using find_SomeD[OF e0] by (intro that[OF _ _ n, of c]) (simp_all add: s' t t0_def)
    done
qed

lemma case_some_Inr:
  "(case x of None \<Rightarrow> throw e | Some a \<Rightarrow> f a) s = Inr r \<longleftrightarrow> (\<exists>a. x = Some a \<and> f a s = Inr r)"
  by (cases x) (simp_all add: op_simps)

lemma restore_environment_rows:
  assumes "restore_environment T u i s = Inr (v, s')"
  obtains c P where "db_environments s' = map (versioned c) (update_where e_org T P
      (\<lambda>e. e\<lparr>e_deleted := None, e_purge_after := None, e_updated := tx_now T\<rparr>) (db_environments s))"
proof -
  have "\<exists>d t. bring_back_environment T i d s = Inr ((), t) \<and> db_environments s' = db_environments t"
    using assms
    by (auto simp: restore_environment_def op_simps get_environment_Inr permit_Inr require_active_project_Inr
        select_rows_def case_some_Inr dest!: record_rows(1))
  then obtain d t where b: "bring_back_environment T i d s = Inr ((), t)" and s': "db_environments s' = db_environments t"
    by blast
  let ?Q = "\<lambda>e. e_id e = i \<and> e_deleted e = Some d \<and> e_deleted_by_project e = None"
  define t0 where "t0 = db_environments_update (update_where e_org T ?Q
      (\<lambda>e. e\<lparr>e_deleted := None, e_purge_after := None, e_updated := tx_now T\<rparr>)) s"
  let ?P = "\<lambda>r. s_environment r = i \<and> s_deleted_by_environment r = Some d \<and> s_deleted_by_project r = None"
  let ?f = "\<lambda>r. r\<lparr>s_deleted := None, s_deleted_by_environment := None, s_updated := tx_now T\<rparr>"
  have t: "t = updated_secrets T ?P ?f t0"
    using b by (simp add: bring_back_environment_def op_simps update_rows_def update_secrets_Inr t0_def)
  show thesis
    apply (rule updated_secrets_rows[of T ?P ?f t0])
    subgoal for c by (rule that[of c ?Q]) (simp add: s' t t0_def)
    done
qed

lemma two_environments:
  assumes "distinct (map e_id es)" and "1 < length (filter P es)"
  shows "\<exists>e\<in>set es. P e \<and> e_id e \<noteq> i"
proof (rule ccontr)
  assume none: "\<not> (\<exists>e\<in>set es. P e \<and> e_id e \<noteq> i)"
  have "set (map e_id (filter P es)) \<subseteq> {i}" using none by auto
  then have "card (set (map e_id (filter P es))) \<le> 1" by (metis card_mono finite.emptyI finite.insertI is_singletonI is_singleton_altdef)
  moreover have "distinct (map e_id (filter P es))" using assms(1) by (simp add: distinct_map_filter)
  ultimately show False using assms(2) distinct_card by fastforce
qed

lemma delete_keeps_environment:
  assumes d: "delete_environment isoText window T u i confirmed s = Inr (v, s')"
    and h: "has_environment orgId pid (db_environments s)" and org: "tx_org T = orgId"
  shows "has_environment orgId pid (db_environments s')"
proof -
  let ?f = "\<lambda>e. e\<lparr>e_deleted := Some (service_now T), e_purge_after := Some (service_now T + window), e_updated := tx_now T\<rparr>"
  obtain c e0 where e0: "e0 \<in> set (db_environments s)" "e_id e0 = i"
    and n: "1 < length (filter (in_project (e_project e0)) (visible e_org T (db_environments s)))"
    and E: "db_environments s' = map (versioned c) (update_where e_org T (is_active_environment i) ?f (db_environments s))"
    by (rule delete_environment_rows[OF d]) (rule that; assumption)
  have dist: "distinct (map e_id (db_environments s))" using h by (simp add: has_environment_def)
  obtain e where e: "e \<in> set (db_environments s)" "e_org e = orgId" "in_project pid e" "e_id e \<noteq> i"
  proof (cases "pid = e_project e0")
    case True
    have "distinct (map e_id (visible e_org T (db_environments s)))" using dist by (simp add: visible_def distinct_map_filter)
    from two_environments[OF this n, of i] show thesis using that True org by auto
  next
    case False
    obtain e where "e \<in> set (db_environments s)" "e_org e = orgId" "in_project pid e" using h by (auto simp: has_environment_def)
    then show thesis using that[of e] False e0 distinct_map_eq[OF dist, of e e0] by (auto simp: in_project_def)
  qed
  then have "e \<in> set (update_where e_org T (is_active_environment i) ?f (db_environments s))"
    by (force simp: update_where_def is_active_environment_def)
  moreover have "map e_id (update_where e_org T (is_active_environment i) ?f (db_environments s)) = map e_id (db_environments s)"
    by (simp add: update_where_def)
  ultimately have "has_environment orgId pid (update_where e_org T (is_active_environment i) ?f (db_environments s))"
    using dist e by (auto simp: has_environment_def)
  then show ?thesis by (simp add: E)
qed

text \<open>
  C18: a project keeps an environment. As long as a project has an active environment, it has one after
  any sequence of successful creations, updates, reorderings, deletions and restorations of
  environments of its organization, whoever performs them and whenever.
\<close>
theorem project_keeps_an_environment:
  assumes "(environment_step orgId)\<^sup>*\<^sup>* s s'" and "has_environment orgId pid (db_environments s)"
  shows "has_environment orgId pid (db_environments s')"
  using assms
proof (induction rule: rtranclp_induct)
  case (step t t')
  have h: "has_environment orgId pid (db_environments t)" using step.IH step.prems by blast
  from step.hyps(2) show ?case
  proof cases
    case (created T u p name slug prot v)
    obtain e where "db_environments t' = db_environments t @ [e]" "\<not> list_ex (environment_clash e) (db_environments t)"
      using create_environment_rows[OF created(1)] by blast
    then show ?thesis using h by (auto simp: has_environment_def list_ex_iff environment_clash_def)
  next
    case (updated T u i name slug prot v)
    show ?thesis
      by (rule update_environment_rows[OF updated(1)])
        (simp, rule has_environment_update[OF h], simp_all add: in_project_def)
  next
    case (reordered T u p ids vs)
    show ?thesis unfolding reorder_Inr(5)[OF reordered(1)]
      by (rule has_environment_update[OF h]) (simp_all add: in_project_def)
  next
    case (deleted isoText window T u i confirmed v)
    then show ?thesis using delete_keeps_environment[OF deleted(1) h] by blast
  next
    case (restored T u i v)
    show ?thesis
      by (rule restore_environment_rows[OF restored(1)])
        (simp, rule has_environment_update[OF h], simp_all add: in_project_def)
  qed
qed simp


text \<open>The vault with a second, unprotected environment.\<close>

definition demo_shelf :: db where
  "demo_shelf = demo_vault\<lparr>db_environments :=
     [demo_environment, demo_environment\<lparr>e_id := ''f'', e_slug := ''f'', e_order := 1, e_protected := False\<rparr>]\<rparr>"

lemma demo_reorder:
  obtains views s' where "reorder_environments demo_tx ''u'' ''p'' [''f'', ''e''] demo_shelf = Inr (views, s')"
proof -
  have shelf: "staffed demo_shelf" "audit_ok demo_shelf"
    by (simp_all add: staffed_def demo_shelf_def demo_vault_def demo_db_def empty_db_def audit_ok_def)
  let ?ev = "(project_event demo_tx ''u'' Environment_reordered ''p'')
      \<lparr>event_after := Some [(''environmentIds'', json_texts [''f'', ''e''])]\<rparr>"
  obtain t where t: "place_environments demo_tx ''p'' [''f'', ''e''] demo_shelf = Inr ((), t)" "staffed t"
      "db_projects t = db_projects demo_shelf" "audit_ok t"
    using shelf by (simp add: place_environments_def update_rows_def op_simps audit_ok_def)
  have small: "small_object [(''environmentIds'', json_texts [''f'', ''e''])]" by code_simp
  obtain g where rec: "record_in_transaction demo_tx ?ev t = Inr ((), db_audit_update g t)"
    by (rule demo_record[OF t(4), where ev = ?ev])
      (simp_all add: project_event_def user_event_def validate_event_def starts_with_def small)
  have "length (filter (active_project ''p'') (visible p_org demo_tx (db_projects demo_shelf))) = 1"
    "map e_id (filter (in_project ''p'') (visible e_org demo_tx (db_environments demo_shelf))) = [''e'', ''f'']"
    "list_all (\<lambda>e. e_id e = ''e'' \<or> e_id e = ''f'') (db_environments demo_shelf)"
    by code_simp+
  then have "\<exists>r. reorder_environments demo_tx ''u'' ''p'' [''f'', ''e''] demo_shelf = Inr r"
    using rec t(1,3) owner_permitted[OF shelf(1)] owner_permitted[of "db_audit_update g t"] t(2)
    by (auto simp: reorder_environments_def list_environments_def op_simps permit_Inr require_active_project_Inr
        select_rows_def list_all_iff)
  then show thesis using that by auto
qed

theorem reorder_takes_effect_witness:
  "\<exists>views s'. reorder_environments demo_tx ''u'' ''p'' [''f'', ''e''] demo_shelf = Inr (views, s')
     \<and> map vw_id views = [''f'', ''e''] \<and> map vw_order views = [0, 1]"
proof -
  obtain views s' where run: "reorder_environments demo_tx ''u'' ''p'' [''f'', ''e''] demo_shelf = Inr (views, s')"
    by (rule demo_reorder)
  have "distinct (map e_id (db_environments demo_shelf))" by code_simp
  from reorder_takes_effect[OF run this] show ?thesis using run by simp
qed

theorem project_keeps_an_environment_witness:
  "\<exists>views s'. reorder_environments demo_tx ''u'' ''p'' [''f'', ''e''] demo_shelf = Inr (views, s')
     \<and> has_environment ''o'' ''p'' (db_environments s')"
proof -
  obtain views s' where run: "reorder_environments demo_tx ''u'' ''p'' [''f'', ''e''] demo_shelf = Inr (views, s')"
    by (rule demo_reorder)
  have "tx_org demo_tx = ''o''" by (simp add: demo_tx_def)
  then have "(environment_step ''o'')\<^sup>*\<^sup>* demo_shelf s'" using environment_step.reordered[OF run] by blast
  moreover have "has_environment ''o'' ''p'' (db_environments demo_shelf)" by code_simp
  ultimately show ?thesis using run project_keeps_an_environment by blast
qed

end
