(* ===== verification/Api_Keys.thy ===== *)
theory Api_Keys
  imports Slugs Secrets Audit_Listing
begin

text \<open>
  \<^verbatim>\<open>ApiKeyService\<close> of \<^verbatim>\<open>packages/api-keys/src/index.ts\<close> and the two functions of the database it
  calls, \<^verbatim>\<open>consume_api_key\<close> and \<^verbatim>\<open>resolve_api_key_identity\<close>, in their version of migration 0012.
  Authentication has no tenant transaction of its own: it finds the key in any organization and then
  records its event there. A failed authentication keeps the event it recorded, so \<open>authenticate_key\<close>
  returns a state with every result. Wiping the digest has no counterpart.
\<close>

definition api_key_invalid :: error where "api_key_invalid = Api_key_error Api_key_invalid_input"
definition api_key_missing :: error where "api_key_missing = Api_key_error Api_key_not_found"
definition invalid_token :: error where "invalid_token = Api_key_error Api_key_invalid_token"

section \<open>Tokens\<close>

definition hex_digit :: "nat \<Rightarrow> char" where
  "hex_digit d = (if d < 10 then chr (48 + d) else chr (87 + d))"

text \<open>\<^verbatim>\<open>buffer.toString("hex")\<close> and \<^verbatim>\<open>buffer.toString("base64url")\<close>\<close>

definition hex_text :: "bytes \<Rightarrow> string" where
  "hex_text bs = concat (map (\<lambda>b. [hex_digit (unat b div 16), hex_digit (unat b mod 16)]) bs)"

definition url_char :: "char \<Rightarrow> char" where
  "url_char c = (if c = CHR ''+'' then CHR ''-'' else if c = CHR ''/'' then CHR ''_'' else c)"

definition base64url :: "bytes \<Rightarrow> string" where
  "base64url bs = map url_char (filter (\<lambda>c. c \<noteq> CHR ''='') (base64_encode bs))"

definition is_url_char :: "char \<Rightarrow> bool" where
  "is_url_char c \<longleftrightarrow> is_alpha c \<or> is_digit c \<or> c = CHR ''_'' \<or> c = CHR ''-''"

text \<open>\<^verbatim>\<open>/^(himi_[0-9a-f]{16})_[A-Za-z0-9_-]{43}$/\<close>\<close>

definition token_prefix :: "string \<Rightarrow> error + string" where
  "token_prefix token =
     (if length token = 65 \<and> take 5 token = ''himi_'' \<and> list_all is_hex (take 16 (drop 5 token))
         \<and> take 1 (drop 21 token) = ''_'' \<and> list_all is_url_char (drop 22 token)
      then Inr (take 21 token) else Inl invalid_token)"

definition token_digest :: "platform \<Rightarrow> string \<Rightarrow> bytes" where
  "token_digest P token = sha256 P (utf8 token)"

definition new_token :: "bytes \<Rightarrow> bytes \<Rightarrow> string" where
  "new_token a b = (''himi_'' @ hex_text a) @ ''_'' @ base64url b"

section \<open>Keys\<close>

definition api_key_name :: "string \<Rightarrow> error + string" where
  "api_key_name name = normalize_name api_key_invalid 120 name"

text \<open>The dates a caller passes are valid instants.\<close>

definition key_expiry :: "time option \<Rightarrow> time \<Rightarrow> error + time option" where
  "key_expiry expiresAt instant = (case expiresAt of None \<Rightarrow> Inr None
     | Some t \<Rightarrow> if t \<le> instant then Inl api_key_invalid else Inr (Some t))"

record api_key_view =
  kv_id :: uuid
  kv_org :: uuid
  kv_project :: "uuid option"
  kv_environment :: "uuid option"
  kv_name :: string
  kv_prefix :: string
  kv_access :: api_key_access
  kv_created :: time
  kv_expires :: "time option"
  kv_last_used :: "time option"
  kv_revoked :: "time option"

definition api_key_from_row :: "api_key_row \<Rightarrow> api_key_view" where
  "api_key_from_row k = \<lparr>kv_id = k_id k, kv_org = k_org k, kv_project = k_project k,
     kv_environment = k_environment k, kv_name = k_name k, kv_prefix = k_prefix k, kv_access = k_access k,
     kv_created = to_date (k_created k), kv_expires = map_option to_date (k_expires k),
     kv_last_used = map_option to_date (k_last_used k), kv_revoked = map_option to_date (k_revoked k)\<rparr>"

primrec access_text :: "api_key_access \<Rightarrow> string" where
  "access_text Access_read_only = ''read_only''"
| "access_text Access_read_write = ''read_write''"

definition api_key_le :: "api_key_row \<Rightarrow> api_key_row \<Rightarrow> bool" where
  "api_key_le a b = (if k_created a = k_created b then k_id a \<le> k_id b else k_created b \<le> k_created a)"

definition list_api_keys :: "transaction \<Rightarrow> uuid \<Rightarrow> api_key_view list db_op" where
  "list_api_keys T actorUserId =
     andthen (permit T actorUserId None False Api_key_read)
     (bind (select_rows k_org db_api_keys T (\<lambda>_. True)) (\<lambda>rows.
      ret (map api_key_from_row (sort_by api_key_le rows))))"

section \<open>Creation and revocation\<close>

text \<open>The rows of the join in \<^verbatim>\<open>#validateScope\<close>: a project, and its environment if one is asked for.\<close>

definition scope_rows :: "transaction \<Rightarrow> uuid \<Rightarrow> uuid option \<Rightarrow> db \<Rightarrow> (project_row \<times> environment_row option) list" where
  "scope_rows T projectId environmentId s =
     concat (map (\<lambda>p. case environmentId of None \<Rightarrow> [(p, None)]
         | Some i \<Rightarrow> map (\<lambda>e. (p, Some e)) (filter (\<lambda>e. e_project e = p_id p \<and> e_id e = i \<and> e_deleted e = None)
             (visible e_org T (db_environments s))))
       (filter (active_project projectId) (visible p_org T (db_projects s))))"

definition validate_scope :: "transaction \<Rightarrow> uuid option \<Rightarrow> uuid option \<Rightarrow> unit db_op" where
  "validate_scope T projectId environmentId = (case projectId of None \<Rightarrow> ret ()
     | Some pid \<Rightarrow> bind (reads (scope_rows T pid environmentId)) (\<lambda>rows. check (length rows = 1) api_key_missing))"

text \<open>The insertion with the checks of the table: a 32-byte digest, and an expiry after the creation.\<close>

definition insert_api_key :: "transaction \<Rightarrow> api_key_row \<Rightarrow> unit db_op" where
  "insert_api_key T k =
     andthen (check (length (k_token_hash k) = 32 \<and> (\<forall>t\<in>set_option (k_expires k). k_created k < t)) Internal_error)
     (insert_row k_org db_api_keys db_api_keys_update api_key_clash T k)"

definition api_key_event :: "audit_actor \<Rightarrow> audit_action \<Rightarrow> api_key_row \<Rightarrow> audit_event" where
  "api_key_event actor action k = \<lparr>event_org = k_org k, event_actor = actor, event_action = action,
     event_resource_type = ''api_key'', event_resource_id = Some (k_id k), event_project = k_project k,
     event_environment = k_environment k, event_ip = None, event_user_agent = None,
     event_before = None, event_after = None, event_details = None\<rparr>"

record api_key_input =
  ak_name :: string
  ak_access :: api_key_access
  ak_project :: "uuid option"
  ak_environment :: "uuid option"
  ak_expires :: "time option"

definition new_api_key ::
  "transaction \<Rightarrow> uuid \<Rightarrow> api_key_input \<Rightarrow> uuid \<Rightarrow> string \<Rightarrow> string \<Rightarrow> bytes \<Rightarrow> time option \<Rightarrow> api_key_row" where
  "new_api_key T actorUserId input keyId name keyPrefix digest expiresAt =
     \<lparr>k_id = keyId, k_org = tx_org T, k_project = ak_project input, k_environment = ak_environment input,
      k_name = name, k_prefix = keyPrefix, k_token_hash = digest, k_access = ak_access input,
      k_created_by = Some actorUserId, k_created = tx_now T, k_expires = expiresAt,
      k_last_used = None, k_revoked = None\<rparr>"

definition scope_text :: "api_key_input \<Rightarrow> string" where
  "scope_text input = (if ak_environment input = None
     then (if ak_project input = None then ''organization'' else ''project'') else ''environment'')"

definition store_api_key ::
  "(time \<Rightarrow> string) \<Rightarrow> transaction \<Rightarrow> uuid \<Rightarrow> api_key_input \<Rightarrow> bytes \<Rightarrow> bytes \<Rightarrow> time option \<Rightarrow>
     (api_key_view \<times> string) db_op" where
  "store_api_key isoText T actorUserId input a b expiresAt =
     (let token = new_token a b in
      bind (lift_sum (api_key_name (ak_name input))) (\<lambda>name.
      bind (fresh_uuid T) (\<lambda>keyId.
      let k = new_api_key T actorUserId input keyId name (''himi_'' @ hex_text a)
            (token_digest (tx_platform T) token) expiresAt in
      andthen (insert_api_key T k)
     (andthen (record_in_transaction T ((api_key_event (Actor_user actorUserId) Api_key_created k)
        \<lparr>event_after := Some [(''access'', JStr (access_text (k_access k))), (''scope'', JStr (scope_text input)),
           (''expiresAt'', case expiresAt of None \<Rightarrow> JNull | Some t \<Rightarrow> JStr (isoText t))]\<rparr>))
      (ret (api_key_from_row k, token))))))"

definition create_api_key ::
  "(time \<Rightarrow> string) \<Rightarrow> transaction \<Rightarrow> uuid \<Rightarrow> api_key_input \<Rightarrow> (api_key_view \<times> string) db_op" where
  "create_api_key isoText T actorUserId input =
     andthen (check (ak_environment input = None \<or> ak_project input \<noteq> None) api_key_invalid)
     (andthen (permit T actorUserId (ak_project input) False Api_key_create)
     (andthen (validate_scope T (ak_project input) (ak_environment input))
     (bind (lift_sum (key_expiry (ak_expires input) (to_date (tx_clock T)))) (\<lambda>expiresAt.
      bind next_draw (\<lambda>i.
      bind next_draw (\<lambda>j.
      store_api_key isoText T actorUserId input (random_bytes (tx_platform T) i 8)
        (random_bytes (tx_platform T) j 32) expiresAt))))))"

definition revoke_api_key :: "transaction \<Rightarrow> uuid \<Rightarrow> uuid \<Rightarrow> api_key_view db_op" where
  "revoke_api_key T actorUserId apiKeyId =
     bind (select_rows k_org db_api_keys T (\<lambda>k. k_id k = apiKeyId)) (\<lambda>rows.
     bind (from_option api_key_missing (first_row rows)) (\<lambda>k.
     andthen (permit T actorUserId (k_project k) False Api_key_revoke)
     (if k_revoked k \<noteq> None then ret (api_key_from_row k)
      else
        andthen (update_rows k_org db_api_keys_update T (\<lambda>k. k_id k = apiKeyId) (\<lambda>k. k\<lparr>k_revoked := Some (tx_now T)\<rparr>))
       (bind (select_rows k_org db_api_keys T (\<lambda>k. k_id k = apiKeyId)) (\<lambda>rows.
        bind (from_option api_key_missing (first_row rows)) (\<lambda>revoked.
        andthen (record_in_transaction T ((api_key_event (Actor_user actorUserId) Api_key_revoked k)
          \<lparr>event_before := Some [(''access'', JStr (access_text (k_access k))), (''revoked'', JBool False)],
           event_after := Some [(''access'', JStr (access_text (k_access k))), (''revoked'', JBool True)]\<rparr>))
        (ret (api_key_from_row revoked))))))))"

section \<open>Authentication\<close>

text \<open>The conditions of \<^verbatim>\<open>consume_api_key\<close>; the statement is not subject to row-level security.\<close>

definition key_live :: "time \<Rightarrow> db \<Rightarrow> api_key_row \<Rightarrow> bool" where
  "key_live instant s k \<longleftrightarrow>
     k_revoked k = None \<and> (\<forall>t\<in>set_option (k_expires k). instant < t)
     \<and> (\<exists>o'\<in>set (db_organizations s). o_id o' = k_org k \<and> o_deleted o' = None)
     \<and> (\<exists>m\<in>set (db_memberships s). m_org m = k_org k \<and> Some (m_user m) = k_created_by k \<and> m_status m = Status_active)
     \<and> (\<forall>pid\<in>set_option (k_project k). \<exists>p\<in>set (db_projects s). p_org p = k_org k \<and> p_id p = pid \<and> p_deleted p = None)
     \<and> (\<forall>i\<in>set_option (k_environment k). \<exists>e\<in>set (db_environments s).
          e_org e = k_org k \<and> Some (e_project e) = k_project k \<and> e_id e = i \<and> e_deleted e = None)"

definition consumable :: "time \<Rightarrow> db \<Rightarrow> string \<Rightarrow> bytes \<Rightarrow> api_key_row \<Rightarrow> bool" where
  "consumable instant s keyPrefix digest k \<longleftrightarrow>
     k_prefix k = keyPrefix \<and> k_token_hash k = digest \<and> length digest = 32 \<and> key_live instant s k"

definition touch_key :: "time \<Rightarrow> api_key_row \<Rightarrow> api_key_row" where
  "touch_key instant k =
     k\<lparr>k_last_used := Some (case k_last_used k of None \<Rightarrow> instant | Some t \<Rightarrow> max t instant)\<rparr>"

definition consume_api_key :: "time \<Rightarrow> string \<Rightarrow> bytes \<Rightarrow> db \<Rightarrow> api_key_row list \<times> db" where
  "consume_api_key instant keyPrefix digest s =
     (let hit = consumable instant s keyPrefix digest in
      (map (touch_key instant) (filter hit (db_api_keys s)),
       s\<lparr>db_api_keys := map (\<lambda>k. if hit k then touch_key instant k else k) (db_api_keys s)\<rparr>))"

definition resolve_api_key_identity :: "string \<Rightarrow> db \<Rightarrow> api_key_row list" where
  "resolve_api_key_identity keyPrefix s = filter (\<lambda>k. k_prefix k = keyPrefix) (db_api_keys s)"

record principal =
  pr_key :: uuid
  pr_org :: uuid
  pr_user :: uuid
  pr_project :: "uuid option"
  pr_environment :: "uuid option"
  pr_access :: api_key_access
  pr_prefix :: string
  pr_used :: time

definition principal_of :: "api_key_row \<Rightarrow> principal" where
  "principal_of k = \<lparr>pr_key = k_id k, pr_org = k_org k, pr_user = the (k_created_by k), pr_project = k_project k,
     pr_environment = k_environment k, pr_access = k_access k, pr_prefix = k_prefix k,
     pr_used = to_date (the (k_last_used k))\<rparr>"

record client_details =
  cd_ip :: "string option"
  cd_agent :: "string option"

definition used_event :: "client_details \<Rightarrow> audit_action \<Rightarrow> metadata \<Rightarrow> api_key_row \<Rightarrow> audit_event" where
  "used_event client action details k = (api_key_event (Actor_api_key (k_id k)) action k)
     \<lparr>event_ip := cd_ip client, event_user_agent := cd_agent client, event_details := Some details\<rparr>"

text \<open>The transaction \<open>C\<close> has no organization until the key has named one: \<^verbatim>\<open>set_config\<close>.\<close>

definition authenticate_key ::
  "transaction \<Rightarrow> string \<Rightarrow> client_details \<Rightarrow> db \<Rightarrow> (error + principal) \<times> db" where
  "authenticate_key C token client s =
     (case token_prefix token of Inl e \<Rightarrow> (Inl e, s)
      | Inr keyPrefix \<Rightarrow>
        (case consume_api_key (tx_now C) keyPrefix (token_digest (tx_platform C) token) s of
           ([], _) \<Rightarrow>
             (case resolve_api_key_identity keyPrefix s of [] \<Rightarrow> (Inl invalid_token, s)
              | k # _ \<Rightarrow>
                (case record_in_transaction (C\<lparr>tx_org := k_org k\<rparr>)
                   (used_event client Auth_login_failed
                     [(''method'', JStr ''bearer''), (''reason'', JStr ''invalid_or_inactive'')] k) s of
                   Inl _ \<Rightarrow> (Inl invalid_token, s)
                 | Inr (_, s') \<Rightarrow> (Inl invalid_token, s')))
         | (k # _, s1) \<Rightarrow>
             (case record_in_transaction (C\<lparr>tx_org := k_org k\<rparr>)
                (used_event client Api_key_used [(''access'', JStr (access_text (k_access k)))] k) s1 of
                Inl _ \<Rightarrow> (Inl invalid_token, s)
              | Inr (_, s') \<Rightarrow> (Inr (principal_of k), s'))))"

section \<open>The contract\<close>

lemma obeys_list_api_keys [contract_intros]: "obeys (tenant_step orgId) (list_api_keys T actorUserId)"
  unfolding list_api_keys_def by (intro contract_intros)

lemma obeys_validate_scope [contract_intros]: "obeys (tenant_step orgId) (validate_scope T projectId environmentId)"
  unfolding validate_scope_def by (auto intro!: contract_intros split: option.split)

lemma obeys_create_api_key [contract_intros]:
  "obeys (tenant_step (tx_org T)) (create_api_key isoText T actorUserId input)"
  unfolding create_api_key_def store_api_key_def insert_api_key_def Let_def by (intro contract_intros)

lemma obeys_revoke_api_key [contract_intros]:
  "obeys (tenant_step (tx_org T)) (revoke_api_key T actorUserId apiKeyId)"
  unfolding revoke_api_key_def by (intro contract_intros) simp

end
