(* ===== verification/Tenancy.thy ===== *)
theory Tenancy
  imports Slugs Projects Api_Keys
begin

text \<open>
  \<^verbatim>\<open>TenantDatabase\<close> and \<^verbatim>\<open>TenancyService\<close> of \<^verbatim>\<open>packages/tenancy/src/index.ts\<close> with the tables and
  policies of migration 0005: the transaction every tenant request runs in, organizations, the choice of the
  active organization, and invitations. A connection \<open>C\<close> carries the clocks and the platform; the
  organization and the user of its transactions are set by \<^verbatim>\<open>set_config\<close>. The delivery of an invitation
  is the message the service returns.
\<close>

abbreviation membership_required :: error where
  "membership_required \<equiv> Tenancy_error Membership_required"

section \<open>Transactions\<close>

definition bound_to :: "transaction \<Rightarrow> uuid \<Rightarrow> uuid \<Rightarrow> transaction" where
  "bound_to C orgId userId = C\<lparr>tx_org := orgId, tx_user := userId\<rparr>"

definition with_org_context :: "bool \<Rightarrow> transaction \<Rightarrow> uuid \<Rightarrow> uuid \<Rightarrow> (transaction \<Rightarrow> 'a db_op) \<Rightarrow> 'a db_op" where
  "with_org_context requireMembership C orgId userId work =
     (let T = bound_to C orgId userId in
      andthen (if requireMembership
               then bind (select_rows m_org db_memberships T (active_membership userId)) (\<lambda>membership.
                      check (length membership = 1) membership_required)
               else ret ())
      (work T))"

definition with_org :: "transaction \<Rightarrow> uuid \<Rightarrow> uuid \<Rightarrow> (transaction \<Rightarrow> 'a db_op) \<Rightarrow> 'a db_op" where
  "with_org C orgId userId work = with_org_context True C orgId userId work"

section \<open>Normalisation\<close>

abbreviation tenancy_invalid :: error where
  "tenancy_invalid \<equiv> Tenancy_error Tenancy_invalid_input"

text \<open>\<^verbatim>\<open>/^[^@\s]+@[^@\s]+\.[^@\s]+$/\<close>: one at sign, no white space, and a dot inside the domain.\<close>

definition email_ok :: "string \<Rightarrow> bool" where
  "email_ok t \<longleftrightarrow> list_all (\<lambda>c. \<not> is_ws c) t
     \<and> (case split_on (CHR ''@'') t of [user, domain] \<Rightarrow> user \<noteq> [] \<and> CHR ''.'' \<in> set (butlast (tl domain)) | _ \<Rightarrow> False)"

definition normalize_email :: "error \<Rightarrow> string \<Rightarrow> error + string" where
  "normalize_email e email = (let normalized = js_lower (trim email) in
     if length normalized < 3 \<or> 320 < length normalized \<or> \<not> email_ok normalized then Inl e else Inr normalized)"

definition normalize_organization_slug :: "string \<Rightarrow> error + string" where
  "normalize_organization_slug slug = normalize_slug tenancy_invalid slug"

definition validate_organization_name :: "string \<Rightarrow> error + string" where
  "validate_organization_name name = normalize_name tenancy_invalid 120 name"

text \<open>\<^verbatim>\<open>email_normalized\<close> is generated: \<^verbatim>\<open>lower(btrim(email))\<close>.\<close>

definition btrim :: "string \<Rightarrow> string" where
  "btrim t = rev (dropWhile (\<lambda>c. c = CHR '' '') (rev (dropWhile (\<lambda>c. c = CHR '' '') t)))"

definition db_email :: "platform \<Rightarrow> string \<Rightarrow> string" where
  "db_email P email = db_lower P (btrim email)"

section \<open>Organizations\<close>

definition organization_clash :: "organization_row \<Rightarrow> organization_row \<Rightarrow> bool" where
  "organization_clash r q \<longleftrightarrow> o_id q = o_id r \<or> o_slug q = o_slug r"

definition new_organization :: "transaction \<Rightarrow> uuid \<Rightarrow> string \<Rightarrow> string \<Rightarrow> organization_row" where
  "new_organization C organizationId name slug = \<lparr>o_id = organizationId, o_name = name, o_slug = slug,
     o_retention = 90, o_created = tx_now C, o_updated = tx_now C, o_deleted = None\<rparr>"

definition new_membership :: "transaction \<Rightarrow> uuid \<Rightarrow> uuid \<Rightarrow> role \<Rightarrow> uuid option \<Rightarrow> membership_row" where
  "new_membership C orgId userId r inviter = \<lparr>m_org = orgId, m_user = userId, m_role = r,
     m_status = Status_active, m_invited_by = inviter, m_created = tx_now C, m_updated = tx_now C\<rparr>"

definition insert_membership :: "transaction \<Rightarrow> membership_row \<Rightarrow> unit db_op" where
  "insert_membership T m = insert_row m_org db_memberships db_memberships_update membership_clash T m"

definition create_organization_row :: "transaction \<Rightarrow> uuid \<Rightarrow> string \<Rightarrow> string \<Rightarrow> (uuid \<times> string \<times> string) db_op" where
  "create_organization_row C userId name slug =
     rethrow (on_unique_violation (Tenancy_error Tenancy_slug_exists))
     (bind (fresh_uuid C) (\<lambda>organizationId.
      let T = bound_to C organizationId userId in
      andthen (insert_row o_id db_organizations db_organizations_update organization_clash T
        (new_organization C organizationId name slug))
     (andthen (insert_membership T (new_membership C organizationId userId Owner None))
     (andthen (record_in_transaction T
        ((user_event organizationId userId Organization_created ''organization'' organizationId)
          \<lparr>event_after := Some [(''name'', JStr name), (''slug'', JStr slug)]\<rparr>))
      (ret (organizationId, name, slug))))))"

definition create_organization :: "transaction \<Rightarrow> uuid \<Rightarrow> string \<Rightarrow> string \<Rightarrow> (uuid \<times> string \<times> string) db_op" where
  "create_organization C userId name slug =
     bind (lift_sum (validate_organization_name name)) (\<lambda>n.
     bind (lift_sum (normalize_organization_slug slug)) (\<lambda>sl.
     create_organization_row C userId n sl))"

record organization_option =
  oo_id :: uuid
  oo_name :: string
  oo_slug :: string
  oo_role :: role
  oo_active :: bool

definition organization_le :: "platform \<Rightarrow> organization_row \<times> membership_row \<Rightarrow> organization_row \<times> membership_row \<Rightarrow> bool" where
  "organization_le P a b = (if db_lower P (o_name (fst a)) = db_lower P (o_name (fst b))
     then o_id (fst a) \<le> o_id (fst b)
     else collate_le P (db_lower P (o_name (fst a))) (db_lower P (o_name (fst b))))"

text \<open>With \<^verbatim>\<open>app.membership_discovery\<close> on, a user sees its own memberships of every organization.\<close>

definition organizations_of :: "uuid \<Rightarrow> db \<Rightarrow> (organization_row \<times> membership_row) list" where
  "organizations_of userId s =
     concat (map (\<lambda>m. map (\<lambda>g. (g, m)) (filter (\<lambda>g. o_id g = m_org m \<and> o_deleted g = None) (db_organizations s)))
       (filter (active_membership userId) (db_memberships s)))"

definition list_organization_options :: "transaction \<Rightarrow> uuid \<Rightarrow> uuid option \<Rightarrow> organization_option list db_op" where
  "list_organization_options C userId activeOrgId =
     bind (reads (organizations_of userId)) (\<lambda>rows.
     ret (map (\<lambda>(g, m). \<lparr>oo_id = o_id g, oo_name = o_name g, oo_slug = o_slug g, oo_role = m_role m,
         oo_active = (Some (o_id g) = activeOrgId)\<rparr>)
       (sort_by (organization_le (tx_platform C)) rows)))"

section \<open>The active organization of a session\<close>

definition live_session :: "transaction \<Rightarrow> uuid \<Rightarrow> uuid \<Rightarrow> session_row \<Rightarrow> bool" where
  "live_session C sessionId userId r \<longleftrightarrow>
     se_id r = sessionId \<and> se_user r = userId \<and> se_revoked r = None \<and> tx_now C < se_expires r"

definition switch_active_organization :: "transaction \<Rightarrow> uuid \<Rightarrow> uuid \<Rightarrow> uuid \<Rightarrow> unit db_op" where
  "switch_active_organization C sessionId userId orgId = with_org C orgId userId (\<lambda>T.
     bind (select_rows m_org db_memberships T (active_membership userId)) (\<lambda>membership.
     andthen (check (length membership = 1) membership_required)
     (bind (reads (\<lambda>s. filter (live_session T sessionId userId) (db_sessions s))) (\<lambda>updated.
      andthen (writes (db_sessions_update (map (\<lambda>r.
        if live_session T sessionId userId r then r\<lparr>se_active_org := Some orgId\<rparr> else r))))
      (check (length updated = 1) membership_required)))))"

definition with_active_organization :: "transaction \<Rightarrow> uuid \<Rightarrow> uuid \<Rightarrow> (transaction \<Rightarrow> 'a db_op) \<Rightarrow> 'a db_op" where
  "with_active_organization C sessionId userId work =
     bind (reads (\<lambda>s. find (live_session C sessionId userId) (db_sessions s))) (\<lambda>session.
     bind (from_option membership_required (case session of None \<Rightarrow> None | Some r \<Rightarrow> se_active_org r)) (\<lambda>orgId.
     with_org C orgId userId work))"

section \<open>Invitations\<close>

definition invitation_ttl :: time where "invitation_ttl = 7 * 24 * 60 * 60 * 1000 * 1000"

record invitation_input =
  in_org :: uuid
  in_inviter :: uuid
  in_email :: string
  in_role :: role

definition new_invitation ::
  "transaction \<Rightarrow> invitation_input \<Rightarrow> uuid \<Rightarrow> bytes \<Rightarrow> time \<Rightarrow> invitation_row" where
  "new_invitation T input invitationId digest expiresAt = \<lparr>i_id = invitationId, i_org = in_org input,
     i_email = in_email input, i_email_normalized = db_email (tx_platform T) (in_email input),
     i_role = in_role input, i_token_hash = digest, i_invited_by = in_inviter input, i_created = tx_now T,
     i_expires = expiresAt, i_accepted = None, i_accepted_by = None, i_revoked = None\<rparr>"

text \<open>The column checks of \<^verbatim>\<open>organization_invitations\<close>.\<close>

definition invitation_check :: "invitation_row \<Rightarrow> bool" where
  "invitation_check i \<longleftrightarrow> 3 \<le> length (btrim (i_email i)) \<and> length (btrim (i_email i)) \<le> 320
     \<and> i_role i \<noteq> Owner \<and> length (i_token_hash i) = 32 \<and> i_created i < i_expires i"

definition insert_invitation :: "transaction \<Rightarrow> invitation_row \<Rightarrow> unit db_op" where
  "insert_invitation T i = andthen (check (invitation_check i) Internal_error)
     (insert_row i_org db_invitations db_invitations_update invitation_clash T i)"

definition pending :: "invitation_row \<Rightarrow> bool" where
  "pending i \<longleftrightarrow> i_accepted i = None \<and> i_revoked i = None"

definition member_emails :: "transaction \<Rightarrow> string \<Rightarrow> db \<Rightarrow> (membership_row \<times> user_row) list" where
  "member_emails T email s =
     concat (map (\<lambda>m. map (\<lambda>u. (m, u)) (filter (\<lambda>u. u_id u = m_user m \<and> u_email_normalized u = email) (db_users s)))
       (filter (\<lambda>m. m_status m = Status_active) (visible m_org T (db_memberships s))))"

definition store_invitation :: "transaction \<Rightarrow> invitation_input \<Rightarrow> string \<Rightarrow> time \<Rightarrow> unit db_op" where
  "store_invitation T input token expiresAt =
     rethrow (on_unique_violation (Tenancy_error Invitation_exists))
     (andthen (update_rows i_org db_invitations_update T
        (\<lambda>i. i_email_normalized i = in_email input \<and> pending i \<and> i_expires i \<le> tx_now T)
        (\<lambda>i. i\<lparr>i_revoked := Some (tx_now T)\<rparr>))
     (bind (fresh_uuid T) (\<lambda>invitationId.
      andthen (insert_invitation T (new_invitation T input invitationId (token_digest (tx_platform T) token) expiresAt))
      (record_in_transaction T
        ((user_event (in_org input) (in_inviter input) Membership_invited ''organization_invitation'' invitationId)
          \<lparr>event_after := Some [(''email'', JStr (in_email input)), (''role'', JStr (role_text (in_role input)))]\<rparr>)))))"

definition create_invitation :: "transaction \<Rightarrow> invitation_input \<Rightarrow> string \<Rightarrow> time \<Rightarrow> string db_op" where
  "create_invitation C input token expiresAt = with_org C (in_org input) (in_inviter input) (\<lambda>T.
     bind (select_rows m_org db_memberships T (active_membership (in_inviter input))) (\<lambda>inviter.
     andthen (check (\<exists>m\<in>set_option (first_row inviter). m_role m = Owner \<or> m_role m = Admin) (Tenancy_error Invite_forbidden))
     (bind (select_rows o_id db_organizations T (\<lambda>g. o_id g = in_org input \<and> o_deleted g = None)) (\<lambda>organization.
      bind (reads (member_emails T (in_email input))) (\<lambda>existingMember.
      andthen (check (existingMember = []) (Tenancy_error Already_member))
     (andthen (store_invitation T input token expiresAt)
      (ret (case first_row organization of None \<Rightarrow> ''Organization'' | Some g \<Rightarrow> o_name g))))))))"

record invitation_message =
  im_email :: string
  im_organization :: string
  im_inviter :: uuid
  im_token :: string

definition invite_member :: "transaction \<Rightarrow> invitation_input \<Rightarrow> invitation_message db_op" where
  "invite_member C input =
     bind (lift_sum (normalize_email tenancy_invalid (in_email input))) (\<lambda>email.
     bind next_draw (\<lambda>i.
     let token = base64url (random_bytes (tx_platform C) i 32) in
     bind (create_invitation C (input\<lparr>in_email := email\<rparr>) token (service_now C + invitation_ttl)) (\<lambda>organizationName.
     ret \<lparr>im_email = email, im_organization = organizationName, im_inviter = in_inviter input, im_token = token\<rparr>)))"

definition open_invitation :: "transaction \<Rightarrow> bytes \<Rightarrow> invitation_row \<Rightarrow> bool" where
  "open_invitation C digest i \<longleftrightarrow> i_token_hash i = digest \<and> pending i \<and> tx_now C < i_expires i"

text \<open>\<^verbatim>\<open>resolve_invitation_org\<close> runs outside row-level security.\<close>

definition resolve_invitation_org :: "transaction \<Rightarrow> bytes \<Rightarrow> db \<Rightarrow> uuid option" where
  "resolve_invitation_org C digest s = map_option i_org (find (open_invitation C digest) (db_invitations s))"

definition take_invitation :: "transaction \<Rightarrow> bytes \<Rightarrow> uuid \<Rightarrow> string \<Rightarrow> unit db_op" where
  "take_invitation T digest userId userEmail =
     bind (select_rows i_org db_invitations T (open_invitation T digest)) (\<lambda>invitation.
     bind (from_option (Tenancy_error Invitation_invalid) (first_row invitation)) (\<lambda>i.
     bind (lift_sum (normalize_email tenancy_invalid userEmail)) (\<lambda>email.
     andthen (check (i_email_normalized i = email) (Tenancy_error Invitation_email_mismatch))
    (andthen (insert_membership T (new_membership T (tx_org T) userId (i_role i) (Some (i_invited_by i))))
    (andthen (update_rows i_org db_invitations_update T (\<lambda>q. i_id q = i_id i)
       (\<lambda>q. q\<lparr>i_accepted := Some (tx_now T), i_accepted_by := Some userId\<rparr>))
     (record_in_transaction T
       ((user_event (tx_org T) userId Membership_accepted ''membership'' userId)
         \<lparr>event_after := Some [(''role'', JStr (role_text (i_role i)))]\<rparr>)))))))"

definition accept_invitation :: "transaction \<Rightarrow> string \<Rightarrow> uuid \<Rightarrow> string \<Rightarrow> uuid db_op" where
  "accept_invitation C token userId userEmail =
     (let digest = token_digest (tx_platform C) token in
      bind (reads (resolve_invitation_org C digest)) (\<lambda>resolved.
      bind (from_option (Tenancy_error Invitation_invalid) resolved) (\<lambda>orgId.
      with_org_context False C orgId userId (\<lambda>T.
        andthen (take_invitation T digest userId userEmail) (ret orgId)))))"

end
