(* ===== verification/Members.thy ===== *)
theory Members
  imports Tenancy
begin

text \<open>
  The organization, member and invitation handlers of \<^verbatim>\<open>registerOrganizationRoutes\<close> in
  \<^verbatim>\<open>apps/api/src/index.ts\<close>: the statements they run inside \<^verbatim>\<open>withTenant\<close>. The permission of the route
  was checked before (theory \<open>Api_Guards\<close>); the handlers check who may change whom.
\<close>

definition api_not_found :: error where "api_not_found = Api_error 404 ''NOT_FOUND''"

section \<open>The organization\<close>

record organization_view =
  gv_id :: uuid
  gv_name :: string
  gv_slug :: string
  gv_retention :: int
  gv_created :: time
  gv_updated :: time

definition organization_from_row :: "organization_row \<Rightarrow> organization_view" where
  "organization_from_row r = \<lparr>gv_id = o_id r, gv_name = o_name r, gv_slug = o_slug r, gv_retention = o_retention r,
     gv_created = to_date (o_created r), gv_updated = to_date (o_updated r)\<rparr>"

definition current_organization :: "transaction \<Rightarrow> organization_row db_op" where
  "current_organization T =
     bind (select_rows o_id db_organizations T (\<lambda>r. o_id r = tx_org T \<and> o_deleted r = None)) (\<lambda>rows.
     from_option api_not_found (first_row rows))"

definition get_organization :: "transaction \<Rightarrow> organization_view db_op" where
  "get_organization T = bind (current_organization T) (\<lambda>r. ret (organization_from_row r))"

definition organization_name_input :: "organization_row \<Rightarrow> string option \<Rightarrow> error + string" where
  "organization_name_input before input = (let name = (case input of None \<Rightarrow> o_name before | Some n \<Rightarrow> trim n) in
     if length name < 1 \<or> 120 < length name then Inl (Api_error 400 ''INVALID_INPUT'') else Inr name)"

definition organization_slug_input :: "organization_row \<Rightarrow> string option \<Rightarrow> error + string" where
  "organization_slug_input before input = (case input of None \<Rightarrow> Inr (o_slug before)
     | Some sl \<Rightarrow> normalize_organization_slug sl)"

definition organization_json :: "string \<Rightarrow> string \<Rightarrow> metadata" where
  "organization_json name slug = [(''name'', JStr name), (''slug'', JStr slug)]"

definition update_organization :: "transaction \<Rightarrow> uuid \<Rightarrow> string option \<Rightarrow> string option \<Rightarrow> organization_view db_op" where
  "update_organization T userId nameInput slugInput =
     bind (current_organization T) (\<lambda>before.
     bind (lift_sum (organization_name_input before nameInput)) (\<lambda>name.
     bind (lift_sum (organization_slug_input before slugInput)) (\<lambda>slug.
     andthen (update_unique o_id db_organizations db_organizations_update o_slug T (\<lambda>r. o_id r = tx_org T)
        (\<lambda>r. r\<lparr>o_name := name, o_slug := slug, o_updated := tx_now T\<rparr>))
    (bind (select_rows o_id db_organizations T (\<lambda>r. o_id r = tx_org T)) (\<lambda>rows.
     bind (from_option api_not_found (first_row rows)) (\<lambda>row.
     andthen (record_in_transaction T ((user_event (tx_org T) userId Organization_updated ''organization'' (tx_org T))
        \<lparr>event_before := Some (organization_json (o_name before) (o_slug before)),
         event_after := Some (organization_json (o_name row) (o_slug row))\<rparr>))
      (ret (organization_from_row row))))))))"

section \<open>Members\<close>

record member_view =
  mv_user :: uuid
  mv_email :: string
  mv_role :: role
  mv_status :: membership_status
  mv_created :: time
  mv_updated :: time

definition member_from_row :: "membership_row \<times> user_row \<Rightarrow> member_view" where
  "member_from_row = (\<lambda>(m, u). \<lparr>mv_user = m_user m, mv_email = u_email u, mv_role = m_role m, mv_status = m_status m,
     mv_created = to_date (m_created m), mv_updated = to_date (m_updated m)\<rparr>)"

text \<open>\<^verbatim>\<open>FROM memberships m JOIN users u ON u.id = m.user_id\<close>\<close>

definition member_rows :: "transaction \<Rightarrow> (membership_row \<Rightarrow> bool) \<Rightarrow> db \<Rightarrow> (membership_row \<times> user_row) list" where
  "member_rows T P s = concat (map (\<lambda>m. map (\<lambda>u. (m, u)) (filter (\<lambda>u. u_id u = m_user m) (db_users s)))
     (filter P (visible m_org T (db_memberships s))))"

definition member_le :: "platform \<Rightarrow> membership_row \<times> user_row \<Rightarrow> membership_row \<times> user_row \<Rightarrow> bool" where
  "member_le P a b = (if db_lower P (u_email (snd a)) = db_lower P (u_email (snd b)) then m_user (fst a) \<le> m_user (fst b)
     else collate_le P (db_lower P (u_email (snd a))) (db_lower P (u_email (snd b))))"

definition list_members :: "transaction \<Rightarrow> member_view list db_op" where
  "list_members T = bind (reads (member_rows T (\<lambda>m. m_status m = Status_active))) (\<lambda>rows.
     ret (map member_from_row (sort_by (member_le (tx_platform T)) rows)))"

definition validate_member_change :: "role \<Rightarrow> role \<Rightarrow> role option \<Rightarrow> error + unit" where
  "validate_member_change actorRole targetRole desiredRole =
     (if targetRole = Owner then Inl (Api_error 400 ''OWNER_PROTECTED'')
      else if actorRole = Admin \<and> (targetRole = Admin \<or> desiredRole = Some Admin \<or> desiredRole = Some Owner)
      then Inl (Api_error 403 ''FORBIDDEN'')
      else if desiredRole = Some Owner then Inl (Api_error 400 ''OWNER_TRANSFER_REQUIRED'')
      else Inr ())"

definition actor_role :: "transaction \<Rightarrow> uuid \<Rightarrow> role db_op" where
  "actor_role T userId = bind (select_rows m_org db_memberships T (active_membership userId)) (\<lambda>rows.
     ret (case first_row rows of None \<Rightarrow> Read_only | Some m \<Rightarrow> m_role m))"

definition target_member :: "transaction \<Rightarrow> (membership_row \<Rightarrow> bool) \<Rightarrow> (membership_row \<times> user_row) db_op" where
  "target_member T P = bind (reads (member_rows T P)) (\<lambda>rows. from_option api_not_found (first_row rows))"

definition update_member :: "transaction \<Rightarrow> uuid \<Rightarrow> uuid \<Rightarrow> role \<Rightarrow> member_view db_op" where
  "update_member T userId memberId r =
     bind (actor_role T userId) (\<lambda>actor.
     bind (target_member T (active_membership memberId)) (\<lambda>target.
     andthen (lift_sum (validate_member_change actor (m_role (fst target)) (Some r)))
    (andthen (update_rows m_org db_memberships_update T (\<lambda>m. m_user m = m_user (fst target))
        (\<lambda>m. m\<lparr>m_role := r, m_updated := tx_now T\<rparr>))
    (bind (target_member T (\<lambda>m. m_user m = m_user (fst target))) (\<lambda>row.
     andthen (record_in_transaction T
        ((user_event (tx_org T) userId Membership_role_changed ''membership'' (m_user (fst row)))
          \<lparr>event_before := Some [(''role'', JStr (role_text (m_role (fst target))))],
           event_after := Some [(''role'', JStr (role_text (m_role (fst row))))]\<rparr>))
      (ret (member_from_row row)))))))"

text \<open>
  The deletion of a membership; the foreign key of \<^verbatim>\<open>project_role_overrides\<close> deletes the member's
  overrides with it.
\<close>

definition delete_membership :: "transaction \<Rightarrow> uuid \<Rightarrow> unit db_op" where
  "delete_membership T memberId =
     andthen (delete_rows m_org db_memberships_update T (\<lambda>m. m_user m = memberId))
       (delete_rows ov_org db_overrides_update T (\<lambda>r. ov_user r = memberId))"

definition remove_member :: "transaction \<Rightarrow> uuid \<Rightarrow> uuid \<Rightarrow> member_view db_op" where
  "remove_member T userId memberId =
     andthen (check (memberId \<noteq> userId) (Api_error 400 ''SELF_REMOVAL_FORBIDDEN''))
    (bind (actor_role T userId) (\<lambda>actor.
     bind (target_member T (active_membership memberId)) (\<lambda>target.
     andthen (lift_sum (validate_member_change actor (m_role (fst target)) None))
    (andthen (writes (db_sessions_update (map (\<lambda>r.
        if se_user r = memberId \<and> se_active_org r = Some (tx_org T) then r\<lparr>se_active_org := None\<rparr> else r))))
    (andthen (delete_membership T memberId)
    (andthen (record_in_transaction T
        ((user_event (tx_org T) userId Membership_removed ''membership'' memberId)
          \<lparr>event_before := Some [(''role'', JStr (role_text (m_role (fst target))))]\<rparr>))
      (ret (member_from_row target))))))))"

section \<open>Pending invitations\<close>

record invitation_view =
  iv_id :: uuid
  iv_email :: string
  iv_role :: role
  iv_created :: time
  iv_expires :: time

definition invitation_from_row :: "invitation_row \<Rightarrow> invitation_view" where
  "invitation_from_row i = \<lparr>iv_id = i_id i, iv_email = i_email i, iv_role = i_role i,
     iv_created = to_date (i_created i), iv_expires = to_date (i_expires i)\<rparr>"

definition invitation_le :: "invitation_row \<Rightarrow> invitation_row \<Rightarrow> bool" where
  "invitation_le a b = (if i_created a = i_created b then i_id a \<le> i_id b else i_created b \<le> i_created a)"

definition list_invitations :: "transaction \<Rightarrow> invitation_view list db_op" where
  "list_invitations T = bind (select_rows i_org db_invitations T (\<lambda>i. pending i \<and> tx_now T < i_expires i)) (\<lambda>rows.
     ret (map invitation_from_row (sort_by invitation_le rows)))"

definition revoke_invitation :: "transaction \<Rightarrow> uuid \<Rightarrow> uuid \<Rightarrow> invitation_view db_op" where
  "revoke_invitation T userId invitationId =
     bind (select_rows i_org db_invitations T (\<lambda>i. i_id i = invitationId \<and> pending i)) (\<lambda>revoked.
     andthen (update_rows i_org db_invitations_update T (\<lambda>i. i_id i = invitationId \<and> pending i)
        (\<lambda>i. i\<lparr>i_revoked := Some (tx_now T)\<rparr>))
    (bind (from_option api_not_found (first_row revoked)) (\<lambda>row.
     andthen (record_in_transaction T
        ((user_event (tx_org T) userId Membership_invitation_revoked ''organization_invitation'' (i_id row))
          \<lparr>event_before := Some [(''email'', JStr (i_email row)), (''role'', JStr (role_text (i_role row)))]\<rparr>))
      (ret (invitation_from_row row)))))"

end
