(* ===== verification/Api_Key_Facts.thy ===== *)
theory Api_Key_Facts
  imports Api_Keys Lifecycle_Facts
begin

text \<open>
  What API keys promise: a created token authenticates to exactly the scope it was created with, a
  successful authentication identifies one live key and leaves one event, a failed one tells nothing,
  and a revoked key stays dead.
\<close>

section \<open>Tokens\<close>

lemma byte_bound: "unat (b :: byte) < 256"
  using unsigned_less[of b] by simp

lemma hex_digit_ok: "d < 16 \<Longrightarrow> is_hex (hex_digit d)"
  by (auto simp: hex_digit_def is_hex_def is_digit_def)

lemma hex_text_facts: "length (hex_text bs) = 2 * length bs \<and> list_all is_hex (hex_text bs)"
proof (induction bs)
  case (Cons b bs)
  have "unat b div 16 < 16" "unat b mod 16 < 16" using byte_bound[of b] by simp_all
  then have "is_hex (hex_digit (unat b div 16))" "is_hex (hex_digit (unat b mod 16))"
    using hex_digit_ok by simp_all
  then show ?case using Cons by (simp add: hex_text_def)
qed (simp add: hex_text_def)

lemma base64_digit:
  assumes "d < 64"
  shows "base64_char d \<noteq> CHR ''='' \<and> is_url_char (url_char (base64_char d))"
proof -
  have "d < 26 \<or> (26 \<le> d \<and> d < 52) \<or> (52 \<le> d \<and> d < 62) \<or> d = 62 \<or> d = 63" using assms by linarith
  then show ?thesis
    by (auto simp: base64_char_def url_char_def is_url_char_def char_of_eq_iff is_alpha_def is_upper_def is_lower_def
        is_digit_def take_bit_nat_eq_self)
qed

lemma base64_groups:
  fixes a b c :: byte
  defines "n \<equiv> 65536 * unat a + 256 * unat b + unat c"
  shows "n div 262144 < 64" "n div 4096 mod 64 < 64" "n div 64 mod 64 < 64" "n mod 64 < 64"
  using byte_bound[of a] byte_bound[of b] byte_bound[of c] by (simp_all add: n_def)

lemma base64url_facts:
  "length (base64url bs) = (8 * length bs + 5) div 6 \<and> list_all is_url_char (base64url bs)"
proof (induction bs rule: base64_encode.induct)
  case (2 a)
  then show ?case using base64_groups[of a 0 0] base64_digit by (simp add: base64url_def Let_def)
next
  case (3 a b)
  then show ?case using base64_groups[of a b 0] base64_digit by (simp add: base64url_def Let_def)
next
  case (4 a b c bs)
  then show ?case using base64_groups[of a b c] base64_digit by (simp add: base64url_def Let_def)
qed (simp add: base64url_def)

lemma new_token_prefix:
  assumes "length a = 8" and "length b = 32"
  shows "token_prefix (new_token a b) = Inr (''himi_'' @ hex_text a)"
  using hex_text_facts[of a] base64url_facts[of b] assms
  by (simp add: token_prefix_def new_token_def)

section \<open>The keys\<close>

lemma filter_head: "filter P xs = y # ys \<Longrightarrow> y \<in> set xs \<and> P y"
  by (drule arg_cong[of _ _ set]) auto

text \<open>What the unique indexes keep.\<close>

definition api_keys_ok :: "db \<Rightarrow> bool" where
  "api_keys_ok s \<longleftrightarrow> distinct (map k_prefix (db_api_keys s))"

lemma by_prefix:
  assumes "api_keys_ok s" and "k \<in> set (db_api_keys s)"
  shows "filter (\<lambda>q. k_prefix q = k_prefix k \<and> P q) (db_api_keys s) = (if P k then [k] else [])"
proof -
  have "filter (\<lambda>q. k_prefix q = k_prefix k \<and> P q) ks = (if P k then [k] else [])"
    if "distinct (map k_prefix ks)" "k \<in> set ks" for ks
    using that
  proof (induction ks)
    case (Cons q ks)
    show ?case
    proof (cases "q = k")
      case True
      then have "filter (\<lambda>q. k_prefix q = k_prefix k \<and> P q) ks = []"
        using Cons.prems by (metis (mono_tags, lifting) distinct.simps(2) filter_False image_eqI list.set_map list.simps(9))
      then show ?thesis using True by simp
    next
      case False
      then show ?thesis using Cons by auto
    qed
  qed simp
  then show ?thesis using assms by (simp add: api_keys_ok_def)
qed

text \<open>One key was found and used: what changes in the database.\<close>

definition used_once :: "transaction \<Rightarrow> client_details \<Rightarrow> api_key_row \<Rightarrow> db \<Rightarrow> db \<Rightarrow> bool" where
  "used_once C client k s s' \<longleftrightarrow> (\<exists>ev.
     s' = db_audit_update (\<lambda>es. es @ [ev])
       (s\<lparr>db_api_keys := map (\<lambda>q. if q = k then touch_key (tx_now C) k else q) (db_api_keys s)\<rparr>)
     \<and> a_org ev = k_org k \<and> a_actor ev = Actor_api_key (k_id k) \<and> a_action ev = ''api_key.used'')"

definition refused :: "client_details \<Rightarrow> string \<Rightarrow> db \<Rightarrow> db \<Rightarrow> bool" where
  "refused client token s s' \<longleftrightarrow> s' = s \<or> (\<exists>k ev. k \<in> set (db_api_keys s) \<and> token_prefix token = Inr (k_prefix k)
     \<and> s' = db_audit_update (\<lambda>es. es @ [ev]) s
     \<and> a_org ev = k_org k \<and> a_actor ev = Actor_api_key (k_id k) \<and> a_action ev = ''auth.login_failed'')"

lemma refused_recorded:
  assumes "record_in_transaction (C\<lparr>tx_org := k_org k\<rparr>) (used_event client Auth_login_failed details k) s = Inr (u, t)"
    and "k \<in> set (db_api_keys s)" and "token_prefix token = Inr (k_prefix k)"
  shows "refused client token s t"
proof -
  let ?T = "C\<lparr>tx_org := k_org k\<rparr>" and ?ev = "used_event client Auth_login_failed details k"
  obtain m where t: "t = db_audit_update (\<lambda>es. es @ [audit_row_of ?T ?ev m (int (length (db_audit s)) + 1)]) s"
    using assms(1) by (auto simp: record_Inr)
  show ?thesis
    unfolding refused_def t
    by (rule disjI2, rule exI[of _ k], rule exI[of _ "audit_row_of ?T ?ev m (int (length (db_audit s)) + 1)"])
      (simp add: assms(2,3) audit_row_of_def used_event_def api_key_event_def)
qed

lemma used_recorded:
  assumes "record_in_transaction (C\<lparr>tx_org := k_org k\<rparr>) (used_event client Api_key_used details (touch_key n k))
      (s\<lparr>db_api_keys := map (\<lambda>q. if q = k then touch_key (tx_now C) k else q) (db_api_keys s)\<rparr>) = Inr (u, t)"
  shows "used_once C client k s t"
proof -
  let ?T = "C\<lparr>tx_org := k_org k\<rparr>" and ?ev = "used_event client Api_key_used details (touch_key n k)"
  let ?s = "s\<lparr>db_api_keys := map (\<lambda>q. if q = k then touch_key (tx_now C) k else q) (db_api_keys s)\<rparr>"
  obtain m where t: "t = db_audit_update (\<lambda>es. es @ [audit_row_of ?T ?ev m (int (length (db_audit ?s)) + 1)]) ?s"
    using assms by (auto simp: record_Inr)
  show ?thesis
    unfolding used_once_def t
    by (rule exI[of _ "audit_row_of ?T ?ev m (int (length (db_audit ?s)) + 1)"])
      (simp add: audit_row_of_def used_event_def api_key_event_def touch_key_def)
qed

lemma consume_Nil:
  "consume_api_key n p d s = ([], s') \<longleftrightarrow> filter (consumable n s p d) (db_api_keys s) = [] \<and> s' = s"
proof -
  have "map (\<lambda>k. if P k then f k else k) ks = ks" if "filter P ks = []" for P f and ks :: "api_key_row list"
    using that by (induction ks) (auto split: if_splits)
  then show ?thesis by (auto simp: consume_api_key_def Let_def)
qed

lemma consume_Cons:
  assumes "consume_api_key n p d s = (r # rs, s')" and "api_keys_ok s"
  obtains k where "k \<in> set (db_api_keys s)" and "consumable n s p d k" and "r = touch_key n k"
    and "s' = s\<lparr>db_api_keys := map (\<lambda>q. if q = k then touch_key n k else q) (db_api_keys s)\<rparr>"
proof -
  obtain k ks where k: "filter (consumable n s p d) (db_api_keys s) = k # ks" "r = touch_key n k"
    and s': "s' = s\<lparr>db_api_keys := map (\<lambda>q. if consumable n s p d q then touch_key n q else q) (db_api_keys s)\<rparr>"
    using assms(1) by (auto simp: consume_api_key_def Let_def map_eq_Cons_conv)
  have dist: "distinct (map k_prefix (db_api_keys s))" using assms(2) by (simp add: api_keys_ok_def)
  have in': "k \<in> set (db_api_keys s)" "consumable n s p d k" using filter_head[OF k(1)] by auto
  have only: "consumable n s p d q \<longleftrightarrow> q = k" if "q \<in> set (db_api_keys s)" for q
    using in' distinct_map_eq[OF dist that in'(1)] by (auto simp: consumable_def)
  have "map (\<lambda>q. if consumable n s p d q then touch_key n q else q) (db_api_keys s)
      = map (\<lambda>q. if q = k then touch_key n k else q) (db_api_keys s)"
  proof (rule map_cong[OF refl])
    fix q assume "q \<in> set (db_api_keys s)"
    from only[OF this] show "(if consumable n s p d q then touch_key n q else q) = (if q = k then touch_key n k else q)"
      by (cases "q = k") simp_all
  qed
  then have "s' = s\<lparr>db_api_keys := map (\<lambda>q. if q = k then touch_key n k else q) (db_api_keys s)\<rparr>"
    unfolding s' by (rule arg_cong)
  then show thesis by (rule that[OF in' k(2)])
qed

lemma authenticate_cases:
  assumes run: "authenticate_key C token client s = (r, s')" and ok: "api_keys_ok s"
  obtains (refused) "r = Inl invalid_token" and "refused client token s s'"
  | (used) k where "k \<in> set (db_api_keys s)" and "token_prefix token = Inr (k_prefix k)"
      and "k_token_hash k = token_digest (tx_platform C) token" and "key_live (tx_now C) s k"
      and "r = Inr (principal_of (touch_key (tx_now C) k))" and "used_once C client k s s'"
proof (cases "token_prefix token")
  case (Inl e)
  then show thesis using run refused by (auto simp: authenticate_key_def refused_def token_prefix_def split: if_splits)
next
  case (Inr p)
  let ?d = "token_digest (tx_platform C) token"
  obtain rs s1 where c: "consume_api_key (tx_now C) p ?d s = (rs, s1)" by force
  show thesis
  proof (cases rs)
    case Nil
    show thesis
    proof (cases "resolve_api_key_identity p s")
      case Nil
      then show thesis using run Inr c \<open>rs = []\<close> refused by (simp add: authenticate_key_def refused_def)
    next
      case (Cons k ks)
      let ?ev = "used_event client Auth_login_failed [(''method'', JStr ''bearer''), (''reason'', JStr ''invalid_or_inactive'')] k"
      have k: "k \<in> set (db_api_keys s)" "k_prefix k = p"
        using filter_head[OF Cons[unfolded resolve_api_key_identity_def]] by auto
      have out: "r = Inl invalid_token" "s' = (case record_in_transaction (C\<lparr>tx_org := k_org k\<rparr>) ?ev s of Inl _ \<Rightarrow> s | Inr (_, t) \<Rightarrow> t)"
        using run Inr c \<open>rs = []\<close> Cons by (auto simp: authenticate_key_def split: sum.splits)
      have "refused client token s s'"
      proof (cases "record_in_transaction (C\<lparr>tx_org := k_org k\<rparr>) ?ev s")
        case (Inr w)
        obtain t where "w = ((), t)" by (cases w) auto
        with Inr k \<open>token_prefix token = Inr p\<close> show ?thesis unfolding out(2) by (simp add: refused_recorded)
      qed (simp add: out(2) refused_def)
      then show thesis using refused out(1) by blast
    qed
  next
    case (Cons q qs)
    obtain k where k: "k \<in> set (db_api_keys s)" "consumable (tx_now C) s p ?d k" "q = touch_key (tx_now C) k"
      "s1 = s\<lparr>db_api_keys := map (\<lambda>q. if q = k then touch_key (tx_now C) k else q) (db_api_keys s)\<rparr>"
      using consume_Cons[OF c[unfolded Cons] ok] .
    have q: "k_org q = k_org k" "k_id q = k_id k" by (simp_all add: k(3) touch_key_def)
    show thesis
    proof (cases "record_in_transaction (C\<lparr>tx_org := k_org q\<rparr>)
        (used_event client Api_key_used [(''access'', JStr (access_text (k_access q)))] q) s1")
      case (Inl e)
      then show thesis using run Inr c Cons refused by (auto simp: authenticate_key_def refused_def)
    next
      case (Inr w)
      obtain t where t: "w = ((), t)" by (cases w) auto
      have "r = Inr (principal_of q)" "s' = t" using run \<open>token_prefix token = Inr p\<close> c Cons Inr t
        by (auto simp: authenticate_key_def)
      moreover have "used_once C client k s t"
        using Inr unfolding t k(4) q(1) unfolding k(3) by (rule used_recorded)
      ultimately show thesis using used[OF k(1)] k(2,3) \<open>token_prefix token = Inr p\<close> by (simp add: consumable_def)
    qed
  qed
qed


text \<open>
  C19: authentication of API keys. A refused token always gets the same answer and changes nothing but
  one event against the key whose prefix it carries, if there is one. An accepted token carries the
  prefix and hashes to the digest of one key that is not revoked, not expired, and whose organization,
  project and environment are active and whose creator is an active member; the principal is exactly
  that key's creator and scope; the key's last use is set and one event recorded, and nothing else
  changes.
\<close>
theorem authentication_is_exact:
  assumes run: "authenticate_key C token client s = (r, s')" and ok: "api_keys_ok s"
  shows "(\<forall>e. r = Inl e \<longrightarrow> e = invalid_token \<and> refused client token s s')
    \<and> (\<forall>p. r = Inr p \<longrightarrow> (\<exists>k\<in>set (db_api_keys s).
        token_prefix token = Inr (k_prefix k) \<and> k_token_hash k = token_digest (tx_platform C) token
        \<and> key_live (tx_now C) s k
        \<and> pr_key p = k_id k \<and> pr_org p = k_org k \<and> Some (pr_user p) = k_created_by k
        \<and> pr_project p = k_project k \<and> pr_environment p = k_environment k \<and> pr_access p = k_access k
        \<and> context_at (C\<lparr>tx_org := pr_org p\<rparr>) (pr_user p) (pr_project p) False s \<noteq> None
        \<and> used_once C client k s s'))"
  using run ok
proof (cases rule: authenticate_cases)
  case (used k)
  obtain m where m: "m \<in> set (db_memberships s)" "m_org m = k_org k" "Some (m_user m) = k_created_by k"
    "m_status m = Status_active" using used(4) by (auto simp: key_live_def)
  let ?C = "C\<lparr>tx_org := k_org k\<rparr>"
  have "find (active_membership (m_user m)) (visible m_org ?C (db_memberships s)) \<noteq> None"
    using m by (auto simp: find_None_iff visible_def active_membership_def)
  then have "context_at ?C (m_user m) pid False s \<noteq> None" for pid by (auto simp: context_at_def)
  moreover have "k_created_by k = Some (m_user m)" using m(3) by simp
  ultimately show ?thesis using used by (auto simp: principal_of_def touch_key_def)
qed simp

section \<open>A created token works\<close>

lemma store_api_key_row:
  assumes run: "store_api_key isoText T u input a b expiresAt s = Inr ((view, token), s')"
    and l: "length a = 8" "length b = 32"
  obtains i n name g where
    "let k = new_api_key T u input (random_uuid (tx_platform T) i) name (''himi_'' @ hex_text a)
         (token_digest (tx_platform T) token) expiresAt in
       tx_org T \<noteq> [] \<and> view = api_key_from_row k \<and> token_prefix token = Inr (k_prefix k) \<and> length (k_token_hash k) = 32
       \<and> k_prefix k \<notin> set (map k_prefix (db_api_keys s))
       \<and> s' = db_audit_update g (db_api_keys_update (\<lambda>ks. ks @ [k]) (s\<lparr>db_draws := n\<rparr>))"
proof -
  let ?i = "db_draws s"
  let ?k = "\<lambda>name. new_api_key T u input (random_uuid (tx_platform T) ?i) name (''himi_'' @ hex_text a)
      (token_digest (tx_platform T) (new_token a b)) expiresAt"
  obtain name t ev where ins: "insert_api_key T (?k name) (s\<lparr>db_draws := ?i + 1\<rparr>) = Inr ((), t)"
    and rec: "record_in_transaction T ev t = Inr ((), s')"
    and out: "view = api_key_from_row (?k name)" "token = new_token a b"
    using run by (auto simp: store_api_key_def op_simps Let_def fresh_uuid_def next_draw_def)
  have t: "t = db_api_keys_update (\<lambda>ks. ks @ [?k name]) (s\<lparr>db_draws := ?i + 1\<rparr>)"
    and c: "length (k_token_hash (?k name)) = 32" "\<not> list_ex (api_key_clash (?k name)) (db_api_keys s)"
    using ins by (auto simp: insert_api_key_def insert_row_def op_simps)
  obtain g where s': "s' = db_audit_update g t" using record_frame[OF rec] .
  have "tx_org T \<noteq> []" using rec by (auto simp: record_Inr validate_event_def split: if_splits)
  moreover have "k_prefix (?k name) \<notin> set (map k_prefix (db_api_keys s))" "k_prefix (?k name) = ''himi_'' @ hex_text a"
    using c(2) by (auto simp: list_ex_iff api_key_clash_def new_api_key_def)
  ultimately show thesis
    using that[of ?i name g "?i + 1"] out c(1) new_token_prefix[OF l] s'[unfolded t] by (simp add: Let_def)
qed

text \<open>What is known of the key a creation stores.\<close>

definition created_key :: "transaction \<Rightarrow> uuid \<Rightarrow> api_key_input \<Rightarrow> string \<Rightarrow> api_key_row \<Rightarrow> bool" where
  "created_key T u input token k \<longleftrightarrow>
     token_prefix token = Inr (k_prefix k) \<and> k_token_hash k = token_digest (tx_platform T) token
     \<and> length (k_token_hash k) = 32 \<and> k_revoked k = None \<and> k_last_used k = None \<and> k_expires k = ak_expires input
     \<and> k_org k = tx_org T \<and> k_org k \<noteq> [] \<and> k_project k = ak_project input \<and> k_environment k = ak_environment input
     \<and> k_access k = ak_access input \<and> k_created_by k = Some u \<and> (\<exists>i. k_id k = random_uuid (tx_platform T) i)"

lemma create_api_key_row:
  assumes run: "create_api_key isoText T u input s = Inr ((view, token), s')" and l: "random_lengths (tx_platform T)"
  obtains k g n where "created_key T u input token k" and "view = api_key_from_row k"
    and "k_prefix k \<notin> set (map k_prefix (db_api_keys s))"
    and "s' = db_audit_update g (db_api_keys_update (\<lambda>ks. ks @ [k]) (s\<lparr>db_draws := n\<rparr>))"
    and "ak_environment input = None \<or> ak_project input \<noteq> None"
    and "permitted T u (ak_project input) False Api_key_create s"
    and "\<forall>pid\<in>set_option (ak_project input). length (scope_rows T pid (ak_environment input) s) = 1"
proof -
  have scope: "validate_scope T p e t = Inr (w, t') \<longleftrightarrow> t' = t \<and> (\<forall>pid\<in>set_option p. length (scope_rows T pid e t) = 1)" for p e t w t'
    by (cases p) (auto simp: validate_scope_def op_simps)
  have expiry: "key_expiry e n = Inr e' \<Longrightarrow> e' = e" for e e' n
    by (auto simp: key_expiry_def split: option.splits if_splits)
  obtain i j expiresAt where c: "ak_environment input = None \<or> ak_project input \<noteq> None"
      "permitted T u (ak_project input) False Api_key_create s"
      "\<forall>pid\<in>set_option (ak_project input). length (scope_rows T pid (ak_environment input) s) = 1"
      "key_expiry (ak_expires input) (to_date (tx_clock T)) = Inr expiresAt"
    and st: "store_api_key isoText T u input (random_bytes (tx_platform T) i 8) (random_bytes (tx_platform T) j 32) expiresAt
        (s\<lparr>db_draws := Suc (Suc (db_draws s))\<rparr>) = Inr ((view, token), s')"
    using run by (auto simp: create_api_key_def op_simps permit_Inr scope next_draw_def)
  have ln: "length (random_bytes (tx_platform T) i 8) = 8" "length (random_bytes (tx_platform T) j 32) = 32"
    using l by (simp_all add: random_lengths_def)
  obtain i' n name g where r: "let k = new_api_key T u input (random_uuid (tx_platform T) i') name
         (''himi_'' @ hex_text (random_bytes (tx_platform T) i 8)) (token_digest (tx_platform T) token) expiresAt in
       tx_org T \<noteq> [] \<and> view = api_key_from_row k \<and> token_prefix token = Inr (k_prefix k) \<and> length (k_token_hash k) = 32
       \<and> k_prefix k \<notin> set (map k_prefix (db_api_keys (s\<lparr>db_draws := Suc (Suc (db_draws s))\<rparr>)))
       \<and> s' = db_audit_update g (db_api_keys_update (\<lambda>ks. ks @ [k]) (s\<lparr>db_draws := Suc (Suc (db_draws s))\<rparr>\<lparr>db_draws := n\<rparr>))"
    by (rule store_api_key_row[OF st ln])
  then show thesis
    using that[of "new_api_key T u input (random_uuid (tx_platform T) i') name
         (''himi_'' @ hex_text (random_bytes (tx_platform T) i 8)) (token_digest (tx_platform T) token) expiresAt" g n]
      c expiry[OF c(4)]
    by (auto simp: Let_def created_key_def new_api_key_def)
qed

lemma scope_row:
  assumes "x \<in> set (scope_rows T pid env s)"
  shows "\<exists>p\<in>set (visible p_org T (db_projects s)). active_project pid p
    \<and> (\<forall>i\<in>set_option env. \<exists>e\<in>set (visible e_org T (db_environments s)). e_project e = p_id p \<and> e_id e = i \<and> e_deleted e = None)"
proof -
  from assms obtain p where p: "p \<in> set (visible p_org T (db_projects s))" "active_project pid p"
    and x: "x \<in> set (case env of None \<Rightarrow> [(p, None)]
         | Some i \<Rightarrow> map (\<lambda>e. (p, Some e)) (filter (\<lambda>e. e_project e = p_id p \<and> e_id e = i \<and> e_deleted e = None)
             (visible e_org T (db_environments s))))"
    unfolding scope_rows_def by auto
  have "\<forall>i\<in>set_option env. \<exists>e\<in>set (visible e_org T (db_environments s)). e_project e = p_id p \<and> e_id e = i \<and> e_deleted e = None"
    using x by (cases env) auto
  then show ?thesis using p by blast
qed

lemma created_key_live:
  assumes "created_key T u input token k" and "permitted T u (ak_project input) False Api_key_create s"
    and "ak_environment input = None \<or> ak_project input \<noteq> None"
    and scope: "\<forall>pid\<in>set_option (ak_project input). length (scope_rows T pid (ak_environment input) s) = 1"
    and org: "\<exists>x\<in>set (db_organizations s). o_id x = tx_org T \<and> o_deleted x = None"
    and fresh: "\<forall>t. ak_expires input = Some t \<longrightarrow> n < t"
  shows "key_live n s k"
proof -
  note k = assms(1)[unfolded created_key_def]
  obtain m where "find (active_membership u) (visible m_org T (db_memberships s)) = Some m"
    using assms(2) by (auto simp: permitted_def context_at_def split: option.splits)
  then have member: "\<exists>m\<in>set (db_memberships s). m_org m = k_org k \<and> Some (m_user m) = k_created_by k \<and> m_status m = Status_active"
    using k find_SomeD by (fastforce simp: visible_def active_membership_def)
  have place: "(\<exists>p\<in>set (db_projects s). p_org p = k_org k \<and> p_id p = pid \<and> p_deleted p = None)
      \<and> (\<forall>i\<in>set_option (k_environment k). \<exists>e\<in>set (db_environments s).
          e_org e = k_org k \<and> Some (e_project e) = k_project k \<and> e_id e = i \<and> e_deleted e = None)"
    if "k_project k = Some pid" for pid
  proof -
    have "length (scope_rows T pid (ak_environment input) s) = 1" using scope k that by simp
    then obtain x where "x \<in> set (scope_rows T pid (ak_environment input) s)" by (cases "scope_rows T pid (ak_environment input) s") auto
    then have "\<exists>p\<in>set (visible p_org T (db_projects s)). active_project pid p
        \<and> (\<forall>i\<in>set_option (ak_environment input). \<exists>e\<in>set (visible e_org T (db_environments s)).
          e_project e = p_id p \<and> e_id e = i \<and> e_deleted e = None)"
      by (rule scope_row)
    then obtain p where p: "p \<in> set (visible p_org T (db_projects s))" "active_project pid p"
      and e: "\<forall>i\<in>set_option (ak_environment input). \<exists>e\<in>set (visible e_org T (db_environments s)).
          e_project e = p_id p \<and> e_id e = i \<and> e_deleted e = None" by blast
    have "\<exists>p\<in>set (db_projects s). p_org p = k_org k \<and> p_id p = pid \<and> p_deleted p = None"
      using p k by (auto simp: visible_def active_project_def)
    moreover have "\<exists>e\<in>set (db_environments s). e_org e = k_org k \<and> Some (e_project e) = k_project k \<and> e_id e = i \<and> e_deleted e = None"
      if "i \<in> set_option (k_environment k)" for i
      using bspec[OF e, of i] that k p(2) \<open>k_project k = Some pid\<close> by (auto simp: visible_def active_project_def)
    ultimately show ?thesis by blast
  qed
  show ?thesis
    unfolding key_live_def
  proof (intro conjI ballI)
    fix i assume i: "i \<in> set_option (k_environment k)"
    then obtain pid where "k_project k = Some pid" using assms(3) k by auto
    then show "\<exists>e\<in>set (db_environments s). e_org e = k_org k \<and> Some (e_project e) = k_project k \<and> e_id e = i \<and> e_deleted e = None"
      using place i by blast
  qed (use member place k org fresh in auto)
qed

lemma live_key_authenticates:
  assumes k: "k \<in> set (db_api_keys s)" "token_prefix token = Inr (k_prefix k)"
      "k_token_hash k = token_digest (tx_platform C) token" "length (k_token_hash k) = 32" "key_live (tx_now C) s k"
    and ids: "k_id k \<noteq> []" "k_org k \<noteq> []" and ok: "api_keys_ok s" "audit_ok s"
  shows "\<exists>s'. authenticate_key C token client s = (Inr (principal_of (touch_key (tx_now C) k)), s')"
proof -
  let ?hit = "consumable (tx_now C) s (k_prefix k) (token_digest (tx_platform C) token)"
  have "filter ?hit (db_api_keys s) = [k]"
    using by_prefix[OF ok(1) k(1), of "\<lambda>q. k_token_hash q = token_digest (tx_platform C) token \<and> length (k_token_hash q) = 32
        \<and> key_live (tx_now C) s q"] k(3-5)
    by (simp add: consumable_def[abs_def] cong: conj_cong)
  then obtain s1 where c: "consume_api_key (tx_now C) (k_prefix k) (token_digest (tx_platform C) token) s
      = ([touch_key (tx_now C) k], s1)" and s1: "db_audit s1 = db_audit s"
    by (simp add: consume_api_key_def Let_def)
  let ?q = "touch_key (tx_now C) k"
  let ?ev = "used_event client Api_key_used [(''access'', JStr (access_text (k_access ?q)))] ?q"
  have "small_object [(''access'', JStr ''read_only'')]" "small_object [(''access'', JStr ''read_write'')]" by code_simp+
  then have "small_object [(''access'', JStr (access_text a))]" for a by (cases a) simp_all
  then obtain md where "metadata_for ?ev = Inr md"
    using metadata_for_small[of ?ev] by (auto simp: used_event_def api_key_event_def)
  moreover have "validate_event ?ev = Inr ()"
    using ids by (simp add: validate_event_def used_event_def api_key_event_def touch_key_def starts_with_def)
  moreover have "audit_ok s1" using ok(2) s1 by (simp add: audit_ok_def)
  ultimately obtain t where "record_in_transaction (C\<lparr>tx_org := k_org ?q\<rparr>) ?ev s1 = Inr ((), t)"
    using record_succeeds[of s1 ?ev "C\<lparr>tx_org := k_org ?q\<rparr>" md] by (auto simp: used_event_def api_key_event_def)
  then show ?thesis using c k(2) by (simp add: authenticate_key_def)
qed

lemma created_token_runs:
  assumes run: "create_api_key isoText T u input s = Inr ((view, token), s1)"
    and P: "random_lengths (tx_platform T)" "\<forall>i. random_uuid (tx_platform T) i \<noteq> []" "tx_platform C = tx_platform T"
    and ok: "api_keys_ok s" "audit_ok s"
    and org: "\<exists>x\<in>set (db_organizations s). o_id x = tx_org T \<and> o_deleted x = None"
    and fresh: "\<forall>t. ak_expires input = Some t \<longrightarrow> tx_now C < t"
  shows "\<exists>s2. authenticate_key C token client s1 = (Inr \<lparr>pr_key = kv_id view, pr_org = tx_org T, pr_user = u,
      pr_project = ak_project input, pr_environment = ak_environment input, pr_access = ak_access input,
      pr_prefix = kv_prefix view, pr_used = to_date (tx_now C)\<rparr>, s2) \<and> api_keys_ok s1"
proof -
  obtain k g n where k: "created_key T u input token k" and view: "view = api_key_from_row k"
    and new: "k_prefix k \<notin> set (map k_prefix (db_api_keys s))"
    and s1: "s1 = db_audit_update g (db_api_keys_update (\<lambda>ks. ks @ [k]) (s\<lparr>db_draws := n\<rparr>))"
    and c: "ak_environment input = None \<or> ak_project input \<noteq> None"
      "permitted T u (ak_project input) False Api_key_create s"
      "\<forall>pid\<in>set_option (ak_project input). length (scope_rows T pid (ak_environment input) s) = 1"
    by (rule create_api_key_row[OF run P(1)]) (rule that; assumption)
  note k' = k[unfolded created_key_def]
  have "key_live (tx_now C) s k" by (rule created_key_live[OF k c(2,1,3) org fresh])
  then have live: "key_live (tx_now C) s1 k" by (simp add: key_live_def s1)
  have ok1: "api_keys_ok s1" using ok(1) new by (simp add: api_keys_ok_def s1)
  have "audit_ok s1" using obeysD[OF obeys_create_api_key run] ok(2) by (simp add: tenant_step_def)
  moreover have "k \<in> set (db_api_keys s1)" by (simp add: s1)
  moreover have "k_id k \<noteq> []" "k_org k \<noteq> []" using k' P(2) by metis+
  ultimately obtain s2 where "authenticate_key C token client s1 = (Inr (principal_of (touch_key (tx_now C) k)), s2)"
    using live_key_authenticates[of k s1 token C client] k' live ok1 P(3) by (auto simp: token_digest_def)
  then show ?thesis using k' view ok1 by (auto simp: principal_of_def touch_key_def api_key_from_row_def)
qed

text \<open>
  C20: a created token works. The token a creation returns authenticates, from then until it expires,
  as its creator in exactly the organization, project, environment and access the creation asked for.
\<close>
theorem created_token_authenticates:
  assumes run: "create_api_key isoText T u input s = Inr ((view, token), s1)"
    and P: "random_lengths (tx_platform T)" "\<forall>i. random_uuid (tx_platform T) i \<noteq> []" "tx_platform C = tx_platform T"
    and ok: "api_keys_ok s" "audit_ok s"
    and org: "\<exists>x\<in>set (db_organizations s). o_id x = tx_org T \<and> o_deleted x = None"
    and fresh: "\<forall>t. ak_expires input = Some t \<longrightarrow> tx_now C < t"
  shows "\<exists>s2. authenticate_key C token client s1 = (Inr \<lparr>pr_key = kv_id view, pr_org = tx_org T, pr_user = u,
      pr_project = ak_project input, pr_environment = ak_environment input, pr_access = ak_access input,
      pr_prefix = kv_prefix view, pr_used = to_date (tx_now C)\<rparr>, s2) \<and> api_keys_ok s1"
  using assms by (rule created_token_runs)

section \<open>A revoked key stays dead\<close>

text \<open>One use of the service, by any member of any organization or by any client, at any time.\<close>

inductive key_step :: "db \<Rightarrow> db \<Rightarrow> bool" where
  created: "create_api_key isoText T u input s = Inr (v, s') \<Longrightarrow> random_lengths (tx_platform T) \<Longrightarrow> key_step s s'"
| revoked: "revoke_api_key T u i s = Inr (v, s') \<Longrightarrow> key_step s s'"
| authenticated: "authenticate_key C token client s = (r, s') \<Longrightarrow> key_step s s'"

definition dead_prefix :: "string \<Rightarrow> db \<Rightarrow> bool" where
  "dead_prefix p s \<longleftrightarrow> api_keys_ok s \<and> (\<exists>k\<in>set (db_api_keys s). k_prefix k = p \<and> k_revoked k \<noteq> None)"

lemma if_op_Inr: "(if c then m else n) s = Inr r \<longleftrightarrow> (c \<and> m s = Inr r) \<or> (\<not> c \<and> n s = Inr r)"
  by simp

lemma record_api_keys: "record_in_transaction T ev s = Inr (u, s') \<Longrightarrow> db_api_keys s' = db_api_keys s"
  by (auto elim: record_frame)

definition revoked_row :: "transaction \<Rightarrow> api_key_row \<Rightarrow> api_key_row" where
  "revoked_row T k = k\<lparr>k_revoked := Some (tx_now T)\<rparr>"

lemma revoked_row_fields [simp]:
  "k_id (revoked_row T k) = k_id k" "k_org (revoked_row T k) = k_org k" "k_prefix (revoked_row T k) = k_prefix k"
  "k_revoked (revoked_row T k) = Some (tx_now T)"
  by (simp_all add: revoked_row_def)

lemma revoke_api_key_rows:
  assumes "revoke_api_key T u i s = Inr (v, s')"
  shows "\<exists>k. find (\<lambda>k. k_id k = i) (visible k_org T (db_api_keys s)) = Some k
    \<and> permitted T u (k_project k) False Api_key_revoke s
    \<and> (k_revoked k \<noteq> None \<and> v = api_key_from_row k \<and> s' = s
       \<or> k_revoked k = None \<and> v = api_key_from_row (revoked_row T k)
         \<and> db_api_keys s' = update_where k_org T (\<lambda>k. k_id k = i) (revoked_row T) (db_api_keys s))"
proof -
  have "find (\<lambda>k. k_id k = i) (visible k_org T (update_where k_org T (\<lambda>k. k_id k = i) (revoked_row T) ks))
      = map_option (revoked_row T) (find (\<lambda>k. k_id k = i) (visible k_org T ks))" for ks
    by (induction ks) (auto simp: visible_def update_where_def)
  then show ?thesis
    using assms
    by (auto simp: revoke_api_key_def op_simps select_rows_def first_row_filter permit_Inr update_rows_def if_op_Inr
        revoked_row_def[symmetric, abs_def] simp del: if_split dest!: record_api_keys)
qed

lemma dead_prefix_update:
  assumes "dead_prefix p s" and "map k_prefix (db_api_keys s') = map k_prefix (db_api_keys s)"
    and "\<And>k. k \<in> set (db_api_keys s) \<Longrightarrow> k_revoked k \<noteq> None \<Longrightarrow>
      \<exists>q\<in>set (db_api_keys s'). k_prefix q = k_prefix k \<and> k_revoked q \<noteq> None"
  shows "dead_prefix p s'"
  using assms unfolding dead_prefix_def api_keys_ok_def by metis

lemma dead_prefix_revoked:
  assumes d: "dead_prefix p s"
    and s': "db_api_keys s' = update_where k_org T P (revoked_row T) (db_api_keys s)"
  shows "dead_prefix p s'"
  using d
proof (rule dead_prefix_update)
  fix k assume "k \<in> set (db_api_keys s)" "k_revoked k \<noteq> None"
  then show "\<exists>q\<in>set (db_api_keys s'). k_prefix q = k_prefix k \<and> k_revoked q \<noteq> None"
    unfolding s' by (intro bexI[of _ "if k_org k = tx_org T \<and> P k then revoked_row T k else k"]) (auto simp: update_where_def)
qed (simp add: s' update_where_def)

lemma dead_prefix_step:
  assumes "key_step s s'" and d: "dead_prefix p s"
  shows "dead_prefix p s'"
  using assms(1)
proof cases
  case (created isoText T u input v)
  obtain view token where v: "v = (view, token)" by force
  obtain k g n where "k_prefix k \<notin> set (map k_prefix (db_api_keys s))"
    "s' = db_audit_update g (db_api_keys_update (\<lambda>ks. ks @ [k]) (s\<lparr>db_draws := n\<rparr>))"
    by (rule create_api_key_row[OF created(1)[unfolded v] created(2)]) (rule that; assumption)
  then show ?thesis using d by (auto simp: dead_prefix_def api_keys_ok_def)
next
  case (revoked T u i v)
  then show ?thesis using revoke_api_key_rows[OF revoked] d dead_prefix_revoked by blast
next
  case (authenticated C token client r)
  have "api_keys_ok s" using d by (simp add: dead_prefix_def)
  with authenticated show ?thesis
  proof (cases rule: authenticate_cases)
    case refused
    then have "db_api_keys s' = db_api_keys s" by (auto simp: refused_def)
    then show ?thesis using d by (simp add: dead_prefix_def api_keys_ok_def)
  next
    case (used k)
    then have s': "db_api_keys s' = map (\<lambda>q. if q = k then touch_key (tx_now C) k else q) (db_api_keys s)"
      by (auto simp: used_once_def)
    have live: "k_revoked k = None" using used(4) by (simp add: key_live_def)
    show ?thesis
      using d
    proof (rule dead_prefix_update)
      fix q assume q: "q \<in> set (db_api_keys s)" "k_revoked q \<noteq> None"
      then have "q \<noteq> k" using live by auto
      then show "\<exists>x\<in>set (db_api_keys s'). k_prefix x = k_prefix q \<and> k_revoked x \<noteq> None"
        using q unfolding s' by (intro bexI[of _ q]) force+
    qed (simp add: s' touch_key_def)
  qed
qed

lemma dead_unauthenticated:
  assumes "dead_prefix p s" and "token_prefix token = Inr p"
  shows "fst (authenticate_key C token client s) = Inl invalid_token"
proof -
  obtain r s' where run: "authenticate_key C token client s = (r, s')" by force
  have ok: "api_keys_ok s" using assms(1) by (simp add: dead_prefix_def)
  show ?thesis
    using run ok
  proof (cases rule: authenticate_cases)
    case (used k)
    obtain q where "q \<in> set (db_api_keys s)" "k_prefix q = p" "k_revoked q \<noteq> None"
      using assms(1) by (auto simp: dead_prefix_def)
    then show ?thesis
      using used(1,2,4) assms(2) distinct_map_eq[of k_prefix "db_api_keys s" q k] ok
      by (auto simp: api_keys_ok_def key_live_def)
  qed (simp add: run)
qed

text \<open>
  A revoked key stays dead. Once a key has been revoked, a token with its prefix is refused, however
  often keys are created, revoked or used in between, by anyone and at any time.
\<close>
theorem revoked_key_stays_dead:
  assumes rev: "revoke_api_key T u i s = Inr (v, s1)" and ok: "api_keys_ok s"
    and later: "key_step\<^sup>*\<^sup>* s1 s2" and token: "token_prefix token = Inr (kv_prefix v)"
  shows "permitted T u (kv_project v) False Api_key_revoke s \<and> fst (authenticate_key C token client s2) = Inl invalid_token"
proof -
  obtain k where k: "find (\<lambda>k. k_id k = i) (visible k_org T (db_api_keys s)) = Some k"
    "permitted T u (k_project k) False Api_key_revoke s"
    and upd: "k_revoked k \<noteq> None \<and> v = api_key_from_row k \<and> s1 = s
       \<or> k_revoked k = None \<and> v = api_key_from_row (revoked_row T k)
         \<and> db_api_keys s1 = update_where k_org T (\<lambda>k. k_id k = i) (revoked_row T) (db_api_keys s)"
    using revoke_api_key_rows[OF rev] by blast
  have in': "k \<in> set (db_api_keys s)" "k_org k = tx_org T" "k_id k = i" using find_SomeD[OF k(1)] by (auto simp: visible_def)
  have v: "kv_prefix v = k_prefix k" "kv_project v = k_project k"
    using upd by (auto simp: api_key_from_row_def revoked_row_def)
  have "dead_prefix (k_prefix k) s1"
  proof (cases "k_revoked k")
    case None
    then have "revoked_row T k \<in> set (db_api_keys s1)" and "map k_prefix (db_api_keys s1) = map k_prefix (db_api_keys s)"
      using upd in' by (force simp: update_where_def)+
    then show ?thesis using ok by (auto simp: dead_prefix_def api_keys_ok_def intro!: bexI[of _ "revoked_row T k"])
  next
    case (Some d)
    then show ?thesis using upd in' ok by (auto simp: dead_prefix_def)
  qed
  with later have "dead_prefix (k_prefix k) s2" by (induction rule: rtranclp_induct) (auto intro: dead_prefix_step)
  then show ?thesis using dead_unauthenticated token k(2) v by metis
qed

section \<open>The promises at work\<close>

definition demo_office :: db where
  "demo_office = demo_db\<lparr>db_organizations := [\<lparr>o_id = ''o'', o_name = ''O'', o_slug = ''o'', o_retention = 90,
     o_created = 0, o_updated = 0, o_deleted = None\<rparr>]\<rparr>"

definition demo_request :: api_key_input where
  "demo_request = \<lparr>ak_name = ''ci'', ak_access = Access_read_only, ak_project = None, ak_environment = None, ak_expires = None\<rparr>"

lemma demo_request_fields [simp]:
  "ak_name demo_request = ''ci''" "ak_access demo_request = Access_read_only" "ak_project demo_request = None"
  "ak_environment demo_request = None" "ak_expires demo_request = None"
  by (simp_all add: demo_request_def)

definition demo_client :: client_details where "demo_client = \<lparr>cd_ip = None, cd_agent = None\<rparr>"

definition demo_token :: string where "demo_token = new_token (replicate 8 0) (replicate 32 1)"

definition demo_key_row :: api_key_row where
  "demo_key_row = new_api_key demo_tx ''u'' demo_request ''iii'' ''ci'' (''himi_'' @ hex_text (replicate 8 0))
     (token_digest demo_platform demo_token) None"

lemma demo_office_ok [simp]: "staffed demo_office" "audit_ok demo_office" "api_keys_ok demo_office" "db_draws demo_office = 0"
  "db_api_keys demo_office = []"
  by (simp_all add: demo_office_def demo_db_def empty_db_def staffed_def audit_ok_def api_keys_ok_def)

lemma demo_platform_facts [simp]:
  "tx_platform demo_tx = demo_platform" "random_bytes demo_platform i n = replicate n (of_nat i)"
  "random_uuid demo_platform i = replicate (Suc i) (CHR ''i'')" "length (token_digest demo_platform t) = 32"
  by (simp_all add: demo_tx_def demo_platform_def token_digest_def)

definition demo_stored :: db where
  "demo_stored = db_api_keys_update (\<lambda>rs. rs @ [demo_key_row]) (demo_office\<lparr>db_draws := Suc (Suc (Suc 0))\<rparr>)"

lemma demo_create_key:
  obtains f where "create_api_key (\<lambda>_. []) demo_tx ''u'' demo_request demo_office = Inr ((api_key_from_row demo_key_row, demo_token),
      db_audit_update f demo_stored)"
proof -
  let ?ev = "(api_key_event (Actor_user ''u'') Api_key_created demo_key_row)\<lparr>event_after :=
      Some [(''access'', JStr ''read_only''), (''scope'', JStr ''organization''), (''expiresAt'', JNull)]\<rparr>"
  let ?t = demo_stored
  have small: "small_object [(''access'', JStr ''read_only''), (''scope'', JStr ''organization''), (''expiresAt'', JNull)]"
    by code_simp
  have "audit_ok ?t" using demo_office_ok(2) by (simp add: audit_ok_def demo_stored_def)
  then obtain f where rec: "record_in_transaction demo_tx ?ev ?t = Inr ((), db_audit_update f ?t)"
    by (rule demo_record[where ev = ?ev])
      (simp_all add: api_key_event_def validate_event_def starts_with_def small demo_key_row_def new_api_key_def demo_tx_def)
  have row: "k_org demo_key_row = ''o''" "tx_org demo_tx = ''o''" "k_token_hash demo_key_row = token_digest demo_platform demo_token"
    "k_expires demo_key_row = None" "k_access demo_key_row = Access_read_only"
    by (simp_all add: demo_key_row_def new_api_key_def demo_tx_def demo_request_def)
  have name: "api_key_name ''ci'' = Inr ''ci''" by code_simp
  have tok: "new_token (replicate 8 0) (replicate 32 1) = demo_token" by (simp add: demo_token_def)
  have new: "new_api_key demo_tx ''u'' demo_request ''iii'' ''ci'' (''himi_'' @ hex_text (replicate 8 0))
      (token_digest demo_platform demo_token) None = demo_key_row" by (simp add: demo_key_row_def)
  have st: "store_api_key (\<lambda>_. []) demo_tx ''u'' demo_request (replicate 8 0) (replicate 32 1) None (demo_office\<lparr>db_draws := 2\<rparr>)
      = Inr ((api_key_from_row demo_key_row, demo_token), db_audit_update f ?t)"
    using rec row name tok new unfolding demo_stored_def
    by (simp add: store_api_key_def op_simps Let_def fresh_uuid_def next_draw_def insert_api_key_def insert_row_def
        scope_text_def numeral_2_eq_2)
  have "create_api_key (\<lambda>_. []) demo_tx ''u'' demo_request demo_office = Inr ((api_key_from_row demo_key_row, demo_token),
      db_audit_update f ?t)"
    using st owner_permitted[OF demo_office_ok(1)]
    by (simp add: create_api_key_def op_simps permit_Inr validate_scope_def next_draw_def key_expiry_def
        numeral_2_eq_2 del: replicate_Suc)
  then show thesis by (rule that)
qed

lemma demo_stored_facts:
  "staffed (db_audit_update f demo_stored)" "db_api_keys (db_audit_update f demo_stored) = [demo_key_row]"
  "api_keys_ok (db_audit_update f demo_stored)"
  by (simp_all add: demo_stored_def staffed_def demo_office_def demo_db_def empty_db_def api_keys_ok_def)

theorem created_token_authenticates_witness:
  "\<exists>s1 p s2. create_api_key (\<lambda>_. []) demo_tx ''u'' demo_request demo_office = Inr ((api_key_from_row demo_key_row, demo_token), s1)
     \<and> authenticate_key demo_tx demo_token demo_client s1 = (Inr p, s2) \<and> pr_user p = ''u'' \<and> pr_access p = Access_read_only"
proof -
  obtain f where run: "create_api_key (\<lambda>_. []) demo_tx ''u'' demo_request demo_office
      = Inr ((api_key_from_row demo_key_row, demo_token), db_audit_update f demo_stored)" by (rule demo_create_key)
  have "\<exists>x\<in>set (db_organizations demo_office). o_id x = tx_org demo_tx \<and> o_deleted x = None"
    by (simp add: demo_office_def demo_tx_def)
  then show ?thesis
    using created_token_authenticates[OF run _ _ refl, of demo_client] run by auto
qed

lemma demo_token_runs:
  obtains s1 p s2 where "create_api_key (\<lambda>_. []) demo_tx ''u'' demo_request demo_office
      = Inr ((api_key_from_row demo_key_row, demo_token), s1)"
    and "authenticate_key demo_tx demo_token demo_client s1 = (Inr p, s2)" and "api_keys_ok s1"
    and "\<exists>f. s1 = db_audit_update f demo_stored"
proof -
  obtain f where run: "create_api_key (\<lambda>_. []) demo_tx ''u'' demo_request demo_office
      = Inr ((api_key_from_row demo_key_row, demo_token), db_audit_update f demo_stored)" by (rule demo_create_key)
  have "\<exists>x\<in>set (db_organizations demo_office). o_id x = tx_org demo_tx \<and> o_deleted x = None"
    by (simp add: demo_office_def demo_tx_def)
  then show thesis using created_token_runs[OF run _ _ refl, of demo_client] run that by auto
qed

theorem authentication_is_exact_witness:
  "\<exists>s1 p s2. authenticate_key demo_tx demo_token demo_client s1 = (Inr p, s2)
     \<and> context_at demo_tx (pr_user p) (pr_project p) False s1 \<noteq> None"
proof -
  obtain s1 p s2 where run: "authenticate_key demo_tx demo_token demo_client s1 = (Inr p, s2)" and ok: "api_keys_ok s1"
    and s1: "\<exists>f. s1 = db_audit_update f demo_stored" by (rule demo_token_runs)
  from authentication_is_exact[OF run ok]
  obtain k where k: "k \<in> set (db_api_keys s1)" "pr_org p = k_org k"
    "context_at (demo_tx\<lparr>tx_org := pr_org p\<rparr>) (pr_user p) (pr_project p) False s1 \<noteq> None" by blast
  have "k = demo_key_row" using k(1) s1 demo_stored_facts(2) by auto
  then have "demo_tx\<lparr>tx_org := pr_org p\<rparr> = demo_tx" using k(2) by (simp add: demo_key_row_def new_api_key_def demo_tx_def)
  then show ?thesis using run k(3) by auto
qed

lemma demo_revoke:
  assumes "staffed s" "db_api_keys s = [demo_key_row]" "audit_ok s"
  obtains v s' where "revoke_api_key demo_tx ''u'' ''iii'' s = Inr (v, s')" and "kv_prefix v = k_prefix demo_key_row"
proof -
  have row: "k_id demo_key_row = ''iii''" "k_org demo_key_row = ''o''" "tx_org demo_tx = ''o''" "k_revoked demo_key_row = None"
      "k_access demo_key_row = Access_read_only" "k_project demo_key_row = None"
    by (simp_all add: demo_key_row_def new_api_key_def demo_tx_def)
  let ?t = "db_api_keys_update (update_where k_org demo_tx (\<lambda>k. k_id k = ''iii'') (\<lambda>k. k\<lparr>k_revoked := Some (tx_now demo_tx)\<rparr>)) s"
  let ?ev = "(api_key_event (Actor_user ''u'') Api_key_revoked demo_key_row)
          \<lparr>event_before := Some [(''access'', JStr ''read_only''), (''revoked'', JBool False)],
           event_after := Some [(''access'', JStr ''read_only''), (''revoked'', JBool True)]\<rparr>"
  have small: "small_object [(''access'', JStr ''read_only''), (''revoked'', JBool True)]"
    "small_object [(''access'', JStr ''read_only''), (''revoked'', JBool False)]" by code_simp+
  have "audit_ok ?t" using assms(3) by (simp add: audit_ok_def)
  then obtain f where rec: "record_in_transaction demo_tx ?ev ?t = Inr ((), db_audit_update f ?t)"
    by (rule demo_record[where ev = ?ev])
      (simp_all add: api_key_event_def validate_event_def starts_with_def small row)
  have "revoke_api_key demo_tx ''u'' ''iii'' s = Inr (api_key_from_row (demo_key_row\<lparr>k_revoked := Some (tx_now demo_tx)\<rparr>), db_audit_update f ?t)"
    using rec row assms(2) owner_permitted[OF assms(1)]
    by (simp add: revoke_api_key_def op_simps permit_Inr select_rows_def first_row_def visible_def update_rows_def update_where_def)
  then show thesis by (rule that) (simp add: api_key_from_row_def)
qed

theorem revoked_key_stays_dead_witness:
  "\<exists>v s1 s2. revoke_api_key demo_tx ''u'' ''iii'' s1 = Inr (v, s2)
     \<and> fst (authenticate_key demo_tx demo_token demo_client s1) \<noteq> Inl invalid_token
     \<and> fst (authenticate_key demo_tx demo_token demo_client s2) = Inl invalid_token"
proof -
  obtain s1 p s' where cre: "create_api_key (\<lambda>_. []) demo_tx ''u'' demo_request demo_office
      = Inr ((api_key_from_row demo_key_row, demo_token), s1)"
    and run: "authenticate_key demo_tx demo_token demo_client s1 = (Inr p, s')" and ok: "api_keys_ok s1"
    and s1: "\<exists>f. s1 = db_audit_update f demo_stored" by (rule demo_token_runs)
  have "audit_ok s1" using obeysD[OF obeys_create_api_key cre] by (simp add: tenant_step_def)
  then obtain v s2 where rev: "revoke_api_key demo_tx ''u'' ''iii'' s1 = Inr (v, s2)" and v: "kv_prefix v = k_prefix demo_key_row"
    using demo_revoke[of s1] s1 demo_stored_facts(1,2) by metis
  have "token_prefix demo_token = Inr (kv_prefix v)"
    using v new_token_prefix[of "replicate 8 0" "replicate 32 1"] by (simp add: demo_token_def demo_key_row_def new_api_key_def)
  then have "fst (authenticate_key demo_tx demo_token demo_client s2) = Inl invalid_token"
    using revoked_key_stays_dead[OF rev ok rtranclp.rtrancl_refl] by blast
  moreover have "fst (authenticate_key demo_tx demo_token demo_client s1) \<noteq> Inl invalid_token" using run by simp
  ultimately show ?thesis using rev by blast
qed

end
