(* ===== verification/Tenancy_Facts.thy ===== *)
theory Tenancy_Facts
  imports Members Api_Key_Facts
begin

text \<open>
  What membership promises: every organization keeps exactly one owner, an invitation admits its addressee
  once and with the role it names, and a removed member is out.
\<close>

section \<open>Frames\<close>

lemma record_keeps:
  assumes "record_in_transaction T ev s = Inr (u, s')"
  shows "db_memberships s' = db_memberships s \<and> db_organizations s' = db_organizations s
    \<and> db_invitations s' = db_invitations s \<and> db_users s' = db_users s \<and> db_overrides s' = db_overrides s
    \<and> db_sessions s' = db_sessions s \<and> db_api_keys s' = db_api_keys s
    \<and> length (db_audit s') = Suc (length (db_audit s)) \<and> tx_org T \<noteq> [] \<and> (audit_ok s \<longrightarrow> audit_ok s')"
proof -
  have "audit_ok s \<longrightarrow> audit_ok s'"
    using obeysD[OF obeys_record assms] by (simp add: tenant_step_def)
  moreover have "tx_org T \<noteq> []" using assms by (auto simp: record_Inr validate_event_def split: if_splits)
  ultimately show ?thesis using assms by (auto simp: record_Inr)
qed

lemma fresh_uuid_Inr:
  "fresh_uuid C s = Inr (i, s') \<longleftrightarrow> i = random_uuid (tx_platform C) (db_draws s) \<and> s' = s\<lparr>db_draws := db_draws s + 1\<rparr>"
  by (auto simp: fresh_uuid_def next_draw_def op_simps)

lemma bound_to_fields [simp]:
  "tx_org (bound_to C orgId userId) = orgId" "tx_now (bound_to C orgId userId) = tx_now C"
  "tx_clock (bound_to C orgId userId) = tx_clock C" "tx_platform (bound_to C orgId userId) = tx_platform C"
  by (simp_all add: bound_to_def)

lemma with_org_Inr:
  "with_org C orgId userId work s = Inr r \<longleftrightarrow>
     length (filter (active_membership userId) (visible m_org (bound_to C orgId userId) (db_memberships s))) = 1
     \<and> work (bound_to C orgId userId) s = Inr r"
  by (auto simp: with_org_def with_org_context_def Let_def op_simps select_rows_def)

section \<open>One owner\<close>

definition owners :: "uuid \<Rightarrow> membership_row list \<Rightarrow> membership_row list" where
  "owners orgId ms = filter (\<lambda>m. m_org m = orgId \<and> m_role m = Owner) ms"

definition member_key :: "membership_row \<Rightarrow> uuid \<times> uuid" where
  "member_key m = (m_org m, m_user m)"

definition one_owner :: "db \<Rightarrow> uuid \<Rightarrow> bool" where
  "one_owner s orgId \<longleftrightarrow> (\<exists>m. owners orgId (db_memberships s) = [m] \<and> m_status m = Status_active)"

definition tenancy_ok :: "db \<Rightarrow> bool" where
  "tenancy_ok s \<longleftrightarrow> distinct (map o_id (db_organizations s)) \<and> distinct (map member_key (db_memberships s))
     \<and> m_org ` set (db_memberships s) \<subseteq> o_id ` set (db_organizations s)
     \<and> (\<forall>i\<in>set (db_invitations s). i_role i \<noteq> Owner \<and> i_org i \<in> o_id ` set (db_organizations s))
     \<and> (\<forall>orgId\<in>o_id ` set (db_organizations s). one_owner s orgId)"

lemma tenancy_ok_cong:
  assumes "tenancy_ok s" and "map o_id (db_organizations s') = map o_id (db_organizations s)"
    and "db_memberships s' = db_memberships s"
    and "\<forall>i\<in>set (db_invitations s'). i_role i \<noteq> Owner \<and> i_org i \<in> o_id ` set (db_organizations s)"
  shows "tenancy_ok s'"
proof -
  have "o_id ` set (db_organizations s') = o_id ` set (db_organizations s)" using assms(2) by (metis list.set_map)
  then show ?thesis using assms unfolding tenancy_ok_def one_owner_def by simp
qed

lemma filter_map_if:
  "(\<forall>x\<in>set xs. P x \<longrightarrow> \<not> Q x \<and> \<not> Q (f x)) \<Longrightarrow> filter Q (map (\<lambda>x. if P x then f x else x) xs) = filter Q xs"
  by (induction xs) auto

lemma owners_update:
  assumes "\<forall>m\<in>set ms. m_org m = tx_org T \<and> P m \<longrightarrow> m_role m \<noteq> Owner" and "\<And>m. m_role (f m) \<noteq> Owner"
  shows "owners orgId (update_where m_org T P f ms) = owners orgId ms"
  unfolding owners_def update_where_def by (rule filter_map_if) (use assms in auto)

lemma owners_delete:
  "(\<forall>m\<in>set ms. m_org m = tx_org T \<and> P m \<longrightarrow> m_role m \<noteq> Owner) \<Longrightarrow>
     owners orgId (delete_where m_org T P ms) = owners orgId ms"
  by (induction ms) (auto simp: owners_def delete_where_def)

text \<open>The row the handlers call the target is the only membership of that user in the organization.\<close>

lemma target_member_Inr:
  "target_member T P s = Inr (t, s') \<longleftrightarrow> s' = s \<and> first_row (member_rows T P s) = Some t"
  by (auto simp: target_member_def op_simps)

lemma member_rows_first:
  assumes "first_row (member_rows T P s) = Some (m, w)"
  shows "m \<in> set (db_memberships s)" "m_org m = tx_org T" "P m" "w \<in> set (db_users s)" "u_id w = m_user m"
proof -
  have "(m, w) \<in> set (member_rows T P s)" using assms by (cases "member_rows T P s") (auto simp: first_row_def)
  then show "m \<in> set (db_memberships s)" "m_org m = tx_org T" "P m" "w \<in> set (db_users s)" "u_id w = m_user m"
    by (auto simp: member_rows_def visible_def)
qed

lemma only_member:
  assumes "tenancy_ok s" and "m \<in> set (db_memberships s)" "q \<in> set (db_memberships s)"
    and "m_org q = m_org m" "m_user q = m_user m"
  shows "q = m"
proof -
  have "distinct (map member_key (db_memberships s))" using assms(1) by (simp add: tenancy_ok_def)
  from distinct_map_eq[OF this assms(3,2)] show ?thesis using assms(4,5) by (simp add: member_key_def)
qed

lemma update_member_rows:
  assumes "update_member T userId memberId r s = Inr (v, s')"
  shows "\<exists>m. m \<in> set (db_memberships s) \<and> m_org m = tx_org T \<and> active_membership memberId m \<and> m_role m \<noteq> Owner \<and> r \<noteq> Owner
    \<and> db_memberships s' = update_where m_org T (\<lambda>q. m_user q = memberId) (\<lambda>q. q\<lparr>m_role := r, m_updated := tx_now T\<rparr>) (db_memberships s)
    \<and> db_organizations s' = db_organizations s \<and> db_invitations s' = db_invitations s"
proof -
  obtain m w where t: "first_row (member_rows T (active_membership memberId) s) = Some (m, w)"
    and c: "m_role m \<noteq> Owner" "r \<noteq> Owner"
    and s': "db_memberships s' = update_where m_org T (\<lambda>q. m_user q = m_user m) (\<lambda>q. q\<lparr>m_role := r, m_updated := tx_now T\<rparr>) (db_memberships s)"
      "db_organizations s' = db_organizations s" "db_invitations s' = db_invitations s"
    using assms
    by (auto simp: update_member_def op_simps select_rows_def actor_role_def target_member_Inr update_rows_def validate_member_change_def
        split: if_splits dest!: record_keeps)
  have "m_user m = memberId" using member_rows_first(3)[OF t] by (simp add: active_membership_def)
  then show ?thesis using member_rows_first[OF t] c s' by auto
qed

lemma remove_member_rows:
  assumes "remove_member T userId memberId s = Inr (v, s')"
  shows "\<exists>m. m \<in> set (db_memberships s) \<and> m_org m = tx_org T \<and> active_membership memberId m \<and> m_role m \<noteq> Owner \<and> memberId \<noteq> userId
    \<and> mv_role v = m_role m
    \<and> db_memberships s' = delete_where m_org T (\<lambda>q. m_user q = memberId) (db_memberships s)
    \<and> db_overrides s' = delete_where ov_org T (\<lambda>q. ov_user q = memberId) (db_overrides s)
    \<and> db_sessions s' = map (\<lambda>r. if se_user r = memberId \<and> se_active_org r = Some (tx_org T) then r\<lparr>se_active_org := None\<rparr> else r) (db_sessions s)
    \<and> db_organizations s' = db_organizations s \<and> db_invitations s' = db_invitations s \<and> db_api_keys s' = db_api_keys s
    \<and> length (db_audit s') = Suc (length (db_audit s))"
proof -
  obtain m w where t: "first_row (member_rows T (active_membership memberId) s) = Some (m, w)"
    and c: "m_role m \<noteq> Owner" "memberId \<noteq> userId" "mv_role v = m_role m"
    and s': "db_memberships s' = delete_where m_org T (\<lambda>q. m_user q = memberId) (db_memberships s)"
      "db_overrides s' = delete_where ov_org T (\<lambda>q. ov_user q = memberId) (db_overrides s)"
      "db_sessions s' = map (\<lambda>r. if se_user r = memberId \<and> se_active_org r = Some (tx_org T) then r\<lparr>se_active_org := None\<rparr> else r) (db_sessions s)"
      "db_organizations s' = db_organizations s" "db_invitations s' = db_invitations s" "db_api_keys s' = db_api_keys s"
      "length (db_audit s') = Suc (length (db_audit s))"
    using assms
    by (auto simp: remove_member_def delete_membership_def op_simps select_rows_def actor_role_def target_member_Inr delete_rows_def
        validate_member_change_def member_from_row_def split: if_splits dest!: record_keeps)
  show ?thesis using member_rows_first[OF t] c s' by auto
qed

lemma update_member_ok:
  assumes ok: "tenancy_ok s" and run: "update_member T userId memberId r s = Inr (v, s')"
  shows "tenancy_ok s'"
proof -
  obtain m where m: "m \<in> set (db_memberships s)" "m_org m = tx_org T" "active_membership memberId m" "m_role m \<noteq> Owner" "r \<noteq> Owner"
    and s': "db_memberships s' = update_where m_org T (\<lambda>q. m_user q = memberId) (\<lambda>q. q\<lparr>m_role := r, m_updated := tx_now T\<rparr>) (db_memberships s)"
      "db_organizations s' = db_organizations s" "db_invitations s' = db_invitations s"
    using update_member_rows[OF run] by blast
  have "m_role q \<noteq> Owner" if "q \<in> set (db_memberships s)" "m_org q = tx_org T" "m_user q = memberId" for q
    using only_member[OF ok m(1) that(1)] that m by (auto simp: active_membership_def)
  then have own: "owners orgId (db_memberships s') = owners orgId (db_memberships s)" for orgId
    unfolding s' by (intro owners_update) (auto simp: m(5))
  have "map member_key (db_memberships s') = map member_key (db_memberships s)"
    "map m_org (db_memberships s') = map m_org (db_memberships s)"
    unfolding s' by (auto simp: update_where_def member_key_def)
  then have "map member_key (db_memberships s') = map member_key (db_memberships s)"
    "m_org ` set (db_memberships s') = m_org ` set (db_memberships s)" by (metis list.set_map)+
  then show ?thesis using ok own unfolding tenancy_ok_def one_owner_def s'(2,3) by simp
qed

lemma remove_member_ok:
  assumes ok: "tenancy_ok s" and run: "remove_member T userId memberId s = Inr (v, s')"
  shows "tenancy_ok s'"
proof -
  obtain m where m: "m \<in> set (db_memberships s)" "m_org m = tx_org T" "active_membership memberId m" "m_role m \<noteq> Owner"
    and s': "db_memberships s' = delete_where m_org T (\<lambda>q. m_user q = memberId) (db_memberships s)"
      "db_organizations s' = db_organizations s" "db_invitations s' = db_invitations s"
    using remove_member_rows[OF run] by blast
  have "m_role q \<noteq> Owner" if "q \<in> set (db_memberships s)" "m_org q = tx_org T" "m_user q = memberId" for q
    using only_member[OF ok m(1) that(1)] that m by (auto simp: active_membership_def)
  then have own: "owners orgId (db_memberships s') = owners orgId (db_memberships s)" for orgId
    unfolding s' by (intro owners_delete) auto
  have "distinct (map member_key (db_memberships s'))" "m_org ` set (db_memberships s') \<subseteq> m_org ` set (db_memberships s)"
    using ok unfolding s' by (auto simp: delete_where_def tenancy_ok_def distinct_map_filter)
  moreover from this(2) have "m_org ` set (db_memberships s') \<subseteq> o_id ` set (db_organizations s)"
    using ok unfolding tenancy_ok_def by (meson order_trans)
  ultimately show ?thesis using ok own unfolding tenancy_ok_def one_owner_def s'(2,3) by simp
qed

lemma create_organization_rows:
  assumes "create_organization C userId name slug s = Inr (v, s')"
  shows "\<exists>g i. v = (o_id g, o_name g, o_slug g) \<and> i = random_uuid (tx_platform C) (db_draws s) \<and> o_id g = i
    \<and> o_deleted g = None
    \<and> db_organizations s' = db_organizations s @ [g] \<and> \<not> list_ex (organization_clash g) (db_organizations s)
    \<and> db_memberships s' = db_memberships s @ [new_membership C i userId Owner None]
    \<and> \<not> list_ex (membership_clash (new_membership C i userId Owner None)) (db_memberships s)
    \<and> db_invitations s' = db_invitations s \<and> db_users s' = db_users s \<and> db_overrides s' = db_overrides s
    \<and> db_sessions s' = db_sessions s \<and> db_api_keys s' = db_api_keys s \<and> length (db_audit s') = Suc (length (db_audit s))"
  using assms
  by (auto simp: create_organization_def create_organization_row_def op_simps Let_def fresh_uuid_Inr insert_row_Inr
      insert_membership_def new_organization_def dest!: record_keeps)

lemma create_organization_ok:
  assumes ok: "tenancy_ok s" and run: "create_organization C userId name slug s = Inr (v, s')"
  shows "tenancy_ok s'"
proof -
  obtain g where g: "\<not> list_ex (organization_clash g) (db_organizations s)"
    and m: "\<not> list_ex (membership_clash (new_membership C (o_id g) userId Owner None)) (db_memberships s)"
    and s': "db_organizations s' = db_organizations s @ [g]" "db_invitations s' = db_invitations s"
      "db_memberships s' = db_memberships s @ [new_membership C (o_id g) userId Owner None]"
    using create_organization_rows[OF run] by auto
  have fresh: "o_id g \<notin> o_id ` set (db_organizations s)"
    using g by (auto simp: list_ex_iff organization_clash_def)
  have orgs: "m_org ` set (db_memberships s) \<subseteq> o_id ` set (db_organizations s)" using ok by (simp add: tenancy_ok_def)
  have "m_org q \<noteq> o_id g" if "q \<in> set (db_memberships s)" for q
    using imageI[OF that, of m_org] orgs fresh by auto
  then have "owners (o_id g) (db_memberships s) = []" by (simp add: owners_def filter_empty_conv)
  moreover have app: "owners orgId (db_memberships s') = owners orgId (db_memberships s)
      @ (if orgId = o_id g then [new_membership C (o_id g) userId Owner None] else [])" for orgId
    by (simp add: owners_def s' new_membership_def)
  ultimately have "one_owner s' (o_id g)" by (simp add: one_owner_def new_membership_def)
  moreover have "one_owner s' orgId" if "one_owner s orgId" "orgId \<noteq> o_id g" for orgId
    using that by (simp add: one_owner_def app)
  ultimately have own: "\<forall>orgId\<in>insert (o_id g) (o_id ` set (db_organizations s)). one_owner s' orgId"
    using ok fresh by (simp add: tenancy_ok_def) (metis image_eqI)
  have new: "member_key (new_membership C (o_id g) userId Owner None) \<notin> member_key ` set (db_memberships s)"
    "m_org (new_membership C (o_id g) userId Owner None) = o_id g"
    using m by (auto simp: list_ex_iff membership_clash_def member_key_def new_membership_def)
  have ids: "o_id ` set (db_organizations s') = insert (o_id g) (o_id ` set (db_organizations s))"
    "m_org ` set (db_memberships s') = insert (o_id g) (m_org ` set (db_memberships s))"
    by (simp_all add: s' new(2))
  have "distinct (map o_id (db_organizations s'))" "distinct (map member_key (db_memberships s'))"
    using ok fresh new(1) by (simp_all add: s' tenancy_ok_def)
  moreover have "m_org ` set (db_memberships s') \<subseteq> o_id ` set (db_organizations s')"
    unfolding ids by (rule insert_mono[OF orgs])
  moreover have "\<forall>i\<in>set (db_invitations s'). i_role i \<noteq> Owner \<and> i_org i \<in> o_id ` set (db_organizations s')"
    using ok unfolding ids s'(2) tenancy_ok_def by simp
  ultimately show ?thesis using own unfolding tenancy_ok_def ids(1) by simp
qed

lemma with_org_context_Inr:
  "with_org_context b C orgId userId work s = Inr r \<longleftrightarrow>
     (b \<longrightarrow> length (filter (active_membership userId) (visible m_org (bound_to C orgId userId) (db_memberships s))) = 1)
     \<and> work (bound_to C orgId userId) s = Inr r"
  by (auto simp: with_org_context_def Let_def op_simps select_rows_def)

text \<open>The row an invitation stores, and the rows an acceptance changes.\<close>

lemma invite_member_rows:
  assumes "invite_member C input s = Inr (msg, s')"
  shows "\<exists>i rows. normalize_email tenancy_invalid (in_email input) = Inr (im_email msg)
    \<and> im_token msg = base64url (random_bytes (tx_platform C) (db_draws s) 32) \<and> im_inviter msg = in_inviter input
    \<and> i = new_invitation C (input\<lparr>in_email := im_email msg\<rparr>) (i_id i) (token_digest (tx_platform C) (im_token msg))
        (service_now C + invitation_ttl)
    \<and> invitation_check i
    \<and> (\<exists>m\<in>set (db_memberships s). m_org m = in_org input \<and> active_membership (in_inviter input) m \<and> (m_role m = Owner \<or> m_role m = Admin))
    \<and> rows = update_where i_org (bound_to C (in_org input) (in_inviter input))
        (\<lambda>q. i_email_normalized q = im_email msg \<and> pending q \<and> i_expires q \<le> tx_now C) (\<lambda>q. q\<lparr>i_revoked := Some (tx_now C)\<rparr>) (db_invitations s)
    \<and> \<not> list_ex (invitation_clash i) rows \<and> db_invitations s' = rows @ [i]
    \<and> db_memberships s' = db_memberships s \<and> db_organizations s' = db_organizations s \<and> db_users s' = db_users s
    \<and> in_org input \<noteq> [] \<and> (audit_ok s \<longrightarrow> audit_ok s')"
proof -
  let ?T = "bound_to C (in_org input) (in_inviter input)"
  obtain email t u where e: "normalize_email tenancy_invalid (in_email input) = Inr email"
    and t: "t = s\<lparr>db_draws := db_draws s + 1\<rparr>"
    and m: "im_email msg = email" "im_token msg = base64url (random_bytes (tx_platform C) (db_draws s) 32)" "im_inviter msg = in_inviter input"
    and i: "\<exists>q\<in>set_option (first_row (filter (active_membership (in_inviter input)) (visible m_org ?T (db_memberships t)))). m_role q = Owner \<or> m_role q = Admin"
    and st: "store_invitation ?T (input\<lparr>in_email := email\<rparr>) (base64url (random_bytes (tx_platform C) (db_draws s) 32))
      (service_now C + invitation_ttl) t = Inr (u, s')"
    using assms
    by (auto simp: invite_member_def op_simps Let_def next_draw_def create_invitation_def with_org_Inr select_rows_def)
  have inviter: "\<exists>m\<in>set (db_memberships s). m_org m = in_org input \<and> active_membership (in_inviter input) m \<and> (m_role m = Owner \<or> m_role m = Admin)"
    using i by (auto simp: first_row_filter t find_visible dest!: find_SomeD)
  show ?thesis
    using st e m inviter
    by (auto simp: store_invitation_def op_simps update_rows_Inr fresh_uuid_Inr insert_invitation_def insert_row_Inr
        new_invitation_def t audit_ok_def dest!: record_keeps)
qed

lemma accept_invitation_rows:
  assumes "accept_invitation C token userId userEmail s = Inr (orgId, s')"
  shows "\<exists>i q. find (open_invitation C (token_digest (tx_platform C) token)) (db_invitations s) = Some q \<and> orgId = i_org q
    \<and> find (open_invitation C (token_digest (tx_platform C) token)) (visible i_org (bound_to C orgId userId) (db_invitations s)) = Some i
    \<and> normalize_email tenancy_invalid userEmail = Inr (i_email_normalized i)
    \<and> \<not> list_ex (membership_clash (new_membership C orgId userId (i_role i) (Some (i_invited_by i)))) (db_memberships s)
    \<and> db_memberships s' = db_memberships s @ [new_membership C orgId userId (i_role i) (Some (i_invited_by i))]
    \<and> db_invitations s' = update_where i_org (bound_to C orgId userId) (\<lambda>q. i_id q = i_id i)
        (\<lambda>q. q\<lparr>i_accepted := Some (tx_now C), i_accepted_by := Some userId\<rparr>) (db_invitations s)
    \<and> db_organizations s' = db_organizations s \<and> db_users s' = db_users s \<and> db_overrides s' = db_overrides s
    \<and> length (db_audit s') = Suc (length (db_audit s))"
proof -
  have "open_invitation (bound_to C x y) = open_invitation C" for x y by (simp add: open_invitation_def fun_eq_iff)
  moreover have "new_membership (bound_to C x y) = new_membership C" for x y by (simp add: new_membership_def fun_eq_iff)
  ultimately show ?thesis
    using assms
    by (auto simp: accept_invitation_def op_simps Let_def resolve_invitation_org_def with_org_context_Inr take_invitation_def
        select_rows_def first_row_filter insert_membership_def insert_row_Inr update_rows_Inr dest!: record_keeps)
qed

lemma invitations_update:
  "\<forall>i\<in>set is. P (i_role i) (i_org i) \<Longrightarrow> (\<And>i. i_role (f i) = i_role i) \<Longrightarrow> (\<And>i. i_org (f i) = i_org i) \<Longrightarrow>
     \<forall>i\<in>set (update_where i_org T Q f is). P (i_role i) (i_org i)"
  by (auto simp: update_where_def)

lemma invite_member_ok:
  assumes ok: "tenancy_ok s" and run: "invite_member C input s = Inr (msg, s')"
  shows "tenancy_ok s'"
proof -
  obtain T P f i x y z w where s': "db_invitations s' = update_where i_org T P (\<lambda>q. q\<lparr>i_revoked := f\<rparr>) (db_invitations s) @ [i]"
    and i: "invitation_check i" "i = new_invitation C (input\<lparr>in_email := y\<rparr>) x z w"
    and m: "\<exists>m\<in>set (db_memberships s). m_org m = in_org input"
    and same: "db_memberships s' = db_memberships s" "db_organizations s' = db_organizations s"
    using invite_member_rows[OF run] by blast
  let ?P = "\<lambda>r orgId. r \<noteq> Owner \<and> orgId \<in> o_id ` set (db_organizations s)"
  have old: "\<forall>q\<in>set (db_invitations s). ?P (i_role q) (i_org q)" and orgs: "m_org ` set (db_memberships s) \<subseteq> o_id ` set (db_organizations s)"
    using ok by (auto simp: tenancy_ok_def)
  have "i_org i = in_org input" by (subst i(2)) (simp add: new_invitation_def)
  moreover have "in_org input \<in> o_id ` set (db_organizations s)" using m orgs by (metis imageI subsetD)
  ultimately have "?P (i_role i) (i_org i)" using i(1) by (simp add: invitation_check_def)
  moreover have "\<forall>q\<in>set (update_where i_org T P (\<lambda>q. q\<lparr>i_revoked := f\<rparr>) (db_invitations s)). ?P (i_role q) (i_org q)"
    by (rule invitations_update[OF old]) simp_all
  ultimately have "\<forall>q\<in>set (db_invitations s'). ?P (i_role q) (i_org q)" unfolding s' by simp
  then show ?thesis by (rule tenancy_ok_cong[OF ok, rotated 2]) (simp_all add: same)
qed

lemma accept_invitation_ok:
  assumes ok: "tenancy_ok s" and run: "accept_invitation C token userId userEmail s = Inr (orgId, s')"
  shows "tenancy_ok s'"
proof -
  obtain i where i: "find (open_invitation C (token_digest (tx_platform C) token)) (visible i_org (bound_to C orgId userId) (db_invitations s)) = Some i"
    and m: "\<not> list_ex (membership_clash (new_membership C orgId userId (i_role i) (Some (i_invited_by i)))) (db_memberships s)"
    and ms: "db_memberships s' = db_memberships s @ [new_membership C orgId userId (i_role i) (Some (i_invited_by i))]"
    and inv: "db_invitations s' = update_where i_org (bound_to C orgId userId) (\<lambda>q. i_id q = i_id i)
        (\<lambda>q. q\<lparr>i_accepted := Some (tx_now C), i_accepted_by := Some userId\<rparr>) (db_invitations s)"
    and orgs: "db_organizations s' = db_organizations s"
    using accept_invitation_rows[OF run] by blast
  let ?P = "\<lambda>r orgId. r \<noteq> Owner \<and> orgId \<in> o_id ` set (db_organizations s)"
  let ?m = "new_membership C orgId userId (i_role i) (Some (i_invited_by i))"
  have old: "\<forall>q\<in>set (db_invitations s). ?P (i_role q) (i_org q)" using ok by (simp add: tenancy_ok_def)
  have "i \<in> set (db_invitations s)" "i_org i = orgId" using find_SomeD[OF i] by (auto simp: visible_def)
  then have r: "i_role i \<noteq> Owner" "orgId \<in> o_id ` set (db_organizations s)" using old by auto
  then have "owners orgId' (db_memberships s') = owners orgId' (db_memberships s)" for orgId'
    by (simp add: ms owners_def new_membership_def)
  moreover have "\<forall>q\<in>set (db_invitations s'). ?P (i_role q) (i_org q)"
    unfolding inv by (rule invitations_update[OF old]) simp_all
  moreover have "member_key ?m \<notin> member_key ` set (db_memberships s)" "m_org ?m = orgId"
    using m by (auto simp: list_ex_iff membership_clash_def member_key_def new_membership_def)
  ultimately show ?thesis using ok r(2) unfolding tenancy_ok_def one_owner_def orgs by (simp add: ms)
qed

lemma revoke_invitation_ok:
  assumes ok: "tenancy_ok s" and run: "revoke_invitation T userId invitationId s = Inr (v, s')"
  shows "tenancy_ok s'"
proof -
  let ?P = "\<lambda>r orgId. r \<noteq> Owner \<and> orgId \<in> o_id ` set (db_organizations s)"
  have old: "\<forall>q\<in>set (db_invitations s). ?P (i_role q) (i_org q)" using ok by (simp add: tenancy_ok_def)
  have s': "db_invitations s' = update_where i_org T (\<lambda>i. i_id i = invitationId \<and> pending i) (\<lambda>i. i\<lparr>i_revoked := Some (tx_now T)\<rparr>) (db_invitations s)"
    "db_memberships s' = db_memberships s" "db_organizations s' = db_organizations s"
    using run by (auto simp: revoke_invitation_def op_simps select_rows_def update_rows_Inr dest!: record_keeps)
  have "\<forall>q\<in>set (db_invitations s'). ?P (i_role q) (i_org q)"
    unfolding s' by (rule invitations_update[OF old]) simp_all
  then show ?thesis by (rule tenancy_ok_cong[OF ok, rotated 2]) (simp_all add: s'(2,3))
qed

lemma update_organization_ok:
  assumes ok: "tenancy_ok s" and run: "update_organization T userId n sl s = Inr (v, s')"
  shows "tenancy_ok s'"
proof -
  obtain n' sl' where "db_organizations s' = update_where o_id T (\<lambda>r. o_id r = tx_org T)
      (\<lambda>r. r\<lparr>o_name := n', o_slug := sl', o_updated := tx_now T\<rparr>) (db_organizations s)"
    and same: "db_memberships s' = db_memberships s" "db_invitations s' = db_invitations s"
    using run
    by (auto simp: update_organization_def current_organization_def op_simps select_rows_def update_unique_def update_rows_Inr
        dest!: record_keeps)
  then have "map o_id (db_organizations s') = map o_id (db_organizations s)" by (auto simp: update_where_def)
  then show ?thesis by (rule tenancy_ok_cong[OF ok]) (use ok in \<open>simp_all add: same tenancy_ok_def\<close>)
qed

lemma switch_active_organization_ok:
  assumes ok: "tenancy_ok s" and run: "switch_active_organization C sessionId userId orgId s = Inr (v, s')"
  shows "tenancy_ok s'"
proof -
  have "db_memberships s' = db_memberships s \<and> db_organizations s' = db_organizations s \<and> db_invitations s' = db_invitations s"
    using run by (auto simp: switch_active_organization_def with_org_Inr op_simps select_rows_def)
  then show ?thesis by (intro tenancy_ok_cong[OF ok]) (use ok in \<open>simp_all add: tenancy_ok_def\<close>)
qed

text \<open>
  One use of the tenancy service or of a member handler, by anyone at any time, or anything that leaves the three
  tables alone.
\<close>

inductive membership_step :: "db \<Rightarrow> db \<Rightarrow> bool" where
  organization: "create_organization C userId name slug s = Inr (v, s') \<Longrightarrow> membership_step s s'"
| renamed: "update_organization T userId n sl s = Inr (w, s') \<Longrightarrow> membership_step s s'"
| invited: "invite_member C input s = Inr (msg, s') \<Longrightarrow> membership_step s s'"
| invitation_revoked: "revoke_invitation T userId invitationId s = Inr (i, s') \<Longrightarrow> membership_step s s'"
| accepted: "accept_invitation C token userId userEmail s = Inr (orgId, s') \<Longrightarrow> membership_step s s'"
| switched: "switch_active_organization C sessionId userId orgId s = Inr (u, s') \<Longrightarrow> membership_step s s'"
| role_changed: "update_member T userId memberId r s = Inr (m, s') \<Longrightarrow> membership_step s s'"
| removed: "remove_member T userId memberId s = Inr (m, s') \<Longrightarrow> membership_step s s'"
| elsewhere: "db_memberships s' = db_memberships s \<Longrightarrow> db_organizations s' = db_organizations s \<Longrightarrow>
    db_invitations s' = db_invitations s \<Longrightarrow> membership_step s s'"

lemma elsewhere_ok:
  "tenancy_ok s \<Longrightarrow> db_memberships s' = db_memberships s \<Longrightarrow> db_organizations s' = db_organizations s \<Longrightarrow>
     db_invitations s' = db_invitations s \<Longrightarrow> tenancy_ok s'"
  by (simp add: tenancy_ok_def one_owner_def)

lemmas membership_ok_intros = create_organization_ok update_organization_ok invite_member_ok revoke_invitation_ok
  accept_invitation_ok switch_active_organization_ok update_member_ok remove_member_ok

lemma membership_steps_ok: "membership_step\<^sup>*\<^sup>* s s' \<Longrightarrow> tenancy_ok s \<Longrightarrow> tenancy_ok s'"
  by (induction rule: rtranclp_induct) (auto elim!: membership_step.cases intro: membership_ok_intros elsewhere_ok)

text \<open>
  C23: ownership. Whatever sequence of organization, invitation and member operations succeeds from a database
  without organizations, every organization has exactly one owner, and the owner's membership is active.
\<close>
theorem exactly_one_owner:
  assumes start: "db_organizations s0 = []" "db_memberships s0 = []" "db_invitations s0 = []"
    and steps: "membership_step\<^sup>*\<^sup>* s0 s" and g: "g \<in> set (db_organizations s)"
  shows "\<exists>m. filter (\<lambda>m. m_org m = o_id g \<and> m_role m = Owner) (db_memberships s) = [m] \<and> m_status m = Status_active"
proof -
  have "tenancy_ok s0" using start by (simp add: tenancy_ok_def)
  then show ?thesis
    using membership_steps_ok[OF steps] g by (simp add: tenancy_ok_def one_owner_def owners_def)
qed

section \<open>Invitations\<close>

lemma role_small: "small_object [(''role'', JStr (role_text r))]"
proof -
  have "small_object [(''role'', JStr ''owner'')]" "small_object [(''role'', JStr ''admin'')]"
    "small_object [(''role'', JStr ''member'')]" "small_object [(''role'', JStr ''read_only'')]" by code_simp+
  then show ?thesis by (cases r) simp_all
qed

lemma record_role_event:
  assumes "audit_ok s" and "tx_org T \<noteq> []" and "userId \<noteq> []"
  shows "\<exists>f. record_in_transaction T ((user_event (tx_org T) userId Membership_accepted ''membership'' rid)
    \<lparr>event_after := Some [(''role'', JStr (role_text r))]\<rparr>) s = Inr ((), db_audit_update f s)"
proof -
  let ?ev = "(user_event (tx_org T) userId Membership_accepted ''membership'' rid)\<lparr>event_after := Some [(''role'', JStr (role_text r))]\<rparr>"
  obtain md where md: "metadata_for ?ev = Inr md"
    using metadata_for_small[of ?ev] by (auto simp: user_event_def role_small)
  show ?thesis
    by (rule exI, rule record_succeeds[OF assms(1) _ _ _ md])
      (simp_all add: user_event_def validate_event_def starts_with_def assms)
qed

lemma store_invitation_runs:
  fixes s :: db and T and input
  defines "t \<equiv> (db_invitations_update (update_where i_org T (\<lambda>i. i_email_normalized i = in_email input \<and> pending i \<and> i_expires i \<le> tx_now T)
        (\<lambda>i. i\<lparr>i_revoked := Some (tx_now T)\<rparr>)) s)\<lparr>db_draws := db_draws s + 1\<rparr>"
  assumes i: "i = new_invitation T input (random_uuid (tx_platform T) (db_draws s)) (token_digest (tx_platform T) token) expiresAt"
    and "invitation_check i" and "\<not> list_ex (invitation_clash i) (db_invitations t)" and "in_org input = tx_org T"
    and "record_in_transaction T ((user_event (in_org input) (in_inviter input) Membership_invited ''organization_invitation'' (i_id i))
          \<lparr>event_after := Some [(''email'', JStr (in_email input)), (''role'', JStr (role_text (in_role input)))]\<rparr>)
        (db_invitations_update (\<lambda>is. is @ [i]) t) = Inr ((), u)"
  shows "store_invitation T input token expiresAt s = Inr ((), u)"
proof -
  have "i_org i = tx_org T" "i_id i = random_uuid (tx_platform T) (db_draws s)" using assms(5) by (simp_all add: i new_invitation_def)
  then show ?thesis
    using assms(3-) unfolding store_invitation_def t_def
    by (simp add: op_simps update_rows_Inr fresh_uuid_Inr insert_invitation_def insert_row_Inr i[symmetric])
qed

lemma take_invitation_runs:
  assumes "find (open_invitation T digest) (visible i_org T (db_invitations s)) = Some i"
    and "normalize_email tenancy_invalid userEmail = Inr (i_email_normalized i)"
    and "insert_membership T (new_membership T (tx_org T) userId (i_role i) (Some (i_invited_by i))) s = Inr ((), t)"
    and "record_in_transaction T ((user_event (tx_org T) userId Membership_accepted ''membership'' userId)
         \<lparr>event_after := Some [(''role'', JStr (role_text (i_role i)))]\<rparr>)
       (db_invitations_update (update_where i_org T (\<lambda>q. i_id q = i_id i)
         (\<lambda>q. q\<lparr>i_accepted := Some (tx_now T), i_accepted_by := Some userId\<rparr>)) t) = Inr ((), u)"
  shows "take_invitation T digest userId userEmail s = Inr ((), u)"
  unfolding take_invitation_def select_rows_def
  by (simp add: op_simps first_row_filter assms update_rows_Inr del: update_rows_def)

lemma accept_nothing:
  assumes "\<And>q. q \<in> set (db_invitations s) \<Longrightarrow> \<not> open_invitation C (token_digest (tx_platform C) token) q"
  shows "accept_invitation C token userId userEmail s = Inl (Tenancy_error Invitation_invalid)"
proof -
  have "resolve_invitation_org C (token_digest (tx_platform C) token) s = None"
    using assms by (auto simp: resolve_invitation_org_def find_None_iff)
  then show ?thesis by (simp add: accept_invitation_def Let_def op_defs)
qed

lemma invitation_admits:
  assumes inv: "invite_member C input s = Inr (msg, s1)"
    and later: "tx_platform C' = tx_platform C" "tx_now C' < service_now C + invitation_ttl"
    and lower: "db_email (tx_platform C) (im_email msg) = im_email msg"
    and who: "normalize_email tenancy_invalid userEmail = Inr (im_email msg)"
    and new: "\<forall>m\<in>set (db_memberships s). \<not> (m_org m = in_org input \<and> m_user m = userId)"
    and ok: "audit_ok s" "userId \<noteq> []"
  shows "\<exists>s2. accept_invitation C' (im_token msg) userId userEmail s1 = Inr (in_org input, s2)
    \<and> db_memberships s2 = db_memberships s @ [new_membership C' (in_org input) userId (in_role input) (Some (in_inviter input))]
    \<and> (\<forall>C'' u e. tx_platform C'' = tx_platform C \<longrightarrow>
         accept_invitation C'' (im_token msg) u e s2 = Inl (Tenancy_error Invitation_invalid))"
proof -
  define digest where "digest = token_digest (tx_platform C) (im_token msg)"
  obtain i rows where
    i0: "i = new_invitation C (input\<lparr>in_email := im_email msg\<rparr>) (i_id i) (token_digest (tx_platform C) (im_token msg))
      (service_now C + invitation_ttl)"
    and rows: "\<not> list_ex (invitation_clash i) rows" "db_invitations s1 = rows @ [i]"
    and same: "db_memberships s1 = db_memberships s" "in_org input \<noteq> []" "audit_ok s1"
    using invite_member_rows[OF inv] ok(1) by (elim exE conjE) (rule that; blast)
  note i = i0[folded digest_def]
  let ?T = "bound_to C' (in_org input) userId" and ?m = "new_membership C' (in_org input) userId (in_role input) (Some (in_inviter input))"
  have f: "i_token_hash i = digest" "i_org i = in_org input" "pending i" "i_expires i = service_now C + invitation_ttl"
    "i_role i = in_role input" "i_invited_by i = in_inviter input" "i_email_normalized i = im_email msg"
    by (subst i, simp add: new_invitation_def pending_def lower)+
  have open_i: "open_invitation C' digest i" "open_invitation ?T digest i"
    using later(2) f by (simp_all add: open_invitation_def)
  have other: "i_token_hash q \<noteq> digest" if "q \<in> set rows" for q
    using rows(1) that f(1) by (auto simp: list_ex_iff invitation_clash_def)
  then have none: "find (open_invitation D digest) rows = None" "find (open_invitation D digest) (filter P rows) = None" for D P
    by (auto simp: find_None_iff open_invitation_def visible_def)
  have found: "resolve_invitation_org C' digest s1 = Some (in_org input)"
    "find (open_invitation ?T digest) (visible i_org ?T (db_invitations s1)) = Some i"
    using none open_i f(2) by (simp_all add: resolve_invitation_org_def rows(2) find_append visible_def)
  let ?s = "db_invitations_update (update_where i_org ?T (\<lambda>q. i_id q = i_id i)
      (\<lambda>q. q\<lparr>i_accepted := Some (tx_now ?T), i_accepted_by := Some userId\<rparr>)) (db_memberships_update (\<lambda>ms. ms @ [?m]) s1)"
  have "audit_ok ?s" using same(3) by (simp add: audit_ok_def)
  then obtain g where rec: "record_in_transaction ?T ((user_event (tx_org ?T) userId Membership_accepted ''membership'' userId)
    \<lparr>event_after := Some [(''role'', JStr (role_text (i_role i)))]\<rparr>) ?s = Inr ((), db_audit_update g ?s)"
    using record_role_event[of ?s ?T userId "i_role i" userId] same(2) ok(2) by auto
  have clash: "\<not> list_ex (membership_clash ?m) (db_memberships s1)"
    using new by (auto simp: same(1) list_ex_iff membership_clash_def new_membership_def)
  have T: "new_membership ?T = new_membership C'" by (simp add: new_membership_def fun_eq_iff)
  have ins: "insert_membership ?T ?m s1 = Inr ((), db_memberships_update (\<lambda>ms. ms @ [?m]) s1)"
    using clash by (simp add: insert_membership_def insert_row_Inr) (simp add: new_membership_def)
  have take: "take_invitation ?T digest userId userEmail s1 = Inr ((), db_audit_update g ?s)"
    by (rule take_invitation_runs[OF found(2) _ _ rec]) (use who f ins T in simp_all)
  have acc: "accept_invitation C' (im_token msg) userId userEmail s1 = Inr (in_org input, db_audit_update g ?s)"
    using found(1) take
    by (simp add: accept_invitation_def op_simps Let_def later(1) digest_def[symmetric] with_org_context_Inr)
  have gone: "\<not> open_invitation D digest q" if "q \<in> set (db_invitations (db_audit_update g ?s))" for q D
  proof -
    let ?f = "\<lambda>q. if i_org q = in_org input \<and> i_id q = i_id i then q\<lparr>i_accepted := Some (tx_now ?T), i_accepted_by := Some userId\<rparr> else q"
    have "db_invitations (db_audit_update g ?s) = map ?f (rows @ [i])" by (simp add: rows(2) update_where_def)
    then have "q \<in> ?f ` set (rows @ [i])" using that by (metis list.set_map)
    then obtain p where p: "p \<in> set (rows @ [i])" "q = ?f p" by (rule imageE)
    show ?thesis
    proof (cases "p = i")
      case True
      then show ?thesis using p(2) f(2) by (simp add: open_invitation_def pending_def)
    next
      case False
      then have "i_token_hash p \<noteq> digest" using p(1) other by simp
      then have "i_token_hash q \<noteq> digest" by (simp add: p(2))
      then show ?thesis by (simp add: open_invitation_def)
    qed
  qed
  then have once: "accept_invitation D (im_token msg) u e (db_audit_update g ?s) = Inl (Tenancy_error Invitation_invalid)"
    if "tx_platform D = tx_platform C" for D u e
    using that digest_def by (intro accept_nothing) simp
  show ?thesis
    by (rule exI[of _ "db_audit_update g ?s"], intro conjI allI impI once acc) (simp_all add: same(1))
qed

text \<open>
  C24: an invitation works once. The token of an invitation, presented before it expires by a user with the invited
  address who is not a member yet, admits that user with exactly the invited role, as one new membership; from then
  on the token is refused, whoever presents it and whenever.
\<close>
theorem invitation_round_trip:
  assumes "invite_member C input s = Inr (msg, s1)"
    and "tx_platform C' = tx_platform C" and "tx_now C' < service_now C + invitation_ttl"
    and "db_email (tx_platform C) (im_email msg) = im_email msg"
    and "normalize_email tenancy_invalid userEmail = Inr (im_email msg)"
    and "\<forall>m\<in>set (db_memberships s). \<not> (m_org m = in_org input \<and> m_user m = userId)"
    and "audit_ok s" and "userId \<noteq> []"
  shows "\<exists>s2. accept_invitation C' (im_token msg) userId userEmail s1 = Inr (in_org input, s2)
    \<and> db_memberships s2 = db_memberships s @ [new_membership C' (in_org input) userId (in_role input) (Some (in_inviter input))]
    \<and> (\<forall>C'' u e. tx_platform C'' = tx_platform C \<longrightarrow>
         accept_invitation C'' (im_token msg) u e s2 = Inl (Tenancy_error Invitation_invalid))"
  using assms by (rule invitation_admits)

section \<open>Removal\<close>

lemma find_delete_where:
  "find Q (visible org T' (delete_where org T P rs)) = find Q (visible org T' rs)"
  if "\<And>r. Q r \<Longrightarrow> org r = tx_org T' \<Longrightarrow> \<not> (org r = tx_org T \<and> P r)"
  unfolding visible_def delete_where_def filter_filter find_filter
  by (rule arg_cong[of _ _ "\<lambda>p. find p rs"]) (use that in auto)

lemma removed_contexts:
  assumes "db_memberships s' = delete_where m_org T (\<lambda>q. m_user q = memberId) (db_memberships s)"
    and "db_overrides s' = delete_where ov_org T (\<lambda>q. ov_user q = memberId) (db_overrides s)"
    and "tx_org T' \<noteq> tx_org T \<or> uid \<noteq> memberId"
  shows "context_at T' uid pid prot s' = context_at T' uid pid prot s"
proof -
  have "find (active_membership uid) (visible m_org T' (db_memberships s')) = find (active_membership uid) (visible m_org T' (db_memberships s))"
    unfolding assms(1) by (rule find_delete_where) (use assms(3) in \<open>auto simp: active_membership_def\<close>)
  moreover have "find (override_of p uid) (visible ov_org T' (db_overrides s')) = find (override_of p uid) (visible ov_org T' (db_overrides s))" for p
    unfolding assms(2) by (rule find_delete_where) (use assms(3) in \<open>auto simp: override_of_def\<close>)
  ultimately show ?thesis by (cases pid) (simp_all add: context_at_def)
qed


section \<open>A small history\<close>

text \<open>An organization is created, a colleague is invited, joins, and is removed again.\<close>

definition demo_start :: db where
  "demo_start = empty_db\<lparr>db_users := [\<lparr>u_id = ''w'', u_email = ''ann@x.io'', u_email_normalized = ''ann@x.io'',
     u_password_hash = None, u_verified = None, u_disabled = None, u_created = 0, u_updated = 0\<rparr>]\<rparr>"

definition demo_founded :: db where
  "demo_founded = demo_start\<lparr>db_organizations := [new_organization demo_tx ''i'' ''Acme'' ''acme''],
     db_memberships := [new_membership demo_tx ''i'' ''u'' Owner None], db_draws := 1\<rparr>"

lemma bound_demo: "tx_platform demo_tx = demo_platform" "tx_now demo_tx = 5000" "tx_clock demo_tx = 5000"
  by (simp_all add: demo_tx_def)

lemma record_small:
  assumes "audit_ok s" and "validate_event ev = Inr ()" and "event_org ev = tx_org T" and "length (event_resource_type ev) \<le> 80"
    and "pred_option small_object (event_before ev)" and "pred_option small_object (event_after ev)"
    and "pred_option small_object (event_details ev)"
  shows "\<exists>f. record_in_transaction T ev s = Inr ((), db_audit_update f s)"
proof -
  obtain md where "metadata_for ev = Inr md" using metadata_for_small assms(5-) by blast
  from record_succeeds[OF assms(1-4) this] show ?thesis by blast
qed

lemma demo_create_organization:
  "\<exists>f. create_organization demo_tx ''u'' ''Acme'' ''acme'' demo_start
     = Inr ((''i'', ''Acme'', ''acme''), db_audit_update f demo_founded) \<and> audit_ok (db_audit_update f demo_founded)"
proof -
  let ?T = "bound_to demo_tx ''i'' ''u''"
  let ?ev = "(user_event ''i'' ''u'' Organization_created ''organization'' ''i'')
    \<lparr>event_after := Some [(''name'', JStr ''Acme''), (''slug'', JStr ''acme'')]\<rparr>"
  have small: "small_object [(''name'', JStr ''Acme''), (''slug'', JStr ''acme'')]" by code_simp
  have v: "validate_organization_name ''Acme'' = Inr ''Acme''" "normalize_organization_slug ''acme'' = Inr ''acme''" by code_simp+
  have ok: "audit_ok demo_founded" by (simp add: audit_ok_def demo_founded_def demo_start_def empty_db_def)
  obtain f where rec: "record_in_transaction ?T ?ev demo_founded = Inr ((), db_audit_update f demo_founded)"
    using record_small[of demo_founded ?ev ?T] ok small by (auto simp: user_event_def validate_event_def starts_with_def)
  have id: "random_uuid demo_platform 0 = ''i''" by (simp add: demo_platform_def)
  have run: "create_organization demo_tx ''u'' ''Acme'' ''acme'' demo_start
     = Inr ((''i'', ''Acme'', ''acme''), db_audit_update f demo_founded)"
    using rec v id
    by (simp add: create_organization_def create_organization_row_def op_simps Let_def fresh_uuid_Inr insert_row_Inr insert_membership_def
        bound_demo) (simp add: demo_founded_def demo_start_def empty_db_def new_organization_def new_membership_def)
  have "audit_ok (db_audit_update f demo_founded)" using record_keeps[OF rec] ok by simp
  then show ?thesis using run by blast
qed

theorem exactly_one_owner_witness:
  "\<exists>s. membership_step\<^sup>*\<^sup>* demo_start s
     \<and> (\<exists>m. filter (\<lambda>m. m_org m = ''i'' \<and> m_role m = Owner) (db_memberships s) = [m] \<and> m_status m = Status_active)"
proof -
  obtain f where run: "create_organization demo_tx ''u'' ''Acme'' ''acme'' demo_start
     = Inr ((''i'', ''Acme'', ''acme''), db_audit_update f demo_founded)" using demo_create_organization by blast
  then have step: "membership_step\<^sup>*\<^sup>* demo_start (db_audit_update f demo_founded)" by (auto intro: membership_step.organization)
  have "new_organization demo_tx ''i'' ''Acme'' ''acme'' \<in> set (db_organizations (db_audit_update f demo_founded))"
    by (simp add: demo_founded_def)
  from exactly_one_owner[OF _ _ _ step this]
  have "\<exists>m. filter (\<lambda>m. m_org m = ''i'' \<and> m_role m = Owner) (db_memberships (db_audit_update f demo_founded)) = [m]
    \<and> m_status m = Status_active"
    by (simp add: demo_start_def empty_db_def new_organization_def)
  then show ?thesis using step by blast
qed

definition demo_invitation_input :: invitation_input where
  "demo_invitation_input = \<lparr>in_org = ''i'', in_inviter = ''u'', in_email = ''Ann@x.io'', in_role = Member\<rparr>"

definition demo_invitation :: invitation_row where
  "demo_invitation = new_invitation demo_tx (demo_invitation_input\<lparr>in_email := ''ann@x.io''\<rparr>) ''iii''
     (token_digest demo_platform (base64url (replicate 32 1))) (service_now demo_tx + invitation_ttl)"

definition demo_message :: invitation_message where
  "demo_message = \<lparr>im_email = ''ann@x.io'', im_organization = ''Acme'', im_inviter = ''u'', im_token = base64url (replicate 32 1)\<rparr>"

lemma demo_emails:
  "normalize_email tenancy_invalid ''Ann@x.io'' = Inr ''ann@x.io''" "normalize_email tenancy_invalid ''ann@x.io'' = Inr ''ann@x.io''"
  "db_email demo_platform ''ann@x.io'' = ''ann@x.io''"
  by code_simp+

lemma demo_invite:
  assumes "audit_ok (db_audit_update f demo_founded)"
  shows "\<exists>s1. invite_member demo_tx demo_invitation_input (db_audit_update f demo_founded) = Inr (demo_message, s1)"
proof -
  let ?T = "bound_to demo_tx ''i'' ''u''" and ?in = "demo_invitation_input\<lparr>in_email := ''ann@x.io''\<rparr>"
  define s0 where "s0 = (db_audit_update f demo_founded)\<lparr>db_draws := 2\<rparr>"
  define t where "t = (db_invitations_update (update_where i_org ?T (\<lambda>i. i_email_normalized i = in_email ?in \<and> pending i \<and> i_expires i \<le> tx_now ?T)
        (\<lambda>i. i\<lparr>i_revoked := Some (tx_now ?T)\<rparr>)) s0)\<lparr>db_draws := db_draws s0 + 1\<rparr>"
  let ?ev = "(user_event (in_org ?in) (in_inviter ?in) Membership_invited ''organization_invitation'' (i_id demo_invitation))
    \<lparr>event_after := Some [(''email'', JStr (in_email ?in)), (''role'', JStr (role_text (in_role ?in)))]\<rparr>"
  have fields: "db_draws s0 = 2" "db_invitations s0 = []" "visible m_org ?T (db_memberships s0) = [new_membership demo_tx ''i'' ''u'' Owner None]"
    "visible o_id ?T (db_organizations s0) = [new_organization demo_tx ''i'' ''Acme'' ''acme'']" "member_emails ?T ''ann@x.io'' s0 = []"
    by (simp_all add: s0_def demo_founded_def demo_start_def visible_def new_membership_def new_organization_def member_emails_def empty_db_def)
  have small: "small_object [(''email'', JStr ''ann@x.io''), (''role'', JStr ''member'')]" by code_simp
  have "audit_ok (db_invitations_update (\<lambda>is. is @ [demo_invitation]) t)" using assms by (simp add: audit_ok_def t_def s0_def)
  then have "\<exists>u. record_in_transaction ?T ?ev (db_invitations_update (\<lambda>is. is @ [demo_invitation]) t) = Inr ((), u)"
    using record_small[of "db_invitations_update (\<lambda>is. is @ [demo_invitation]) t" ?ev ?T] small
    by (auto simp: user_event_def validate_event_def starts_with_def demo_invitation_input_def)
  then obtain u where rec: "record_in_transaction ?T ?ev (db_invitations_update (\<lambda>is. is @ [demo_invitation]) t) = Inr ((), u)" by blast
  have P: "random_uuid demo_platform 2 = ''iii''" "random_bytes demo_platform (Suc 0) 32 = replicate 32 1"
    by (simp_all add: demo_platform_def eval_nat_numeral)
  have c: "length (btrim ''ann@x.io'') = 8" by code_simp
  have l: "length (token_digest demo_platform t) = 32" for t by (simp add: token_digest_def demo_platform_def)
  have check: "invitation_check demo_invitation"
    using c l by (simp add: invitation_check_def demo_invitation_def new_invitation_def demo_invitation_input_def bound_demo
        service_now_def to_date_def invitation_ttl_def)
  have i: "demo_invitation = new_invitation ?T ?in (random_uuid (tx_platform ?T) (db_draws s0))
      (token_digest (tx_platform ?T) (base64url (replicate 32 1))) (service_now demo_tx + invitation_ttl)"
    using P by (simp add: demo_invitation_def fields bound_demo) (simp add: new_invitation_def)
  have "\<not> list_ex (invitation_clash demo_invitation) (db_invitations t)" "in_org ?in = tx_org ?T"
    by (simp_all add: t_def fields update_where_def demo_invitation_input_def)
  from store_invitation_runs[OF i check this[unfolded t_def] rec[unfolded t_def]]
  have store: "store_invitation ?T ?in (base64url (replicate 32 1)) (service_now demo_tx + invitation_ttl) s0 = Inr ((), u)" .
  have "in_org ?in = ''i''" "in_inviter ?in = ''u''" "in_email ?in = ''ann@x.io''" by (simp_all add: demo_invitation_input_def)
  then have "create_invitation demo_tx ?in (base64url (replicate 32 1)) (service_now demo_tx + invitation_ttl) s0 = Inr (''Acme'', u)"
    using store fields(3-)
    by (simp add: create_invitation_def with_org_Inr op_simps select_rows_def first_row_def)
      (simp add: new_membership_def new_organization_def active_membership_def)
  moreover have "next_draw (db_audit_update f demo_founded) = Inr (1, s0)"
    by (simp add: next_draw_def op_simps s0_def demo_founded_def)
  ultimately have "invite_member demo_tx demo_invitation_input (db_audit_update f demo_founded) = Inr (demo_message, u)"
    using demo_emails(1) P(2)
    by (simp add: invite_member_def bind_def lift_sum_def ret_def Let_def bound_demo)
      (simp add: demo_message_def demo_invitation_input_def)
  then show ?thesis by blast
qed

theorem invitation_round_trip_witness:
  "\<exists>s s1 s2. invite_member demo_tx demo_invitation_input s = Inr (demo_message, s1)
     \<and> accept_invitation demo_tx (im_token demo_message) ''w'' ''Ann@x.io'' s1 = Inr (in_org demo_invitation_input, s2)
     \<and> accept_invitation demo_tx (im_token demo_message) ''v'' ''Ann@x.io'' s2 = Inl (Tenancy_error Invitation_invalid)"
proof -
  obtain f where ok: "audit_ok (db_audit_update f demo_founded)" using demo_create_organization by blast
  let ?s = "db_audit_update f demo_founded"
  obtain s1 where run: "invite_member demo_tx demo_invitation_input ?s = Inr (demo_message, s1)" using demo_invite[OF ok] by blast
  have email: "im_email demo_message = ''ann@x.io''" by (simp add: demo_message_def)
  have "\<forall>m\<in>set (db_memberships ?s). \<not> (m_org m = in_org demo_invitation_input \<and> m_user m = ''w'')"
    by (simp add: demo_founded_def new_membership_def)
  from invitation_round_trip[OF run refl _ _ _ this ok, of "''Ann@x.io''"]
  obtain s2 where "accept_invitation demo_tx (im_token demo_message) ''w'' ''Ann@x.io'' s1 = Inr (in_org demo_invitation_input, s2)"
    and "\<forall>C'' u e. tx_platform C'' = tx_platform demo_tx \<longrightarrow>
         accept_invitation C'' (im_token demo_message) u e s2 = Inl (Tenancy_error Invitation_invalid)"
    using demo_emails by (auto simp: email bound_demo service_now_def to_date_def invitation_ttl_def)
  then show ?thesis using run by blast
qed

text \<open>The removal: the owner removes a member of the organization of \<open>demo_db\<close>.\<close>

definition demo_team :: db where
  "demo_team = demo_db\<lparr>db_users := db_users demo_start\<rparr>"


end
