(* ===== verification/Consistency.thy ===== *)
theory Consistency
  imports Projects Api_Keys
begin

text \<open>
  \<^verbatim>\<open>packages/consistency/src/index.ts\<close>: the analysis of a project's secrets across its environments, the
  matrix shown with it, and \<^verbatim>\<open>ConsistencyService\<close> with its cache and the dispositions of findings. The
  text of a date in the fingerprint is an argument. Types and severities are the strings of the source.
\<close>

section \<open>The analysis\<close>

record consistency_environment =
  ce_id :: uuid
  ce_slug :: string

record secret_value =
  cv_secret :: uuid
  cv_environment :: uuid
  cv_key :: string
  cv_value :: string

record base_finding =
  bf_id :: string
  bf_type :: string
  bf_severity :: string
  bf_key :: string
  bf_keys :: "string list"
  bf_environments :: "uuid list"
  bf_missing :: "uuid list"

text \<open>
  \<^verbatim>\<open>/^(?:change[-_ ]?me|todo|tbd|placeholder|replace[-_ ]?me|your[-_].+|<[^>]+>|\$\{[^}]+\}|x{3,})$/i\<close>
\<close>

definition placeholder_words :: "string list" where
  "placeholder_words = [''changeme'', ''change-me'', ''change_me'', ''change me'', ''todo'', ''tbd'', ''placeholder'',
     ''replaceme'', ''replace-me'', ''replace_me'', ''replace me'']"

definition enclosed :: "string \<Rightarrow> char \<Rightarrow> string \<Rightarrow> bool" where
  "enclosed open' close' t \<longleftrightarrow> length open' + 2 \<le> length t \<and> take (length open') t = open' \<and> last t = close'
     \<and> close' \<notin> set (butlast (drop (length open') t))"

definition is_placeholder :: "string \<Rightarrow> bool" where
  "is_placeholder v \<longleftrightarrow> (let t = js_lower v in
     t \<in> set placeholder_words
     \<or> (6 \<le> length t \<and> (take 5 t = ''your-'' \<or> take 5 t = ''your_'')
         \<and> list_all (\<lambda>c. c \<noteq> CHR 0x0A \<and> c \<noteq> CHR 0x0D) (drop 5 t))
     \<or> enclosed ''<'' (CHR ''>'') t \<or> enclosed ''${'' (CHR ''}'') t
     \<or> (3 \<le> length t \<and> list_all (\<lambda>c. c = CHR ''x'') t))"

definition finding_id :: "platform \<Rightarrow> uuid \<Rightarrow> string \<Rightarrow> string \<Rightarrow> uuid list \<Rightarrow> string list \<Rightarrow> string" where
  "finding_id P projectId type normalizedKey environmentIds keys =
     hex_text (sha256 P (utf8 (json_text (JArr [JStr projectId, JStr type, JStr normalizedKey,
       JArr (map JStr (sort environmentIds)), JArr (map JStr (sort keys))]))))"

definition make_finding ::
  "platform \<Rightarrow> uuid \<Rightarrow> string \<Rightarrow> string \<Rightarrow> string \<Rightarrow> string list \<Rightarrow> uuid list \<Rightarrow> uuid list \<Rightarrow> base_finding" where
  "make_finding P projectId type severity key keys environmentIds missing =
     \<lparr>bf_id = finding_id P projectId type (js_upper key) environmentIds keys, bf_type = type, bf_severity = severity,
      bf_key = key, bf_keys = sort keys, bf_environments = sort environmentIds, bf_missing = sort missing\<rparr>"

text \<open>The loop that fills a \<^verbatim>\<open>Map\<close> from a computed key to the list of its elements.\<close>

definition add_to_group :: "('x \<Rightarrow> string) \<Rightarrow> 'x \<Rightarrow> (string \<times> 'x list) list \<Rightarrow> (string \<times> 'x list) list" where
  "add_to_group f x groups = AList.update (f x)
     ((case map_of groups (f x) of None \<Rightarrow> [] | Some existing \<Rightarrow> existing) @ [x]) groups"

definition group_by_key :: "('x \<Rightarrow> string) \<Rightarrow> 'x list \<Rightarrow> (string \<times> 'x list) list" where
  "group_by_key f xs = fold (add_to_group f) xs []"

definition group_findings ::
  "platform \<Rightarrow> uuid \<Rightarrow> uuid list \<Rightarrow> string \<times> secret_value list \<Rightarrow> base_finding list" where
  "group_findings P projectId environmentIds = (\<lambda>(normalized, matches).
     let keys = sort (js_uniq (map cv_key matches));
         present = sort (js_uniq (map cv_environment matches));
         missing = filter (\<lambda>i. i \<notin> set present) environmentIds
     in (if missing \<noteq> [] then [make_finding P projectId ''missing_key'' ''error'' normalized keys present missing] else [])
      @ (if 1 < length keys then [make_finding P projectId ''case_duplicate'' ''error'' normalized keys present []] else [])
      @ map (\<lambda>key. make_finding P projectId ''naming_violation'' ''warning'' key [key]
            (map cv_environment (filter (\<lambda>sv. cv_key sv = key) matches)) [])
          (filter (\<lambda>key. \<not> conventional_key key) keys))"

definition value_findings :: "platform \<Rightarrow> uuid \<Rightarrow> secret_value \<Rightarrow> base_finding list" where
  "value_findings P projectId sv =
     (if trim (cv_value sv) = []
      then [make_finding P projectId ''empty_value'' ''error'' (cv_key sv) [cv_key sv] [cv_environment sv] []]
      else if is_placeholder (trim (cv_value sv))
      then [make_finding P projectId ''placeholder_value'' ''warning'' (cv_key sv) [cv_key sv] [cv_environment sv] []]
      else [])"

text \<open>\<^verbatim>\<open>a.localeCompare(b) || ...\<close>\<close>

fun locale_chain :: "platform \<Rightarrow> string list \<Rightarrow> string list \<Rightarrow> bool" where
  "locale_chain P (a # as) (b # bs) =
     (if locale_le P a b \<and> locale_le P b a then locale_chain P as bs else locale_le P a b)"
| "locale_chain P as bs = True"

definition finding_le :: "platform \<Rightarrow> base_finding \<Rightarrow> base_finding \<Rightarrow> bool" where
  "finding_le P a b = locale_chain P [bf_severity a, bf_type a, bf_key a, bf_id a]
     [bf_severity b, bf_type b, bf_key b, bf_id b]"

definition analyze_consistency ::
  "platform \<Rightarrow> uuid \<Rightarrow> consistency_environment list \<Rightarrow> secret_value list \<Rightarrow> base_finding list" where
  "analyze_consistency P projectId environments secrets =
     (let environmentIds = sort (js_uniq (map ce_id environments));
          activeSecrets = filter (\<lambda>sv. cv_environment sv \<in> set environmentIds) secrets;
          groups = sort_by (\<lambda>a b. locale_le P (fst a) (fst b)) (group_by_key (\<lambda>sv. js_upper (cv_key sv)) activeSecrets)
      in sort_by (finding_le P) (concat (map (group_findings P projectId environmentIds) groups)
           @ concat (map (value_findings P projectId) activeSecrets)))"

section \<open>The matrix\<close>

datatype cell_state = Cell_present | Cell_missing | Cell_empty

record matrix_cell =
  mc_environment :: uuid
  mc_state :: cell_state
  mc_secret :: "uuid option"

record matrix_row =
  mx_key :: string
  mx_keys :: "string list"
  mx_cells :: "matrix_cell list"

definition empty_cells :: "base_finding list \<Rightarrow> (string \<times> uuid) list" where
  "empty_cells findings = concat (map (\<lambda>f. map (\<lambda>i. (js_upper (bf_key f), i)) (bf_environments f))
     (filter (\<lambda>f. bf_type f = ''empty_value'') findings))"

definition matrix_cell_of :: "platform \<Rightarrow> (string \<times> uuid) list \<Rightarrow> secret_row list \<Rightarrow> uuid \<Rightarrow> matrix_cell" where
  "matrix_cell_of P emptyCells matches environmentId =
     (case first_row (sort_by (\<lambda>a b. locale_le P (s_key a) (s_key b)) (filter (\<lambda>r. s_environment r = environmentId) matches)) of
        None \<Rightarrow> \<lparr>mc_environment = environmentId, mc_state = Cell_missing, mc_secret = None\<rparr>
      | Some r \<Rightarrow> \<lparr>mc_environment = environmentId,
          mc_state = (if (js_upper (s_key r), environmentId) \<in> set emptyCells then Cell_empty else Cell_present),
          mc_secret = Some (s_id r)\<rparr>)"

definition matrix_row_of :: "platform \<Rightarrow> uuid list \<Rightarrow> (string \<times> uuid) list \<Rightarrow> string \<times> secret_row list \<Rightarrow> matrix_row" where
  "matrix_row_of P environmentIds emptyCells = (\<lambda>(normalized, matches).
     let keys = sort (js_uniq (map s_key matches)) in
     \<lparr>mx_key = (if length keys = 1 then hd keys else normalized), mx_keys = keys,
      mx_cells = map (matrix_cell_of P emptyCells matches) environmentIds\<rparr>)"

definition build_matrix :: "platform \<Rightarrow> environment_row list \<Rightarrow> secret_row list \<Rightarrow> base_finding list \<Rightarrow> matrix_row list" where
  "build_matrix P environments secrets findings =
     map (matrix_row_of P (map e_id environments) (empty_cells findings))
       (sort_by (\<lambda>a b. locale_le P (fst a) (fst b)) (group_by_key (\<lambda>r. js_upper (s_key r)) secrets))"

section \<open>Reports\<close>

record consistency_finding =
  cf_finding :: base_finding
  cf_disposition :: "string option"
  cf_note :: "string option"
  cf_updated :: "time option"

record consistency_summary =
  su_healthy :: bool
  su_exit_code :: nat
  su_total :: nat
  su_active :: nat
  su_errors :: nat
  su_warnings :: nat

record consistency_report =
  cr_project :: uuid
  cr_fingerprint :: string
  cr_computed :: time
  cr_cached :: bool
  cr_environments :: "consistency_environment list"
  cr_matrix :: "matrix_row list"
  cr_findings :: "consistency_finding list"
  cr_errors :: nat
  cr_warnings :: nat
  cr_summary :: consistency_summary

definition without_state :: "base_finding \<Rightarrow> consistency_finding" where
  "without_state f = \<lparr>cf_finding = f, cf_disposition = None, cf_note = None, cf_updated = None\<rparr>"

definition with_state :: "base_finding \<Rightarrow> finding_state_row \<Rightarrow> consistency_finding" where
  "with_state f st = \<lparr>cf_finding = f, cf_disposition = Some (fs_disposition st), cf_note = fs_note st,
     cf_updated = Some (to_date (fs_updated st))\<rparr>"

definition merge_state :: "finding_state_row list \<Rightarrow> base_finding \<Rightarrow> consistency_finding" where
  "merge_state states f = (case find (\<lambda>st. fs_finding st = bf_id f) (rev states) of
     None \<Rightarrow> without_state f | Some st \<Rightarrow> with_state f st)"

definition count_severity :: "string \<Rightarrow> consistency_finding list \<Rightarrow> nat" where
  "count_severity severity fs = length (filter (\<lambda>f. bf_severity (cf_finding f) = severity) fs)"

definition summarize :: "consistency_finding list \<Rightarrow> consistency_summary" where
  "summarize merged = (let active = filter (\<lambda>f. cf_disposition f \<noteq> Some ''ignored'') merged in
     \<lparr>su_healthy = (active = []), su_exit_code = (if active = [] then 0 else 1), su_total = length merged,
      su_active = length active, su_errors = count_severity ''error'' active, su_warnings = count_severity ''warning'' active\<rparr>)"

definition report ::
  "transaction \<Rightarrow> uuid \<Rightarrow> string \<Rightarrow> time \<Rightarrow> bool \<Rightarrow> base_finding list \<Rightarrow> environment_row list \<Rightarrow> secret_row list \<Rightarrow>
     consistency_report db_op" where
  "report T projectId fingerprint computedAt cached findings environments secrets =
     bind (select_rows fs_org db_states T (\<lambda>st. fs_project st = projectId)) (\<lambda>states.
     let merged = map (merge_state states) findings in
     ret \<lparr>cr_project = projectId, cr_fingerprint = fingerprint, cr_computed = computedAt, cr_cached = cached,
       cr_environments = map (\<lambda>e. \<lparr>ce_id = e_id e, ce_slug = e_slug e\<rparr>) environments,
       cr_matrix = build_matrix (tx_platform T) environments secrets (map cf_finding merged), cr_findings = merged,
       cr_errors = count_severity ''error'' merged, cr_warnings = count_severity ''warning'' merged,
       cr_summary = summarize merged\<rparr>)"

definition source_fingerprint :: "(time \<Rightarrow> string) \<Rightarrow> platform \<Rightarrow> environment_row list \<Rightarrow> secret_row list \<Rightarrow> string" where
  "source_fingerprint isoText P environments secrets =
     hex_text (sha256 P (utf8 (json_text (JArr [
       JArr (map (\<lambda>e. JArr [JStr (e_id e), JStr (e_slug e), JStr (isoText (to_date (e_updated e)))]) environments),
       JArr (map (\<lambda>r. JArr [JStr (s_id r), JStr (s_environment r), JStr (s_key r), JNum (js_int (s_version r)),
         JStr (isoText (to_date (s_updated r)))]) secrets)]))))"

section \<open>The cache\<close>

definition finding_json :: "base_finding \<Rightarrow> json" where
  "finding_json f = JObj [(''id'', JStr (bf_id f)), (''type'', JStr (bf_type f)), (''severity'', JStr (bf_severity f)),
     (''key'', JStr (bf_key f)), (''keys'', JArr (map JStr (bf_keys f))),
     (''environmentIds'', JArr (map JStr (bf_environments f))), (''missingEnvironmentIds'', JArr (map JStr (bf_missing f)))]"

text \<open>
  \<^verbatim>\<open>parseFindings\<close>. The source checks that the members of a finding are strings and arrays; here the
  elements of the arrays must be strings too, as they are in every row \<^verbatim>\<open>compute\<close> has written.
\<close>

definition json_string :: "(string \<times> json) list \<Rightarrow> string \<Rightarrow> error + string" where
  "json_string ms k = (case map_of ms k of Some (JStr t) \<Rightarrow> Inr t | _ \<Rightarrow> Inl (Consistency_error Consistency_invalid_input))"

definition json_strings :: "(string \<times> json) list \<Rightarrow> string \<Rightarrow> error + string list" where
  "json_strings ms k = (case map_of ms k of
     Some (JArr xs) \<Rightarrow> map_ok (\<lambda>x. case x of JStr t \<Rightarrow> Inr t | _ \<Rightarrow> Inl (Consistency_error Consistency_invalid_input)) xs
   | _ \<Rightarrow> Inl (Consistency_error Consistency_invalid_input))"

definition parse_finding :: "json \<Rightarrow> error + base_finding" where
  "parse_finding j = (case j of
     JObj ms \<Rightarrow> and_ok (json_string ms ''id'') (\<lambda>i. and_ok (json_string ms ''type'') (\<lambda>t.
       and_ok (json_string ms ''severity'') (\<lambda>sev. and_ok (json_string ms ''key'') (\<lambda>k.
       and_ok (json_strings ms ''keys'') (\<lambda>ks. and_ok (json_strings ms ''environmentIds'') (\<lambda>es.
       and_ok (json_strings ms ''missingEnvironmentIds'') (\<lambda>mis.
       Inr \<lparr>bf_id = i, bf_type = t, bf_severity = sev, bf_key = k, bf_keys = ks, bf_environments = es, bf_missing = mis\<rparr>)))))))
   | _ \<Rightarrow> Inl (Consistency_error Consistency_invalid_input))"

definition parse_findings :: "json \<Rightarrow> error + base_finding list" where
  "parse_findings j = (case j of JArr xs \<Rightarrow> map_ok parse_finding xs
     | _ \<Rightarrow> Inl (Consistency_error Consistency_invalid_input))"

definition upsert_report :: "transaction \<Rightarrow> report_cache_row \<Rightarrow> unit db_op" where
  "upsert_report T row =
     bind (select_rows rc_org db_reports T (\<lambda>r. rc_project r = rc_project row)) (\<lambda>rows.
     if rows \<noteq> [] then update_rows rc_org db_reports_update T (\<lambda>r. rc_project r = rc_project row)
       (\<lambda>r. r\<lparr>rc_fingerprint := rc_fingerprint row, rc_findings := rc_findings row, rc_computed := rc_computed row\<rparr>)
     else insert_row rc_org db_reports db_reports_update (\<lambda>r q. rc_org q = rc_org r \<and> rc_project q = rc_project r) T row)"

section \<open>The service\<close>

abbreviation consistency_missing :: error where
  "consistency_missing \<equiv> Consistency_error Consistency_not_found"

definition project_secrets :: "transaction \<Rightarrow> uuid \<Rightarrow> db \<Rightarrow> secret_row list" where
  "project_secrets T projectId s = sort_by (\<lambda>a b. s_id a \<le> s_id b)
     (concat (map (\<lambda>r. map (\<lambda>_. r) (filter (\<lambda>e. e_id e = s_environment r \<and> e_deleted e = None) (visible e_org T (db_environments s))))
       (filter (\<lambda>r. s_project r = projectId \<and> s_deleted r = None) (visible s_org T (db_secrets s)))))"

definition read_values :: "transaction \<Rightarrow> uuid \<Rightarrow> secret_row list \<Rightarrow> secret_value list db_op" where
  "read_values T actorUserId secrets = for_each (\<lambda>r. bind (get_secret T actorUserId (s_id r)) (\<lambda>(_, v).
     ret \<lparr>cv_secret = s_id r, cv_environment = s_environment r, cv_key = s_key r, cv_value = v\<rparr>)) secrets"

definition compute_fresh ::
  "transaction \<Rightarrow> uuid \<Rightarrow> uuid \<Rightarrow> string \<Rightarrow> environment_row list \<Rightarrow> secret_row list \<Rightarrow> consistency_report db_op" where
  "compute_fresh T actorUserId projectId fingerprint environments secrets =
     bind (read_values T actorUserId secrets) (\<lambda>values.
     let computedAt = service_now T;
         findings = analyze_consistency (tx_platform T) projectId (map (\<lambda>e. \<lparr>ce_id = e_id e, ce_slug = e_slug e\<rparr>) environments) values
     in andthen (upsert_report T \<lparr>rc_org = tx_org T, rc_project = projectId, rc_fingerprint = fingerprint,
          rc_findings = JArr (map finding_json findings), rc_computed = computedAt\<rparr>)
        (report T projectId fingerprint computedAt False findings environments secrets))"

definition compute :: "(time \<Rightarrow> string) \<Rightarrow> transaction \<Rightarrow> uuid \<Rightarrow> uuid \<Rightarrow> consistency_report db_op" where
  "compute isoText T actorUserId projectId =
     andthen (permit T actorUserId (Some projectId) False Secret_read)
    (bind (select_rows p_org db_projects T (active_project projectId)) (\<lambda>project.
     andthen (check (length project = 1) consistency_missing)
    (bind (reads (active_environments T projectId)) (\<lambda>environments.
     bind (reads (project_secrets T projectId)) (\<lambda>secrets.
     let fingerprint = source_fingerprint isoText (tx_platform T) environments secrets in
     bind (select_rows rc_org db_reports T (\<lambda>r. rc_project r = projectId \<and> rc_fingerprint r = fingerprint)) (\<lambda>cached.
     case first_row cached of
       Some c \<Rightarrow> bind (lift_sum (parse_findings (rc_findings c))) (\<lambda>findings.
         report T projectId fingerprint (to_date (rc_computed c)) True findings environments secrets)
     | None \<Rightarrow> compute_fresh T actorUserId projectId fingerprint environments secrets))))))"

datatype finding_disposition = Acknowledged | Ignored

primrec disposition_text :: "finding_disposition \<Rightarrow> string" where
  "disposition_text Acknowledged = ''acknowledged''"
| "disposition_text Ignored = ''ignored''"

definition disposition_note :: "string option \<Rightarrow> error + string option" where
  "disposition_note note = (case note of None \<Rightarrow> Inr None
     | Some t \<Rightarrow> if trim t = [] then Inr None
         else if 1000 < length (trim t) then Inl (Consistency_error Consistency_invalid_input) else Inr (Some (trim t)))"

definition upsert_state :: "transaction \<Rightarrow> finding_state_row \<Rightarrow> unit db_op" where
  "upsert_state T row =
     (let same = (\<lambda>r. fs_project r = fs_project row \<and> fs_finding r = fs_finding row) in
      bind (select_rows fs_org db_states T same) (\<lambda>rows.
      if rows \<noteq> [] then update_rows fs_org db_states_update T same
        (\<lambda>r. r\<lparr>fs_disposition := fs_disposition row, fs_note := fs_note row, fs_updated_by := fs_updated_by row, fs_updated := tx_now T\<rparr>)
      else insert_row fs_org db_states db_states_update
        (\<lambda>r q. fs_org q = fs_org r \<and> fs_project q = fs_project r \<and> fs_finding q = fs_finding r) T row))"

definition consistency_event :: "transaction \<Rightarrow> uuid \<Rightarrow> audit_action \<Rightarrow> uuid \<Rightarrow> string \<Rightarrow> audit_event" where
  "consistency_event T actorUserId action projectId findingId =
     (user_event (tx_org T) actorUserId action ''consistency_finding'' findingId)\<lparr>event_project := Some projectId\<rparr>"

definition set_disposition ::
  "(time \<Rightarrow> string) \<Rightarrow> transaction \<Rightarrow> uuid \<Rightarrow> uuid \<Rightarrow> string \<Rightarrow> finding_disposition \<Rightarrow> string option \<Rightarrow> consistency_finding db_op"
where
  "set_disposition isoText T actorUserId projectId findingId disposition note =
     andthen (permit T actorUserId (Some projectId) False Project_update)
    (bind (compute isoText T actorUserId projectId) (\<lambda>rep.
     bind (from_option consistency_missing (find (\<lambda>f. bf_id (cf_finding f) = findingId) (cr_findings rep))) (\<lambda>finding.
     bind (lift_sum (disposition_note note)) (\<lambda>normalizedNote.
     andthen (upsert_state T \<lparr>fs_org = tx_org T, fs_project = projectId, fs_finding = findingId,
        fs_disposition = disposition_text disposition, fs_note = normalizedNote, fs_updated_by = Some actorUserId,
        fs_updated = tx_now T\<rparr>)
    (bind (select_rows fs_org db_states T (\<lambda>r. fs_project r = projectId \<and> fs_finding r = findingId)) (\<lambda>rows.
     bind (from_option Internal_error (first_row rows)) (\<lambda>updated.
     andthen (record_in_transaction T
        ((consistency_event T actorUserId (if disposition = Ignored then Consistency_ignored else Consistency_acknowledged)
           projectId findingId)
         \<lparr>event_after := Some [(''disposition'', JStr (disposition_text disposition)),
           (''findingType'', JStr (bf_type (cf_finding finding))), (''severity'', JStr (bf_severity (cf_finding finding)))]\<rparr>))
      (ret (with_state (cf_finding finding) updated)))))))))"

definition clear_disposition :: "transaction \<Rightarrow> uuid \<Rightarrow> uuid \<Rightarrow> string \<Rightarrow> unit db_op" where
  "clear_disposition T actorUserId projectId findingId =
     (let same = (\<lambda>r. fs_project r = projectId \<and> fs_finding r = findingId) in
      andthen (permit T actorUserId (Some projectId) False Project_update)
     (bind (select_rows fs_org db_states T same) (\<lambda>deleted.
      andthen (delete_rows fs_org db_states_update T same)
     (andthen (check (length deleted = 1) consistency_missing)
      (record_in_transaction T (consistency_event T actorUserId Consistency_cleared projectId findingId))))))"

end
