(* ===== verification/Consistency_Facts.thy ===== *)
theory Consistency_Facts
  imports Consistency Environment_Facts
begin

text \<open>
  The analysis reports exactly what a set-theoretic description of the project's secrets asks for, each problem
  once and in order; and a report answered from the cache is the report that was computed.
\<close>

section \<open>Grouping and sorting\<close>

lemma group_by_key_lookup:
  "distinct (map fst (group_by_key f xs))
   \<and> (\<forall>k. map_of (group_by_key f xs) k = (if k \<in> f ` set xs then Some (filter (\<lambda>x. f x = k) xs) else None))"
proof (induction xs rule: rev_induct)
  case (snoc x xs)
  have step: "group_by_key f (xs @ [x]) = add_to_group f x (group_by_key f xs)" by (simp add: group_by_key_def)
  have none: "filter (\<lambda>y. f y = f x) xs = []" if "f x \<notin> f ` set xs"
    using that by (auto simp: filter_empty_conv image_iff)
  show ?case
    using snoc none unfolding step add_to_group_def
    by (cases "f x \<in> f ` set xs") (simp_all add: distinct_update update_conv')
qed (simp add: group_by_key_def)

lemma group_by_key_set:
  "(k, m) \<in> set (group_by_key f xs) \<longleftrightarrow> k \<in> f ` set xs \<and> m = filter (\<lambda>x. f x = k) xs"
  using group_by_key_lookup[of f xs] by (subst map_of_eq_Some_iff[symmetric]) (auto split: if_splits)

lemma group_by_key_image: "set (group_by_key f xs) = (\<lambda>k. (k, filter (\<lambda>x. f x = k) xs)) ` (f ` set xs)"
  by (rule set_eqI) (auto simp: group_by_key_set image_iff split_paired_all)

lemma sort_js_uniq: "sort (js_uniq xs) = sorted_list_of_set (set xs)"
  by (metis distinct_js_uniq set_js_uniq sorted_list_of_set_sort_remdups distinct_remdups_id)

lemma sort_distinct: "distinct xs \<Longrightarrow> sort xs = sorted_list_of_set (set xs)"
  by (metis distinct_remdups_id sorted_list_of_set_sort_remdups)

section \<open>What there is to report\<close>

definition holders :: "secret_value set \<Rightarrow> string \<Rightarrow> uuid set" where
  "holders A k = {cv_environment sv | sv. sv \<in> A \<and> js_upper (cv_key sv) = k}"

definition spellings :: "secret_value set \<Rightarrow> string \<Rightarrow> string set" where
  "spellings A k = {cv_key sv | sv. sv \<in> A \<and> js_upper (cv_key sv) = k}"

definition places :: "secret_value set \<Rightarrow> string \<Rightarrow> uuid set" where
  "places A k = {cv_environment sv | sv. sv \<in> A \<and> cv_key sv = k}"

definition known_keys :: "secret_value set \<Rightarrow> string set" where
  "known_keys A = (\<lambda>sv. js_upper (cv_key sv)) ` A"

definition listed :: "string set \<Rightarrow> string list" where "listed X = sorted_list_of_set X"

definition problems :: "platform \<Rightarrow> uuid \<Rightarrow> uuid set \<Rightarrow> secret_value set \<Rightarrow> base_finding set" where
  "problems P projectId E A =
     {make_finding P projectId ''missing_key'' ''error'' k (listed (spellings A k)) (listed (holders A k)) (listed (E - holders A k))
       | k. k \<in> known_keys A \<and> \<not> E \<subseteq> holders A k}
   \<union> {make_finding P projectId ''case_duplicate'' ''error'' k (listed (spellings A k)) (listed (holders A k)) []
       | k. k \<in> known_keys A \<and> (\<exists>a\<in>spellings A k. \<exists>b\<in>spellings A k. a \<noteq> b)}
   \<union> {make_finding P projectId ''naming_violation'' ''warning'' k [k] (listed (places A k)) []
       | k. k \<in> cv_key ` A \<and> \<not> conventional_key k}
   \<union> {make_finding P projectId ''empty_value'' ''error'' (cv_key sv) [cv_key sv] [cv_environment sv] []
       | sv. sv \<in> A \<and> trim (cv_value sv) = []}
   \<union> {make_finding P projectId ''placeholder_value'' ''warning'' (cv_key sv) [cv_key sv] [cv_environment sv] []
       | sv. sv \<in> A \<and> trim (cv_value sv) \<noteq> [] \<and> is_placeholder (trim (cv_value sv))}"

text \<open>The values of the environments under analysis.\<close>

definition analysed :: "consistency_environment list \<Rightarrow> secret_value list \<Rightarrow> secret_value set" where
  "analysed environments secrets = {sv \<in> set secrets. cv_environment sv \<in> ce_id ` set environments}"

lemma length_sort_uniq: "(1 < length (sort (js_uniq xs))) \<longleftrightarrow> (\<exists>a\<in>set xs. \<exists>b\<in>set xs. a \<noteq> b)"
proof -
  have "card (set xs) \<le> 1 \<longleftrightarrow> (\<forall>a\<in>set xs. \<forall>b\<in>set xs. a = b)"
    using card_le_Suc0_iff_eq[of "set xs"] by simp
  then show ?thesis by (auto simp: not_le[symmetric])
qed

lemma filter_notin_sorted: "sorted xs \<Longrightarrow> distinct xs \<Longrightarrow> filter (\<lambda>i. i \<notin> B) xs = sorted_list_of_set (set xs - B)"
  for xs :: "string list"
proof -
  assume "sorted xs" "distinct xs"
  then have "sorted (filter (\<lambda>i. i \<notin> B) xs)" "distinct (filter (\<lambda>i. i \<notin> B) xs)" by (simp_all add: sorted_wrt_filter)
  then have "filter (\<lambda>i. i \<notin> B) xs = sorted_list_of_set (set (filter (\<lambda>i. i \<notin> B) xs))"
    by (simp only: sorted_list_of_set_sort_remdups distinct_remdups_id sorted_sort_id)
  moreover have "set (filter (\<lambda>i. i \<notin> B) xs) = set xs - B" by auto
  ultimately show ?thesis by simp
qed

text \<open>The findings of one group, in terms of the set of all values.\<close>

lemma group_findings_set:
  assumes E: "environmentIds = sort (js_uniq es)" and xs: "distinct (map (\<lambda>sv. (cv_environment sv, cv_key sv)) xs)"
    and m: "m = filter (\<lambda>sv. js_upper (cv_key sv) = k) xs" and k: "k \<in> known_keys (set xs)"
  shows "set (group_findings P projectId environmentIds (k, m)) =
     (if set es \<subseteq> holders (set xs) k then {} else {make_finding P projectId ''missing_key'' ''error'' k (listed (spellings (set xs) k))
         (listed (holders (set xs) k)) (listed (set es - holders (set xs) k))})
   \<union> (if \<exists>a\<in>spellings (set xs) k. \<exists>b\<in>spellings (set xs) k. a \<noteq> b
      then {make_finding P projectId ''case_duplicate'' ''error'' k (listed (spellings (set xs) k)) (listed (holders (set xs) k)) []} else {})
   \<union> (\<lambda>key. make_finding P projectId ''naming_violation'' ''warning'' key [key] (listed (places (set xs) key)) [])
       ` {key \<in> spellings (set xs) k. \<not> conventional_key key}"
proof -
  have s: "set (map cv_key m) = spellings (set xs) k" "set (map cv_environment m) = holders (set xs) k"
    by (auto simp: m spellings_def holders_def)
  have keys: "sort (js_uniq (map cv_key m)) = listed (spellings (set xs) k)"
    "sort (js_uniq (map cv_environment m)) = listed (holders (set xs) k)"
    unfolding sort_js_uniq listed_def s by (rule refl)+
  have fin: "finite (spellings (set xs) k)" "finite (holders (set xs) k)" unfolding s[symmetric] by (rule finite_set)+
  have missing: "filter (\<lambda>i. i \<notin> set (listed (holders (set xs) k))) environmentIds = listed (set es - holders (set xs) k)"
    unfolding E listed_def using fin(2) by (simp add: filter_notin_sorted)
  have some: "listed (set es - holders (set xs) k) \<noteq> [] \<longleftrightarrow> \<not> set es \<subseteq> holders (set xs) k"
    by (simp add: listed_def)
  have two: "1 < length (listed (spellings (set xs) k)) \<longleftrightarrow> (\<exists>a\<in>spellings (set xs) k. \<exists>b\<in>spellings (set xs) k. a \<noteq> b)"
    using length_sort_uniq[of "map cv_key m"] unfolding keys s .
  have places: "make_finding P projectId t sev key [key] (map cv_environment (filter (\<lambda>sv. cv_key sv = key) m)) []
      = make_finding P projectId t sev key [key] (listed (places (set xs) key)) []"
    if "key \<in> spellings (set xs) k" for key t sev
  proof -
    have u: "js_upper key = k" using that by (auto simp: spellings_def)
    then have f: "filter (\<lambda>sv. cv_key sv = key) m = filter (\<lambda>sv. cv_key sv = key) xs"
      unfolding m filter_filter by (intro filter_cong refl) auto
    have "distinct (map cv_environment (filter (\<lambda>sv. cv_key sv = key) xs))"
      using xs by (auto simp: distinct_map inj_on_def)
    moreover have "set (map cv_environment (filter (\<lambda>sv. cv_key sv = key) xs)) = places (set xs) key" by (auto simp: places_def)
    ultimately have "sort (map cv_environment (filter (\<lambda>sv. cv_key sv = key) m)) = sort (listed (places (set xs) key))"
      unfolding f listed_def using sort_distinct
      by (metis sorted_list_of_set.sorted_sorted_key_list_of_set sorted_sort_id)
    then show ?thesis by (simp add: make_finding_def finding_id_def)
  qed
  have naming: "set (map (\<lambda>key. make_finding P projectId ''naming_violation'' ''warning'' key [key]
        (map cv_environment (filter (\<lambda>sv. cv_key sv = key) m)) []) (filter (\<lambda>key. \<not> conventional_key key) (listed (spellings (set xs) k))))
    = (\<lambda>key. make_finding P projectId ''naming_violation'' ''warning'' key [key] (listed (places (set xs) key)) [])
       ` {key \<in> spellings (set xs) k. \<not> conventional_key key}"
    unfolding set_map set_filter using fin(1) places by (intro image_cong) (simp_all add: listed_def)
  show ?thesis
    unfolding group_findings_def split Let_def keys missing set_append naming Un_assoc[symmetric]
    by (intro arg_cong2[of _ _ _ _ "(\<union>)"] refl) (simp_all add: some two[unfolded One_nat_def])
qed

lemma value_findings_set:
  "set (value_findings P projectId sv) =
     {f. trim (cv_value sv) = [] \<and> f = make_finding P projectId ''empty_value'' ''error'' (cv_key sv) [cv_key sv] [cv_environment sv] []}
   \<union> {f. trim (cv_value sv) \<noteq> [] \<and> is_placeholder (trim (cv_value sv))
        \<and> f = make_finding P projectId ''placeholder_value'' ''warning'' (cv_key sv) [cv_key sv] [cv_environment sv] []}"
  by (auto simp: value_findings_def)

lemma known_spelling: "key \<in> cv_key ` A \<longleftrightarrow> (\<exists>k. k \<in> known_keys A \<and> key \<in> spellings A k)"
  by (auto simp: known_keys_def spellings_def)

lemma collect_unions:
  "(\<Union>k\<in>K. if c k then {} else {f k}) = {f k | k. k \<in> K \<and> \<not> c k}"
  "(\<Union>k\<in>K. if c k then {f k} else {}) = {f k | k. k \<in> K \<and> c k}"
  "(\<Union>k\<in>K. h ` {x \<in> S k. q x}) = {h x | x. (\<exists>k. k \<in> K \<and> x \<in> S k) \<and> q x}"
  by (auto split: if_splits)

lemma analysis_set:
  assumes xs: "distinct (map (\<lambda>sv. (cv_environment sv, cv_key sv)) secrets)"
  shows "set (analyze_consistency P projectId environments secrets)
    = problems P projectId (ce_id ` set environments) (analysed environments secrets)"
proof -
  define es where "es = map ce_id environments"
  define xs where "xs = filter (\<lambda>sv. cv_environment sv \<in> set (sort (js_uniq es))) secrets"
  have A: "set xs = analysed environments secrets" "set es = ce_id ` set environments"
    by (auto simp: xs_def es_def analysed_def)
  have d: "distinct (map (\<lambda>sv. (cv_environment sv, cv_key sv)) xs)"
    using assms by (simp add: xs_def distinct_map_filter)
  let ?g = "group_findings P projectId (sort (js_uniq es))" and ?U = "\<lambda>sv. js_upper (cv_key sv)"
  have "set (analyze_consistency P projectId environments secrets)
      = (\<Union>k\<in>known_keys (set xs). set (?g (k, filter (\<lambda>sv. ?U sv = k) xs))) \<union> (\<Union>sv\<in>set xs. set (value_findings P projectId sv))"
  proof -
    have "(\<Union>p\<in>set (group_by_key ?U xs). set (?g p)) = (\<Union>k\<in>known_keys (set xs). set (?g (k, filter (\<lambda>sv. ?U sv = k) xs)))"
      unfolding known_keys_def group_by_key_image by simp
    then show ?thesis by (simp add: analyze_consistency_def Let_def xs_def es_def)
  qed
  also have "(\<Union>k\<in>known_keys (set xs). set (?g (k, filter (\<lambda>sv. ?U sv = k) xs))) =
     {make_finding P projectId ''missing_key'' ''error'' k (listed (spellings (set xs) k)) (listed (holders (set xs) k)) (listed (set es - holders (set xs) k))
       | k. k \<in> known_keys (set xs) \<and> \<not> set es \<subseteq> holders (set xs) k}
   \<union> {make_finding P projectId ''case_duplicate'' ''error'' k (listed (spellings (set xs) k)) (listed (holders (set xs) k)) []
       | k. k \<in> known_keys (set xs) \<and> (\<exists>a\<in>spellings (set xs) k. \<exists>b\<in>spellings (set xs) k. a \<noteq> b)}
   \<union> {make_finding P projectId ''naming_violation'' ''warning'' k [k] (listed (places (set xs) k)) []
       | k. k \<in> cv_key ` set xs \<and> \<not> conventional_key k}"
    unfolding known_spelling collect_unions[symmetric] UN_Un_distrib[symmetric]
    by (intro SUP_cong refl group_findings_set[OF refl d refl])
  also have "(\<Union>sv\<in>set xs. set (value_findings P projectId sv)) =
      {make_finding P projectId ''empty_value'' ''error'' (cv_key sv) [cv_key sv] [cv_environment sv] []
       | sv. sv \<in> set xs \<and> trim (cv_value sv) = []}
    \<union> {make_finding P projectId ''placeholder_value'' ''warning'' (cv_key sv) [cv_key sv] [cv_environment sv] []
       | sv. sv \<in> set xs \<and> trim (cv_value sv) \<noteq> [] \<and> is_placeholder (trim (cv_value sv))}"
    unfolding value_findings_set by auto
  finally show ?thesis unfolding problems_def A Un_assoc .
qed

section \<open>Each problem once, in order\<close>

lemma make_finding_fields [simp]:
  "bf_type (make_finding P projectId type severity key keys es ms) = type"
  "bf_severity (make_finding P projectId type severity key keys es ms) = severity"
  "bf_key (make_finding P projectId type severity key keys es ms) = key"
  "bf_environments (make_finding P projectId type severity key keys es ms) = sort es"
  by (simp_all add: make_finding_def)

lemma distinct_concat_map:
  assumes "distinct xs" and "\<And>x. x \<in> set xs \<Longrightarrow> distinct (g x)"
    and "\<And>x y f. x \<in> set xs \<Longrightarrow> y \<in> set xs \<Longrightarrow> f \<in> set (g x) \<Longrightarrow> f \<in> set (g y) \<Longrightarrow> x = y"
  shows "distinct (concat (map g xs))"
  using assms
proof (induction xs)
  case (Cons x xs)
  have "distinct (concat (map g xs))" using Cons by auto
  moreover have "set (g x) \<inter> set (g y) = {}" if "y \<in> set xs" for y using Cons.prems that by fastforce
  ultimately show ?case using Cons.prems(2) by auto
qed simp

lemma group_finding_key:
  assumes "f \<in> set (group_findings P projectId E (k, m))" and "\<forall>sv\<in>set m. js_upper (cv_key sv) = k"
  shows "(if bf_type f = ''naming_violation'' then js_upper (bf_key f) else bf_key f) = k"
    and "bf_type f \<in> {''missing_key'', ''case_duplicate'', ''naming_violation''}"
  using assms by (auto simp: group_findings_def Let_def split: if_splits)

lemma group_findings_distinct: "distinct (group_findings P projectId E (k, m))"
proof -
  have "inj (\<lambda>key. make_finding P projectId ''naming_violation'' ''warning'' key [key]
      (map cv_environment (filter (\<lambda>sv. cv_key sv = key) m)) [])"
    by (rule injI) (metis make_finding_fields(3))
  then show ?thesis
    by (auto simp: group_findings_def Let_def distinct_map intro: inj_on_subset dest: arg_cong[of _ _ bf_type])
qed

lemma value_finding_place:
  assumes "f \<in> set (value_findings P projectId sv)"
  shows "bf_key f = cv_key sv \<and> bf_environments f = [cv_environment sv]" and "bf_type f \<in> {''empty_value'', ''placeholder_value''}"
  using assms by (auto simp: value_findings_def split: if_splits)

lemma analysis_distinct:
  assumes xs: "distinct (map (\<lambda>sv. (cv_environment sv, cv_key sv)) secrets)"
  shows "distinct (analyze_consistency P projectId environments secrets)"
proof -
  define es where "es = sort (js_uniq (map ce_id environments))"
  define xs where "xs = filter (\<lambda>sv. cv_environment sv \<in> set es) secrets"
  define gs where "gs = sort_by (\<lambda>a b. locale_le P (fst a) (fst b)) (group_by_key (\<lambda>sv. js_upper (cv_key sv)) xs)"
  have d: "distinct (map (\<lambda>sv. (cv_environment sv, cv_key sv)) xs)" using assms by (simp add: xs_def distinct_map_filter)
  have gs: "distinct gs" using group_by_key_lookup[of "\<lambda>sv. js_upper (cv_key sv)" xs] by (simp add: gs_def distinct_map)
  have member: "\<forall>sv\<in>set m. js_upper (cv_key sv) = k" if "(k, m) \<in> set gs" for k m
    using that by (auto simp: gs_def group_by_key_set)
  have same: "m = m'" if "(k, m) \<in> set gs" "(k, m') \<in> set gs" for k m m'
    using that by (auto simp: gs_def group_by_key_set)
  have "distinct (concat (map (group_findings P projectId es) gs))"
  proof (rule distinct_concat_map[OF gs])
    fix x y f assume h: "x \<in> set gs" "y \<in> set gs" "f \<in> set (group_findings P projectId es x)" "f \<in> set (group_findings P projectId es y)"
    obtain k m k' m' where xy: "x = (k, m)" "y = (k', m')" by (metis surj_pair)
    have "k = k'"
      using group_finding_key(1)[of f P projectId es k m] group_finding_key(1)[of f P projectId es k' m'] h member unfolding xy by metis
    then show "x = y" using same h xy by metis
  qed (metis group_findings_distinct surj_pair)
  moreover have "distinct (concat (map (value_findings P projectId) xs))"
  proof (rule distinct_concat_map)
    show "distinct xs" using d by (simp add: distinct_map)
    fix x y f assume h: "x \<in> set xs" "y \<in> set xs" "f \<in> set (value_findings P projectId x)" "f \<in> set (value_findings P projectId y)"
    have "(cv_environment x, cv_key x) = (cv_environment y, cv_key y)"
      using value_finding_place(1)[OF h(3)] value_finding_place(1)[OF h(4)] by simp
    then show "x = y" using d h(1,2) by (simp add: distinct_map inj_on_def)
  qed (simp add: value_findings_def)
  moreover have "f \<notin> set (value_findings P projectId sv)" if "p \<in> set gs" "f \<in> set (group_findings P projectId es p)" for p f sv
  proof
    assume "f \<in> set (value_findings P projectId sv)"
    from value_finding_place(2)[OF this] group_finding_key(2)[of f P projectId es "fst p" "snd p"] that member[of "fst p" "snd p"]
    show False by auto
  qed
  ultimately have "distinct (concat (map (group_findings P projectId es) gs) @ concat (map (value_findings P projectId) xs))"
    by auto
  then show ?thesis by (simp add: analyze_consistency_def Let_def es_def[symmetric] xs_def[symmetric] gs_def[symmetric])
qed

lemma locale_chain_total:
  assumes "\<And>x y. locale_le P x y \<or> locale_le P y x"
  shows "locale_chain P as bs \<or> locale_chain P bs as"
proof (induction as arbitrary: bs)
  case (Cons a as)
  then show ?case using assms by (cases bs) auto
qed simp

lemma locale_chain_trans:
  assumes t: "\<And>x y z. locale_le P x y \<Longrightarrow> locale_le P y z \<Longrightarrow> locale_le P x z"
    and "length as = length bs" "length bs = length cs" and "locale_chain P as bs" "locale_chain P bs cs"
  shows "locale_chain P as cs"
  using assms(2-)
proof (induction as arbitrary: bs cs)
  case (Cons a as)
  obtain b bs' c cs' where e: "bs = b # bs'" "cs = c # cs'" using Cons.prems(1,2) by (metis Suc_length_conv)
  show ?case
  proof (cases "locale_le P a b \<and> locale_le P b a \<and> locale_le P b c \<and> locale_le P c b")
    case True
    have "locale_le P a c" "locale_le P c a" using True t[of a b c] t[of c b a] by auto
    moreover have "locale_chain P as bs'" "locale_chain P bs' cs'" using Cons.prems(3,4) True e by simp_all
    then have "locale_chain P as cs'" by (rule Cons.IH[rotated 2]) (use Cons.prems(1,2) e in simp_all)
    ultimately show ?thesis using e by simp
  next
    case False
    have "locale_le P a b" "locale_le P b c" using Cons.prems(3,4) e by (auto split: if_splits)
    then have "locale_le P a c" "\<not> locale_le P c a" using False t[of a b c] t[of c a b] t[of b c a] by auto
    then show ?thesis using e by simp
  qed
qed simp

lemma finding_le_total: "total_preorder (locale_le P) \<Longrightarrow> finding_le P a b \<or> finding_le P b a"
  unfolding finding_le_def total_preorder_def by (rule locale_chain_total) blast

lemma finding_le_trans:
  assumes "total_preorder (locale_le P)" and "finding_le P a b" and "finding_le P b c"
  shows "finding_le P a c"
  using assms(2,3) unfolding finding_le_def
  by (rule locale_chain_trans[rotated 3]) (use assms(1) in \<open>auto simp: total_preorder_def\<close>)

text \<open>
  C26: the analysis is exact. Its findings are precisely the problems of the set-theoretic description: a key missing
  from some environment with the environments that have it and those that do not, keys that differ only in case,
  unconventional keys with the environments that use them, and blank and placeholder values where they stand. Each is
  reported once, in the order of severity, type, key and identifier.
\<close>
theorem analysis_is_exact:
  assumes "distinct (map (\<lambda>sv. (cv_environment sv, cv_key sv)) secrets)" and "total_preorder (locale_le P)"
  shows "set (analyze_consistency P projectId environments secrets)
      = problems P projectId (ce_id ` set environments) (analysed environments secrets)
    \<and> distinct (analyze_consistency P projectId environments secrets)
    \<and> sorted_wrt (finding_le P) (analyze_consistency P projectId environments secrets)"
proof (intro conjI analysis_set analysis_distinct assms(1))
  show "sorted_wrt (finding_le P) (analyze_consistency P projectId environments secrets)"
    unfolding analyze_consistency_def Let_def
    by (rule sorted_sort_by[OF finding_le_total finding_le_trans]) (rule assms(2))+
qed

theorem analysis_is_exact_witness:
  "let es = [\<lparr>ce_id = ''e'', ce_slug = ''prod''\<rparr>, \<lparr>ce_id = ''f'', ce_slug = ''dev''\<rparr>];
       vs = [\<lparr>cv_secret = ''1'', cv_environment = ''e'', cv_key = ''API'', cv_value = ''v''\<rparr>,
             \<lparr>cv_secret = ''2'', cv_environment = ''f'', cv_key = ''api'', cv_value = ''TODO ''\<rparr>,
             \<lparr>cv_secret = ''3'', cv_environment = ''e'', cv_key = ''B'', cv_value = []\<rparr>]
   in map (\<lambda>f. (bf_type f, bf_key f)) (analyze_consistency demo_platform ''p'' es vs)
        = [(''case_duplicate'', ''API''), (''empty_value'', ''B''), (''missing_key'', ''B''),
           (''naming_violation'', ''api''), (''placeholder_value'', ''api'')]
     \<and> set (analyze_consistency demo_platform ''p'' es vs) = problems demo_platform ''p'' (ce_id ` set es) (analysed es vs)"
proof -
  define es where "es = [\<lparr>ce_id = ''e'', ce_slug = ''prod''\<rparr>, \<lparr>ce_id = ''f'', ce_slug = ''dev''\<rparr>]"
  define vs where "vs = [\<lparr>cv_secret = ''1'', cv_environment = ''e'', cv_key = ''API'', cv_value = ''v''\<rparr>,
             \<lparr>cv_secret = ''2'', cv_environment = ''f'', cv_key = ''api'', cv_value = ''TODO ''\<rparr>,
             \<lparr>cv_secret = ''3'', cv_environment = ''e'', cv_key = ''B'', cv_value = []\<rparr>]"
  have d: "distinct (map (\<lambda>sv. (cv_environment sv, cv_key sv)) vs)" unfolding vs_def by code_simp
  have e: "map (\<lambda>f. (bf_type f, bf_key f)) (analyze_consistency demo_platform ''p'' es vs)
        = [(''case_duplicate'', ''API''), (''empty_value'', ''B''), (''missing_key'', ''B''),
           (''naming_violation'', ''api''), (''placeholder_value'', ''api'')]"
    unfolding es_def vs_def by code_simp
  show ?thesis
    unfolding Let_def es_def[symmetric] vs_def[symmetric]
    using e analysis_is_exact[OF d demo_total_preorder(1), of "''p''" es] by simp
qed

section \<open>The cache\<close>

text \<open>Reading a secret changes nothing but the audit trail.\<close>

definition audit_only :: "db \<Rightarrow> db \<Rightarrow> bool" where
  "audit_only s s' \<longleftrightarrow> (\<exists>g. s' = db_audit_update g s)"

interpretation reading: op_contract audit_only
proof
  show "audit_only s s" for s
    unfolding audit_only_def by (rule exI[of _ id]) simp
  show "audit_only s u" if st: "audit_only s t" and tu: "audit_only t u" for s t u
  proof -
    obtain g h where "t = db_audit_update g s" "u = db_audit_update h t" using st tu unfolding audit_only_def by blast
    then have "u = db_audit_update (h \<circ> g) s" by simp
    then show ?thesis unfolding audit_only_def by blast
  qed
qed

lemma reading_intros [contract_intros]:
  "obeys audit_only (select_rows org get T P)" "obeys audit_only (permit T userId projectId prot p)"
  "obeys audit_only (record_in_transaction T ev)" "obeys audit_only (tx_decrypt T v ctx)"
proof -
  show "obeys audit_only (select_rows org get T P)" unfolding select_rows_def by (rule contract_intros)
  show "obeys audit_only (permit T userId projectId prot p)" by (auto simp: obeys_def permit_Inr reading.R_refl)
  show "obeys audit_only (record_in_transaction T ev)" by (auto simp: obeys_def record_Inr audit_only_def)
  show "obeys audit_only (tx_decrypt T v ctx)" by (auto simp: obeys_def reading.R_refl dest: tx_decrypt_state)
qed

lemma obeys_read_values: "obeys audit_only (read_values T actorUserId secrets)"
  unfolding read_values_def get_secret_def Let_def value_row_def permit_in_def environment_scope_def decrypt_row_def view_row_def
  by (intro contract_intros)

lemma parse_finding_json: "parse_finding (finding_json f) = Inr f"
proof -
  have "map_ok (\<lambda>x. case x of JStr t \<Rightarrow> Inr t | _ \<Rightarrow> Inl e) (map JStr ts) = Inr ts" for ts and e :: error
    by (induction ts) (simp_all add: and_ok_def)
  then show ?thesis by (simp add: parse_finding_def finding_json_def json_string_def json_strings_def and_ok_def)
qed

lemma parse_findings_json: "parse_findings (JArr (map finding_json fs)) = Inr fs"
  using parse_finding_json by (simp add: parse_findings_def) (induction fs; simp add: and_ok_def)

lemma upsert_report_rows:
  assumes "upsert_report T row s = Inr (u, s')" and "rc_org row = tx_org T"
  shows "\<exists>g. s' = db_reports_update g s"
    and "\<exists>c. first_row (filter (\<lambda>r. rc_project r = rc_project row \<and> rc_fingerprint r = rc_fingerprint row) (visible rc_org T (db_reports s')))
        = Some c \<and> rc_findings c = rc_findings row \<and> rc_computed c = rc_computed row"
proof -
  let ?Q = "\<lambda>r. rc_project r = rc_project row \<and> rc_fingerprint r = rc_fingerprint row"
  let ?f = "\<lambda>r. r\<lparr>rc_fingerprint := rc_fingerprint row, rc_findings := rc_findings row, rc_computed := rc_computed row\<rparr>"
  define old where "old = filter (\<lambda>r. rc_project r = rc_project row) (visible rc_org T (db_reports s))"
  have s': "s' = (if old \<noteq> [] then db_reports_update (update_where rc_org T (\<lambda>r. rc_project r = rc_project row) ?f) s
      else db_reports_update (\<lambda>rs. rs @ [row]) s)"
    using assms(1) by (auto simp: upsert_report_def op_simps select_rows_def update_rows_Inr insert_row_Inr old_def split: if_splits)
  then show "\<exists>g. s' = db_reports_update g s" by (cases "old = []") auto
  have first: "first_row (filter Q (visible rc_org T rs)) = find (\<lambda>r. rc_org r = tx_org T \<and> Q r) rs" for Q rs
    by (simp add: first_row_filter find_visible)
  show "\<exists>c. first_row (filter ?Q (visible rc_org T (db_reports s'))) = Some c \<and> rc_findings c = rc_findings row \<and> rc_computed c = rc_computed row"
  proof (cases "old = []")
    case True
    then have "find (\<lambda>r. rc_org r = tx_org T \<and> ?Q r) (db_reports s) = None"
      by (auto simp: old_def find_None_iff filter_empty_conv visible_def)
    then show ?thesis using True s' assms(2) by (simp add: first find_append)
  next
    case False
    have "\<exists>c. find (\<lambda>r. rc_org r = tx_org T \<and> ?Q r) (update_where rc_org T (\<lambda>r. rc_project r = rc_project row) ?f rs) = Some c
        \<and> rc_findings c = rc_findings row \<and> rc_computed c = rc_computed row"
      if "\<exists>r\<in>set rs. rc_org r = tx_org T \<and> rc_project r = rc_project row" for rs
      using that by (induction rs) (auto simp: update_where_def)
    moreover have "\<exists>r\<in>set (db_reports s). rc_org r = tx_org T \<and> rc_project r = rc_project row"
      using False by (auto simp: old_def filter_empty_conv visible_def)
    ultimately show ?thesis using False s' by (simp add: first)
  qed
qed

lemma visible_same_org: "tx_org T' = tx_org T \<Longrightarrow> visible org T' rs = visible org T rs"
  by (simp add: visible_def)

lemma project_inputs_same:
  assumes "tx_org T' = tx_org T" and "db_environments s' = db_environments s" and "db_secrets s' = db_secrets s"
  shows "active_environments T' pid s' = active_environments T pid s" and "project_secrets T' pid s' = project_secrets T pid s"
  by (simp_all add: active_environments_def project_secrets_def visible_same_org[OF assms(1)] assms(2,3))

definition report_of ::
  "transaction \<Rightarrow> uuid \<Rightarrow> string \<Rightarrow> time \<Rightarrow> bool \<Rightarrow> base_finding list \<Rightarrow> environment_row list \<Rightarrow> secret_row list \<Rightarrow>
     finding_state_row list \<Rightarrow> consistency_report" where
  "report_of T projectId fingerprint computedAt cached findings environments secrets states =
     (let merged = map (merge_state states) findings in
      \<lparr>cr_project = projectId, cr_fingerprint = fingerprint, cr_computed = computedAt, cr_cached = cached,
       cr_environments = map (\<lambda>e. \<lparr>ce_id = e_id e, ce_slug = e_slug e\<rparr>) environments,
       cr_matrix = build_matrix (tx_platform T) environments secrets (map cf_finding merged), cr_findings = merged,
       cr_errors = count_severity ''error'' merged, cr_warnings = count_severity ''warning'' merged,
       cr_summary = summarize merged\<rparr>)"

lemma report_value:
  "report T pid fp t cached fs es secs s =
     Inr (report_of T pid fp t cached fs es secs (filter (\<lambda>st. fs_project st = pid) (visible fs_org T (db_states s))), s)"
  unfolding report_def report_of_def Let_def select_rows_def bind_def reads_def ret_def
  by (simp only: sum.case prod.case)

lemma report_of_cached: "cr_cached (report_of T pid fp t cached fs es secs sts) = cached"
  by (simp add: report_of_def Let_def)

lemma report_of_again:
  "tx_platform T' = tx_platform T \<Longrightarrow>
     report_of T' pid fp t True fs es secs sts = (report_of T pid fp t False fs es secs sts)\<lparr>cr_cached := True\<rparr>"
  by (simp add: report_of_def Let_def)

text \<open>
  C27: the cache tells the truth. A report that was computed is answered from the cache as long as nothing changes,
  to whoever may read the project's secrets and whenever: it is the same report, marked as cached, and answering it
  decrypts nothing and records nothing.
\<close>
theorem cached_report_agrees:
  assumes run: "compute isoText T u pid s = Inr (r, s1)" and fresh: "\<not> cr_cached r"
    and same: "tx_org T' = tx_org T" "tx_platform T' = tx_platform T"
    and may: "permitted T' u' (Some pid) False Secret_read s1"
  shows "compute isoText T' u' pid s1 = Inr (r\<lparr>cr_cached := True\<rparr>, s1)"
proof -
  define es where "es = active_environments T pid s"
  define secs where "secs = project_secrets T pid s"
  define fp where "fp = source_fingerprint isoText (tx_platform T) es secs"
  define fs where "fs vs = analyze_consistency (tx_platform T) pid (map (\<lambda>e. \<lparr>ce_id = e_id e, ce_slug = e_slug e\<rparr>) es) vs" for vs
  define row where "row vs = \<lparr>rc_org = tx_org T, rc_project = pid, rc_fingerprint = fp, rc_findings = JArr (map finding_json (fs vs)),
      rc_computed = service_now T\<rparr>" for vs
  let ?states = "\<lambda>s. filter (\<lambda>st. fs_project st = pid) (visible fs_org T (db_states s))"
  have project: "length (filter (active_project pid) (visible p_org T (db_projects s))) = 1"
    and comp: "compute_fresh T u pid fp es secs s = Inr (r, s1)"
    using run fresh
    by (auto simp: compute_def op_simps permit_Inr select_rows_def Let_def es_def[symmetric] secs_def[symmetric] fp_def[symmetric]
        report_value report_of_cached split: option.splits)
  then obtain vs w v where vs: "read_values T u secs s = Inr (vs, w)" and up: "upsert_report T (row vs) w = Inr (v, s1)"
    and r: "r = report_of T pid fp (service_now T) False (fs vs) es secs (?states s1)"
    by (auto simp: compute_fresh_def op_simps Let_def fs_def[symmetric] row_def[symmetric] report_value)
  obtain g where w: "w = db_audit_update g s" using obeysD[OF obeys_read_values vs] by (auto simp: audit_only_def)
  have org: "rc_org (row vs) = tx_org T" by (simp add: row_def)
  obtain h where s1: "s1 = db_reports_update h w" using upsert_report_rows(1)[OF up org] by blast
  obtain c where c: "first_row (filter (\<lambda>r. rc_project r = pid \<and> rc_fingerprint r = fp) (visible rc_org T (db_reports s1))) = Some c"
    "rc_findings c = JArr (map finding_json (fs vs))" "rc_computed c = service_now T"
    using upsert_report_rows(2)[OF up org] by (auto simp: row_def)
  have inputs: "active_environments T' pid s1 = es" "project_secrets T' pid s1 = secs"
    unfolding es_def secs_def by (rule project_inputs_same[OF same(1)]; simp add: s1 w)+
  have rows: "visible p_org T' (db_projects s1) = visible p_org T (db_projects s)"
    "visible rc_org T' (db_reports s1) = visible rc_org T (db_reports s1)" "visible fs_org T' (db_states s1) = visible fs_org T (db_states s1)"
    by (simp_all add: s1 w visible_same_org[OF same(1)])
  have again: "report T' pid fp (service_now T) True (fs vs) es secs s1 = Inr (r\<lparr>cr_cached := True\<rparr>, s1)"
    unfolding report_value rows r by (simp add: report_of_again[OF same(2)])
  have read: "compute isoText T' u' pid s1 = bind (lift_sum (parse_findings (rc_findings c))) (\<lambda>findings.
         report T' pid fp (to_date (rc_computed c)) True findings es secs) s1"
    using project may c(1) inputs rows
    by (simp add: compute_def bind_def andthen_def permit_Inr[THEN iffD2] select_rows_def reads_def check_def ret_def Let_def
        fp_def[symmetric] same(2))
  show ?thesis
    unfolding read c(2,3) parse_findings_json by (simp add: bind_def lift_sum_def again)
qed

theorem cached_report_agrees_witness:
  "\<exists>r s. compute (\<lambda>_. []) demo_tx ''u'' ''p'' (demo_db\<lparr>db_projects := [demo_project], db_environments := [demo_environment]\<rparr>) = Inr (r, s)
     \<and> compute (\<lambda>_. []) demo_tx ''w'' ''p'' s = Inr (r\<lparr>cr_cached := True\<rparr>, s)"
proof -
  let ?s = "demo_db\<lparr>db_projects := [demo_project], db_environments := [demo_environment]\<rparr>"
  have "case compute (\<lambda>_. []) demo_tx ''u'' ''p'' ?s of Inr (r, s) \<Rightarrow> \<not> cr_cached r \<and> permitted demo_tx ''w'' (Some ''p'') False Secret_read s
      | Inl _ \<Rightarrow> False" by code_simp
  then obtain r s where "compute (\<lambda>_. []) demo_tx ''u'' ''p'' ?s = Inr (r, s)" "\<not> cr_cached r"
    "permitted demo_tx ''w'' (Some ''p'') False Secret_read s" by (auto split: sum.splits)
  then show ?thesis using cached_report_agrees[OF _ _ refl refl] by blast
qed

end
