(* ===== verification/Rate_Limiter.thy ===== *)
theory Rate_Limiter
  imports Errors Crypto "HOL-Library.AList"
begin

text \<open>
  \<^verbatim>\<open>InMemoryRateLimiter\<close> of \<^verbatim>\<open>apps/api/src/index.ts\<close>, the headers its decisions become, and the
  refusal of a request. Instants are milliseconds; the limiter reads its clock once per request.
  The reference is a fixed-window counter per client that never forgets and never shares.
\<close>

section \<open>The limiter\<close>

record limiter_bucket =
  bk_count :: nat
  bk_reset :: int

datatype limit_kind = By_ip | By_api_key

record rate_limiter =
  rl_window :: int
  rl_per_ip :: int
  rl_per_key :: int
  rl_buckets :: "(string \<times> limiter_bucket) list"
  rl_operations :: nat

record limit_decision =
  de_allowed :: bool
  de_limit :: int
  de_remaining :: int
  de_reset_seconds :: int

definition positive_integer :: "int \<Rightarrow> error + int" where
  "positive_integer v = (if \<not> is_safe_integer v \<or> v \<le> 0 then Inl Internal_error else Inr v)"

definition or_default :: "int \<Rightarrow> int option \<Rightarrow> int" where
  "or_default d v = (case v of None \<Rightarrow> d | Some n \<Rightarrow> n)"

definition new_rate_limiter :: "int option \<Rightarrow> int option \<Rightarrow> int option \<Rightarrow> error + rate_limiter" where
  "new_rate_limiter windowMs perIp perApiKey =
     and_ok (positive_integer (or_default 60000 windowMs)) (\<lambda>w.
     and_ok (positive_integer (or_default 300 perIp)) (\<lambda>i.
     and_ok (positive_integer (or_default 120 perApiKey)) (\<lambda>k.
     Inr \<lparr>rl_window = w, rl_per_ip = i, rl_per_key = k, rl_buckets = [], rl_operations = 0\<rparr>)))"

primrec kind_text :: "limit_kind \<Rightarrow> string" where
  "kind_text By_ip = ''ip''"
| "kind_text By_api_key = ''api_key''"

definition bucket_key :: "limit_kind \<Rightarrow> string \<Rightarrow> string" where
  "bucket_key kind identity = kind_text kind @ '':'' @ identity"

definition limit_of :: "rate_limiter \<Rightarrow> limit_kind \<Rightarrow> int" where
  "limit_of st kind = (if kind = By_ip then rl_per_ip st else rl_per_key st)"

definition decision_of :: "int \<Rightarrow> int \<Rightarrow> limiter_bucket \<Rightarrow> limit_decision" where
  "decision_of limit instant b = \<lparr>de_allowed = (int (bk_count b) \<le> limit), de_limit = limit,
     de_remaining = max 0 (limit - int (bk_count b)),
     de_reset_seconds = max 1 (- (- (bk_reset b - instant) div 1000))\<rparr>"

definition next_bucket :: "int \<Rightarrow> int \<Rightarrow> limiter_bucket option \<Rightarrow> limiter_bucket" where
  "next_bucket window instant current =
     (let bucket = (case current of None \<Rightarrow> \<lparr>bk_count = 0, bk_reset = instant + window\<rparr>
          | Some b \<Rightarrow> if bk_reset b \<le> instant then \<lparr>bk_count = 0, bk_reset = instant + window\<rparr> else b)
      in bucket\<lparr>bk_count := bk_count bucket + 1\<rparr>)"

definition consume :: "int \<Rightarrow> limit_kind \<Rightarrow> string \<Rightarrow> rate_limiter \<Rightarrow> limit_decision \<times> rate_limiter" where
  "consume instant kind identity st =
     (let bucketKey = bucket_key kind identity;
          bucket = next_bucket (rl_window st) instant (map_of (rl_buckets st) bucketKey);
          buckets = AList.update bucketKey bucket (rl_buckets st);
          operations = rl_operations st + 1;
          kept = (if operations mod 1000 = 0 then filter (\<lambda>(_, candidate). \<not> bk_reset candidate \<le> instant) buckets
                  else buckets)
      in (decision_of (limit_of st kind) instant bucket, st\<lparr>rl_buckets := kept, rl_operations := operations\<rparr>))"

definition rate_limit_headers :: "limit_decision \<Rightarrow> (string \<times> string) list" where
  "rate_limit_headers d =
     [(''RateLimit-Limit'', js_int (de_limit d)), (''RateLimit-Remaining'', js_int (de_remaining d)),
      (''RateLimit-Reset'', js_int (de_reset_seconds d)),
      (''RateLimit-Policy'', js_int (de_limit d) @ '';w='' @ js_int (de_reset_seconds d))]
     @ (if de_allowed d then [] else [(''Retry-After'', js_int (de_reset_seconds d))])"

definition apply_rate_limit :: "limit_decision \<Rightarrow> error + unit" where
  "apply_rate_limit d = (if de_allowed d then Inr () else Inl (Api_error 429 ''RATE_LIMITED''))"

text \<open>A request is the kind of limit, the identity and the instant.\<close>

type_synonym request = "(limit_kind \<times> string) \<times> int"

fun serve :: "rate_limiter \<Rightarrow> request list \<Rightarrow> limit_decision list" where
  "serve st [] = []"
| "serve st (((kind, identity), instant) # rs) =
     (case consume instant kind identity st of (d, st') \<Rightarrow> d # serve st' rs)"

section \<open>The reference\<close>

text \<open>The decisions of one client's own counter, from the bucket it is in.\<close>

fun window_run :: "int \<Rightarrow> int \<Rightarrow> limiter_bucket option \<Rightarrow> int list \<Rightarrow> (int \<times> limiter_bucket) list" where
  "window_run window limit current [] = []"
| "window_run window limit current (t # ts) =
     (let b = next_bucket window t current in (t, b) # window_run window limit (Some b) ts)"

definition own_times :: "limit_kind \<times> string \<Rightarrow> request list \<Rightarrow> int list" where
  "own_times client rs = map snd (filter (\<lambda>(c, _). c = client) rs)"

definition own_decisions :: "limit_kind \<times> string \<Rightarrow> request list \<Rightarrow> limit_decision list \<Rightarrow> (int \<times> limit_decision) list" where
  "own_decisions client rs ds = map (\<lambda>((_, t), d). (t, d)) (filter (\<lambda>((c, _), _). c = client) (zip rs ds))"

lemma own_Nil [simp]: "own_times c [] = []" "own_decisions c [] ds = []"
  by (simp_all add: own_times_def own_decisions_def)

lemma own_Cons [simp]:
  "own_times c ((c', t) # rs) = (if c' = c then t # own_times c rs else own_times c rs)"
  "own_decisions c ((c', t) # rs) (d # ds) = (if c' = c then (t, d) # own_decisions c rs ds else own_decisions c rs ds)"
  by (simp_all add: own_times_def own_decisions_def)

lemma bucket_key_inject [simp]: "bucket_key k i = bucket_key k' i' \<longleftrightarrow> k = k' \<and> i = i'"
  by (cases k; cases k') (simp_all add: bucket_key_def)

text \<open>
  The limiter implements the reference: at every instant from now on, what is stored for a client and
  has not expired is what its own counter holds.
\<close>

definition unexpired :: "int \<Rightarrow> limiter_bucket option \<Rightarrow> limiter_bucket option" where
  "unexpired t current = (case current of None \<Rightarrow> None | Some b \<Rightarrow> if bk_reset b \<le> t then None else Some b)"

lemma next_bucket_unexpired: "next_bucket w t (unexpired t c) = next_bucket w t c"
  by (auto simp: next_bucket_def unexpired_def split: option.split)

definition implements :: "int \<Rightarrow> rate_limiter \<Rightarrow> (limit_kind \<times> string \<Rightarrow> limiter_bucket option) \<Rightarrow> bool" where
  "implements t0 st spec \<longleftrightarrow> distinct (map fst (rl_buckets st))
     \<and> (\<forall>t\<ge>t0. \<forall>c. unexpired t (map_of (rl_buckets st) (bucket_key (fst c) (snd c))) = unexpired t (spec c))"

lemma sweep_lookup:
  assumes "distinct (map fst bs)"
  shows "map_of (filter (\<lambda>(_, c). \<not> bk_reset c \<le> t) bs) k = unexpired t (map_of bs k)"
  using assms
proof (induction bs)
  case Nil
  show ?case by (simp add: unexpired_def)
next
  case (Cons b bs)
  have "map_of bs (fst b) = None" using Cons.prems by (simp add: map_of_eq_None_iff)
  then show ?case using Cons by (cases b) (auto simp: unexpired_def)
qed

lemma consume_implements:
  assumes imp: "implements t0 st spec" and t: "t0 \<le> t" and run: "consume t kind i st = (d, st')"
  shows "d = decision_of (limit_of st kind) t (next_bucket (rl_window st) t (spec (kind, i)))"
    and "implements t st' (spec((kind, i) \<mapsto> next_bucket (rl_window st) t (spec (kind, i))))"
    and "rl_window st' = rl_window st" and "limit_of st' = limit_of st"
proof -
  let ?b = "next_bucket (rl_window st) t (map_of (rl_buckets st) (bucket_key kind i))"
  let ?bs = "AList.update (bucket_key kind i) ?b (rl_buckets st)"
  have "unexpired t (map_of (rl_buckets st) (bucket_key kind i)) = unexpired t (spec (kind, i))"
    using imp t unfolding implements_def by (metis fst_conv snd_conv)
  then have b: "?b = next_bucket (rl_window st) t (spec (kind, i))"
    by (metis next_bucket_unexpired)
  show "d = decision_of (limit_of st kind) t (next_bucket (rl_window st) t (spec (kind, i)))"
    using run b by (auto simp: consume_def Let_def)
  have st': "rl_buckets st' = ?bs \<or> rl_buckets st' = filter (\<lambda>(_, c). \<not> bk_reset c \<le> t) ?bs"
    using run by (auto simp: consume_def Let_def)
  have dist: "distinct (map fst ?bs)" using imp by (simp add: implements_def distinct_update)
  have upd: "unexpired u (map_of ?bs (bucket_key (fst c) (snd c))) = unexpired u ((spec((kind, i) \<mapsto> ?b)) c)" if "t \<le> u" for u c
    using imp that t by (cases c) (auto simp: implements_def update_conv' b)
  have "unexpired u (map_of (rl_buckets st') k) = unexpired u (map_of ?bs k)" if "t \<le> u" for u k
    using st'
  proof
    assume "rl_buckets st' = filter (\<lambda>(_, c). \<not> bk_reset c \<le> t) ?bs"
    then have "map_of (rl_buckets st') k = unexpired t (map_of ?bs k)"
      by (simp add: sweep_lookup[OF dist])
    moreover have "unexpired u (unexpired t c) = unexpired u c" for c
      using that by (auto simp: unexpired_def split: option.split)
    ultimately show ?thesis by simp
  qed simp
  moreover have "distinct (map fst (rl_buckets st'))" using st' dist by (auto simp: distinct_map_filter)
  ultimately show "implements t st' (spec((kind, i) \<mapsto> next_bucket (rl_window st) t (spec (kind, i))))"
    using upd unfolding implements_def b by simp
qed (use run in \<open>auto simp: consume_def Let_def limit_of_def\<close>)

lemma serve_implements:
  assumes "implements t0 st spec" and "sorted (t0 # map snd rs)"
  shows "own_decisions client rs (serve st rs)
    = map (\<lambda>(t, b). (t, decision_of (limit_of st (fst client)) t b))
        (window_run (rl_window st) (limit_of st (fst client)) (spec client) (own_times client rs))"
  using assms
proof (induction rs arbitrary: t0 st spec)
  case (Cons r rs)
  obtain kind i t where r: "r = ((kind, i), t)" by (metis surj_pair)
  obtain d st' where c: "consume t kind i st = (d, st')" by force
  have "t0 \<le> t" "sorted (t # map snd rs)" using Cons.prems(2) r by auto
  note step = consume_implements[OF Cons.prems(1) this(1) c]
  note IH = Cons.IH[OF step(2) \<open>sorted (t # map snd rs)\<close>]
  show ?case
    using IH step(1,3,4) by (auto simp: r c Let_def)
qed simp

lemma limiter_counts:
  assumes "new_rate_limiter windowMs perIp perApiKey = Inr st" and "sorted (map snd rs)"
  shows "own_decisions client rs (serve st rs)
    = map (\<lambda>(t, b). (t, decision_of (limit_of st (fst client)) t b))
        (window_run (rl_window st) (limit_of st (fst client)) None (own_times client rs))"
proof (cases rs)
  case (Cons r rs')
  have "implements (snd r) st (\<lambda>_. None)"
    using assms(1) by (auto simp: new_rate_limiter_def and_ok_Inr implements_def)
  then show ?thesis using serve_implements[of "snd r" st "\<lambda>_. None" rs client] assms(2) Cons by simp
qed simp

text \<open>
  C21: isolation and equivalence. However the requests of different clients interleave and whenever the
  limiter sweeps expired buckets, the decisions one client gets are exactly those of its own fixed-window
  counter run on its own requests, as long as the clock does not go back.
\<close>
theorem limiter_is_a_counter_per_client:
  assumes "new_rate_limiter windowMs perIp perApiKey = Inr st" and "sorted (map snd rs)"
  shows "own_decisions client rs (serve st rs)
    = map (\<lambda>(t, b). (t, decision_of (limit_of st (fst client)) t b))
        (window_run (rl_window st) (limit_of st (fst client)) None (own_times client rs))"
  using assms by (rule limiter_counts)

section \<open>How much a client gets\<close>

definition in_order :: "int \<Rightarrow> limiter_bucket \<Rightarrow> limiter_bucket \<Rightarrow> bool" where
  "in_order w a b \<longleftrightarrow> (bk_reset a = bk_reset b \<and> bk_count a < bk_count b) \<or> bk_reset a + w \<le> bk_reset b"

lemma next_bucket_facts:
  assumes "0 < w" and "\<forall>b. c = Some b \<longrightarrow> bk_reset b \<le> t0 + w" and "t0 \<le> t"
  shows "t < bk_reset (next_bucket w t c)" and "bk_reset (next_bucket w t c) \<le> t + w"
    and "0 < bk_count (next_bucket w t c)" and "\<And>b. c = Some b \<Longrightarrow> in_order w b (next_bucket w t c)"
  using assms by (auto simp: next_bucket_def in_order_def Let_def split: option.splits)

lemma in_order_trans: "0 < w \<Longrightarrow> in_order w a b \<Longrightarrow> in_order w b c \<Longrightarrow> in_order w a c"
  by (auto simp: in_order_def)

lemma window_run_facts:
  assumes "0 < w" and "sorted (t0 # ts)" and "\<forall>b. c = Some b \<longrightarrow> bk_reset b \<le> t0 + w"
  shows "(\<forall>(t, b)\<in>set (window_run w l c ts). t < bk_reset b \<and> bk_reset b \<le> t + w \<and> 0 < bk_count b
      \<and> (\<forall>a. c = Some a \<longrightarrow> in_order w a b))
    \<and> sorted_wrt (in_order w) (map snd (window_run w l c ts))"
  using assms
proof (induction ts arbitrary: t0 c)
  case (Cons t ts)
  let ?b = "next_bucket w t c"
  have t: "t0 \<le> t" "sorted (t # ts)" using Cons.prems(2) by auto
  note n = next_bucket_facts[OF Cons.prems(1,3) t(1)]
  have "\<forall>b. Some ?b = Some b \<longrightarrow> bk_reset b \<le> t + w" using n(2) by simp
  note IH = Cons.IH[OF Cons.prems(1) t(2) this]
  then show ?case
    using n in_order_trans[OF Cons.prems(1), of _ ?b] by (auto simp: Let_def split_beta)
qed simp

lemma div_step: "0 < w \<Longrightarrow> (x + w) div w = x div w + 1" for x w :: int
  using div_add_self2[of w x] by linarith

lemma div_bound: "0 < w \<Longrightarrow> w * (x div w) \<le> x" for x w :: int
  using mult_div_mod_eq[of w x] pos_mod_sign[of w x] by linarith

lemma in_order_places:
  assumes "0 < w" and "in_order w b b'"
  shows "((bk_reset b - a) div w, bk_count b) \<noteq> ((bk_reset b' - a) div w, bk_count b')"
proof (cases "bk_reset b = bk_reset b'")
  case False
  then have "(bk_reset b - a) + w \<le> bk_reset b' - a" using assms(2) by (simp add: in_order_def)
  then have "((bk_reset b - a) + w) div w \<le> (bk_reset b' - a) div w" using assms(1) by (intro zdiv_mono1)
  moreover have "((bk_reset b - a) + w) div w = (bk_reset b - a) div w + 1" by (rule div_step[OF assms(1)])
  ultimately have "(bk_reset b - a) div w < (bk_reset b' - a) div w" by linarith
  then show ?thesis by auto
qed (use assms in \<open>simp add: in_order_def\<close>)

lemma sorted_wrt_distinct:
  assumes "sorted_wrt R xs" and "\<And>x y. R x y \<Longrightarrow> f x \<noteq> f y"
  shows "distinct (map f xs)"
  using assms by (induction xs) force+

lemma window_run_allowance:
  assumes w: "0 < w" and s: "sorted ts"
  shows "length (filter (\<lambda>(t, b). a \<le> t \<and> t < a + w \<and> int (bk_count b) \<le> l) (window_run w l None ts)) \<le> 2 * nat l"
proof (cases ts)
  case (Cons t0 ts')
  let ?run = "window_run w l None ts" and ?P = "\<lambda>(t, b). a \<le> t \<and> t < a + w \<and> int (bk_count b) \<le> l"
  let ?f = "\<lambda>b. ((bk_reset b - a) div w, bk_count b)"
  have f: "\<forall>(t, b)\<in>set ?run. t < bk_reset b \<and> bk_reset b \<le> t + w \<and> 0 < bk_count b"
    "sorted_wrt (in_order w) (map snd ?run)"
    using window_run_facts[of w t0 ts None l] w s Cons by auto
  have "distinct (map ?f (map snd (filter ?P ?run)))"
  proof (rule sorted_wrt_distinct)
    show "sorted_wrt (in_order w) (map snd (filter ?P ?run))"
      using f(2) by (simp add: sorted_wrt_map sorted_wrt_filter)
  qed (rule in_order_places[OF w])
  moreover have "set (map ?f (map snd (filter ?P ?run))) \<subseteq> {0, 1} \<times> {1..nat l}"
  proof
    fix x assume "x \<in> set (map ?f (map snd (filter ?P ?run)))"
    then obtain t b where b: "(t, b) \<in> set ?run" "a \<le> t" "t < a + w" "int (bk_count b) \<le> l" "x = ?f b" by auto
    have r: "t < bk_reset b" "bk_reset b \<le> t + w" "0 < bk_count b" using f(1) b(1) by auto
    have "0 \<le> (bk_reset b - a) div w" using r b w by (intro pos_imp_zdiv_nonneg_iff[THEN iffD2]) auto
    moreover have "(bk_reset b - a) div w < 2"
    proof (rule ccontr)
      assume "\<not> (bk_reset b - a) div w < 2"
      then have "w * 2 \<le> w * ((bk_reset b - a) div w)" using w by (intro mult_left_mono) auto
      also have "\<dots> \<le> bk_reset b - a"
        by (rule div_bound[OF w])
      finally show False using r b by linarith
    qed
    ultimately have "(bk_reset b - a) div w \<in> {0, 1}" by auto
    moreover have "bk_count b \<in> {1..nat l}" using b(4) r(3) by auto
    ultimately show "x \<in> {0, 1} \<times> {1..nat l}" unfolding b(5) by (rule SigmaI)
  qed
  then have "card (set (map ?f (map snd (filter ?P ?run)))) \<le> card ({0 :: int, 1} \<times> {1..nat l})"
    by (rule card_mono[rotated]) simp
  ultimately have "length (map ?f (map snd (filter ?P ?run))) \<le> card ({0 :: int, 1} \<times> {1..nat l})"
    by (simp only: distinct_card)
  then show ?thesis by (simp add: card_cartesian_product)
qed simp

text \<open>
  C22: the allowance. In no interval as long as the window does a client get more than twice its limit of
  requests through, whatever other clients do.
\<close>
theorem at_most_twice_the_limit:
  assumes new: "new_rate_limiter windowMs perIp perApiKey = Inr st" and s: "sorted (map snd rs)"
  shows "int (length (filter (\<lambda>(t, d). a \<le> t \<and> t < a + rl_window st \<and> de_allowed d) (own_decisions client rs (serve st rs))))
    \<le> 2 * limit_of st (fst client)"
proof -
  let ?l = "limit_of st (fst client)"
  have pos: "0 < rl_window st" "0 < ?l"
    using new by (auto simp: new_rate_limiter_def and_ok_Inr positive_integer_def limit_of_def split: if_splits)
  have own: "sorted (own_times client rs)"
    unfolding own_times_def using s by (simp add: sorted_map sorted_wrt_filter)
  have "length (filter (\<lambda>(t, d). a \<le> t \<and> t < a + rl_window st \<and> de_allowed d) (own_decisions client rs (serve st rs)))
    = length (filter (\<lambda>(t, b). a \<le> t \<and> t < a + rl_window st \<and> int (bk_count b) \<le> ?l)
        (window_run (rl_window st) ?l None (own_times client rs)))"
    unfolding limiter_counts[OF new s] by (simp add: filter_map o_def case_prod_unfold decision_of_def)
  then show ?thesis using window_run_allowance[OF pos(1) own, of a ?l] pos(2) by simp
qed

text \<open>Two clients, a limit of two per second.\<close>

definition demo_limiter :: rate_limiter where
  "demo_limiter = \<lparr>rl_window = 1000, rl_per_ip = 2, rl_per_key = 120, rl_buckets = [], rl_operations = 0\<rparr>"

definition demo_requests :: "request list" where
  "demo_requests = [((By_ip, ''a''), 0), ((By_ip, ''b''), 1), ((By_ip, ''a''), 2), ((By_ip, ''a''), 3), ((By_ip, ''a''), 1000)]"

lemma demo_limiter_new: "new_rate_limiter (Some 1000) (Some 2) None = Inr demo_limiter" "sorted (map snd demo_requests)"
  by (simp_all add: new_rate_limiter_def and_ok_def positive_integer_def is_safe_integer_def or_default_def demo_limiter_def
      demo_requests_def)

theorem limiter_is_a_counter_per_client_witness:
  "map (\<lambda>(t, d). (t, de_allowed d)) (own_decisions (By_ip, ''a'') demo_requests (serve demo_limiter demo_requests))
     = [(0, True), (2, True), (3, False), (1000, True)]"
  unfolding limiter_is_a_counter_per_client[OF demo_limiter_new]
  by (simp add: demo_limiter_def demo_requests_def own_times_def next_bucket_def decision_of_def limit_of_def Let_def)

theorem at_most_twice_the_limit_witness:
  "int (length (filter (\<lambda>(t, d). 0 \<le> t \<and> t < 0 + rl_window demo_limiter \<and> de_allowed d)
     (own_decisions (By_ip, ''a'') demo_requests (serve demo_limiter demo_requests)))) \<le> 4"
  using at_most_twice_the_limit[OF demo_limiter_new, of 0 "(By_ip, ''a'')"]
  by (simp add: demo_limiter_def limit_of_def)

end
