(* ===== verification/Auth.thy ===== *)
theory Auth
  imports Tenancy Rate_Limiter
begin

text \<open>
  \<^verbatim>\<open>packages/auth/src/index.ts\<close> with the tables of migration 0004: accounts, their e-mail and password
  tokens, browser sessions and their cookies, and the limiter of failed logins. Argon2 is a parameter. The limiter
  reads its own clock in milliseconds, and the instants it reads are arguments. The statements of the pool commit
  one by one, so what has been written before an error stays: \<open>login\<close> returns the limiter with every result and
  \<open>logout\<close> the database. Messages to be delivered are values returned.
\<close>

abbreviation auth_failure :: "auth_code \<Rightarrow> error" where "auth_failure \<equiv> Auth_error"

section \<open>The limiter of failed logins\<close>

record login_bucket =
  lb_failures :: nat
  lb_reset :: int

record login_limiter =
  ll_max :: int
  ll_window :: int
  ll_buckets :: "(string \<times> login_bucket) list"
  ll_operations :: nat

definition new_login_limiter :: "int option \<Rightarrow> int option \<Rightarrow> error + login_limiter" where
  "new_login_limiter maxFailures windowMs =
     and_ok (positive_integer (or_default 5 maxFailures)) (\<lambda>m.
     and_ok (positive_integer (or_default (15 * 60 * 1000) windowMs)) (\<lambda>w.
     Inr \<lparr>ll_max = m, ll_window = w, ll_buckets = [], ll_operations = 0\<rparr>))"

text \<open>\<^verbatim>\<open>some\<close> stops at the first blocked identity; an expired bucket met before is dropped.\<close>

primrec is_blocked :: "int \<Rightarrow> string list \<Rightarrow> login_limiter \<Rightarrow> bool \<times> login_limiter" where
  "is_blocked instant [] l = (False, l)"
| "is_blocked instant (identity # rest) l =
     (case map_of (ll_buckets l) identity of None \<Rightarrow> is_blocked instant rest l
      | Some bucket \<Rightarrow> if lb_reset bucket \<le> instant
          then is_blocked instant rest (l\<lparr>ll_buckets := AList.delete identity (ll_buckets l)\<rparr>)
          else if ll_max l \<le> int (lb_failures bucket) then (True, l) else is_blocked instant rest l)"

definition failed_bucket :: "int \<Rightarrow> int \<Rightarrow> login_bucket option \<Rightarrow> login_bucket" where
  "failed_bucket window instant existing =
     (let bucket = (case existing of None \<Rightarrow> \<lparr>lb_failures = 0, lb_reset = instant + window\<rparr>
          | Some b \<Rightarrow> if lb_reset b \<le> instant then \<lparr>lb_failures = 0, lb_reset = instant + window\<rparr> else b)
      in bucket\<lparr>lb_failures := lb_failures bucket + 1\<rparr>)"

definition count_failure :: "int \<Rightarrow> string \<Rightarrow> login_limiter \<Rightarrow> login_limiter" where
  "count_failure instant identity l = l\<lparr>ll_buckets := AList.update identity
     (failed_bucket (ll_window l) instant (map_of (ll_buckets l) identity)) (ll_buckets l)\<rparr>"

definition sweep_failures :: "int \<Rightarrow> login_limiter \<Rightarrow> login_limiter" where
  "sweep_failures instant l = (if 1000 \<le> ll_operations l
     then l\<lparr>ll_buckets := filter (\<lambda>(_, bucket). \<not> lb_reset bucket \<le> instant) (ll_buckets l), ll_operations := 0\<rparr>
     else l)"

text \<open>\<^verbatim>\<open>recordFailure\<close> reads the clock, and \<^verbatim>\<open>isBlocked\<close> within it once more.\<close>

definition record_failure :: "int \<Rightarrow> int \<Rightarrow> string list \<Rightarrow> login_limiter \<Rightarrow> bool \<times> login_limiter" where
  "record_failure instant later identities l =
     (let counted = fold (count_failure instant) identities l;
          l' = sweep_failures instant (counted\<lparr>ll_operations := ll_operations counted + length identities\<rparr>)
      in is_blocked later identities l')"

definition clear_failures :: "string list \<Rightarrow> login_limiter \<Rightarrow> login_limiter" where
  "clear_failures identities l = l\<lparr>ll_buckets := fold AList.delete identities (ll_buckets l)\<rparr>"

section \<open>Cookies\<close>

record session_credentials =
  sc_session_token :: string
  sc_csrf_token :: string
  sc_expires :: time
  sc_user :: uuid
  sc_email :: string

record cookie_profile =
  cp_session :: string
  cp_csrf :: string
  cp_secure :: bool

definition secure_cookie_profile :: cookie_profile where
  "secure_cookie_profile = \<lparr>cp_session = ''__Host-himitsu_session'', cp_csrf = ''__Host-himitsu_csrf'', cp_secure = True\<rparr>"

definition insecure_cookie_profile :: cookie_profile where
  "insecure_cookie_profile = \<lparr>cp_session = ''himitsu_session'', cp_csrf = ''himitsu_csrf'', cp_secure = False\<rparr>"

text \<open>\<^verbatim>\<open>encodeURIComponent\<close>\<close>

definition uri_unreserved :: "char \<Rightarrow> bool" where
  "uri_unreserved c \<longleftrightarrow> is_alpha c \<or> is_digit c \<or> c \<in> set ''-_.!~*()'' \<or> code c = 39"

definition percent_byte :: "byte \<Rightarrow> string" where
  "percent_byte b = CHR ''%'' # js_upper (hex_text [b])"

definition encode_uri_component :: "string \<Rightarrow> string" where
  "encode_uri_component t =
     concat (map (\<lambda>c. if uri_unreserved c then [c] else concat (map percent_byte (utf8_char c))) t)"

definition serialize_cookie :: "string \<Rightarrow> string \<Rightarrow> bool \<Rightarrow> int \<Rightarrow> bool \<Rightarrow> string" where
  "serialize_cookie name content httpOnly maxAge secure =
     join ''; '' (filter (\<lambda>t. t \<noteq> [])
       [name @ ''='' @ encode_uri_component content, ''Path=/'', ''Max-Age='' @ js_int maxAge,
        if secure then ''Secure'' else [], if httpOnly then ''HttpOnly'' else [], ''SameSite=Strict''])"

text \<open>The dates of credentials are whole milliseconds.\<close>

definition session_cookie_headers :: "cookie_profile \<Rightarrow> int \<Rightarrow> session_credentials \<Rightarrow> string \<times> string" where
  "session_cookie_headers profile instant credentials =
     (let maxAge = max 0 ((sc_expires credentials div 1000 - instant) div 1000)
      in (serialize_cookie (cp_session profile) (sc_session_token credentials) True maxAge (cp_secure profile),
          serialize_cookie (cp_csrf profile) (sc_csrf_token credentials) False maxAge (cp_secure profile)))"

definition clear_session_cookie_headers :: "cookie_profile \<Rightarrow> string \<times> string" where
  "clear_session_cookie_headers profile =
     (serialize_cookie (cp_session profile) [] True 0 (cp_secure profile),
      serialize_cookie (cp_csrf profile) [] False 0 (cp_secure profile))"

section \<open>Accounts\<close>

text \<open>\<^verbatim>\<open>argon2.hash\<close> with the salt of a random draw, and \<^verbatim>\<open>argon2.verify\<close>, which may throw.\<close>

record argon2 =
  argon2_hash :: "nat \<Rightarrow> string \<Rightarrow> string"
  argon2_verify :: "string \<Rightarrow> string \<Rightarrow> bool option"

definition token_ttl :: time where "token_ttl = 30 * 60 * 1000 * 1000"
definition session_ttl :: time where "session_ttl = 7 * 24 * 60 * 60 * 1000 * 1000"

definition validate_password :: "string \<Rightarrow> error + unit" where
  "validate_password password = (if length password < 12 \<or> 1024 < length password
     then Inl (auth_failure Auth_invalid_input) else Inr ())"

definition hash_password :: "argon2 \<Rightarrow> string \<Rightarrow> string db_op" where
  "hash_password H password = andthen (lift_sum (validate_password password))
     (bind next_draw (\<lambda>i. ret (argon2_hash H i password)))"

definition verify_password :: "argon2 \<Rightarrow> string \<Rightarrow> string \<Rightarrow> bool" where
  "verify_password H hash password = (case argon2_verify H hash password of None \<Rightarrow> False | Some b \<Rightarrow> b)"

definition fresh_token :: "transaction \<Rightarrow> string db_op" where
  "fresh_token C = bind next_draw (\<lambda>i. ret (base64url (random_bytes (tx_platform C) i 32)))"

text \<open>These tables belong to no organization.\<close>

definition insert_global ::
  "(db \<Rightarrow> 'r list) \<Rightarrow> (('r list \<Rightarrow> 'r list) \<Rightarrow> db \<Rightarrow> db) \<Rightarrow> ('r \<Rightarrow> 'r \<Rightarrow> bool) \<Rightarrow> ('r \<Rightarrow> bool) \<Rightarrow> 'r \<Rightarrow> unit db_op" where
  "insert_global get upd clash ok r =
     andthen (check (ok r) Internal_error)
    (bind (reads get) (\<lambda>rs.
     andthen (check (\<not> list_ex (clash r) rs) Unique_violation)
     (writes (upd (\<lambda>rs. rs @ [r])))))"

definition update_global :: "(('r list \<Rightarrow> 'r list) \<Rightarrow> db \<Rightarrow> db) \<Rightarrow> ('r \<Rightarrow> bool) \<Rightarrow> ('r \<Rightarrow> 'r) \<Rightarrow> unit db_op" where
  "update_global upd P f = writes (upd (map (\<lambda>r. if P r then f r else r)))"

definition user_clash :: "user_row \<Rightarrow> user_row \<Rightarrow> bool" where
  "user_clash r q \<longleftrightarrow> u_id q = u_id r \<or> u_email_normalized q = u_email_normalized r"

definition user_check :: "user_row \<Rightarrow> bool" where
  "user_check u \<longleftrightarrow> 3 \<le> length (btrim (u_email u)) \<and> length (btrim (u_email u)) \<le> 320"

definition user_token_clash :: "user_token_row \<Rightarrow> user_token_row \<Rightarrow> bool" where
  "user_token_clash r q \<longleftrightarrow> ut_id q = ut_id r \<or> ut_hash q = ut_hash r"

definition user_token_check :: "user_token_row \<Rightarrow> bool" where
  "user_token_check t \<longleftrightarrow> length (ut_hash t) = 32 \<and> ut_created t < ut_expires t"

definition session_clash :: "session_row \<Rightarrow> session_row \<Rightarrow> bool" where
  "session_clash r q \<longleftrightarrow> se_id q = se_id r \<or> se_token_hash q = se_token_hash r"

definition session_check :: "session_row \<Rightarrow> bool" where
  "session_check r \<longleftrightarrow> length (se_token_hash r) = 32 \<and> length (se_csrf_hash r) = 32 \<and> se_created r < se_expires r"

definition insert_user_token ::
  "(db \<Rightarrow> user_token_row list) \<Rightarrow> ((user_token_row list \<Rightarrow> user_token_row list) \<Rightarrow> db \<Rightarrow> db) \<Rightarrow>
     transaction \<Rightarrow> uuid \<Rightarrow> string \<Rightarrow> unit db_op" where
  "insert_user_token get upd C userId token = bind (fresh_uuid C) (\<lambda>tokenId.
     insert_global get upd user_token_clash user_token_check
       \<lparr>ut_id = tokenId, ut_user = userId, ut_hash = token_digest (tx_platform C) token,
        ut_expires = service_now C + token_ttl, ut_consumed = None, ut_created = tx_now C\<rparr>)"

definition new_user :: "transaction \<Rightarrow> uuid \<Rightarrow> string \<Rightarrow> string \<Rightarrow> user_row" where
  "new_user C userId email passwordHash = \<lparr>u_id = userId, u_email = email,
     u_email_normalized = db_email (tx_platform C) email, u_password_hash = Some passwordHash, u_verified = None,
     u_disabled = None, u_created = tx_now C, u_updated = tx_now C\<rparr>"

text \<open>The address and the token \<^verbatim>\<open>TokenDelivery\<close> is given.\<close>

type_synonym delivery = "string \<times> string"

definition signup :: "argon2 \<Rightarrow> transaction \<Rightarrow> string \<Rightarrow> string \<Rightarrow> (uuid \<times> delivery) db_op" where
  "signup H C email password =
     bind (lift_sum (normalize_email (auth_failure Auth_invalid_input) email)) (\<lambda>normalized.
     bind (hash_password H password) (\<lambda>passwordHash.
     bind (fresh_token C) (\<lambda>token.
     rethrow (on_unique_violation (auth_failure Email_exists))
       (bind (fresh_uuid C) (\<lambda>userId.
        andthen (insert_global db_users db_users_update user_clash user_check (new_user C userId normalized passwordHash))
       (andthen (insert_user_token db_verifications db_verifications_update C userId token)
        (ret (userId, normalized, token))))))))"

definition open_token :: "transaction \<Rightarrow> bytes \<Rightarrow> user_token_row \<Rightarrow> bool" where
  "open_token C digest t \<longleftrightarrow> ut_hash t = digest \<and> ut_consumed t = None \<and> tx_now C < ut_expires t"

definition consume_user_token ::
  "(db \<Rightarrow> user_token_row list) \<Rightarrow> ((user_token_row list \<Rightarrow> user_token_row list) \<Rightarrow> db \<Rightarrow> db) \<Rightarrow>
     transaction \<Rightarrow> string \<Rightarrow> (uuid \<Rightarrow> unit db_op) \<Rightarrow> unit db_op" where
  "consume_user_token get upd C token effect =
     bind (reads (\<lambda>s. find (open_token C (token_digest (tx_platform C) token)) (get s))) (\<lambda>found.
     bind (from_option (auth_failure Invalid_token) found) (\<lambda>t.
     andthen (effect (ut_user t))
     (update_global upd (\<lambda>q. ut_id q = ut_id t) (\<lambda>q. q\<lparr>ut_consumed := Some (tx_now C)\<rparr>))))"

definition verify_email :: "transaction \<Rightarrow> string \<Rightarrow> unit db_op" where
  "verify_email C token = consume_user_token db_verifications db_verifications_update C token (\<lambda>userId.
     update_global db_users_update (\<lambda>u. u_id u = userId) (\<lambda>u. u\<lparr>u_verified := Some (tx_now C), u_updated := tx_now C\<rparr>))"

definition reset_password :: "argon2 \<Rightarrow> transaction \<Rightarrow> string \<Rightarrow> string \<Rightarrow> unit db_op" where
  "reset_password H C token newPassword =
     bind (hash_password H newPassword) (\<lambda>passwordHash.
     consume_user_token db_resets db_resets_update C token (\<lambda>userId.
       andthen (update_global db_users_update (\<lambda>u. u_id u = userId)
          (\<lambda>u. u\<lparr>u_password_hash := Some passwordHash, u_updated := tx_now C\<rparr>))
       (update_global db_sessions_update (\<lambda>r. se_user r = userId \<and> se_revoked r = None)
          (\<lambda>r. r\<lparr>se_revoked := Some (tx_now C)\<rparr>))))"

definition find_account :: "string \<Rightarrow> db \<Rightarrow> user_row option" where
  "find_account normalized s = find (\<lambda>u. u_email_normalized u = normalized \<and> u_disabled u = None) (db_users s)"

definition resend_email_verification :: "transaction \<Rightarrow> string \<Rightarrow> delivery option db_op" where
  "resend_email_verification C email =
     bind (lift_sum (normalize_email (auth_failure Auth_invalid_input) email)) (\<lambda>normalized.
     bind (reads (find_account normalized)) (\<lambda>user.
     case user of None \<Rightarrow> ret None
     | Some u \<Rightarrow> if u_verified u \<noteq> None then ret None else
         bind (fresh_token C) (\<lambda>token.
         andthen (insert_user_token db_verifications db_verifications_update C (u_id u) token)
         (ret (Some (u_email u, token))))))"

definition request_password_reset :: "transaction \<Rightarrow> string \<Rightarrow> delivery option db_op" where
  "request_password_reset C email =
     bind (lift_sum (normalize_email (auth_failure Auth_invalid_input) email)) (\<lambda>normalized.
     bind (reads (find_account normalized)) (\<lambda>user.
     case user of None \<Rightarrow> ret None
     | Some u \<Rightarrow> bind (fresh_token C) (\<lambda>token.
         andthen (insert_user_token db_resets db_resets_update C (u_id u) token)
         (ret (Some (u_email u, token))))))"

section \<open>Sessions\<close>

definition login_identities :: "platform \<Rightarrow> string \<Rightarrow> client_details \<Rightarrow> string list" where
  "login_identities P normalized client = (''account:'' @ hex_text (sha256 P (utf8 normalized)))
     # (case cd_ip client of None \<Rightarrow> [] | Some ip \<Rightarrow> [''ip:'' @ ip])"

definition password_accepted :: "argon2 \<Rightarrow> string \<Rightarrow> user_row \<Rightarrow> bool" where
  "password_accepted H password u \<longleftrightarrow>
     (\<exists>h\<in>set_option (u_password_hash u). h \<noteq> [] \<and> verify_password H h password)"

definition new_session ::
  "transaction \<Rightarrow> client_details \<Rightarrow> uuid \<Rightarrow> uuid \<Rightarrow> string \<Rightarrow> string \<Rightarrow> time \<Rightarrow> session_row" where
  "new_session C client sessionId userId token csrf expiresAt = \<lparr>se_id = sessionId, se_user = userId,
     se_token_hash = token_digest (tx_platform C) token, se_csrf_hash = token_digest (tx_platform C) csrf,
     se_ip = cd_ip client, se_user_agent = cd_agent client, se_created = tx_now C, se_last_seen = tx_now C,
     se_active_org = None, se_expires = expiresAt, se_revoked = None\<rparr>"

definition start_session :: "transaction \<Rightarrow> client_details \<Rightarrow> user_row \<Rightarrow> session_credentials db_op" where
  "start_session C client u =
     andthen (check (u_verified u \<noteq> None) (auth_failure Email_not_verified))
    (bind (fresh_token C) (\<lambda>token.
     bind (fresh_token C) (\<lambda>csrf.
     bind (fresh_uuid C) (\<lambda>sessionId.
     let expiresAt = service_now C + session_ttl in
     andthen (insert_global db_sessions db_sessions_update session_clash session_check
        (new_session C client sessionId (u_id u) token csrf expiresAt))
     (ret \<lparr>sc_session_token = token, sc_csrf_token = csrf, sc_expires = expiresAt, sc_user = u_id u, sc_email = u_email u\<rparr>)))))"

text \<open>The three instants are those at which the limiter may read its clock.\<close>

definition login ::
  "argon2 \<Rightarrow> transaction \<Rightarrow> int \<times> int \<times> int \<Rightarrow> string \<Rightarrow> string \<Rightarrow> client_details \<Rightarrow> login_limiter \<Rightarrow> db \<Rightarrow>
     login_limiter \<times> (error + session_credentials \<times> db)" where
  "login H C instants email password client l s =
     (case normalize_email (auth_failure Auth_invalid_input) email of Inl e \<Rightarrow> (l, Inl e)
      | Inr normalized \<Rightarrow>
        let identities = login_identities (tx_platform C) normalized client in
        case is_blocked (fst instants) identities l of
          (True, l1) \<Rightarrow> (l1, Inl (auth_failure Rate_limited))
        | (False, l1) \<Rightarrow>
            (case find_account normalized s of
               Some u \<Rightarrow> if password_accepted H password u then (clear_failures identities l1, start_session C client u s)
                 else (case record_failure (fst (snd instants)) (snd (snd instants)) identities l1 of
                   (blocked, l2) \<Rightarrow> (l2, Inl (auth_failure (if blocked then Rate_limited else Invalid_credentials))))
             | None \<Rightarrow> (case record_failure (fst (snd instants)) (snd (snd instants)) identities l1 of
                   (blocked, l2) \<Rightarrow> (l2, Inl (auth_failure (if blocked then Rate_limited else Invalid_credentials))))))"

record authenticated_session =
  as_session :: uuid
  as_user :: uuid
  as_email :: string
  as_active_org :: "uuid option"
  as_csrf_hash :: bytes
  as_expires :: time

definition live_session_users :: "transaction \<Rightarrow> bytes \<Rightarrow> db \<Rightarrow> (session_row \<times> user_row) list" where
  "live_session_users C digest s =
     concat (map (\<lambda>r. map (\<lambda>u. (r, u)) (filter (\<lambda>u. u_id u = se_user r \<and> u_disabled u = None) (db_users s)))
       (filter (\<lambda>r. se_token_hash r = digest \<and> se_revoked r = None \<and> tx_now C < se_expires r) (db_sessions s)))"

definition authenticate :: "transaction \<Rightarrow> string \<Rightarrow> authenticated_session db_op" where
  "authenticate C token =
     bind (reads (live_session_users C (token_digest (tx_platform C) token))) (\<lambda>rows.
     bind (from_option (auth_failure Invalid_session) (first_row rows)) (\<lambda>(r, u).
     andthen (update_global db_sessions_update (\<lambda>q. se_id q = se_id r) (\<lambda>q. q\<lparr>se_last_seen := tx_now C\<rparr>))
     (ret \<lparr>as_session = se_id r, as_user = se_user r, as_email = u_email u, as_active_org = se_active_org r,
        as_csrf_hash = se_csrf_hash r, as_expires = to_date (se_expires r)\<rparr>)))"

text \<open>The session, the user and the organization of a token that did not authenticate.\<close>

definition failed_session_context :: "transaction \<Rightarrow> string \<Rightarrow> db \<Rightarrow> (uuid \<times> uuid \<times> uuid) option" where
  "failed_session_context C token s =
     (case find (\<lambda>r. se_token_hash r = token_digest (tx_platform C) token \<and> se_active_org r \<noteq> None) (db_sessions s) of
        None \<Rightarrow> None | Some r \<Rightarrow> map_option (\<lambda>orgId. (se_id r, se_user r, orgId)) (se_active_org r))"

definition verify_csrf :: "platform \<Rightarrow> authenticated_session \<Rightarrow> string \<Rightarrow> error + unit" where
  "verify_csrf P session csrf = (let supplied = token_digest P csrf in
     if length supplied \<noteq> length (as_csrf_hash session) \<or> supplied \<noteq> as_csrf_hash session
     then Inl (auth_failure Invalid_csrf) else Inr ())"

definition logout :: "transaction \<Rightarrow> string \<Rightarrow> string \<Rightarrow> db \<Rightarrow> (error + unit) \<times> db" where
  "logout C token csrf s =
     (case authenticate C token s of Inl e \<Rightarrow> (Inl e, s)
      | Inr (session, s1) \<Rightarrow>
        (case verify_csrf (tx_platform C) session csrf of Inl e \<Rightarrow> (Inl e, s1)
         | Inr _ \<Rightarrow> (Inr (), db_sessions_update (map (\<lambda>r. if se_id r = as_session session
             then r\<lparr>se_revoked := Some (tx_now C)\<rparr> else r)) s1)))"

end
