(* ===== verification/Auth_Limits.thy ===== *)
theory Auth_Limits
  imports Auth
begin

text \<open>
  The limiter of failed logins against its specification. The specification keeps the whole history of each
  identity: the instants of its failures since they were last cleared. Nothing is ever forgotten, swept or shared.
\<close>

section \<open>The specification\<close>

type_synonym history = "string \<Rightarrow> int list"

text \<open>The window a history has open, if any, and the failures in it.\<close>

definition next_window :: "int \<Rightarrow> (int \<times> nat) option \<Rightarrow> int \<Rightarrow> (int \<times> nat) option" where
  "next_window w current t = (case current of None \<Rightarrow> Some (t, 1)
     | Some (start, n) \<Rightarrow> if t < start + w then Some (start, n + 1) else Some (t, 1))"

definition open_window :: "int \<Rightarrow> int list \<Rightarrow> (int \<times> nat) option" where
  "open_window w ts = foldl (next_window w) None ts"

definition locked_out :: "int \<Rightarrow> int \<Rightarrow> int list \<Rightarrow> int \<Rightarrow> bool" where
  "locked_out w m ts t \<longleftrightarrow> (\<exists>start n. open_window w ts = Some (start, n) \<and> t < start + w \<and> m \<le> int n)"

datatype limiter_call = Ask int "string list" | Fail int int "string list" | Forgive "string list"

fun call_times :: "limiter_call \<Rightarrow> int list" where
  "call_times (Ask t ids) = [t]"
| "call_times (Fail t t' ids) = [t, t']"
| "call_times (Forgive ids) = []"

definition note_failure :: "int \<Rightarrow> history \<Rightarrow> string \<Rightarrow> history" where
  "note_failure t h i = h(i := h i @ [t])"

fun spec_call :: "int \<Rightarrow> int \<Rightarrow> limiter_call \<Rightarrow> history \<Rightarrow> bool \<times> history" where
  "spec_call w m (Ask t ids) h = (list_ex (\<lambda>i. locked_out w m (h i) t) ids, h)"
| "spec_call w m (Fail t t' ids) h =
     (let h' = foldl (note_failure t) h ids in (list_ex (\<lambda>i. locked_out w m (h' i) t') ids, h'))"
| "spec_call w m (Forgive ids) h = (False, \<lambda>i. if i \<in> set ids then [] else h i)"

text \<open>The code's answers to the same calls.\<close>

fun limiter_answer :: "limiter_call \<Rightarrow> login_limiter \<Rightarrow> bool \<times> login_limiter" where
  "limiter_answer (Ask t ids) l = is_blocked t ids l"
| "limiter_answer (Fail t t' ids) l = record_failure t t' ids l"
| "limiter_answer (Forgive ids) l = (False, clear_failures ids l)"

fun answers :: "('c \<Rightarrow> 's \<Rightarrow> bool \<times> 's) \<Rightarrow> 'c list \<Rightarrow> 's \<Rightarrow> bool list" where
  "answers f [] s = []"
| "answers f (c # cs) s = (case f c s of (b, s') \<Rightarrow> b # answers f cs s')"

section \<open>The simulation\<close>

text \<open>A bucket stands for a window until the window is over.\<close>

definition window_of :: "int \<Rightarrow> int \<Rightarrow> login_bucket option \<Rightarrow> (int \<times> nat) option" where
  "window_of w t b = (case b of None \<Rightarrow> None
     | Some b \<Rightarrow> if lb_reset b \<le> t then None else Some (lb_reset b - w, lb_failures b))"

definition still_open :: "int \<Rightarrow> int \<Rightarrow> (int \<times> nat) option \<Rightarrow> (int \<times> nat) option" where
  "still_open w t win = (case win of None \<Rightarrow> None | Some (start, n) \<Rightarrow> if t < start + w then Some (start, n) else None)"

definition refines :: "int \<Rightarrow> login_limiter \<Rightarrow> history \<Rightarrow> bool" where
  "refines t0 l h \<longleftrightarrow> distinct (map fst (ll_buckets l))
     \<and> (\<forall>t\<ge>t0. \<forall>i. window_of (ll_window l) t (map_of (ll_buckets l) i) = still_open (ll_window l) t (open_window (ll_window l) (h i)))"

lemma still_open_later: "t \<le> u \<Longrightarrow> still_open w u (still_open w t win) = still_open w u win"
  by (auto simp: still_open_def split: option.splits)

lemma window_of_still: "t \<le> u \<Longrightarrow> window_of w u b = still_open w u (window_of w t b)"
  by (auto simp: window_of_def still_open_def split: option.splits)

lemma refines_at:
  assumes "distinct (map fst (ll_buckets l))"
    and "\<And>i. window_of (ll_window l) t (map_of (ll_buckets l) i) = still_open (ll_window l) t (open_window (ll_window l) (h i))"
  shows "refines t l h"
  unfolding refines_def using assms still_open_later window_of_still by metis

lemma locked_out_bucket:
  assumes "refines t0 l h" and "t0 \<le> t"
  shows "locked_out (ll_window l) m (h i) t \<longleftrightarrow>
    (\<exists>b. map_of (ll_buckets l) i = Some b \<and> \<not> lb_reset b \<le> t \<and> m \<le> int (lb_failures b))"
proof -
  have e: "window_of (ll_window l) t (map_of (ll_buckets l) i) = still_open (ll_window l) t (open_window (ll_window l) (h i))"
    using assms by (auto simp: refines_def)
  have "locked_out (ll_window l) m (h i) t \<longleftrightarrow> (\<exists>start n. still_open (ll_window l) t (open_window (ll_window l) (h i)) = Some (start, n) \<and> m \<le> int n)"
    by (auto simp: locked_out_def still_open_def split: option.splits prod.splits if_splits)
  then show ?thesis unfolding e[symmetric] by (auto simp: window_of_def split: option.splits)
qed

lemma is_blocked_refines:
  assumes "refines t0 l h" and "t0 \<le> t"
  shows "fst (is_blocked t ids l) = list_ex (\<lambda>i. locked_out (ll_window l) (ll_max l) (h i) t) ids
    \<and> refines t (snd (is_blocked t ids l)) h
    \<and> ll_window (snd (is_blocked t ids l)) = ll_window l \<and> ll_max (snd (is_blocked t ids l)) = ll_max l"
  using assms
proof (induction ids arbitrary: l t0)
  case Nil
  then show ?case by (simp add: refines_def)
next
  case (Cons i ids)
  note lock = locked_out_bucket[OF Cons.prems]
  have later: "refines t l h" using Cons.prems by (auto simp: refines_def)
  show ?case
  proof (cases "map_of (ll_buckets l) i")
    case None
    then show ?thesis using Cons.IH[OF later order_refl] lock[of _ i] by simp
  next
    case (Some b)
    show ?thesis
    proof (cases "lb_reset b \<le> t")
      case True
      let ?l = "l\<lparr>ll_buckets := AList.delete i (ll_buckets l)\<rparr>"
      have "refines t ?l h"
      proof (rule refines_at)
        show "distinct (map fst (ll_buckets ?l))" using later by (simp add: refines_def distinct_delete)
        show "window_of (ll_window ?l) t (map_of (ll_buckets ?l) j) = still_open (ll_window ?l) t (open_window (ll_window ?l) (h j))" for j
        proof -
          have "window_of (ll_window l) t (map_of (ll_buckets l) j) = still_open (ll_window l) t (open_window (ll_window l) (h j))"
            using later by (simp add: refines_def)
          then show ?thesis using Some True by (cases "j = i") (auto simp: delete_conv' window_of_def)
        qed
      qed
      then show ?thesis using Cons.IH[of t ?l] lock[of _ i] Some True by simp
    next
      case False
      then show ?thesis using Cons.IH[OF later order_refl] lock[of "ll_max l" i] Some later by auto
    qed
  qed
qed

lemma open_window_snoc: "open_window w (ts @ [t]) = next_window w (open_window w ts) t"
  by (simp add: open_window_def)

lemma failed_bucket_window:
  assumes "0 < w" and "window_of w t b = still_open w t win"
  shows "window_of w t (Some (failed_bucket w t b)) = still_open w t (next_window w win t)"
  using assms
  by (auto simp: window_of_def still_open_def failed_bucket_def next_window_def Let_def split: option.splits if_splits prod.splits)

lemma count_failure_refines:
  assumes "refines t0 l h" and "t0 \<le> t" and "0 < ll_window l"
  shows "refines t (count_failure t i l) (note_failure t h i)"
proof (rule refines_at)
  have e: "window_of (ll_window l) t (map_of (ll_buckets l) j) = still_open (ll_window l) t (open_window (ll_window l) (h j))" for j
    using assms by (auto simp: refines_def)
  show "distinct (map fst (ll_buckets (count_failure t i l)))"
    using assms(1) by (simp add: refines_def count_failure_def distinct_update)
  show "window_of (ll_window (count_failure t i l)) t (map_of (ll_buckets (count_failure t i l)) j)
      = still_open (ll_window (count_failure t i l)) t (open_window (ll_window (count_failure t i l)) (note_failure t h i j))" for j
    using e[of j] failed_bucket_window[OF assms(3) e[of i]]
    by (auto simp: count_failure_def note_failure_def update_conv' open_window_snoc)
qed

lemma count_failures_refine:
  assumes "refines t0 l h" and "t0 \<le> t" and "0 < ll_window l"
  shows "refines t (fold (count_failure t) ids l) (foldl (note_failure t) h ids)
    \<and> ll_window (fold (count_failure t) ids l) = ll_window l \<and> ll_max (fold (count_failure t) ids l) = ll_max l"
  using assms
proof (induction ids arbitrary: l h t0)
  case (Cons i ids)
  have "ll_window (count_failure t i l) = ll_window l" "ll_max (count_failure t i l) = ll_max l"
    by (simp_all add: count_failure_def)
  then show ?case
    using Cons.IH[OF count_failure_refines[OF Cons.prems] order_refl] Cons.prems(3) by simp
qed (auto simp: refines_def)

lemma filter_live_lookup:
  assumes "distinct (map fst bs)"
  shows "map_of (filter (\<lambda>(_, b). P b) bs) i = (case map_of bs i of None \<Rightarrow> None | Some b \<Rightarrow> if P b then Some b else None)"
  using assms
proof (induction bs)
  case (Cons p bs)
  have "map_of bs (fst p) = None" using Cons.prems by (simp add: map_of_eq_None_iff)
  then show ?case using Cons by (cases p) auto
qed simp

lemma sweep_refines:
  assumes "refines t l h"
  shows "refines t (sweep_failures t l) h" and "ll_window (sweep_failures t l) = ll_window l" "ll_max (sweep_failures t l) = ll_max l"
proof -
  have d: "distinct (map fst (ll_buckets l))" using assms by (simp add: refines_def)
  have "window_of w t (map_of (filter (\<lambda>(_, b). \<not> lb_reset b \<le> t) (ll_buckets l)) i) = window_of w t (map_of (ll_buckets l) i)" for w i
    unfolding filter_live_lookup[OF d] by (auto simp: window_of_def split: option.splits)
  then show "refines t (sweep_failures t l) h"
    using assms d by (intro refines_at) (auto simp: sweep_failures_def refines_def distinct_map_filter)
qed (simp_all add: sweep_failures_def)

lemma record_failure_refines:
  fixes ids :: "string list"
  assumes "refines t0 l h" and "t0 \<le> t" and "t \<le> t'" and "0 < ll_window l"
  defines "h' \<equiv> foldl (note_failure t) h ids"
  shows "fst (record_failure t t' ids l) = list_ex (\<lambda>i. locked_out (ll_window l) (ll_max l) (h' i) t') ids
    \<and> refines t' (snd (record_failure t t' ids l)) h'
    \<and> ll_window (snd (record_failure t t' ids l)) = ll_window l \<and> ll_max (snd (record_failure t t' ids l)) = ll_max l"
proof -
  let ?c = "fold (count_failure t) ids l"
  let ?l = "sweep_failures t (?c\<lparr>ll_operations := ll_operations ?c + length ids\<rparr>)"
  note c = count_failures_refine[OF assms(1,2,4), of ids, folded h'_def]
  have "refines t l' h' \<Longrightarrow> refines t (l'\<lparr>ll_operations := n\<rparr>) h'" for l' n by (simp add: refines_def)
  then have "refines t (?c\<lparr>ll_operations := ll_operations ?c + length ids\<rparr>) h'" using c by blast
  note s = sweep_refines[OF this]
  show ?thesis using is_blocked_refines[OF s(1) assms(3), of ids] s(2,3) c by (simp add: record_failure_def Let_def)
qed

lemma fold_delete_lookup:
  "map_of (fold AList.delete ids bs) i = (if i \<in> set ids then None else map_of bs i)"
  by (induction ids arbitrary: bs) (auto simp: delete_conv')

lemma fold_delete_distinct: "distinct (map fst bs) \<Longrightarrow> distinct (map fst (fold AList.delete ids bs))"
  by (induction ids arbitrary: bs) (auto simp: distinct_delete)

lemma clear_refines:
  assumes "refines t l h"
  shows "refines t (clear_failures ids l) (\<lambda>i. if i \<in> set ids then [] else h i)"
  using assms by (auto simp: refines_def clear_failures_def fold_delete_lookup fold_delete_distinct window_of_def
      still_open_def open_window_def)

lemma answer_refines:
  assumes "refines t0 l h" and "sorted (t0 # call_times c)" and "0 < ll_window l"
  shows "fst (limiter_answer c l) = fst (spec_call (ll_window l) (ll_max l) c h)
    \<and> refines (last (t0 # call_times c)) (snd (limiter_answer c l)) (snd (spec_call (ll_window l) (ll_max l) c h))
    \<and> ll_window (snd (limiter_answer c l)) = ll_window l \<and> ll_max (snd (limiter_answer c l)) = ll_max l"
proof (cases c)
  case (Ask t ids)
  then show ?thesis using is_blocked_refines[OF assms(1), of t ids] assms(2) by simp
next
  case (Fail t t' ids)
  then show ?thesis using record_failure_refines[OF assms(1) _ _ assms(3), of t t' ids] assms(2) by (simp add: Let_def)
next
  case (Forgive ids)
  then show ?thesis using clear_refines[OF assms(1), of ids] by (simp add: clear_failures_def)
qed

lemma answers_refine:
  assumes "refines t0 l h" and "sorted (t0 # concat (map call_times cs))" and "0 < ll_window l"
  shows "answers limiter_answer cs l = answers (spec_call (ll_window l) (ll_max l)) cs h"
  using assms
proof (induction cs arbitrary: t0 l h)
  case (Cons c cs)
  have s: "sorted ((t0 # call_times c) @ concat (map call_times cs))" using Cons.prems(2) by simp
  then have c: "sorted (t0 # call_times c)" by (simp add: sorted_append)
  have rest: "sorted (last (t0 # call_times c) # concat (map call_times cs))"
    using s last_in_set[of "t0 # call_times c"] by (simp only: sorted_append sorted_simps(2)) blast
  note step = answer_refines[OF Cons.prems(1) c Cons.prems(3)]
  obtain b l' where run: "limiter_answer c l = (b, l')" by force
  obtain b' h' where spec: "spec_call (ll_window l) (ll_max l) c h = (b', h')" by force
  show ?case
    using Cons.IH[OF _ rest, of l' h'] step Cons.prems(3) by (simp add: run spec)
qed simp

text \<open>
  C31: the limiter of failed logins refines its specification. Whatever sequence of questions, failures and
  successful logins it sees, for any mix of accounts and addresses, its answers are those of the histories: an
  identity is locked out exactly when the window its history has open holds as many failures as allowed. That
  buckets are shared, restarted and swept cannot be observed.
\<close>
theorem login_limiter_refines_histories:
  assumes "new_login_limiter maxFailures windowMs = Inr l" and "sorted (concat (map call_times cs))"
  shows "answers limiter_answer cs l = answers (spec_call (ll_window l) (ll_max l)) cs (\<lambda>_. [])"
proof -
  have l: "ll_buckets l = []" "0 < ll_window l"
    using assms(1) by (auto simp: new_login_limiter_def and_ok_Inr positive_integer_def split: if_splits)
  then have r: "refines t l (\<lambda>_. [])" for t by (simp add: refines_def window_of_def still_open_def open_window_def)
  show ?thesis
  proof (cases "concat (map call_times cs)")
    case Nil
    show ?thesis by (rule answers_refine[OF r[of 0]]) (use l in \<open>simp_all only: Nil sorted1 l\<close>)
  next
    case (Cons t ts)
    show ?thesis by (rule answers_refine[OF r[of t]]) (use Cons assms(2) l in simp_all)
  qed
qed

theorem login_limiter_refines_histories_witness:
  "\<exists>l. new_login_limiter (Some 2) (Some 100) = Inr l
     \<and> answers limiter_answer [Fail 0 0 [''a'', ''b''], Ask 1 [''b''], Fail 2 3 [''a''], Ask 99 [''b'', ''a''], Ask 100 [''a'']] l
       = [False, False, True, True, False]"
proof -
  let ?cs = "[Fail 0 0 [''a'', ''b''], Ask 1 [''b''], Fail 2 3 [''a''], Ask 99 [''b'', ''a''], Ask 100 [''a'']]"
  have "new_login_limiter (Some 2) (Some 100) = Inr \<lparr>ll_max = 2, ll_window = 100, ll_buckets = [], ll_operations = 0\<rparr>"
    by code_simp
  moreover have "answers (spec_call 100 2) ?cs (\<lambda>_. []) = [False, False, True, True, False]"
    by (simp add: Let_def note_failure_def locked_out_def open_window_def next_window_def)
  moreover have "sorted (concat (map call_times ?cs))" by simp
  ultimately show ?thesis using login_limiter_refines_histories[of "Some 2" "Some 100" _ ?cs] by fastforce
qed

end
