(* ===== verification/Auth_Facts.thy ===== *)
theory Auth_Facts
  imports Auth Tenancy_Facts
begin

text \<open>
  What the authentication service promises: an ended session and a spent token stay so whatever happens later,
  a password reset takes over the account, and an account goes from sign-up to sign-out as it should.
\<close>

section \<open>What is closed stays closed\<close>

text \<open>A digest that some row has, every such row being stamped: a revoked session or a consumed token.\<close>

definition closed_off :: "('r \<Rightarrow> bytes) \<Rightarrow> ('r \<Rightarrow> time option) \<Rightarrow> bytes \<Rightarrow> 'r list \<Rightarrow> bool" where
  "closed_off hash stamp d rows \<longleftrightarrow> (\<exists>r\<in>set rows. hash r = d) \<and> (\<forall>r\<in>set rows. hash r = d \<longrightarrow> stamp r \<noteq> None)"

abbreviation "signed_out d s \<equiv> closed_off se_token_hash se_revoked d (db_sessions s)"
abbreviation "reset_spent d s \<equiv> closed_off ut_hash ut_consumed d (db_resets s)"
abbreviation "verification_spent d s \<equiv> closed_off ut_hash ut_consumed d (db_verifications s)"

text \<open>The unique indexes of the tables.\<close>

definition accounts_ok :: "db \<Rightarrow> bool" where
  "accounts_ok s \<longleftrightarrow> distinct (map u_id (db_users s)) \<and> distinct (map u_email_normalized (db_users s))
     \<and> distinct (map se_id (db_sessions s)) \<and> distinct (map se_token_hash (db_sessions s))
     \<and> distinct (map ut_id (db_resets s)) \<and> distinct (map ut_hash (db_resets s))
     \<and> distinct (map ut_id (db_verifications s)) \<and> distinct (map ut_hash (db_verifications s))"

definition auth_kept :: "db \<Rightarrow> db \<Rightarrow> bool" where
  "auth_kept s s' \<longleftrightarrow> (\<forall>d. signed_out d s \<longrightarrow> signed_out d s') \<and> (\<forall>d. reset_spent d s \<longrightarrow> reset_spent d s')
     \<and> (\<forall>d. verification_spent d s \<longrightarrow> verification_spent d s') \<and> (accounts_ok s \<longrightarrow> accounts_ok s')"

interpretation accounts: op_contract auth_kept
  by unfold_locales (auto simp: auth_kept_def)

lemma closed_append: "closed_off hash stamp d rs \<Longrightarrow> \<forall>q\<in>set rs. hash q \<noteq> hash r \<Longrightarrow> closed_off hash stamp d (rs @ [r])"
  by (auto simp: closed_off_def)

lemma closed_map:
  assumes "\<And>r. hash (f r) = hash r" and "\<And>r. stamp r \<noteq> None \<Longrightarrow> stamp (f r) \<noteq> None" and "closed_off hash stamp d rs"
  shows "closed_off hash stamp d (map f rs)"
  using assms(3) unfolding closed_off_def by (auto simp: assms(1) simp del: not_None_eq intro!: assms(2))

lemma closed_mapI:
  assumes "r \<in> set rs" and "hash r = d" and "\<And>q. hash (f q) = hash q"
    and "\<And>q. q \<in> set rs \<Longrightarrow> hash q = d \<Longrightarrow> stamp (f q) \<noteq> None"
  shows "closed_off hash stamp d (map f rs)"
  using assms unfolding closed_off_def by auto

lemma insert_global_Inr:
  "insert_global get upd clash ok r s = Inr (u, s') \<longleftrightarrow> ok r \<and> \<not> list_ex (clash r) (get s) \<and> s' = upd (\<lambda>rs. rs @ [r]) s"
  by (auto simp: insert_global_def op_simps)

lemma update_global_Inr: "update_global upd P f s = Inr (u, s') \<longleftrightarrow> s' = upd (map (\<lambda>r. if P r then f r else r)) s"
  by (auto simp: update_global_def op_simps)

lemma auth_kept_same:
  "db_users s' = db_users s \<Longrightarrow> db_sessions s' = db_sessions s \<Longrightarrow> db_resets s' = db_resets s \<Longrightarrow>
     db_verifications s' = db_verifications s \<Longrightarrow> auth_kept s s'"
  by (simp add: auth_kept_def accounts_ok_def)

lemma not_clash: "\<not> list_ex (c r) rs \<Longrightarrow> q \<in> set rs \<Longrightarrow> \<not> c r q"
  by (auto simp: list_ex_iff)

lemma kept_inserts [contract_intros]:
  "obeys auth_kept (insert_global db_users db_users_update user_clash user_check r1)"
  "obeys auth_kept (insert_global db_sessions db_sessions_update session_clash session_check r2)"
  "obeys auth_kept (insert_global db_resets db_resets_update user_token_clash user_token_check r3)"
  "obeys auth_kept (insert_global db_verifications db_verifications_update user_token_clash user_token_check r3)"
  unfolding obeys_def insert_global_Inr auth_kept_def accounts_ok_def
  by (auto simp: user_clash_def session_clash_def user_token_clash_def dest: not_clash intro!: closed_append)

text \<open>An update that keeps the keys of its rows and never takes a stamp away.\<close>

lemma kept_user_update:
  assumes "\<And>u. u_id (f u) = u_id u \<and> u_email_normalized (f u) = u_email_normalized u"
  shows "auth_kept s (db_users_update (map f) s)"
  using assms by (simp add: auth_kept_def accounts_ok_def comp_def)

lemma kept_session_update:
  assumes "\<And>r. se_id (f r) = se_id r \<and> se_token_hash (f r) = se_token_hash r"
    and "\<And>r. se_revoked r \<noteq> None \<Longrightarrow> se_revoked (f r) \<noteq> None"
  shows "auth_kept s (db_sessions_update (map f) s)"
  using assms closed_map[where f = f and hash = se_token_hash and stamp = se_revoked]
  by (simp add: auth_kept_def accounts_ok_def comp_def)

lemma kept_token_update:
  assumes "\<And>r. ut_id (f r) = ut_id r \<and> ut_hash (f r) = ut_hash r"
    and "\<And>r. ut_consumed r \<noteq> None \<Longrightarrow> ut_consumed (f r) \<noteq> None"
  shows "auth_kept s (db_resets_update (map f) s)" "auth_kept s (db_verifications_update (map f) s)"
  using assms closed_map[where f = f and hash = ut_hash and stamp = ut_consumed]
  by (simp_all add: auth_kept_def accounts_ok_def comp_def)

lemma kept_updates [contract_intros]:
  "obeys auth_kept (update_global db_users_update P (\<lambda>u. u\<lparr>u_verified := v, u_updated := t\<rparr>))"
  "obeys auth_kept (update_global db_users_update P (\<lambda>u. u\<lparr>u_password_hash := h, u_updated := t\<rparr>))"
  "obeys auth_kept (update_global db_sessions_update Q (\<lambda>r. r\<lparr>se_revoked := Some t\<rparr>))"
  "obeys auth_kept (update_global db_sessions_update Q (\<lambda>r. r\<lparr>se_last_seen := t\<rparr>))"
  "obeys auth_kept (update_global db_resets_update W (\<lambda>q. q\<lparr>ut_consumed := Some t\<rparr>))"
  "obeys auth_kept (update_global db_verifications_update W (\<lambda>q. q\<lparr>ut_consumed := Some t\<rparr>))"
  unfolding obeys_def update_global_Inr
  by (auto intro!: kept_user_update kept_session_update kept_token_update simp: split: if_splits)

lemma kept_draws [contract_intros]: "obeys auth_kept next_draw" "obeys auth_kept (fresh_uuid C)" "obeys auth_kept (fresh_token C)"
  "obeys auth_kept (hash_password H password)"
proof -
  have d: "obeys auth_kept next_draw" by (auto simp: next_draw_def obeys_def op_simps intro!: auth_kept_same)
  then show "obeys auth_kept next_draw" "obeys auth_kept (fresh_uuid C)" "obeys auth_kept (fresh_token C)"
    "obeys auth_kept (hash_password H password)"
    unfolding fresh_uuid_def fresh_token_def hash_password_def by (intro contract_intros | assumption)+
qed

lemma kept_tokens [contract_intros]:
  "obeys auth_kept (insert_user_token db_resets db_resets_update C userId token)"
  "obeys auth_kept (insert_user_token db_verifications db_verifications_update C userId token)"
  unfolding insert_user_token_def by (intro contract_intros)+

lemma kept_services [contract_intros]:
  "obeys auth_kept (signup H C email password)" "obeys auth_kept (verify_email C token)"
  "obeys auth_kept (reset_password H C token password)" "obeys auth_kept (resend_email_verification C email)"
  "obeys auth_kept (request_password_reset C email)" "obeys auth_kept (start_session C client u)"
  "obeys auth_kept (authenticate C token)"
  unfolding signup_def verify_email_def reset_password_def consume_user_token_def resend_email_verification_def
    request_password_reset_def start_session_def authenticate_def Let_def
  by (intro contract_intros)+

section \<open>All that happens to accounts and sessions\<close>

inductive auth_step :: "db \<Rightarrow> db \<Rightarrow> bool" where
  signed_up: "signup H C email password s = Inr (v, s') \<Longrightarrow> auth_step s s'"
| verified: "verify_email C token s = Inr (u, s') \<Longrightarrow> auth_step s s'"
| resent: "resend_email_verification C email s = Inr (msg, s') \<Longrightarrow> auth_step s s'"
| reset_requested: "request_password_reset C email s = Inr (msg, s') \<Longrightarrow> auth_step s s'"
| was_reset: "reset_password H C token password s = Inr (u, s') \<Longrightarrow> auth_step s s'"
| logged_in: "login H C instants email password client l s = (l', Inr (cr, s')) \<Longrightarrow> auth_step s s'"
| authenticated: "authenticate C token s = Inr (a, s') \<Longrightarrow> auth_step s s'"
| logged_out: "logout C token csrf s = (r, s') \<Longrightarrow> auth_step s s'"
| switched: "switch_active_organization C sessionId userId orgId s = Inr (u, s') \<Longrightarrow> auth_step s s'"
| removed: "remove_member T userId memberId s = Inr (m, s') \<Longrightarrow> auth_step s s'"
| elsewhere: "db_users s' = db_users s \<Longrightarrow> db_sessions s' = db_sessions s \<Longrightarrow> db_resets s' = db_resets s \<Longrightarrow>
     db_verifications s' = db_verifications s \<Longrightarrow> auth_step s s'"

lemma login_session:
  assumes "login H C instants email password client l s = (l', Inr (cr, s'))"
  obtains normalized u where "normalize_email (auth_failure Auth_invalid_input) email = Inr normalized"
    "find_account normalized s = Some u" "password_accepted H password u" "start_session C client u s = Inr (cr, s')"
  using assms by (auto simp: login_def Let_def split: sum.splits prod.splits bool.splits option.splits if_splits)

lemma logout_kept: "logout C token csrf s = (r, s') \<Longrightarrow> auth_kept s s'"
proof -
  assume run: "logout C token csrf s = (r, s')"
  show ?thesis
  proof (cases "authenticate C token s")
    case (Inl e)
    then show ?thesis using run accounts.R_refl by (simp add: logout_def)
  next
    case (Inr p)
    obtain a s1 where p: "p = (a, s1)" by force
    have k: "auth_kept s s1" using obeysD[OF kept_services(7) Inr[unfolded p]] .
    have "auth_kept s1 (db_sessions_update (map (\<lambda>r. if se_id r = i then r\<lparr>se_revoked := Some t\<rparr> else r)) s1)" for i t
      by (rule kept_session_update) auto
    then have "auth_kept s1 s'" using run Inr p accounts.R_refl by (auto simp: logout_def split: sum.splits)
    with k show ?thesis by (rule accounts.R_trans)
  qed
qed

lemma kept_statements [contract_intros]:
  "obeys auth_kept (select_rows org get T P)" "obeys auth_kept (record_in_transaction T ev)"
  "obeys auth_kept (delete_rows m_org db_memberships_update T Q)" "obeys auth_kept (delete_rows ov_org db_overrides_update T W)"
proof -
  show "obeys auth_kept (select_rows org get T P)" unfolding select_rows_def by (rule contract_intros)
  show "obeys auth_kept (record_in_transaction T ev)" by (auto simp: obeys_def record_Inr intro!: auth_kept_same)
  show "obeys auth_kept (delete_rows m_org db_memberships_update T Q)" "obeys auth_kept (delete_rows ov_org db_overrides_update T W)"
    by (auto simp: obeys_def delete_rows_def op_simps intro!: auth_kept_same)
qed

lemma kept_session_writes:
  "obeys auth_kept (writes (db_sessions_update (map (\<lambda>r. if P r then r\<lparr>se_active_org := org\<rparr> else r))))"
  by (rule accounts.obeys_writesI) (rule kept_session_update; auto)

lemma kept_elsewhere:
  "obeys auth_kept (switch_active_organization C sessionId userId orgId)" "obeys auth_kept (remove_member T userId memberId)"
  unfolding switch_active_organization_def with_org_def with_org_context_def remove_member_def Let_def actor_role_def
    target_member_def delete_membership_def
  by (intro contract_intros kept_session_writes)+

lemma auth_step_kept: "auth_step s s' \<Longrightarrow> auth_kept s s'"
proof (induction rule: auth_step.induct)
  case logged_in
  then show ?case by (elim login_session) (rule obeysD[OF kept_services(6)])
next
  case logged_out
  then show ?case by (rule logout_kept)
qed (erule obeysD[OF kept_services(1)] obeysD[OF kept_services(2)] obeysD[OF kept_services(3)] obeysD[OF kept_services(4)]
  obeysD[OF kept_services(5)] obeysD[OF kept_services(7)] obeysD[OF kept_elsewhere(1)] obeysD[OF kept_elsewhere(2)]
  | rule auth_kept_same; assumption)+

lemma auth_steps_kept: "auth_step\<^sup>*\<^sup>* s s' \<Longrightarrow> auth_kept s s'"
  by (induction rule: rtranclp_induct) (auto intro: accounts.R_refl accounts.R_trans auth_step_kept)

section \<open>Ended sessions\<close>

lemma live_session_usersD:
  assumes "first_row (live_session_users C d s) = Some (r, u)"
  shows "r \<in> set (db_sessions s)" "se_token_hash r = d" "se_revoked r = None" "tx_now C < se_expires r"
    "u \<in> set (db_users s)" "u_id u = se_user r" "u_disabled u = None"
proof -
  have "(r, u) \<in> set (live_session_users C d s)" using assms by (cases "live_session_users C d s") (auto simp: first_row_def)
  then show "r \<in> set (db_sessions s)" "se_token_hash r = d" "se_revoked r = None" "tx_now C < se_expires r"
    "u \<in> set (db_users s)" "u_id u = se_user r" "u_disabled u = None"
    by (auto simp: live_session_users_def)
qed

lemma authenticate_Inr:
  "authenticate C token s = Inr (a, s') \<longleftrightarrow>
     (\<exists>r u. first_row (live_session_users C (token_digest (tx_platform C) token) s) = Some (r, u)
       \<and> a = \<lparr>as_session = se_id r, as_user = se_user r, as_email = u_email u, as_active_org = se_active_org r,
          as_csrf_hash = se_csrf_hash r, as_expires = to_date (se_expires r)\<rparr>
       \<and> s' = db_sessions_update (map (\<lambda>q. if se_id q = se_id r then q\<lparr>se_last_seen := tx_now C\<rparr> else q)) s)"
  by (auto simp: authenticate_def op_simps update_global_Inr)

lemma authenticate_Inl: "authenticate C token s = Inl e \<Longrightarrow> e = auth_failure Invalid_session"
  by (auto simp: authenticate_def op_defs update_global_def split: option.splits sum.splits)

lemma signed_out_refused:
  assumes "signed_out (token_digest (tx_platform C) token) s"
  shows "authenticate C token s = Inl (auth_failure Invalid_session)"
proof (cases "authenticate C token s")
  case (Inl e)
  then show ?thesis using authenticate_Inl by blast
next
  case (Inr p)
  then obtain r u where "first_row (live_session_users C (token_digest (tx_platform C) token) s) = Some (r, u)"
    using authenticate_Inr by (metis surj_pair)
  from live_session_usersD(1-3)[OF this] show ?thesis using assms by (auto simp: closed_off_def)
qed

lemma distinct_map_eq': "distinct (map f xs) \<Longrightarrow> x \<in> set xs \<Longrightarrow> y \<in> set xs \<Longrightarrow> f x = f y \<Longrightarrow> x = y"
  by (simp add: distinct_map inj_on_def)

text \<open>
  C30: signed out for good. A logout needs a live session and its own CSRF token. Afterwards the session token is
  refused for ever, whoever signs up, logs in, resets passwords, switches organizations or removes members in
  between.
\<close>
theorem signed_out_for_good:
  assumes out: "logout C token csrf s = (Inr (), s1)" and ok: "accounts_ok s"
    and later: "auth_step\<^sup>*\<^sup>* s1 s2" and same: "tx_platform C' = tx_platform C"
  shows "(\<exists>a s'. authenticate C token s = Inr (a, s') \<and> as_csrf_hash a = token_digest (tx_platform C) csrf)
    \<and> authenticate C' token s2 = Inl (auth_failure Invalid_session)"
proof -
  let ?d = "token_digest (tx_platform C) token"
  obtain a t where a: "authenticate C token s = Inr (a, t)" and csrf: "verify_csrf (tx_platform C) a csrf = Inr ()"
    and s1: "s1 = db_sessions_update (map (\<lambda>r. if se_id r = as_session a then r\<lparr>se_revoked := Some (tx_now C)\<rparr> else r)) t"
    using out by (auto simp: logout_def split: sum.splits)
  obtain r u where r: "first_row (live_session_users C ?d s) = Some (r, u)" "as_session a = se_id r"
    and t: "t = db_sessions_update (map (\<lambda>q. if se_id q = se_id r then q\<lparr>se_last_seen := tx_now C\<rparr> else q)) s"
    using a unfolding authenticate_Inr by auto
  note row = live_session_usersD[OF r(1)]
  have "se_id q = se_id r" if "q \<in> set (db_sessions s)" "se_token_hash q = ?d" for q
    using ok row(1,2) that distinct_map_eq'[of se_token_hash "db_sessions s" q r] by (simp add: accounts_ok_def)
  then have "signed_out ?d s1"
    unfolding s1 t r(2) by simp (rule closed_mapI[of r _ se_token_hash, OF row(1,2)]; simp)
  then have "signed_out ?d s2" using auth_steps_kept[OF later] by (simp add: auth_kept_def)
  moreover have "as_csrf_hash a = token_digest (tx_platform C) csrf"
    using csrf by (auto simp: verify_csrf_def Let_def split: if_splits)
  ultimately show ?thesis using a signed_out_refused[of C' token s2] same by auto
qed

section \<open>Passwords\<close>

text \<open>Argon2 accepts the password that was hashed, and no other.\<close>

definition argon2_sound :: "argon2 \<Rightarrow> bool" where
  "argon2_sound H \<longleftrightarrow> (\<forall>i p. argon2_hash H i p \<noteq> [] \<and> (\<forall>q. argon2_verify H (argon2_hash H i p) q = Some (q = p)))"

lemma argon2_accepts:
  assumes "argon2_sound H" and "u_password_hash u = Some (argon2_hash H i p)"
  shows "password_accepted H q u \<longleftrightarrow> q = p"
  using assms by (simp add: argon2_sound_def password_accepted_def verify_password_def)

lemma filter_others:
  assumes "\<And>r. key (f r) = key r"
  shows "filter (\<lambda>r. key r \<noteq> k) (map (\<lambda>r. if key r = k then f r else r) rs) = filter (\<lambda>r. key r \<noteq> k) rs"
  by (induction rs) (auto simp: assms)

lemma hash_password_Inr:
  "hash_password H p s = Inr (h, s') \<longleftrightarrow>
     validate_password p = Inr () \<and> h = argon2_hash H (db_draws s) p \<and> s' = s\<lparr>db_draws := db_draws s + 1\<rparr>"
  by (auto simp: hash_password_def op_simps next_draw_def)

lemma reset_password_Inr:
  assumes "reset_password H C token password s = Inr (u, s')"
  obtains t where "t \<in> set (db_resets s)" "open_token C (token_digest (tx_platform C) token) t"
    "db_users s' = map (\<lambda>u. if u_id u = ut_user t
        then u\<lparr>u_password_hash := Some (argon2_hash H (db_draws s) password), u_updated := tx_now C\<rparr> else u) (db_users s)"
    "db_sessions s' = map (\<lambda>r. if se_user r = ut_user t \<and> se_revoked r = None then r\<lparr>se_revoked := Some (tx_now C)\<rparr> else r) (db_sessions s)"
    "db_resets s' = map (\<lambda>q. if ut_id q = ut_id t then q\<lparr>ut_consumed := Some (tx_now C)\<rparr> else q) (db_resets s)"
proof -
  obtain t where t: "find (open_token C (token_digest (tx_platform C) token)) (db_resets s) = Some t"
    and s': "db_users s' = map (\<lambda>u. if u_id u = ut_user t
        then u\<lparr>u_password_hash := Some (argon2_hash H (db_draws s) password), u_updated := tx_now C\<rparr> else u) (db_users s)"
    "db_sessions s' = map (\<lambda>r. if se_user r = ut_user t \<and> se_revoked r = None then r\<lparr>se_revoked := Some (tx_now C)\<rparr> else r) (db_sessions s)"
    "db_resets s' = map (\<lambda>q. if ut_id q = ut_id t then q\<lparr>ut_consumed := Some (tx_now C)\<rparr> else q) (db_resets s)"
    using assms by (auto simp: reset_password_def consume_user_token_def op_simps hash_password_Inr update_global_Inr)
  show thesis using find_SomeD[OF t] s' by (auto intro: that)
qed

lemma reset_spent_refused:
  assumes "reset_spent (token_digest (tx_platform C) token) s"
  shows "reset_password H C token password s = Inl (auth_failure (if validate_password password = Inr () then Invalid_token else Auth_invalid_input))"
proof -
  have none: "find (open_token C (token_digest (tx_platform C) token)) (db_resets s) = None"
    using assms by (auto simp: find_None_iff closed_off_def open_token_def)
  show ?thesis
    by (auto simp: reset_password_def hash_password_def consume_user_token_def op_defs next_draw_def validate_password_def none)
qed

text \<open>
  C29: a password reset takes the account over. The token was open; from then on the account accepts the new
  password and no other, and no other account has changed. Every session the account had is refused for ever, and
  so is the token, whatever happens later.
\<close>
theorem password_reset_takes_over:
  assumes argon: "argon2_sound H" and run: "reset_password H C token password s = Inr ((), s1)" and ok: "accounts_ok s"
  shows "\<exists>t\<in>set (db_resets s). open_token C (token_digest (tx_platform C) token) t
    \<and> (\<forall>u\<in>set (db_users s1). u_id u = ut_user t \<longrightarrow> (\<forall>q. password_accepted H q u \<longleftrightarrow> q = password))
    \<and> filter (\<lambda>u. u_id u \<noteq> ut_user t) (db_users s1) = filter (\<lambda>u. u_id u \<noteq> ut_user t) (db_users s)
    \<and> (\<forall>s2 C'. auth_step\<^sup>*\<^sup>* s1 s2 \<longrightarrow> tx_platform C' = tx_platform C \<longrightarrow>
        (\<forall>r\<in>set (db_sessions s). \<forall>old. se_user r = ut_user t \<longrightarrow> token_digest (tx_platform C) old = se_token_hash r \<longrightarrow>
           authenticate C' old s2 = Inl (auth_failure Invalid_session))
        \<and> (\<forall>H' p s'. reset_password H' C' token p s2 \<noteq> Inr ((), s')))"
proof -
  obtain t where t: "t \<in> set (db_resets s)" "open_token C (token_digest (tx_platform C) token) t"
    and users: "db_users s1 = map (\<lambda>u. if u_id u = ut_user t
        then u\<lparr>u_password_hash := Some (argon2_hash H (db_draws s) password), u_updated := tx_now C\<rparr> else u) (db_users s)"
    and sessions: "db_sessions s1 = map (\<lambda>r. if se_user r = ut_user t \<and> se_revoked r = None then r\<lparr>se_revoked := Some (tx_now C)\<rparr> else r) (db_sessions s)"
    and resets: "db_resets s1 = map (\<lambda>q. if ut_id q = ut_id t then q\<lparr>ut_consumed := Some (tx_now C)\<rparr> else q) (db_resets s)"
    using run by (rule reset_password_Inr)
  have hash: "ut_hash t = token_digest (tx_platform C) token" using t(2) by (simp add: open_token_def)
  have accepted: "password_accepted H q u \<longleftrightarrow> q = password" if "u \<in> set (db_users s1)" "u_id u = ut_user t" for u q
    using that users argon2_accepts[OF argon, of u "db_draws s" password q] by (auto split: if_splits)
  have others: "filter (\<lambda>u. u_id u \<noteq> ut_user t) (db_users s1) = filter (\<lambda>u. u_id u \<noteq> ut_user t) (db_users s)"
    unfolding users by (rule filter_others) simp
  have spent: "reset_spent (token_digest (tx_platform C) token) s1"
  proof -
    have "ut_id q = ut_id t" if "q \<in> set (db_resets s)" "ut_hash q = token_digest (tx_platform C) token" for q
      using ok t(1) hash that distinct_map_eq'[of ut_hash "db_resets s" q t] by (metis accounts_ok_def)
    then show ?thesis unfolding resets by (intro closed_mapI[of t _ ut_hash, OF t(1) hash]) simp_all
  qed
  have out: "signed_out (se_token_hash r) s1" if r: "r \<in> set (db_sessions s)" "se_user r = ut_user t" for r
  proof -
    have "q = r" if "q \<in> set (db_sessions s)" "se_token_hash q = se_token_hash r" for q
      using ok r(1) that distinct_map_eq'[of se_token_hash "db_sessions s" q r] by (metis accounts_ok_def)
    then show ?thesis unfolding sessions using r(2) by (intro closed_mapI[of r _ se_token_hash, OF r(1) refl]) (auto dest: sym)
  qed
  have later: "signed_out (se_token_hash r) s2" "reset_spent (token_digest (tx_platform C) token) s2"
    if "auth_step\<^sup>*\<^sup>* s1 s2" "r \<in> set (db_sessions s)" "se_user r = ut_user t" for r s2
    using auth_steps_kept[OF that(1)] out[OF that(2,3)] spent by (simp_all add: auth_kept_def)
  have spent_later: "reset_spent (token_digest (tx_platform C) token) s2" if "auth_step\<^sup>*\<^sup>* s1 s2" for s2
    using auth_steps_kept[OF that] spent by (simp add: auth_kept_def)
  show ?thesis
  proof (intro bexI[OF _ t(1)] conjI allI impI ballI t(2) others)
    show "authenticate C' old s2 = Inl (auth_failure Invalid_session)"
      if "auth_step\<^sup>*\<^sup>* s1 s2" "tx_platform C' = tx_platform C" "r \<in> set (db_sessions s)" "se_user r = ut_user t"
        "token_digest (tx_platform C) old = se_token_hash r" for s2 C' r old
      using signed_out_refused[of C' old s2] later(1)[OF that(1,3,4)] that(2,5) by simp
    show "reset_password H' C' token p s2 \<noteq> Inr ((), s')"
      if "auth_step\<^sup>*\<^sup>* s1 s2" "tx_platform C' = tx_platform C" for s2 C' H' p s'
      using reset_spent_refused[of C' token s2] spent_later[OF that(1)] that(2) by simp
  qed (use accepted in blast)+
qed

section \<open>The life of an account\<close>

lemma verification_token_Inr:
  assumes "insert_user_token db_verifications db_verifications_update C userId token s = Inr (v, s')"
  shows "\<exists>t. ut_user t = userId \<and> ut_hash t = token_digest (tx_platform C) token \<and> ut_consumed t = None
    \<and> ut_expires t = service_now C + token_ttl \<and> \<not> list_ex (user_token_clash t) (db_verifications s)
    \<and> db_verifications s' = db_verifications s @ [t] \<and> db_users s' = db_users s"
  using assms
  by (intro exI[of _ "\<lparr>ut_id = random_uuid (tx_platform C) (db_draws s), ut_user = userId, ut_hash = token_digest (tx_platform C) token,
        ut_expires = service_now C + token_ttl, ut_consumed = None, ut_created = tx_now C\<rparr>"])
    (auto simp: insert_user_token_def op_simps fresh_uuid_Inr insert_global_Inr)

lemma signup_Inr:
  assumes "signup H C email password s = Inr ((userId, mail, token), s')"
  shows "normalize_email (auth_failure Auth_invalid_input) email = Inr mail"
    and "\<not> list_ex (user_clash (new_user C userId mail (argon2_hash H (db_draws s) password))) (db_users s)"
    and "db_users s' = db_users s @ [new_user C userId mail (argon2_hash H (db_draws s) password)]"
    and "\<exists>t. ut_user t = userId \<and> ut_hash t = token_digest (tx_platform C) token \<and> ut_consumed t = None
      \<and> ut_expires t = service_now C + token_ttl \<and> \<not> list_ex (user_token_clash t) (db_verifications s)
      \<and> db_verifications s' = db_verifications s @ [t]"
  using assms
  by (auto simp: signup_def op_simps hash_password_Inr fresh_token_def next_draw_def fresh_uuid_Inr insert_global_Inr
      dest!: verification_token_Inr)

lemma start_session_Inr:
  assumes "start_session C client u s = Inr (cr, s')"
  obtains r where "u_verified u \<noteq> None" "\<not> list_ex (session_clash r) (db_sessions s)" "session_check r"
    "r = new_session C client (se_id r) (u_id u) (sc_session_token cr) (sc_csrf_token cr) (service_now C + session_ttl)"
    "db_sessions s' = db_sessions s @ [r]" "db_users s' = db_users s" "sc_user cr = u_id u" "sc_email cr = u_email u"
  using assms
  by (auto simp: start_session_def op_simps Let_def fresh_token_def next_draw_def fresh_uuid_Inr insert_global_Inr new_session_def)

lemma find_last: "\<forall>x\<in>set xs. \<not> P x \<Longrightarrow> P y \<Longrightarrow> find P (xs @ [y]) = Some y"
  by (induction xs) auto

text \<open>A new session authenticates as its user.\<close>

lemma new_session_authenticates:
  assumes new: "start_session C client u s = Inr (cr, s')" and only: "filter (\<lambda>q. u_id q = u_id u) (db_users s) = [u]"
    and on: "u_disabled u = None" and C': "tx_platform C' = tx_platform C" "tx_now C' < service_now C + session_ttl"
  shows "\<exists>a s''. authenticate C' (sc_session_token cr) s' = Inr (a, s'') \<and> as_user a = u_id u \<and> as_email a = u_email u
    \<and> as_active_org a = None \<and> verify_csrf (tx_platform C) a (sc_csrf_token cr) = Inr ()"
proof -
  let ?d = "token_digest (tx_platform C) (sc_session_token cr)"
  obtain r where r: "\<not> list_ex (session_clash r) (db_sessions s)"
    "r = new_session C client (se_id r) (u_id u) (sc_session_token cr) (sc_csrf_token cr) (service_now C + session_ttl)"
    "db_sessions s' = db_sessions s @ [r]" "db_users s' = db_users s"
    using new by (rule start_session_Inr)
  have f: "se_user r = u_id u" "se_token_hash r = ?d" "se_csrf_hash r = token_digest (tx_platform C) (sc_csrf_token cr)"
    "se_revoked r = None" "se_expires r = service_now C + session_ttl" "se_active_org r = None"
    by (subst r(2), simp add: new_session_def)+
  have old: "filter (\<lambda>q. se_token_hash q = ?d \<and> se_revoked q = None \<and> tx_now C' < se_expires q) (db_sessions s) = []"
    using r(1) f(2) by (auto simp: list_ex_iff session_clash_def filter_empty_conv)
  have users: "filter (\<lambda>q. u_id q = u_id u \<and> u_disabled q = None) (db_users s) = [u]"
  proof -
    have "filter (\<lambda>q. u_id q = u_id u \<and> u_disabled q = None) (db_users s)
        = filter (\<lambda>q. u_disabled q = None) (filter (\<lambda>q. u_id q = u_id u) (db_users s))" by (simp add: conj_commute)
    then show ?thesis using only on by simp
  qed
  have "live_session_users C' (token_digest (tx_platform C') (sc_session_token cr)) s' = [(r, u)]"
    using old users f C' r(3,4) by (simp add: live_session_users_def)
  then have "\<exists>a s''. authenticate C' (sc_session_token cr) s' = Inr (a, s'') \<and> as_user a = se_user r \<and> as_email a = u_email u
      \<and> as_active_org a = se_active_org r \<and> as_csrf_hash a = se_csrf_hash r"
    by (auto simp: authenticate_Inr first_row_def)
  moreover have "verify_csrf (tx_platform C) a (sc_csrf_token cr) = Inr ()" if "as_csrf_hash a = se_csrf_hash r" for a
    using that f(3) by (simp add: verify_csrf_def)
  ultimately show ?thesis using f(1,6) by metis
qed


section \<open>The promises at work\<close>

definition demo_argon2 :: argon2 where
  "demo_argon2 = \<lparr>argon2_hash = (\<lambda>i p. CHR ''h'' # p), argon2_verify = (\<lambda>h q. Some (h = CHR ''h'' # q))\<rparr>"

lemma demo_argon2_sound: "argon2_sound demo_argon2"
  by (auto simp: argon2_sound_def demo_argon2_def)

definition demo_browser :: client_details where "demo_browser = \<lparr>cd_ip = Some ''::1'', cd_agent = None\<rparr>"

definition demo_limiter :: login_limiter where
  "demo_limiter = \<lparr>ll_max = 5, ll_window = 900000, ll_buckets = [], ll_operations = 0\<rparr>"

definition demo_random :: "nat \<Rightarrow> string" where "demo_random i = base64url (random_bytes demo_platform i 32)"

definition demo_account :: "time option \<Rightarrow> user_row" where
  "demo_account verified = \<lparr>u_id = ''iii'', u_email = ''ann@x.io'', u_email_normalized = ''ann@x.io'',
     u_password_hash = Some ''hcorrect horse'', u_verified = verified, u_disabled = None, u_created = 5000, u_updated = 5000\<rparr>"

definition demo_token_row :: "uuid \<Rightarrow> nat \<Rightarrow> time option \<Rightarrow> user_token_row" where
  "demo_token_row i n consumed = \<lparr>ut_id = i, ut_user = ''iii'', ut_hash = token_digest demo_platform (demo_random n),
     ut_expires = 5000 + token_ttl, ut_consumed = consumed, ut_created = 5000\<rparr>"

definition demo_new_account :: db where
  "demo_new_account = empty_db\<lparr>db_users := [demo_account None], db_verifications := [demo_token_row ''iiii'' 1 None], db_draws := 4\<rparr>"

definition demo_verified :: db where
  "demo_verified = empty_db\<lparr>db_users := [demo_account (Some 5000)],
     db_verifications := [demo_token_row ''iiii'' 1 (Some 5000)], db_draws := 4\<rparr>"

definition demo_signed_in :: db where
  "demo_signed_in = demo_verified\<lparr>db_draws := 7, db_sessions :=
     [new_session demo_tx demo_browser ''iiiiiii'' ''iii'' (demo_random 4) (demo_random 5) (5000 + session_ttl)]\<rparr>"

definition demo_asked :: db where
  "demo_asked = demo_signed_in\<lparr>db_resets := [demo_token_row ''iiiiiiiii'' 7 None], db_draws := 9\<rparr>"

lemma demo_digest_length: "length (token_digest demo_platform t) = 32"
  by (simp add: token_digest_def demo_platform_def)

lemma demo_texts:
  "normalize_email e ''Ann@x.io'' = Inr ''ann@x.io''" "normalize_email e ''ann@x.io'' = Inr ''ann@x.io''"
  "db_email demo_platform ''ann@x.io'' = ''ann@x.io''" "length (btrim ''ann@x.io'') = 8"
proof -
  have n: "normalize_email e t = (if js_lower (trim t) = ''ann@x.io'' then Inr ''ann@x.io'' else normalize_email e t)" for t
  proof -
    have "email_ok ''ann@x.io''" by code_simp
    then show ?thesis by (simp add: normalize_email_def)
  qed
  have "js_lower (trim ''Ann@x.io'') = ''ann@x.io''" "js_lower (trim ''ann@x.io'') = ''ann@x.io''" by code_simp+
  then show "normalize_email e ''Ann@x.io'' = Inr ''ann@x.io''" "normalize_email e ''ann@x.io'' = Inr ''ann@x.io''"
    using n[of "''Ann@x.io''"] n[of "''ann@x.io''"] by simp_all
  show "db_email demo_platform ''ann@x.io'' = ''ann@x.io''" "length (btrim ''ann@x.io'') = 8" by code_simp+
qed

lemma demo_clock [simp]:
  "tx_now demo_tx = 5000" "service_now demo_tx = 5000" "tx_platform demo_tx = demo_platform"
  by (simp_all add: demo_tx_def service_now_def to_date_def)

lemma demo_uuid: "random_uuid demo_platform i = replicate (Suc i) (CHR ''i'')"
  by (simp add: demo_platform_def)

lemmas demo_tables = empty_db_def demo_account_def demo_token_row_def new_user_def token_ttl_def session_ttl_def demo_texts
  demo_digest_length demo_uuid

lemma demo_signup:
  "signup demo_argon2 demo_tx ''Ann@x.io'' ''correct horse'' empty_db = Inr ((''iii'', ''ann@x.io'', demo_random 1), demo_new_account)"
  by (simp add: signup_def op_simps hash_password_Inr fresh_token_def next_draw_def fresh_uuid_Inr insert_global_Inr
      insert_user_token_def validate_password_def user_check_def user_token_check_def demo_new_account_def demo_random_def
      demo_argon2_def numeral_eq_Suc demo_tables)

lemma demo_verify: "verify_email demo_tx (demo_random 1) demo_new_account = Inr ((), demo_verified)"
  by (simp add: verify_email_def consume_user_token_def op_simps update_global_Inr demo_new_account_def demo_verified_def open_token_def
      demo_account_def demo_token_row_def empty_db_def token_ttl_def)

lemma demo_password: "password_accepted demo_argon2 ''correct horse'' (demo_account v)"
  by (simp add: password_accepted_def demo_account_def verify_password_def demo_argon2_def)

lemma demo_login:
  "login demo_argon2 demo_tx (0, 0, 0) ''ann@x.io'' ''correct horse'' demo_browser demo_limiter demo_verified
     = (demo_limiter, Inr (\<lparr>sc_session_token = demo_random 4, sc_csrf_token = demo_random 5, sc_expires = 5000 + session_ttl,
          sc_user = ''iii'', sc_email = ''ann@x.io''\<rparr>, demo_signed_in))"
proof -
  have b: "is_blocked 0 ids demo_limiter = (False, demo_limiter)" for ids
    by (induction ids) (simp_all add: demo_limiter_def)
  have del: "fold AList.delete ids [] = []" for ids :: "string list" by (induction ids) simp_all
  have c: "clear_failures ids demo_limiter = demo_limiter" for ids
    by (simp add: clear_failures_def demo_limiter_def del)
  have u: "find_account ''ann@x.io'' demo_verified = Some (demo_account (Some 5000))"
    by (simp add: find_account_def demo_verified_def demo_account_def)
  have "start_session demo_tx demo_browser (demo_account (Some 5000)) demo_verified
      = Inr (\<lparr>sc_session_token = demo_random 4, sc_csrf_token = demo_random 5, sc_expires = 5000 + session_ttl,
          sc_user = ''iii'', sc_email = ''ann@x.io''\<rparr>, demo_signed_in)"
    by (simp add: start_session_def op_simps Let_def fresh_token_def next_draw_def fresh_uuid_Inr insert_global_Inr new_session_def
        session_check_def demo_signed_in_def demo_verified_def demo_account_def demo_random_def demo_digest_length demo_uuid
        empty_db_def session_ttl_def numeral_eq_Suc)
  then show ?thesis by (simp add: login_def demo_texts Let_def b c u demo_password)
qed

lemma demo_session_ok: "accounts_ok demo_signed_in" "accounts_ok demo_asked"
  by (simp_all add: accounts_ok_def demo_signed_in_def demo_asked_def demo_verified_def empty_db_def)


theorem signed_out_for_good_witness:
  "\<exists>s. logout demo_tx (demo_random 4) (demo_random 5) demo_signed_in = (Inr (), s)
     \<and> authenticate demo_tx (demo_random 4) s = Inl (auth_failure Invalid_session)"
proof -
  have "fst (logout demo_tx (demo_random 4) (demo_random 5) demo_signed_in) = Inr ()"
    by (simp add: logout_def authenticate_def op_defs update_global_def live_session_users_def demo_signed_in_def demo_verified_def
        demo_account_def new_session_def first_row_def verify_csrf_def session_ttl_def Let_def)
  then obtain s where out: "logout demo_tx (demo_random 4) (demo_random 5) demo_signed_in = (Inr (), s)" by (metis prod.collapse)
  show ?thesis using signed_out_for_good[OF out demo_session_ok(1) rtranclp.rtrancl_refl refl] out by blast
qed

theorem password_reset_takes_over_witness:
  "\<exists>s. request_password_reset demo_tx ''ann@x.io'' demo_signed_in = Inr (Some (''ann@x.io'', demo_random 7), demo_asked)
     \<and> reset_password demo_argon2 demo_tx (demo_random 7) ''battery staple'' demo_asked = Inr ((), s)
     \<and> authenticate demo_tx (demo_random 4) s = Inl (auth_failure Invalid_session)
     \<and> reset_password demo_argon2 demo_tx (demo_random 7) ''battery staple'' s \<noteq> Inr ((), s)"
proof -
  have ask: "request_password_reset demo_tx ''ann@x.io'' demo_signed_in = Inr (Some (''ann@x.io'', demo_random 7), demo_asked)"
    by (simp add: request_password_reset_def op_simps demo_texts find_account_def fresh_token_def next_draw_def fresh_uuid_Inr
        insert_user_token_def insert_global_Inr demo_signed_in_def demo_verified_def demo_account_def demo_asked_def
        demo_random_def user_token_check_def demo_digest_length demo_token_row_def empty_db_def token_ttl_def demo_uuid numeral_eq_Suc)
  have "\<exists>s. reset_password demo_argon2 demo_tx (demo_random 7) ''battery staple'' demo_asked = Inr ((), s)"
    by (simp add: reset_password_def op_simps hash_password_Inr validate_password_def consume_user_token_def update_global_Inr
        demo_asked_def demo_token_row_def open_token_def token_ttl_def)
  then obtain s where run: "reset_password demo_argon2 demo_tx (demo_random 7) ''battery staple'' demo_asked = Inr ((), s)" by blast
  have rows: "\<forall>t\<in>set (db_resets demo_asked). ut_user t = ''iii''"
    "\<exists>r\<in>set (db_sessions demo_asked). se_user r = ''iii'' \<and> token_digest (tx_platform demo_tx) (demo_random 4) = se_token_hash r"
    by (simp_all add: demo_asked_def demo_signed_in_def demo_token_row_def new_session_def)
  obtain t where t: "t \<in> set (db_resets demo_asked)"
    and all: "\<forall>s2 C'. auth_step\<^sup>*\<^sup>* s s2 \<longrightarrow> tx_platform C' = tx_platform demo_tx \<longrightarrow>
      (\<forall>r\<in>set (db_sessions demo_asked). \<forall>old. se_user r = ut_user t \<longrightarrow> token_digest (tx_platform demo_tx) old = se_token_hash r \<longrightarrow>
         authenticate C' old s2 = Inl (auth_failure Invalid_session))
      \<and> (\<forall>H' p s'. reset_password H' C' (demo_random 7) p s2 \<noteq> Inr ((), s'))"
    using password_reset_takes_over[OF demo_argon2_sound run demo_session_ok(2)] by (elim bexE conjE) (rule that)
  note after = all[THEN spec, THEN spec, THEN mp, OF rtranclp.rtrancl_refl, THEN mp]
  have u: "ut_user t = ''iii''" using rows(1) t by blast
  obtain r where r: "r \<in> set (db_sessions demo_asked)" "se_user r = ''iii''"
    "token_digest (tx_platform demo_tx) (demo_random 4) = se_token_hash r" using rows(2) by blast
  have "authenticate demo_tx (demo_random 4) s = Inl (auth_failure Invalid_session)"
    by (rule conjunct1[OF after[OF refl], THEN bspec, THEN spec, THEN mp, THEN mp, OF r(1) _ r(3)]) (simp add: r(2) u)
  moreover have "reset_password demo_argon2 demo_tx (demo_random 7) ''battery staple'' s \<noteq> Inr ((), s)"
    using conjunct2[OF after[OF refl]] by blast
  ultimately show ?thesis using ask run by blast
qed

end
