(* ===== verification/Api_Text.thy ===== *)
theory Api_Text
  imports Auth Consistency
begin

text \<open>
  What \<^verbatim>\<open>apps/api/src/index.ts\<close> reads from and writes to the wire: the status and code an error is
  answered with, the session cookie, version tags, and pages. Texts are those of the model, so a cookie decodes
  to a text of represented characters or not at all.
\<close>

section \<open>Errors\<close>

primrec audit_code_text :: "audit_code \<Rightarrow> string" where
  "audit_code_text Unsafe_metadata = ''UNSAFE_METADATA''"
| "audit_code_text Invalid_event = ''INVALID_EVENT''"

primrec secret_code_text :: "secret_code \<Rightarrow> string" where
  "secret_code_text Secret_invalid_input = ''INVALID_INPUT''"
| "secret_code_text Key_convention = ''KEY_CONVENTION''"
| "secret_code_text Value_too_large = ''VALUE_TOO_LARGE''"
| "secret_code_text Key_exists = ''KEY_EXISTS''"
| "secret_code_text Version_conflict = ''VERSION_CONFLICT''"
| "secret_code_text Version_not_found = ''VERSION_NOT_FOUND''"
| "secret_code_text Secret_tag_not_found = ''TAG_NOT_FOUND''"
| "secret_code_text Secret_not_found = ''NOT_FOUND''"

primrec project_code_text :: "project_code \<Rightarrow> string" where
  "project_code_text Project_invalid_input = ''INVALID_INPUT''"
| "project_code_text Project_slug_exists = ''SLUG_EXISTS''"
| "project_code_text Project_not_found = ''NOT_FOUND''"
| "project_code_text Project_tag_not_found = ''TAG_NOT_FOUND''"
| "project_code_text Project_recovery_expired = ''RECOVERY_EXPIRED''"

primrec environment_code_text :: "environment_code \<Rightarrow> string" where
  "environment_code_text Environment_invalid_input = ''INVALID_INPUT''"
| "environment_code_text Environment_slug_exists = ''SLUG_EXISTS''"
| "environment_code_text Environment_not_found = ''NOT_FOUND''"
| "environment_code_text Last_environment = ''LAST_ENVIRONMENT''"
| "environment_code_text Secrets_require_confirmation = ''SECRETS_REQUIRE_CONFIRMATION''"
| "environment_code_text Order_mismatch = ''ORDER_MISMATCH''"
| "environment_code_text Environment_recovery_expired = ''RECOVERY_EXPIRED''"

primrec consistency_code_text :: "consistency_code \<Rightarrow> string" where
  "consistency_code_text Consistency_invalid_input = ''INVALID_INPUT''"
| "consistency_code_text Consistency_not_found = ''NOT_FOUND''"

primrec tenancy_code_text :: "tenancy_code \<Rightarrow> string" where
  "tenancy_code_text Tenancy_invalid_input = ''INVALID_INPUT''"
| "tenancy_code_text Tenancy_slug_exists = ''SLUG_EXISTS''"
| "tenancy_code_text Invitation_exists = ''INVITATION_EXISTS''"
| "tenancy_code_text Invitation_invalid = ''INVITATION_INVALID''"
| "tenancy_code_text Invitation_email_mismatch = ''INVITATION_EMAIL_MISMATCH''"
| "tenancy_code_text Already_member = ''ALREADY_MEMBER''"
| "tenancy_code_text Membership_required = ''MEMBERSHIP_REQUIRED''"
| "tenancy_code_text Invite_forbidden = ''INVITE_FORBIDDEN''"

primrec map_auth_error :: "auth_code \<Rightarrow> nat \<times> string" where
  "map_auth_error Invalid_csrf = (403, ''INVALID_CSRF'')"
| "map_auth_error Rate_limited = (429, ''RATE_LIMITED'')"
| "map_auth_error Email_exists = (409, ''EMAIL_EXISTS'')"
| "map_auth_error Auth_invalid_input = (400, ''INVALID_INPUT'')"
| "map_auth_error Invalid_token = (400, ''INVALID_TOKEN'')"
| "map_auth_error Email_not_verified = (403, ''EMAIL_NOT_VERIFIED'')"
| "map_auth_error Invalid_credentials = (401, ''INVALID_CREDENTIALS'')"
| "map_auth_error Invalid_session = (401, ''UNAUTHENTICATED'')"

definition ends_with :: "string \<Rightarrow> string \<Rightarrow> bool" where
  "ends_with e t \<longleftrightarrow> length e \<le> length t \<and> drop (length t - length e) t = e"

text \<open>The errors of projects, environments, secrets, consistency and audit are told apart by their codes.\<close>

definition map_service_error :: "string \<Rightarrow> nat \<times> string" where
  "map_service_error c =
     (if c = ''NOT_FOUND'' \<or> c = ''VERSION_NOT_FOUND'' then (404, c)
      else if ends_with ''EXISTS'' c \<or> c = ''VERSION_CONFLICT'' then (409, c)
      else (400, c))"

primrec map_api_key_error :: "api_key_code \<Rightarrow> nat \<times> string" where
  "map_api_key_error Api_key_not_found = (404, ''NOT_FOUND'')"
| "map_api_key_error Api_key_invalid_token = (401, ''UNAUTHENTICATED'')"
| "map_api_key_error Api_key_invalid_input = (400, ''INVALID_INPUT'')"

primrec map_error :: "error \<Rightarrow> nat \<times> string" where
  "map_error (Api_error status c) = (status, c)"
| "map_error (Authorization_error d) = (403, ''FORBIDDEN'')"
| "map_error (Auth_error c) = map_auth_error c"
| "map_error (Project_error c) = map_service_error (project_code_text c)"
| "map_error (Environment_error c) = map_service_error (environment_code_text c)"
| "map_error (Secret_error c) = map_service_error (secret_code_text c)"
| "map_error (Consistency_error c) = map_service_error (consistency_code_text c)"
| "map_error (Audit_error c) = map_service_error (audit_code_text c)"
| "map_error (Api_key_error c) = map_api_key_error c"
| "map_error (Tenancy_error c) = (if c = Membership_required then (403, ''FORBIDDEN'') else (400, tenancy_code_text c))"
| "map_error (Crypto_error c) = (500, ''INTERNAL_ERROR'')"
| "map_error Unique_violation = (409, ''CONFLICT'')"
| "map_error Internal_error = (500, ''INTERNAL_ERROR'')"

section \<open>The session cookie\<close>

definition hex_digit_value :: "char \<Rightarrow> nat option" where
  "hex_digit_value c = (if is_digit c then Some (code c - 48)
     else if 65 \<le> code c \<and> code c \<le> 70 then Some (code c - 55)
     else if 97 \<le> code c \<and> code c \<le> 102 then Some (code c - 87) else None)"

text \<open>\<^verbatim>\<open>decodeURIComponent\<close>: the characters that stand for themselves, and runs of escaped bytes.\<close>

fun uri_bytes :: "string \<Rightarrow> bytes option" where
  "uri_bytes [] = Some []"
| "uri_bytes (c # cs) =
     (if c = CHR ''%'' then
        (case cs of a # b # rest \<Rightarrow>
           (case (hex_digit_value a, hex_digit_value b) of
              (Some x, Some y) \<Rightarrow> map_option (\<lambda>bs. of_nat (16 * x + y) # bs) (uri_bytes rest)
            | _ \<Rightarrow> None)
         | _ \<Rightarrow> None)
      else map_option (\<lambda>bs. utf8_char c @ bs) (uri_bytes cs))"

definition decode_uri_component :: "string \<Rightarrow> string option" where
  "decode_uri_component t = (case uri_bytes t of None \<Rightarrow> None | Some bs \<Rightarrow> utf8_strict bs)"

abbreviation unauthenticated :: error where "unauthenticated \<equiv> Api_error 401 ''UNAUTHENTICATED''"

text \<open>The pairs of the header in order; the first with the name decides.\<close>

fun cookie_from :: "string list \<Rightarrow> string \<Rightarrow> error + string option" where
  "cookie_from [] name = Inr None"
| "cookie_from (pair # pairs) name =
     (if CHR ''='' \<notin> set pair \<or> trim (takeWhile (\<lambda>c. c \<noteq> CHR ''='') pair) \<noteq> name then cookie_from pairs name
      else (case decode_uri_component (trim (tl (dropWhile (\<lambda>c. c \<noteq> CHR ''='') pair))) of
              None \<Rightarrow> Inl unauthenticated | Some v \<Rightarrow> Inr (Some v)))"

definition cookie_value :: "string option \<Rightarrow> string \<Rightarrow> error + string option" where
  "cookie_value header name = (case header of None \<Rightarrow> Inr None | Some h \<Rightarrow> cookie_from (split_on (CHR '';'') h) name)"

section \<open>Version tags and pages\<close>

definition runtime_etag :: "int \<Rightarrow> string" where
  "runtime_etag configVersion = [CHR 0x22] @ ''himi-config-'' @ js_int configVersion @ [CHR 0x22]"

definition drop_weak :: "string \<Rightarrow> string" where
  "drop_weak t = (if starts_with ''W/'' t then drop 2 t else t)"

text \<open>\<^verbatim>\<open>/^(?:W\/)?"himi-config-(\d+)"$/\<close>, and the number if it is a safe integer\<close>

definition etag_version :: "string \<Rightarrow> int option" where
  "etag_version tag =
     (let t = drop_weak tag; digits = butlast (drop 13 t) in
      if starts_with ([CHR 0x22] @ ''himi-config-'') t \<and> 14 < length t \<and> last t = CHR 0x22 \<and> list_all is_digit digits
         \<and> is_safe_integer (int (nat_value digits))
      then Some (int (nat_value digits)) else None)"

definition parse_runtime_etags :: "string option \<Rightarrow> known_versions" where
  "parse_runtime_etags header = (case header of None \<Rightarrow> Known []
     | Some h \<Rightarrow> (let tags = map trim (split_on (CHR '','') h) in
         if ''*'' \<in> set tags then Known_any else Known (List.map_filter etag_version tags)))"

text \<open>\<^verbatim>\<open>If-Match\<close>: \<^verbatim>\<open>/^(?:W\/)?\"?(\d+)\"?$/\<close>\<close>

definition drop_quote :: "string \<Rightarrow> string" where
  "drop_quote t = (if t \<noteq> [] \<and> hd t = CHR 0x22 then tl t else t)"

definition if_match_version :: "string option \<Rightarrow> error + int option" where
  "if_match_version header = (case header of None \<Rightarrow> Inr None
     | Some h \<Rightarrow> (let digits = rev (drop_quote (rev (drop_quote (drop_weak (trim h))))) in
         if digits \<noteq> [] \<and> list_all is_digit digits then Inr (Some (int (nat_value digits)))
         else Inl (Api_error 400 ''INVALID_IF_MATCH'')))"

record page_query =
  pq_limit :: "nat option"
  pq_offset :: "nat option"
  pq_search :: "string option"
  pq_tag :: "uuid option"

definition pagination :: "page_query \<Rightarrow> nat \<times> nat" where
  "pagination q = ((case pq_limit q of None \<Rightarrow> 50 | Some n \<Rightarrow> n), (case pq_offset q of None \<Rightarrow> 0 | Some n \<Rightarrow> n))"

record 'a page_of =
  pg_data :: "'a list"
  pg_limit :: nat
  pg_offset :: nat
  pg_total :: nat

definition paginated :: "'a list \<Rightarrow> page_query \<Rightarrow> 'a page_of" where
  "paginated all query = (case pagination query of (limit, offset) \<Rightarrow>
     \<lparr>pg_data = take limit (drop offset all), pg_limit = limit, pg_offset = offset, pg_total = length all\<rparr>)"

section \<open>Cookies come back\<close>

definition upper_hex :: "nat \<Rightarrow> char" where
  "upper_hex d = (if d < 10 then chr (48 + d) else chr (55 + d))"

lemma upper_hex_value:
  assumes "d < 16"
  shows "js_upper [hex_digit d] = [upper_hex d]" and "hex_digit_value (upper_hex d) = Some d"
    and "is_digit (upper_hex d) \<or> is_alpha (upper_hex d)"
  using assms
  by (auto simp: js_upper_def upper_char_def hex_digit_def upper_hex_def hex_digit_value_def is_digit_def is_alpha_def is_upper_def
      is_lower_def)

lemma nibbles: "unat b div 16 < 16" "unat b mod 16 < 16" for b :: byte
proof -
  have "unat b < 256" by (rule order_less_le_trans[OF unsigned_less]) simp
  then show "unat b div 16 < 16" "unat b mod 16 < 16" by simp_all
qed

lemma percent_byte_text: "percent_byte b = [CHR ''%'', upper_hex (unat b div 16), upper_hex (unat b mod 16)]"
proof -
  note b = nibbles[of b]
  have "js_upper [x, y] = js_upper [x] @ js_upper [y]" for x y by (simp add: js_upper_def)
  then show ?thesis by (simp add: percent_byte_def hex_text_def upper_hex_value(1)[OF b(1)] upper_hex_value(1)[OF b(2)])
qed

lemma uri_bytes_percent: "uri_bytes (percent_byte b @ x) = map_option (Cons b) (uri_bytes x)"
proof -
  note b = nibbles[of b]
  have "of_nat (16 * (unat b div 16) + unat b mod 16) = b" by simp
  then show ?thesis unfolding percent_byte_text by (simp add: upper_hex_value(2)[OF b(1)] upper_hex_value(2)[OF b(2)])
qed

lemma uri_bytes_percents: "uri_bytes (concat (map percent_byte bs) @ x) = map_option ((@) bs) (uri_bytes x)"
proof (induction bs)
  case Nil
  show ?case by (cases "uri_bytes x") simp_all
next
  case (Cons b bs)
  show ?case using Cons uri_bytes_percent[of b "concat (map percent_byte bs) @ x"] by (simp add: option.map_comp comp_def)
qed

lemma percent_reserved: "\<not> uri_unreserved (CHR ''%'')"
  by (simp add: uri_unreserved_def is_alpha_def is_digit_def is_upper_def is_lower_def)

lemma uri_bytes_encode: "uri_bytes (encode_uri_component t) = Some (utf8 t)"
proof (induction t)
  case (Cons c t)
  have "c \<noteq> CHR ''%''" if "uri_unreserved c" using that percent_reserved by auto
  then show ?case
    using Cons uri_bytes_percents[of "utf8_char c" "encode_uri_component t"] by (auto simp: encode_uri_component_def utf8_def)
qed (simp add: encode_uri_component_def utf8_def)

lemma decode_encode: "decode_uri_component (encode_uri_component t) = Some t"
  by (simp add: decode_uri_component_def uri_bytes_encode)

lemma encode_chars:
  assumes "c \<in> set (encode_uri_component t)"
  shows "c \<noteq> CHR '';''" and "\<not> is_ws c"
proof -
  have c: "uri_unreserved c \<or> c = CHR ''%'' \<or> (\<exists>b. c \<in> set (percent_byte b))"
    using assms by (auto simp: encode_uri_component_def split: if_splits)
  have p: "c = CHR ''%'' \<or> is_digit c \<or> is_alpha c" if "c \<in> set (percent_byte b)" for b
  proof -
    show ?thesis using that upper_hex_value(3)[OF nibbles(1)[of b]] upper_hex_value(3)[OF nibbles(2)[of b]] unfolding percent_byte_text by auto
  qed
  have "uri_unreserved c \<or> c = CHR ''%'' \<or> is_digit c \<or> is_alpha c" using c p by blast
  then show "c \<noteq> CHR '';''" "\<not> is_ws c"
    by (auto simp: uri_unreserved_def is_alpha_def is_digit_def is_upper_def is_lower_def is_ws_def)
qed

text \<open>What a browser keeps of a \<^verbatim>\<open>Set-Cookie\<close> header, and the \<^verbatim>\<open>Cookie\<close> header it sends.\<close>

definition kept_cookie :: "string \<Rightarrow> string" where
  "kept_cookie header = takeWhile (\<lambda>c. c \<noteq> CHR '';'') header"

definition sent_cookies :: "string list \<Rightarrow> string" where
  "sent_cookies pairs = join ''; '' pairs"

definition names :: "string \<Rightarrow> string \<Rightarrow> bool" where
  "names pair name \<longleftrightarrow> CHR ''='' \<in> set pair \<and> trim (takeWhile (\<lambda>c. c \<noteq> CHR ''='') pair) = name"

lemma kept_serialized:
  assumes "CHR '';'' \<notin> set name"
  shows "kept_cookie (serialize_cookie name content httpOnly maxAge secure) = name @ ''='' @ encode_uri_component content"
proof -
  obtain rest where r: "serialize_cookie name content httpOnly maxAge secure = (name @ ''='' @ encode_uri_component content) @ CHR '';'' # rest"
    by (auto simp: serialize_cookie_def)
  have "CHR '';'' \<notin> set (name @ ''='' @ encode_uri_component content)" using assms encode_chars(1)[of _ content] by auto
  then show ?thesis unfolding kept_cookie_def r by (subst takeWhile_append2) auto
qed

lemma split_sent:
  assumes "\<And>p. p \<in> set (p0 # ps) \<Longrightarrow> CHR '';'' \<notin> set p"
  shows "split_on (CHR '';'') (sent_cookies (p0 # ps)) = p0 # map (Cons (CHR '' '')) ps"
  using assms
proof (induction ps arbitrary: p0)
  case Nil
  then show ?case by (simp add: sent_cookies_def split_on_no_sep)
next
  case (Cons p1 ps)
  have "split_on (CHR '';'') (sent_cookies (p1 # ps)) = p1 # map (Cons (CHR '' '')) ps" by (rule Cons.IH) (use Cons.prems in auto)
  then have "split_on (CHR '';'') (CHR '' '' # sent_cookies (p1 # ps)) = (CHR '' '' # p1) # map (Cons (CHR '' '')) ps" by simp
  then show ?case using Cons.prems by (simp add: sent_cookies_def split_on_append)
qed

lemma trim_space: "trim (CHR '' '' # t) = trim t"
  by (simp add: trim_def trim_start_def is_ws_def)

lemma names_space: "names (CHR '' '' # p) name \<longleftrightarrow> names p name"
  by (simp add: names_def trim_space)

lemma cookie_from_names:
  "cookie_from (p # ps) name = (if names p name
     then (case decode_uri_component (trim (tl (dropWhile (\<lambda>c. c \<noteq> CHR ''='') p))) of None \<Rightarrow> Inl unauthenticated | Some v \<Rightarrow> Inr (Some v))
     else cookie_from ps name)"
  by (simp add: names_def)

lemma cookie_from_skip: "\<forall>p\<in>set ps. \<not> names p name \<Longrightarrow> cookie_from (ps @ qs) name = cookie_from qs name"
  by (induction ps) (simp_all only: append_Nil append_Cons cookie_from_names, auto)

lemma cookie_from_own:
  assumes "CHR ''='' \<notin> set name" and "trim name = name" and "sp = [] \<or> sp = '' ''"
  shows "names (sp @ name @ ''='' @ encode_uri_component v) name"
    and "cookie_from ((sp @ name @ ''='' @ encode_uri_component v) # ps) name = Inr (Some v)"
proof -
  have sp: "CHR ''='' \<notin> set (sp @ name)" "trim (sp @ name) = name" using assms trim_space by auto
  then show n: "names (sp @ name @ ''='' @ encode_uri_component v) name"
  proof -
    have "takeWhile (\<lambda>c. c \<noteq> CHR ''='') ((sp @ name) @ CHR ''='' # encode_uri_component v) = sp @ name"
      using sp(1) by (subst takeWhile_append2) auto
    then show ?thesis using sp(2) by (simp add: names_def)
  qed
  have "dropWhile (\<lambda>c. c \<noteq> CHR ''='') ((sp @ name) @ ''='' @ encode_uri_component v) = ''='' @ encode_uri_component v"
    using sp(1) by (subst dropWhile_append2) auto
  moreover have "trim (encode_uri_component v) = encode_uri_component v" using encode_chars(2) by (rule trim_no_ws)
  ultimately show "cookie_from ((sp @ name @ ''='' @ encode_uri_component v) # ps) name = Inr (Some v)"
    unfolding cookie_from_names using n by (simp add: decode_encode)
qed

lemma cookie_value_own:
  assumes own: "\<And>p. p \<in> set (before @ after) \<Longrightarrow> CHR '';'' \<notin> set p" and other: "\<And>p. p \<in> set before \<Longrightarrow> \<not> names p name"
    and name: "CHR ''='' \<notin> set name" "trim name = name" "CHR '';'' \<notin> set name"
  shows "cookie_value (Some (sent_cookies (before @ (name @ ''='' @ encode_uri_component v) # after))) name = Inr (Some v)"
proof -
  let ?own = "name @ ''='' @ encode_uri_component v"
  have s: "CHR '';'' \<notin> set ?own" using name(3) encode_chars(1)[of _ v] by auto
  show ?thesis
  proof (cases before)
    case Nil
    have "split_on (CHR '';'') (sent_cookies (?own # after)) = ?own # map (Cons (CHR '' '')) after"
      by (rule split_sent) (use own s Nil in auto)
    then show ?thesis using cookie_from_own(2)[OF name(1,2), of "[]" v] Nil by (simp add: cookie_value_def)
  next
    case (Cons p0 ps)
    have "split_on (CHR '';'') (sent_cookies (p0 # (ps @ ?own # after))) = p0 # map (Cons (CHR '' '')) (ps @ ?own # after)"
      by (rule split_sent) (use own s Cons in auto)
    then have "cookie_value (Some (sent_cookies (before @ ?own # after))) name
        = cookie_from ((p0 # map (Cons (CHR '' '')) ps) @ ('' '' @ ?own) # map (Cons (CHR '' '')) after) name"
      by (simp add: cookie_value_def Cons)
    also have "\<dots> = cookie_from (('' '' @ ?own) # map (Cons (CHR '' '')) after) name"
      by (rule cookie_from_skip) (use other Cons in \<open>auto simp: names_space\<close>)
    also have "\<dots> = Inr (Some v)" using cookie_from_own(2)[OF name(1,2), of "'' ''" v] by simp
    finally show ?thesis .
  qed
qed

lemma profile_names:
  assumes "profile = secure_cookie_profile \<or> profile = insecure_cookie_profile" and "n \<in> {cp_session profile, cp_csrf profile}"
  shows "CHR ''='' \<notin> set n" "trim n = n" "CHR '';'' \<notin> set n"
proof -
  have n: "n \<in> {''__Host-himitsu_session'', ''__Host-himitsu_csrf'', ''himitsu_session'', ''himitsu_csrf''}"
    using assms by (auto simp: secure_cookie_profile_def insecure_cookie_profile_def)
  then show "CHR ''='' \<notin> set n" "CHR '';'' \<notin> set n" by auto
  show "trim n = n" by (rule trim_no_ws) (use n in \<open>auto simp: is_ws_def\<close>)
qed



end
