(* ===== verification/Api_Guards.thy ===== *)
theory Api_Guards
  imports Api_Text Members
begin

text \<open>
  What every request passes before its handler runs, in \<^verbatim>\<open>apps/api/src/index.ts\<close>: the credential of the request
  (\<^verbatim>\<open>authenticateRequest\<close>, \<^verbatim>\<open>sessionFromRequest\<close>), the rate limits of the \<^verbatim>\<open>onRequest\<close> hook, and inside the
  tenant transaction the scope of an API key and the permission of the route. Credentials are checked outside
  of the transaction, and what a check has written stays: \<open>authenticate_request\<close> returns the database with every
  result.
\<close>

section \<open>Requests\<close>

text \<open>
  The matched route with its parameters, the members of the body the guards look at (absent and \<^verbatim>\<open>null\<close> are the
  same to them), and the headers.
\<close>

record api_request =
  rq_method :: string
  rq_route :: string
  rq_operation :: "string option"
  rq_project :: "uuid option"
  rq_environment :: "uuid option"
  rq_secret :: "uuid option"
  rq_body_project :: "uuid option"
  rq_body_environment :: "uuid option"
  rq_body_source :: "uuid option"
  rq_authorization :: "string option"
  rq_cookie :: "string option"
  rq_csrf :: "string option"
  rq_ip :: string
  rq_agent :: "string option"

definition client_of :: "api_request \<Rightarrow> client_details" where
  "client_of q = \<lparr>cd_ip = Some (rq_ip q), cd_agent = rq_agent q\<rparr>"

definition is_unsafe_method :: "string \<Rightarrow> bool" where
  "is_unsafe_method m \<longleftrightarrow> m \<notin> set [''GET'', ''HEAD'', ''OPTIONS'']"

definition is_read_operation :: "api_request \<Rightarrow> bool" where
  "is_read_operation q \<longleftrightarrow> rq_method q = ''GET'' \<or> rq_method q = ''HEAD'' \<or> ends_with ''/secrets/bulk-get'' (rq_route q)"

section \<open>Credentials\<close>

definition session_token_from_request :: "cookie_profile \<Rightarrow> api_request \<Rightarrow> error + string option" where
  "session_token_from_request profile q =
     and_ok (cookie_value (rq_cookie q) (cp_session profile)) (\<lambda>token.
     if token \<noteq> None \<or> cp_session profile = cp_session secure_cookie_profile then Inr token
     else cookie_value (rq_cookie q) (cp_session secure_cookie_profile))"

text \<open>\<^verbatim>\<open>/^Bearer ([^\s]+)$/i\<close>\<close>

definition bearer_token :: "string \<Rightarrow> string option" where
  "bearer_token h = (let t = drop 7 h in
     if js_lower (take 7 h) = ''bearer '' \<and> t \<noteq> [] \<and> list_all (\<lambda>c. \<not> is_ws c) t then Some t else None)"

datatype api_actor = Session_actor uuid uuid | Key_actor uuid string

record api_context =
  ax_org :: uuid
  ax_user :: uuid
  ax_actor :: api_actor
  ax_key :: "principal option"

definition key_context :: "principal \<Rightarrow> api_context" where
  "key_context p = \<lparr>ax_org = pr_org p, ax_user = pr_user p, ax_actor = Key_actor (pr_key p) (pr_prefix p), ax_key = Some p\<rparr>"

definition session_context :: "authenticated_session \<Rightarrow> uuid \<Rightarrow> api_context" where
  "session_context session orgId = \<lparr>ax_org = orgId, ax_user = as_user session,
     ax_actor = Session_actor (as_user session) (as_session session), ax_key = None\<rparr>"

primrec auth_code_text :: "auth_code \<Rightarrow> string" where
  "auth_code_text Auth_invalid_input = ''INVALID_INPUT''"
| "auth_code_text Email_exists = ''EMAIL_EXISTS''"
| "auth_code_text Invalid_credentials = ''INVALID_CREDENTIALS''"
| "auth_code_text Email_not_verified = ''EMAIL_NOT_VERIFIED''"
| "auth_code_text Invalid_token = ''INVALID_TOKEN''"
| "auth_code_text Invalid_session = ''INVALID_SESSION''"
| "auth_code_text Invalid_csrf = ''INVALID_CSRF''"
| "auth_code_text Rate_limited = ''RATE_LIMITED''"

definition csrf_checked :: "platform \<Rightarrow> api_request \<Rightarrow> authenticated_session \<Rightarrow> error + unit" where
  "csrf_checked P q session = (case rq_csrf q of None \<Rightarrow> Inl (auth_failure Invalid_csrf)
     | Some csrf \<Rightarrow> verify_csrf P session csrf)"

definition session_admitted :: "platform \<Rightarrow> api_request \<Rightarrow> authenticated_session \<Rightarrow> error + api_context" where
  "session_admitted P q session = (case as_active_org session of None \<Rightarrow> Inl (auth_failure Invalid_session)
     | Some orgId \<Rightarrow> and_ok (if is_unsafe_method (rq_method q) then csrf_checked P q session else Inr ())
         (\<lambda>_. Inr (session_context session orgId)))"

definition failed_session_event :: "api_request \<Rightarrow> auth_code \<Rightarrow> uuid \<times> uuid \<times> uuid \<Rightarrow> audit_event" where
  "failed_session_event q c = (\<lambda>(sessionId, userId, orgId).
     (user_event orgId userId Auth_login_failed ''session'' sessionId)
       \<lparr>event_ip := cd_ip (client_of q), event_user_agent := cd_agent (client_of q),
        event_details := Some [(''method'', JStr ''session''), (''reason'', JStr (auth_code_text c))]\<rparr>)"

text \<open>The event of a refused session; when it cannot be written the request is refused all the same.\<close>

definition record_failed_session :: "transaction \<Rightarrow> api_request \<Rightarrow> string \<Rightarrow> error \<Rightarrow> db \<Rightarrow> db" where
  "record_failed_session C q token e s = (case e of
     Auth_error c \<Rightarrow>
       (case failed_session_context C token s of None \<Rightarrow> s
        | Some (sessionId, userId, orgId) \<Rightarrow>
            (case with_org C orgId userId
               (\<lambda>T. record_in_transaction T (failed_session_event q c (sessionId, userId, orgId))) s of
               Inl _ \<Rightarrow> s | Inr (_, s') \<Rightarrow> s'))
   | _ \<Rightarrow> s)"

definition authenticate_session :: "transaction \<Rightarrow> api_request \<Rightarrow> string \<Rightarrow> db \<Rightarrow> (error + api_context) \<times> db" where
  "authenticate_session C q token s =
     (case authenticate C token s of
        Inl e \<Rightarrow> (Inl e, record_failed_session C q token e s)
      | Inr (session, s1) \<Rightarrow>
          (case session_admitted (tx_platform C) q session of
             Inl e \<Rightarrow> (Inl e, record_failed_session C q token e s1)
           | Inr ctx \<Rightarrow> (Inr ctx, s1)))"

definition authenticate_request ::
  "transaction \<Rightarrow> cookie_profile \<Rightarrow> api_request \<Rightarrow> db \<Rightarrow> (error + api_context) \<times> db" where
  "authenticate_request C profile q s =
     (case session_token_from_request profile q of Inl e \<Rightarrow> (Inl e, s)
      | Inr sessionToken \<Rightarrow>
        (case rq_authorization q of
           Some authorization \<Rightarrow>
             if sessionToken \<noteq> None then (Inl unauthenticated, s)
             else (case bearer_token authorization of None \<Rightarrow> (Inl unauthenticated, s)
               | Some bearer \<Rightarrow> (case authenticate_key C bearer (client_of q) s of
                   (Inl e, s') \<Rightarrow> (Inl e, s')
                 | (Inr p, s') \<Rightarrow> (Inr (key_context p), s')))
         | None \<Rightarrow> (case sessionToken of None \<Rightarrow> (Inl unauthenticated, s)
             | Some token \<Rightarrow> authenticate_session C q token s)))"

text \<open>The handlers that authenticate themselves.\<close>

definition session_from_request ::
  "transaction \<Rightarrow> cookie_profile \<Rightarrow> bool \<Rightarrow> api_request \<Rightarrow> db \<Rightarrow> (error + authenticated_session) \<times> db" where
  "session_from_request C profile csrf q s =
     (case session_token_from_request profile q of Inl e \<Rightarrow> (Inl e, s)
      | Inr None \<Rightarrow> (Inl unauthenticated, s)
      | Inr (Some token) \<Rightarrow>
          (case authenticate C token s of Inl e \<Rightarrow> (Inl e, s)
           | Inr (session, s1) \<Rightarrow>
               (case (if csrf then csrf_checked (tx_platform C) q session else Inr ()) of
                  Inl e \<Rightarrow> (Inl e, s1) | Inr _ \<Rightarrow> (Inr session, s1))))"

section \<open>The hook of every request\<close>

definition open_paths :: "string list" where
  "open_paths = [''/api/v1/openapi.json'', ''/health/live'', ''/health/ready'', ''/metrics'']"

definition self_authenticated_paths :: "string list" where
  "self_authenticated_paths = [''/api/v1/cli/login'', ''/api/v1/auth/signup'', ''/api/v1/auth/login'', ''/api/v1/auth/logout'',
     ''/api/v1/auth/verify-email'', ''/api/v1/auth/resend-verification'', ''/api/v1/auth/password-reset'',
     ''/api/v1/auth/password-reset/confirm'', ''/api/v1/session'', ''/api/v1/session/organization'',
     ''/api/v1/organizations'', ''/api/v1/invitations/accept'']"

text \<open>The limiter reads its clock for the address and once more for the key.\<close>

definition on_request ::
  "transaction \<Rightarrow> cookie_profile \<Rightarrow> int \<times> int \<Rightarrow> api_request \<Rightarrow> rate_limiter \<Rightarrow> db \<Rightarrow>
     (error + api_context option) \<times> rate_limiter \<times> db" where
  "on_request C profile instants q l s =
     (if rq_route q \<in> set open_paths then (Inr None, l, s)
      else case consume (fst instants) By_ip (rq_ip q) l of (byIp, l1) \<Rightarrow>
        (case apply_rate_limit byIp of Inl e \<Rightarrow> (Inl e, l1, s)
         | Inr _ \<Rightarrow>
             if rq_route q \<in> set self_authenticated_paths then (Inr None, l1, s)
             else case authenticate_request C profile q s of
               (Inl e, s1) \<Rightarrow> (Inl e, l1, s1)
             | (Inr ctx, s1) \<Rightarrow>
                 (case ax_key ctx of None \<Rightarrow> (Inr (Some ctx), l1, s1)
                  | Some p \<Rightarrow> (case consume (snd instants) By_api_key (pr_key p) l1 of (byKey, l2) \<Rightarrow>
                      (case apply_rate_limit byKey of Inl e \<Rightarrow> (Inl e, l2, s1) | Inr _ \<Rightarrow> (Inr (Some ctx), l2, s1))))))"

section \<open>The scope of an API key\<close>

abbreviation scope_forbidden :: error where "scope_forbidden \<equiv> Api_error 403 ''API_SCOPE_FORBIDDEN''"

definition organization_route :: "string \<Rightarrow> bool" where
  "organization_route route \<longleftrightarrow> starts_with ''/api/v1/tags'' route \<or> starts_with ''/api/v1/api-keys'' route
     \<or> starts_with ''/api/v1/audit'' route"

definition promotion_operation :: "api_request \<Rightarrow> bool" where
  "promotion_operation q \<longleftrightarrow> rq_operation q \<in> {Some ''previewSecretPromotion'', Some ''promoteSecrets''}"

text \<open>A scoped secret that is not found is left to the handler.\<close>

definition secret_in_scope :: "transaction \<Rightarrow> uuid \<Rightarrow> uuid option \<Rightarrow> uuid \<Rightarrow> unit db_op" where
  "secret_in_scope T projectId environmentId secretId =
     bind (select_rows s_org db_secrets T (\<lambda>r. s_id r = secretId \<and> s_deleted r = None)) (\<lambda>rows.
     case first_row rows of None \<Rightarrow> ret ()
     | Some r \<Rightarrow> check (s_project r = projectId \<and> (environmentId = None \<or> environmentId = Some (s_environment r))) scope_forbidden)"

definition outside :: "uuid option \<Rightarrow> uuid option \<Rightarrow> bool" where
  "outside scope named \<longleftrightarrow> scope \<noteq> None \<and> named \<noteq> None \<and> named \<noteq> scope"

definition enforce_project_scope :: "transaction \<Rightarrow> api_request \<Rightarrow> uuid \<Rightarrow> uuid option \<Rightarrow> unit db_op" where
  "enforce_project_scope T q projectId environmentId =
     andthen (check (\<not> organization_route (rq_route q)) scope_forbidden)
    (andthen (check (\<not> outside (Some projectId) (rq_project q)) scope_forbidden)
    (andthen (check (\<not> outside environmentId (rq_environment q)) scope_forbidden)
    (andthen (check (\<not> (environmentId \<noteq> None \<and> promotion_operation q \<and> rq_body_source q \<noteq> environmentId)) scope_forbidden)
    (case rq_secret q of
       Some secretId \<Rightarrow> secret_in_scope T projectId environmentId secretId
     | None \<Rightarrow>
         if rq_route q = ''/api/v1/projects'' \<and> rq_method q = ''GET'' then ret ()
         else andthen (check (rq_project q \<noteq> None) scope_forbidden)
           (check (\<not> (environmentId \<noteq> None \<and> rq_environment q = None \<and> is_unsafe_method (rq_method q))) scope_forbidden)))))"

definition enforce_api_key_scope :: "transaction \<Rightarrow> api_request \<Rightarrow> api_context \<Rightarrow> unit db_op" where
  "enforce_api_key_scope T q ctx = (case ax_key ctx of None \<Rightarrow> ret ()
     | Some p \<Rightarrow>
         andthen (check (\<not> (pr_access p = Access_read_only \<and> \<not> is_read_operation q)) scope_forbidden)
         (case pr_project p of None \<Rightarrow> ret ()
          | Some projectId \<Rightarrow> enforce_project_scope T q projectId (pr_environment p)))"

section \<open>The permission of a route\<close>

definition api_route_permissions :: "(string \<times> permission) list" where
  "api_route_permissions = [
     (''getOrganization'', Org_settings_read), (''updateOrganization'', Org_settings_update),
     (''listMembers'', Org_members_read), (''updateMember'', Org_members_manage), (''removeMember'', Org_members_manage),
     (''listInvitations'', Org_members_read), (''inviteMember'', Org_members_invite), (''revokeInvitation'', Org_members_invite),
     (''listProjects'', Project_read), (''createProject'', Project_create), (''getProject'', Project_read),
     (''updateProject'', Project_update), (''deleteProject'', Project_delete), (''getProjectConsistency'', Secret_read),
     (''listAuditEvents'', Audit_read), (''exportAuditEvents'', Audit_export), (''getAuditSettings'', Audit_read),
     (''updateAuditSettings'', Org_settings_update),
     (''listEnvironments'', Environment_read), (''createEnvironment'', Environment_create),
     (''reorderEnvironments'', Environment_update), (''getEnvironment'', Environment_read),
     (''updateEnvironment'', Environment_update), (''deleteEnvironment'', Environment_delete),
     (''listSecrets'', Secret_read), (''createSecret'', Secret_write), (''bulkSetSecrets'', Secret_write),
     (''bulkGetSecrets'', Secret_read), (''fetchRuntimeSecrets'', Secret_read), (''exportSecrets'', Secret_read),
     (''previewSecretPromotion'', Secret_write), (''promoteSecrets'', Secret_write), (''getSecret'', Secret_read),
     (''updateSecret'', Secret_write), (''deleteSecret'', Secret_delete), (''listSecretVersions'', Secret_read),
     (''compareSecretVersions'', Secret_read), (''rollbackSecretVersion'', Secret_write),
     (''previewDotenvImport'', Secret_write), (''commitDotenvImport'', Secret_write),
     (''previewJsonImport'', Secret_write), (''commitJsonImport'', Secret_write),
     (''listTags'', Org_settings_read), (''createTag'', Org_settings_update), (''updateTag'', Org_settings_update),
     (''mergeTag'', Org_settings_update), (''deleteTag'', Org_settings_update),
     (''listApiKeys'', Api_key_read), (''createApiKey'', Api_key_create), (''revokeApiKey'', Api_key_revoke)]"

definition route_permission :: "api_request \<Rightarrow> permission option" where
  "route_permission q = (case rq_operation q of None \<Rightarrow> None | Some operationId \<Rightarrow> map_of api_route_permissions operationId)"

text \<open>The project the permission is asked for and whether the environment is protected.\<close>

definition environment_policy :: "transaction \<Rightarrow> uuid \<Rightarrow> uuid option \<Rightarrow> (uuid option \<times> bool) db_op" where
  "environment_policy T environmentId projectId =
     bind (select_rows e_org db_environments T (\<lambda>e. e_id e = environmentId \<and> e_deleted e = None)) (\<lambda>rows.
     ret (case first_row rows of None \<Rightarrow> (projectId, False) | Some e \<Rightarrow> (Some (e_project e), e_protected e)))"

text \<open>\<^verbatim>\<open>FROM secrets secret JOIN environments environment ON environment.id = secret.environment_id\<close>\<close>

definition secret_environments :: "transaction \<Rightarrow> uuid \<Rightarrow> db \<Rightarrow> (secret_row \<times> environment_row) list" where
  "secret_environments T secretId s =
     concat (map (\<lambda>r. map (\<lambda>e. (r, e)) (filter (\<lambda>e. e_id e = s_environment r \<and> e_deleted e = None)
         (visible e_org T (db_environments s))))
       (filter (\<lambda>r. s_id r = secretId \<and> s_deleted r = None) (visible s_org T (db_secrets s))))"

definition request_policy :: "transaction \<Rightarrow> api_request \<Rightarrow> (uuid option \<times> bool) db_op" where
  "request_policy T q =
     (case rq_secret q of
        Some secretId \<Rightarrow> bind (reads (secret_environments T secretId)) (\<lambda>rows.
          ret (case first_row rows of None \<Rightarrow> (None, False) | Some (r, e) \<Rightarrow> (Some (s_project r), e_protected e)))
      | None \<Rightarrow>
        (case rq_environment q of
           Some environmentId \<Rightarrow> environment_policy T environmentId (rq_project q)
         | None \<Rightarrow>
             if rq_operation q = Some ''createApiKey''
             then (case rq_body_environment q of None \<Rightarrow> ret (rq_body_project q, False)
                   | Some environmentId \<Rightarrow> environment_policy T environmentId (rq_body_project q))
             else ret (rq_project q, False)))"

definition enforce_route_permission :: "transaction \<Rightarrow> api_request \<Rightarrow> api_context \<Rightarrow> unit db_op" where
  "enforce_route_permission T q ctx =
     bind (from_option (Api_error 500 ''AUTHORIZATION_POLICY_MISSING'') (route_permission q)) (\<lambda>p.
     bind (request_policy T q) (\<lambda>(projectId, protectedEnvironment).
     permit T (ax_user ctx) projectId protectedEnvironment p))"

section \<open>The tenant transaction of a request\<close>

definition with_tenant ::
  "transaction \<Rightarrow> api_request \<Rightarrow> api_context \<Rightarrow> (transaction \<Rightarrow> 'a db_op) \<Rightarrow> 'a db_op" where
  "with_tenant C q ctx work = with_org C (ax_org ctx) (ax_user ctx) (\<lambda>T.
     andthen (enforce_api_key_scope T q ctx)
    (andthen (enforce_route_permission T q ctx)
     (work T)))"

end
