(* ===== verification/Tags.thy ===== *)
theory Tags
  imports Api_Text Contracts
begin

text \<open>
  The tag handlers of \<^verbatim>\<open>registerTagRoutes\<close> in \<^verbatim>\<open>apps/api/src/index.ts\<close>: the statements they run
  inside \<^verbatim>\<open>withTenant\<close>, with the foreign keys that delete the uses of a deleted tag.
\<close>

record tag_view =
  tv_id :: uuid
  tv_name :: string
  tv_color :: string
  tv_created :: time
  tv_updated :: time

definition tag_from_row :: "tag_row \<Rightarrow> tag_view" where
  "tag_from_row t = \<lparr>tv_id = t_id t, tv_name = t_name t, tv_color = t_color t,
     tv_created = to_date (t_created t), tv_updated = to_date (t_updated t)\<rparr>"

definition tag_name :: "string \<Rightarrow> error + string" where
  "tag_name name = (let normalized = trim name in
     if length normalized < 1 \<or> 80 < length normalized then Inl (Api_error 400 ''INVALID_INPUT'') else Inr normalized)"

abbreviation tag_not_found :: error where "tag_not_found \<equiv> Api_error 404 ''NOT_FOUND''"

definition tag_order :: "platform \<Rightarrow> tag_row \<Rightarrow> tag_row \<Rightarrow> bool" where
  "tag_order P a b = (if db_lower P (t_name a) = db_lower P (t_name b) then t_id a \<le> t_id b
     else collate_le P (db_lower P (t_name a)) (db_lower P (t_name b)))"

definition list_tags :: "transaction \<Rightarrow> uuid \<Rightarrow> page_query \<Rightarrow> tag_view page_of db_op" where
  "list_tags T userId query =
     andthen (permit T userId None False Org_settings_read)
    (bind (select_rows t_org db_tags T (\<lambda>t. True)) (\<lambda>rows.
     case pagination query of (limit, offset) \<Rightarrow>
       ret \<lparr>pg_data = map tag_from_row (take limit (drop offset (sort_by (tag_order (tx_platform T)) rows))),
            pg_limit = limit, pg_offset = offset, pg_total = length rows\<rparr>))"

definition create_tag :: "transaction \<Rightarrow> uuid \<Rightarrow> string \<Rightarrow> string \<Rightarrow> tag_view db_op" where
  "create_tag T userId name color =
     andthen (permit T userId None False Org_settings_update)
    (bind (lift_sum (tag_name name)) (\<lambda>n.
     bind (fresh_uuid T) (\<lambda>tagId.
     let t = \<lparr>t_id = tagId, t_org = tx_org T, t_name = n, t_color = js_upper color, t_created = tx_now T, t_updated = tx_now T\<rparr> in
     andthen (insert_row t_org db_tags db_tags_update tag_clash T t) (ret (tag_from_row t)))))"

definition changed_name :: "string option \<Rightarrow> error + string option" where
  "changed_name name = (case name of None \<Rightarrow> Inr None | Some n \<Rightarrow> and_ok (tag_name n) (\<lambda>v. Inr (Some v)))"

definition retag :: "time \<Rightarrow> string option \<Rightarrow> string option \<Rightarrow> tag_row \<Rightarrow> tag_row" where
  "retag instant name color t = t\<lparr>t_name := (case name of None \<Rightarrow> t_name t | Some n \<Rightarrow> n),
     t_color := (case color of None \<Rightarrow> t_color t | Some c \<Rightarrow> js_upper c), t_updated := instant\<rparr>"

definition update_tag :: "transaction \<Rightarrow> uuid \<Rightarrow> uuid \<Rightarrow> string option \<Rightarrow> string option \<Rightarrow> tag_view db_op" where
  "update_tag T userId tagId name color =
     andthen (permit T userId None False Org_settings_update)
    (bind (lift_sum (changed_name name)) (\<lambda>n.
     bind (select_rows t_org db_tags T (\<lambda>t. t_id t = tagId)) (\<lambda>rows.
     andthen (update_unique t_org db_tags db_tags_update (\<lambda>t. (t_org t, t_name t)) T (\<lambda>t. t_id t = tagId) (retag (tx_now T) n color))
    (bind (from_option tag_not_found (first_row rows)) (\<lambda>row. ret (tag_from_row (retag (tx_now T) n color row)))))))"

text \<open>\<^verbatim>\<open>INSERT ... ON CONFLICT DO NOTHING\<close>, one row after the other\<close>

definition insert_ignoring :: "('r \<Rightarrow> 'r \<Rightarrow> bool) \<Rightarrow> 'r \<Rightarrow> 'r list \<Rightarrow> 'r list" where
  "insert_ignoring clash r rows = (if list_ex (clash r) rows then rows else rows @ [r])"

definition copy_secret_tags :: "transaction \<Rightarrow> uuid \<Rightarrow> uuid \<Rightarrow> secret_tag_row list \<Rightarrow> secret_tag_row list" where
  "copy_secret_tags T sourceId targetId rows = fold (insert_ignoring secret_tag_clash)
     (map (\<lambda>r. r\<lparr>st_tag := targetId\<rparr>) (filter (\<lambda>r. st_tag r = sourceId) (visible st_org T rows))) rows"

definition copy_project_tags :: "transaction \<Rightarrow> uuid \<Rightarrow> uuid \<Rightarrow> project_tag_row list \<Rightarrow> project_tag_row list" where
  "copy_project_tags T sourceId targetId rows = fold (insert_ignoring project_tag_clash)
     (map (\<lambda>r. r\<lparr>pt_tag := targetId\<rparr>) (filter (\<lambda>r. pt_tag r = sourceId) (visible pt_org T rows))) rows"

text \<open>The deletion of a tag deletes its uses.\<close>

definition delete_tag_rows :: "transaction \<Rightarrow> uuid \<Rightarrow> unit db_op" where
  "delete_tag_rows T tagId =
     andthen (delete_rows t_org db_tags_update T (\<lambda>t. t_id t = tagId))
    (andthen (delete_rows st_org db_secret_tags_update T (\<lambda>r. st_tag r = tagId))
     (delete_rows pt_org db_project_tags_update T (\<lambda>r. pt_tag r = tagId)))"

definition merge_tag :: "transaction \<Rightarrow> uuid \<Rightarrow> uuid \<Rightarrow> uuid \<Rightarrow> tag_view db_op" where
  "merge_tag T userId sourceTagId targetTagId =
     andthen (permit T userId None False Org_settings_update)
    (andthen (check (sourceTagId \<noteq> targetTagId) (Api_error 400 ''INVALID_INPUT''))
    (bind (select_rows t_org db_tags T (\<lambda>t. t_id t = sourceTagId \<or> t_id t = targetTagId)) (\<lambda>locked.
     andthen (check (length locked = 2) tag_not_found)
    (andthen (writes (db_project_tags_update (copy_project_tags T sourceTagId targetTagId)))
    (andthen (writes (db_secret_tags_update (copy_secret_tags T sourceTagId targetTagId)))
    (andthen (delete_tag_rows T sourceTagId)
    (bind (from_option tag_not_found (find (\<lambda>t. t_id t = targetTagId) locked)) (\<lambda>target.
     ret (tag_from_row target)))))))))"

definition delete_tag :: "transaction \<Rightarrow> uuid \<Rightarrow> uuid \<Rightarrow> tag_view db_op" where
  "delete_tag T userId tagId =
     andthen (permit T userId None False Org_settings_update)
    (bind (select_rows t_org db_tags T (\<lambda>t. t_id t = tagId)) (\<lambda>deleted.
     andthen (delete_tag_rows T tagId)
    (bind (from_option tag_not_found (first_row deleted)) (\<lambda>row. ret (tag_from_row row)))))"

section \<open>Other organizations are not concerned\<close>

lemma fold_ignoring_foreign:
  assumes "\<And>r. r \<in> set new \<Longrightarrow> org r = orgId"
  shows "filter (\<lambda>r. org r \<noteq> orgId) (fold (insert_ignoring clash) new rows) = filter (\<lambda>r. org r \<noteq> orgId) rows"
  using assms by (induction new arbitrary: rows) (auto simp: insert_ignoring_def)

lemma obeys_copies [contract_intros]:
  "obeys (tenant_step (tx_org T)) (writes (db_project_tags_update (copy_project_tags T sourceId targetId)))"
  "obeys (tenant_step (tx_org T)) (writes (db_secret_tags_update (copy_secret_tags T sourceId targetId)))"
  by (rule tenant.obeys_writesI, rule project_tags_table.upd_tenant_step secret_tags_table.upd_tenant_step;
      auto simp: copy_project_tags_def copy_secret_tags_def visible_def intro!: fold_ignoring_foreign)+

lemma obeys_list_tags [contract_intros]: "obeys (tenant_step orgId) (list_tags T userId query)"
  unfolding list_tags_def by (intro contract_intros)

lemma obeys_create_tag [contract_intros]: "obeys (tenant_step (tx_org T)) (create_tag T userId name color)"
  unfolding create_tag_def Let_def by (intro contract_intros)

lemma obeys_update_tag [contract_intros]: "obeys (tenant_step (tx_org T)) (update_tag T userId tagId name color)"
  unfolding update_tag_def by (intro contract_intros) (simp_all add: retag_def)

lemma obeys_delete_tag_rows [contract_intros]: "obeys (tenant_step (tx_org T)) (delete_tag_rows T tagId)"
  unfolding delete_tag_rows_def by (intro contract_intros)

lemma obeys_merge_tag [contract_intros]: "obeys (tenant_step (tx_org T)) (merge_tag T userId sourceTagId targetTagId)"
  unfolding merge_tag_def by (intro contract_intros)

lemma obeys_delete_tag [contract_intros]: "obeys (tenant_step (tx_org T)) (delete_tag T userId tagId)"
  unfolding delete_tag_def by (intro contract_intros)

section \<open>Merging\<close>

text \<open>The tags of a secret and of a project.\<close>

definition secret_tag_ids :: "transaction \<Rightarrow> uuid \<Rightarrow> db \<Rightarrow> uuid set" where
  "secret_tag_ids T secretId s = st_tag ` {r \<in> set (db_secret_tags s). st_org r = tx_org T \<and> st_secret r = secretId}"

definition project_tag_ids :: "transaction \<Rightarrow> uuid \<Rightarrow> db \<Rightarrow> uuid set" where
  "project_tag_ids T projectId s = pt_tag ` {r \<in> set (db_project_tags s). pt_org r = tx_org T \<and> pt_project r = projectId}"

definition merged :: "uuid \<Rightarrow> uuid \<Rightarrow> uuid set \<Rightarrow> uuid set" where
  "merged sourceId targetId tags = (if sourceId \<in> tags then insert targetId (tags - {sourceId}) else tags)"

text \<open>Keys: what a unique index sees of a row.\<close>

lemma fold_ignoring_keys:
  assumes "\<And>r q. clash r q \<longleftrightarrow> key q = key r"
  shows "key ` set (fold (insert_ignoring clash) new rows) = key ` (set new \<union> set rows)"
    and "distinct (map key rows) \<Longrightarrow> distinct (map key (fold (insert_ignoring clash) new rows))"
proof (induction new arbitrary: rows)
  case (Cons r new)
  { case 1
    have "key ` set (insert_ignoring clash r rows) = insert (key r) (key ` set rows)"
      using assms by (auto simp: insert_ignoring_def list_ex_iff) (metis image_eqI)
    then show ?case using Cons(1)[of "insert_ignoring clash r rows"] by (simp add: image_Un) }
  { case 2
    have "distinct (map key (insert_ignoring clash r rows))" using 2 assms by (force simp: insert_ignoring_def list_ex_iff)
    then show ?case using Cons(2)[of "insert_ignoring clash r rows"] by simp }
qed simp_all

definition secret_tag_key :: "secret_tag_row \<Rightarrow> uuid \<times> uuid \<times> uuid" where
  "secret_tag_key r = (st_org r, st_secret r, st_tag r)"

definition project_tag_key :: "project_tag_row \<Rightarrow> uuid \<times> uuid \<times> uuid" where
  "project_tag_key r = (pt_org r, pt_project r, pt_tag r)"

lemma tag_sets:
  "secret_tag_ids T i s = {t. (tx_org T, i, t) \<in> secret_tag_key ` set (db_secret_tags s)}"
  "project_tag_ids T i s = {t. (tx_org T, i, t) \<in> project_tag_key ` set (db_project_tags s)}"
  by (force simp: secret_tag_ids_def project_tag_ids_def secret_tag_key_def project_tag_key_def image_iff)+

lemma moved_secret:
  "secret_tag_key ` set (map (\<lambda>r. r\<lparr>st_tag := b\<rparr>) (filter (\<lambda>r. st_tag r = a) (visible st_org T rows)))
     = {(tx_org T, i, b) | i. (tx_org T, i, a) \<in> secret_tag_key ` set rows}" (is "?L = ?R")
proof
  show "?L \<subseteq> ?R" by (auto simp: secret_tag_key_def visible_def image_iff) metis
  show "?R \<subseteq> ?L"
  proof
    fix x assume "x \<in> ?R"
    then obtain r where "r \<in> set rows" "st_org r = tx_org T" "st_tag r = a" "x = (tx_org T, st_secret r, b)"
      by (auto simp: secret_tag_key_def)
    then have "r\<lparr>st_tag := b\<rparr> \<in> set (map (\<lambda>r. r\<lparr>st_tag := b\<rparr>) (filter (\<lambda>r. st_tag r = a) (visible st_org T rows)))"
      and "secret_tag_key (r\<lparr>st_tag := b\<rparr>) = x" by (auto simp: secret_tag_key_def visible_def)
    then show "x \<in> ?L" by blast
  qed
qed

lemma moved_project:
  "project_tag_key ` set (map (\<lambda>r. r\<lparr>pt_tag := b\<rparr>) (filter (\<lambda>r. pt_tag r = a) (visible pt_org T rows)))
     = {(tx_org T, i, b) | i. (tx_org T, i, a) \<in> project_tag_key ` set rows}" (is "?L = ?R")
proof
  show "?L \<subseteq> ?R" by (auto simp: project_tag_key_def visible_def image_iff) metis
  show "?R \<subseteq> ?L"
  proof
    fix x assume "x \<in> ?R"
    then obtain r where "r \<in> set rows" "pt_org r = tx_org T" "pt_tag r = a" "x = (tx_org T, pt_project r, b)"
      by (auto simp: project_tag_key_def)
    then have "r\<lparr>pt_tag := b\<rparr> \<in> set (map (\<lambda>r. r\<lparr>pt_tag := b\<rparr>) (filter (\<lambda>r. pt_tag r = a) (visible pt_org T rows)))"
      and "project_tag_key (r\<lparr>pt_tag := b\<rparr>) = x" by (auto simp: project_tag_key_def visible_def)
    then show "x \<in> ?L" by blast
  qed
qed

lemma copied_keys:
  "secret_tag_key ` set (copy_secret_tags T a b rows) = secret_tag_key ` set rows
     \<union> {(tx_org T, i, b) | i. (tx_org T, i, a) \<in> secret_tag_key ` set rows}"
  "project_tag_key ` set (copy_project_tags T a b rows2) = project_tag_key ` set rows2
     \<union> {(tx_org T, i, b) | i. (tx_org T, i, a) \<in> project_tag_key ` set rows2}"
proof -
  have k: "secret_tag_clash r q \<longleftrightarrow> secret_tag_key q = secret_tag_key r" for r q
    by (auto simp: secret_tag_clash_def secret_tag_key_def)
  show "secret_tag_key ` set (copy_secret_tags T a b rows) = secret_tag_key ` set rows
     \<union> {(tx_org T, i, b) | i. (tx_org T, i, a) \<in> secret_tag_key ` set rows}"
    unfolding copy_secret_tags_def fold_ignoring_keys(1)[of secret_tag_clash secret_tag_key, OF k] image_Un Un_commute[of "_ ` set rows"] moved_secret ..
  have k: "project_tag_clash r q \<longleftrightarrow> project_tag_key q = project_tag_key r" for r q
    by (auto simp: project_tag_clash_def project_tag_key_def)
  show "project_tag_key ` set (copy_project_tags T a b rows2) = project_tag_key ` set rows2
     \<union> {(tx_org T, i, b) | i. (tx_org T, i, a) \<in> project_tag_key ` set rows2}"
    unfolding copy_project_tags_def fold_ignoring_keys(1)[of project_tag_clash project_tag_key, OF k] image_Un Un_commute[of "_ ` set rows2"] moved_project ..
qed

lemma deleted_keys:
  "secret_tag_key ` set (delete_where st_org T (\<lambda>r. st_tag r = a) rows) = secret_tag_key ` set rows - {(tx_org T, i, a) | i. True}"
  "project_tag_key ` set (delete_where pt_org T (\<lambda>r. pt_tag r = a) rows2) = project_tag_key ` set rows2 - {(tx_org T, i, a) | i. True}"
  by (force simp: delete_where_def secret_tag_key_def project_tag_key_def image_iff)+

lemma merge_tag_Inr:
  assumes "merge_tag T userId a b s = Inr (v, s')"
  shows "permitted T userId None False Org_settings_update s" and "a \<noteq> b" and "tv_id v = b"
    and "length (filter (\<lambda>t. t_id t = a \<or> t_id t = b) (visible t_org T (db_tags s))) = 2"
    and "db_tags s' = delete_where t_org T (\<lambda>t. t_id t = a) (db_tags s)"
    and "db_secret_tags s' = delete_where st_org T (\<lambda>r. st_tag r = a) (copy_secret_tags T a b (db_secret_tags s))"
    and "db_project_tags s' = delete_where pt_org T (\<lambda>r. pt_tag r = a) (copy_project_tags T a b (db_project_tags s))"
proof -
  let ?locked = "filter (\<lambda>t. t_id t = a \<or> t_id t = b) (visible t_org T (db_tags s))"
  obtain target where may: "permitted T userId None False Org_settings_update s" "a \<noteq> b" and two: "length ?locked = 2"
    and t: "find (\<lambda>t. t_id t = b) ?locked = Some target" "v = tag_from_row target"
    and s': "s' = db_project_tags_update (delete_where pt_org T (\<lambda>r. pt_tag r = a))
       (db_secret_tags_update (delete_where st_org T (\<lambda>r. st_tag r = a)) (db_tags_update (delete_where t_org T (\<lambda>t. t_id t = a))
         (db_secret_tags_update (copy_secret_tags T a b) (db_project_tags_update (copy_project_tags T a b) s))))"
    using assms unfolding merge_tag_def op_simps permit_Inr select_rows_def delete_tag_rows_def delete_rows_def by blast
  show "permitted T userId None False Org_settings_update s" "a \<noteq> b" "length ?locked = 2" using may two by auto
  show "tv_id v = b" using find_SomeD[OF t(1)] t(2) by (simp add: tag_from_row_def)
qed (use assms in \<open>auto simp: merge_tag_def op_simps permit_Inr select_rows_def delete_tag_rows_def delete_rows_def\<close>)

text \<open>
  Merging a tag into another moves all its uses. Every secret and every project that carried the source carries
  the target instead, once, and keeps its other tags; the others are untouched. The source tag is gone, every other
  tag stays, and nobody without the permission does it.
\<close>
theorem merging_moves_every_use:
  assumes "merge_tag T userId a b s = Inr (v, s')"
  shows "permitted T userId None False Org_settings_update s \<and> tv_id v = b
    \<and> (\<forall>i. secret_tag_ids T i s' = merged a b (secret_tag_ids T i s))
    \<and> (\<forall>i. project_tag_ids T i s' = merged a b (project_tag_ids T i s))
    \<and> db_tags s' = filter (\<lambda>t. \<not> (t_org t = tx_org T \<and> t_id t = a)) (db_tags s)
    \<and> (distinct (map secret_tag_key (db_secret_tags s)) \<longrightarrow> distinct (map secret_tag_key (db_secret_tags s')))
    \<and> tenant_step (tx_org T) s s'"
proof -
  note m = merge_tag_Inr[OF assms]
  have k: "secret_tag_clash r q \<longleftrightarrow> secret_tag_key q = secret_tag_key r" for r q
    by (auto simp: secret_tag_clash_def secret_tag_key_def)
  have "secret_tag_ids T i s' = merged a b (secret_tag_ids T i s)" "project_tag_ids T i s' = merged a b (project_tag_ids T i s)" for i
    unfolding tag_sets m(6,7) deleted_keys copied_keys merged_def using m(2) by auto
  moreover have "distinct (map secret_tag_key (db_secret_tags s'))" if "distinct (map secret_tag_key (db_secret_tags s))"
    using fold_ignoring_keys(2)[of secret_tag_clash secret_tag_key, OF k that]
    unfolding m(6) delete_where_def copy_secret_tags_def by (simp add: distinct_map_filter)
  moreover have "tenant_step (tx_org T) s s'" using obeysD[OF obeys_merge_tag assms] .
  ultimately show ?thesis using m(1,3,5) by (simp add: delete_where_def)
qed

theorem merging_moves_every_use_witness:
  "let tag = (\<lambda>i. \<lparr>t_id = i, t_org = ''o'', t_name = i, t_color = ''#000000'', t_created = 0, t_updated = 0\<rparr>);
       row = (\<lambda>sec t. \<lparr>st_org = ''o'', st_project = ''p'', st_environment = ''e'', st_secret = sec, st_tag = t\<rparr>);
       s = demo_db\<lparr>db_tags := [tag ''a'', tag ''b'', tag ''c''], db_secret_tags := [row ''x'' ''a'', row ''x'' ''b'', row ''y'' ''a'', row ''y'' ''c'']\<rparr>
   in \<exists>v s'. merge_tag demo_tx ''u'' ''a'' ''b'' s = Inr (v, s') \<and> secret_tag_ids demo_tx ''y'' s' = {''b'', ''c''}"
proof -
  let ?tag = "\<lambda>i. \<lparr>t_id = i, t_org = ''o'', t_name = i, t_color = ''#000000'', t_created = 0, t_updated = 0\<rparr>"
  let ?row = "\<lambda>sec t. \<lparr>st_org = ''o'', st_project = ''p'', st_environment = ''e'', st_secret = sec, st_tag = t\<rparr>"
  let ?s = "demo_db\<lparr>db_tags := [?tag ''a'', ?tag ''b'', ?tag ''c''], db_secret_tags := [?row ''x'' ''a'', ?row ''x'' ''b'', ?row ''y'' ''a'', ?row ''y'' ''c'']\<rparr>"
  have "\<not> isl (merge_tag demo_tx ''u'' ''a'' ''b'' ?s)" by code_simp
  then obtain v s' where run: "merge_tag demo_tx ''u'' ''a'' ''b'' ?s = Inr (v, s')" by (metis isl_def prod.exhaust sum.exhaust)
  have "secret_tag_ids demo_tx ''y'' ?s = {''a'', ''c''}"
  proof -
    have "secret_tag_ids T i s = set (map st_tag (filter (\<lambda>r. st_org r = tx_org T \<and> st_secret r = i) (db_secret_tags s)))" for T i s
      by (simp add: secret_tag_ids_def)
    then show ?thesis by (simp only:) code_simp
  qed
  then have "secret_tag_ids demo_tx ''y'' s' = {''b'', ''c''}"
    using merging_moves_every_use[OF run] by (auto simp: merged_def)
  then show ?thesis using run unfolding Let_def by blast
qed

end
