(* ===== verification/Audit_Export.thy ===== *)
theory Audit_Export
  imports Audit_Listing
begin

text \<open>
  \<^verbatim>\<open>export\<close> of \<^verbatim>\<open>TransactionalAuditLog\<close> in \<^verbatim>\<open>packages/audit/src/index.ts\<close>: both formats with the name and the
  type of the file. The CSV itself is \<open>export_audit_csv\<close>; \<open>isoText\<close> is \<^verbatim>\<open>toISOString\<close>.
\<close>

datatype audit_format = Audit_csv | Audit_json

record audit_file =
  af_format :: audit_format
  af_filename :: string
  af_mime_type :: string
  af_content :: string
  af_count :: nat
  af_truncated :: bool

definition json_optional :: "string option \<Rightarrow> json" where
  "json_optional t = (case t of None \<Rightarrow> JNull | Some v \<Rightarrow> JStr v)"

text \<open>An event as \<^verbatim>\<open>JSON.stringify\<close> writes it; numbers of events are strings.\<close>

definition audit_view_json :: "(time \<Rightarrow> string) \<Rightarrow> audit_view \<Rightarrow> json" where
  "audit_view_json isoText v = JObj [
     (''id'', JStr (js_int (view_id v))),
     (''actor'', JObj [(''type'', JStr (actor_type (view_actor v))),
        (''id'', json_optional (case view_actor v of Actor_user i \<Rightarrow> Some i | Actor_api_key i \<Rightarrow> Some i | Actor_system \<Rightarrow> None)),
        (''label'', JStr (view_label v))]),
     (''action'', JStr (view_action v)),
     (''resource'', JObj [(''type'', JStr (view_resource_type v)), (''id'', json_optional (view_resource_id v))]),
     (''projectId'', json_optional (view_project v)), (''environmentId'', json_optional (view_environment v)),
     (''ip'', json_optional (view_ip v)), (''userAgent'', json_optional (view_user_agent v)),
     (''metadata'', JObj (view_metadata v)), (''occurredAt'', JStr (isoText (view_occurred v)))]"

definition export_audit_json :: "(time \<Rightarrow> string) \<Rightarrow> transaction \<Rightarrow> uuid \<Rightarrow> audit_filters \<Rightarrow> audit_export db_op" where
  "export_audit_json isoText T orgId F =
     bind (query_audit T orgId (F\<lparr>filter_cursor := None, filter_limit := Some 10000\<rparr>) 10000) (\<lambda>page.
     ret \<lparr>export_content = json_pretty 0 (JArr (map (audit_view_json isoText) (page_events page))),
          export_event_count = length (page_events page),
          export_truncated = (page_next page \<noteq> None)\<rparr>)"

definition export_audit ::
  "(time \<Rightarrow> string) \<Rightarrow> transaction \<Rightarrow> uuid \<Rightarrow> audit_format \<Rightarrow> audit_filters \<Rightarrow> audit_file db_op" where
  "export_audit isoText T orgId format F =
     (let stamp = take 10 (isoText (to_date (tx_clock T))) in
      case format of
        Audit_json \<Rightarrow> bind (export_audit_json isoText T orgId F) (\<lambda>r.
          ret \<lparr>af_format = Audit_json, af_filename = ''himitsu-audit-'' @ stamp @ ''.json'',
            af_mime_type = ''application/json'', af_content = export_content r, af_count = export_event_count r,
            af_truncated = export_truncated r\<rparr>)
      | Audit_csv \<Rightarrow> bind (export_audit_csv isoText T orgId F) (\<lambda>r.
          ret \<lparr>af_format = Audit_csv, af_filename = ''himitsu-audit-'' @ stamp @ ''.csv'',
            af_mime_type = ''text/csv; charset=utf-8'', af_content = export_content r, af_count = export_event_count r,
            af_truncated = export_truncated r\<rparr>))"

end
