(* ===== verification/Api_Routes.thy ===== *)
theory Api_Routes
  imports Api_Guards Tags Audit_Export Imports Secret_Transfer Environments
begin

text \<open>
  The routes of \<^verbatim>\<open>apps/api/src/index.ts\<close> that work inside a tenant transaction, group by group as the
  \<^verbatim>\<open>register...Routes\<close> functions have them: a constructor per route with its parameters, its query and its
  validated body, the answer of its handler, and the method, template and operation identifier the guards see.
  The request schemas are the types of the constructors' arguments.
\<close>

text \<open>What the handlers know of the request: the user, the audit actor and the scope of the key.\<close>

definition actor_of :: "api_context \<Rightarrow> audit_actor" where
  "actor_of ctx = (case ax_actor ctx of Key_actor apiKeyId keyPrefix \<Rightarrow> Actor_api_key apiKeyId
     | Session_actor userId sessionId \<Rightarrow> Actor_user userId)"

definition key_project :: "api_context \<Rightarrow> uuid option" where
  "key_project ctx = (case ax_key ctx of None \<Rightarrow> None | Some p \<Rightarrow> pr_project p)"

definition key_environment :: "api_context \<Rightarrow> uuid option" where
  "key_environment ctx = (case ax_key ctx of None \<Rightarrow> None | Some p \<Rightarrow> pr_environment p)"

definition in_scope :: "('a \<Rightarrow> uuid) \<Rightarrow> uuid option \<Rightarrow> 'a list \<Rightarrow> 'a list" where
  "in_scope f scope all = (case scope of None \<Rightarrow> all | Some i \<Rightarrow> filter (\<lambda>x. f x = i) all)"

section \<open>The organization, its members and invitations\<close>

datatype organization_call =
    Get_organization
  | Update_organization "string option" "string option"
  | List_members
  | Update_member uuid role
  | Remove_member uuid
  | List_invitations
  | Invite_member string role
  | Revoke_invitation uuid

datatype organization_answer =
    An_organization organization_view
  | Member_list "member_view list"
  | A_member member_view
  | Invitation_list "invitation_view list"
  | Invited string role invitation_message
  | An_invitation invitation_view

definition after :: "'a db_op \<Rightarrow> ('a \<Rightarrow> 'b) \<Rightarrow> 'b db_op" where
  "after m f = bind m (\<lambda>a. ret (f a))"

primrec perform_organization :: "api_context \<Rightarrow> transaction \<Rightarrow> organization_call \<Rightarrow> organization_answer db_op" where
  "perform_organization ctx T Get_organization = after (get_organization T) An_organization"
| "perform_organization ctx T (Update_organization name slug) =
     after (update_organization T (ax_user ctx) name slug) An_organization"
| "perform_organization ctx T List_members = after (list_members T) Member_list"
| "perform_organization ctx T (Update_member memberId r) = after (update_member T (ax_user ctx) memberId r) A_member"
| "perform_organization ctx T (Remove_member memberId) = after (remove_member T (ax_user ctx) memberId) A_member"
| "perform_organization ctx T List_invitations = after (list_invitations T) Invitation_list"
| "perform_organization ctx T (Invite_member email r) =
     after (invite_member T \<lparr>in_org = tx_org T, in_inviter = ax_user ctx, in_email = email, in_role = r\<rparr>)
       (Invited (js_lower (trim email)) r)"
| "perform_organization ctx T (Revoke_invitation invitationId) =
     after (revoke_invitation T (ax_user ctx) invitationId) An_invitation"

primrec organization_route_of :: "organization_call \<Rightarrow> string \<times> string \<times> string" where
  "organization_route_of Get_organization = (''GET'', ''/api/v1/organization'', ''getOrganization'')"
| "organization_route_of (Update_organization name slug) = (''PATCH'', ''/api/v1/organization'', ''updateOrganization'')"
| "organization_route_of List_members = (''GET'', ''/api/v1/members'', ''listMembers'')"
| "organization_route_of (Update_member memberId r) = (''PATCH'', ''/api/v1/members/:memberId'', ''updateMember'')"
| "organization_route_of (Remove_member memberId) = (''DELETE'', ''/api/v1/members/:memberId'', ''removeMember'')"
| "organization_route_of List_invitations = (''GET'', ''/api/v1/invitations'', ''listInvitations'')"
| "organization_route_of (Invite_member email r) = (''POST'', ''/api/v1/invitations'', ''inviteMember'')"
| "organization_route_of (Revoke_invitation invitationId) =
     (''DELETE'', ''/api/v1/invitations/:invitationId'', ''revokeInvitation'')"

section \<open>Projects\<close>

datatype project_call =
    List_projects page_query
  | Create_project project_input
  | Get_project uuid
  | Update_project uuid project_changes
  | Delete_project uuid
  | Get_consistency uuid

datatype project_answer =
    Project_page "project_view page_of"
  | A_project project_view
  | A_report consistency_report

text \<open>\<^verbatim>\<open>.split(/\s+/).filter(Boolean)\<close>\<close>

fun search_terms :: "string \<Rightarrow> string \<Rightarrow> string list" where
  "search_terms word [] = (if word = [] then [] else [word])"
| "search_terms word (c # cs) = (if is_ws c then (if word = [] then [] else [word]) @ search_terms [] cs
     else search_terms (word @ [c]) cs)"

fun js_includes :: "string \<Rightarrow> string \<Rightarrow> bool" where
  "js_includes needle [] \<longleftrightarrow> needle = []"
| "js_includes needle (c # cs) \<longleftrightarrow> starts_with needle (c # cs) \<or> js_includes needle cs"

definition project_search_text :: "project_view \<Rightarrow> string" where
  "project_search_text p = js_lower (pv_name p @ '' '' @ pv_slug p @ '' ''
     @ (case pv_description p of None \<Rightarrow> [] | Some d \<Rightarrow> d) @ '' '' @ join '' '' (map (\<lambda>(i, name, color). name) (pv_tags p)))"

definition project_shown :: "page_query \<Rightarrow> project_view \<Rightarrow> bool" where
  "project_shown query p \<longleftrightarrow>
     (case pq_tag query of None \<Rightarrow> True | Some tagId \<Rightarrow> tagId \<in> set (pv_tag_ids p))
     \<and> list_all (\<lambda>term. js_includes term (project_search_text p))
         (search_terms [] (js_lower (trim (case pq_search query of None \<Rightarrow> [] | Some t \<Rightarrow> t))))"

definition projects_page :: "api_context \<Rightarrow> transaction \<Rightarrow> page_query \<Rightarrow> project_view page_of db_op" where
  "projects_page ctx T query = bind (list_projects T (ax_user ctx)) (\<lambda>all.
     ret (paginated (filter (project_shown query) (in_scope pv_id (key_project ctx) all)) query))"

text \<open>\<open>isoText\<close> is \<^verbatim>\<open>toISOString\<close>, \<open>window\<close> the recovery window.\<close>

primrec perform_project ::
  "(time \<Rightarrow> string) \<Rightarrow> int \<Rightarrow> api_context \<Rightarrow> transaction \<Rightarrow> project_call \<Rightarrow> project_answer db_op" where
  "perform_project isoText window ctx T (List_projects query) = after (projects_page ctx T query) Project_page"
| "perform_project isoText window ctx T (Create_project input) = after (create_project T (ax_user ctx) input) A_project"
| "perform_project isoText window ctx T (Get_project projectId) =
     after (get_project T (ax_user ctx) projectId False) A_project"
| "perform_project isoText window ctx T (Update_project projectId changes) =
     after (update_project T (ax_user ctx) projectId changes) A_project"
| "perform_project isoText window ctx T (Delete_project projectId) =
     after (delete_project isoText window T (ax_user ctx) projectId) A_project"
| "perform_project isoText window ctx T (Get_consistency projectId) =
     after (compute isoText T (ax_user ctx) projectId) A_report"

primrec project_route_of :: "project_call \<Rightarrow> string \<times> string \<times> string" where
  "project_route_of (List_projects query) = (''GET'', ''/api/v1/projects'', ''listProjects'')"
| "project_route_of (Create_project input) = (''POST'', ''/api/v1/projects'', ''createProject'')"
| "project_route_of (Get_project projectId) = (''GET'', ''/api/v1/projects/:projectId'', ''getProject'')"
| "project_route_of (Update_project projectId changes) = (''PATCH'', ''/api/v1/projects/:projectId'', ''updateProject'')"
| "project_route_of (Delete_project projectId) = (''DELETE'', ''/api/v1/projects/:projectId'', ''deleteProject'')"
| "project_route_of (Get_consistency projectId) =
     (''GET'', ''/api/v1/projects/:projectId/consistency'', ''getProjectConsistency'')"

primrec project_of_call :: "project_call \<Rightarrow> uuid option" where
  "project_of_call (List_projects query) = None"
| "project_of_call (Create_project input) = None"
| "project_of_call (Get_project projectId) = Some projectId"
| "project_of_call (Update_project projectId changes) = Some projectId"
| "project_of_call (Delete_project projectId) = Some projectId"
| "project_of_call (Get_consistency projectId) = Some projectId"

section \<open>Environments\<close>

datatype environment_call =
    List_environments page_query
  | Create_environment string string "bool option"
  | Reorder_environments "uuid list"
  | Get_environment uuid
  | Update_environment uuid "string option" "string option" "bool option"
  | Delete_environment uuid "bool option"

datatype environment_answer =
    Environment_page "environment_view page_of"
  | Environment_list "environment_view list"
  | An_environment environment_view

definition environment_of_project :: "api_context \<Rightarrow> transaction \<Rightarrow> uuid \<Rightarrow> uuid \<Rightarrow> environment_view db_op" where
  "environment_of_project ctx T projectId environmentId =
     bind (get_environment T (ax_user ctx) environmentId False) (\<lambda>environment.
     andthen (check (vw_project environment = projectId) (Environment_error Environment_not_found)) (ret environment))"

definition environments_page :: "api_context \<Rightarrow> transaction \<Rightarrow> uuid \<Rightarrow> page_query \<Rightarrow> environment_view page_of db_op" where
  "environments_page ctx T projectId query = bind (list_environments T (ax_user ctx) projectId) (\<lambda>all.
     ret (paginated (in_scope vw_id (key_environment ctx) all) query))"

primrec perform_environment ::
  "(time \<Rightarrow> string) \<Rightarrow> int \<Rightarrow> api_context \<Rightarrow> transaction \<Rightarrow> uuid \<Rightarrow> environment_call \<Rightarrow> environment_answer db_op" where
  "perform_environment isoText window ctx T projectId (List_environments query) =
     after (environments_page ctx T projectId query) Environment_page"
| "perform_environment isoText window ctx T projectId (Create_environment name slug prot) =
     after (create_environment T (ax_user ctx) projectId name slug prot) An_environment"
| "perform_environment isoText window ctx T projectId (Reorder_environments environmentIds) =
     after (reorder_environments T (ax_user ctx) projectId environmentIds) Environment_list"
| "perform_environment isoText window ctx T projectId (Get_environment environmentId) =
     after (environment_of_project ctx T projectId environmentId) An_environment"
| "perform_environment isoText window ctx T projectId (Update_environment environmentId name slug prot) =
     bind (environment_of_project ctx T projectId environmentId) (\<lambda>existing.
     after (update_environment T (ax_user ctx) (vw_id existing) name slug prot) An_environment)"
| "perform_environment isoText window ctx T projectId (Delete_environment environmentId confirmSecrets) =
     bind (environment_of_project ctx T projectId environmentId) (\<lambda>existing.
     after (delete_environment isoText window T (ax_user ctx) (vw_id existing) (confirmSecrets = Some True)) An_environment)"

primrec environment_route_of :: "environment_call \<Rightarrow> string \<times> string \<times> string" where
  "environment_route_of (List_environments query) =
     (''GET'', ''/api/v1/projects/:projectId/environments'', ''listEnvironments'')"
| "environment_route_of (Create_environment name slug prot) =
     (''POST'', ''/api/v1/projects/:projectId/environments'', ''createEnvironment'')"
| "environment_route_of (Reorder_environments environmentIds) =
     (''POST'', ''/api/v1/projects/:projectId/environments/reorder'', ''reorderEnvironments'')"
| "environment_route_of (Get_environment environmentId) =
     (''GET'', ''/api/v1/projects/:projectId/environments/:environmentId'', ''getEnvironment'')"
| "environment_route_of (Update_environment environmentId name slug prot) =
     (''PATCH'', ''/api/v1/projects/:projectId/environments/:environmentId'', ''updateEnvironment'')"
| "environment_route_of (Delete_environment environmentId confirmSecrets) =
     (''DELETE'', ''/api/v1/projects/:projectId/environments/:environmentId'', ''deleteEnvironment'')"

primrec environment_of_call :: "environment_call \<Rightarrow> uuid option" where
  "environment_of_call (List_environments query) = None"
| "environment_of_call (Create_environment name slug prot) = None"
| "environment_of_call (Reorder_environments environmentIds) = None"
| "environment_of_call (Get_environment environmentId) = Some environmentId"
| "environment_of_call (Update_environment environmentId name slug prot) = Some environmentId"
| "environment_of_call (Delete_environment environmentId confirmSecrets) = Some environmentId"

end
