(* ===== verification/Api_Secret_Routes.thy ===== *)
theory Api_Secret_Routes
  imports Api_Routes
begin

text \<open>
  The routes of secrets, their versions, imports and promotions, of the audit trail, of tags and of API keys, and
  \<open>api_call\<close>, the sum of all routes, with the request each of them is and the whole of serving one: the guards, the
  handler and the answer.
\<close>

section \<open>The secrets of an environment\<close>

datatype secret_call =
    List_secrets page_query
  | Create_secret secret_input
  | Bulk_set "secret_input list"
  | Fetch_runtime "string option"
  | Bulk_get "string list option"
  | Export_secrets export_format "bool option" "string option"
  | Preview_dotenv string
  | Commit_dotenv string string "string list option"
  | Preview_json string "string option"
  | Commit_json string "string option" string "string list option"
  | Preview_promotion uuid "string list option"
  | Promote_secrets uuid "string list option"

datatype secret_answer =
    Secret_page "secret_metadata page_of"
  | Secret_created secret_metadata
  | Secret_list "secret_metadata list"
  | Runtime_answer string runtime_config
  | Secret_values "(string \<times> string) list" nat
  | Secret_file secret_export
  | Dotenv_previewed dotenv_preview
  | Json_previewed json_preview
  | Import_done import_result
  | Promotion_previewed promotion_preview
  | Promotion_done "promotion_preview \<times> secret_metadata list"

definition secrets_page ::
  "api_context \<Rightarrow> transaction \<Rightarrow> uuid \<Rightarrow> uuid \<Rightarrow> page_query \<Rightarrow> secret_metadata page_of db_op" where
  "secrets_page ctx T projectId environmentId query =
     bind (list_secrets T (ax_user ctx) projectId environmentId (pq_search query) (pq_tag query)) (\<lambda>all.
     ret (paginated all query))"

definition fetch_runtime ::
  "api_context \<Rightarrow> transaction \<Rightarrow> uuid \<Rightarrow> uuid \<Rightarrow> string option \<Rightarrow> secret_answer db_op" where
  "fetch_runtime ctx T projectId environmentId ifNoneMatch =
     bind (runtime_configuration T (ax_user ctx) projectId environmentId (parse_runtime_etags ifNoneMatch) (actor_of ctx))
     (\<lambda>result. ret (Runtime_answer (runtime_etag (config_version result)) result))"

definition bulk_get_secrets ::
  "api_context \<Rightarrow> transaction \<Rightarrow> uuid \<Rightarrow> uuid \<Rightarrow> string list option \<Rightarrow> secret_answer db_op" where
  "bulk_get_secrets ctx T projectId environmentId requested =
     bind (list_secrets T (ax_user ctx) projectId environmentId None None) (\<lambda>metadata.
     bind (for_each (\<lambda>m. get_secret T (ax_user ctx) (sm_id m))
        (filter (\<lambda>m. case requested of None \<Rightarrow> True | Some ks \<Rightarrow> sm_key m \<in> set ks) metadata)) (\<lambda>values.
     ret (Secret_values (from_entries (map (\<lambda>(m, v). (sm_key m, v)) values)) (length values))))"

text \<open>An entry of an import; keys outside the convention are let through.\<close>

definition imported :: "string \<times> string \<Rightarrow> secret_input" where
  "imported = (\<lambda>(key, v). \<lparr>in_key = key, in_value = v, in_notes = None, in_change_note = None,
     in_allow_nonconforming = (\<not> conventional_key key), in_tag_ids = None\<rparr>)"

definition existing_keys :: "api_context \<Rightarrow> transaction \<Rightarrow> uuid \<Rightarrow> uuid \<Rightarrow> string list db_op" where
  "existing_keys ctx T projectId environmentId =
     bind (list_secrets T (ax_user ctx) projectId environmentId None None) (\<lambda>existing. ret (map sm_key existing))"

definition commit_dotenv ::
  "api_context \<Rightarrow> transaction \<Rightarrow> uuid \<Rightarrow> uuid \<Rightarrow> string \<Rightarrow> string \<Rightarrow> string list option \<Rightarrow> import_result db_op" where
  "commit_dotenv ctx T projectId environmentId content strategy selectedKeys =
     (let parsed = parse_dotenv content in
      andthen (check (dr_issues parsed = []) (Api_error 400 ''DOTENV_PARSE_ERROR''))
      (import_batch T (ax_user ctx) projectId environmentId
        (map (\<lambda>e. imported (de_key e, de_value e)) (dr_entries parsed)) strategy
        (case selectedKeys of None \<Rightarrow> [] | Some ks \<Rightarrow> ks) ''dotenv''))"

definition or_underscores :: "string option \<Rightarrow> string" where
  "or_underscores delimiter = (case delimiter of None \<Rightarrow> ''__'' | Some d \<Rightarrow> d)"

definition commit_json ::
  "(string \<Rightarrow> json option) \<Rightarrow> api_context \<Rightarrow> transaction \<Rightarrow> uuid \<Rightarrow> uuid \<Rightarrow> string \<Rightarrow> string option \<Rightarrow> string \<Rightarrow>
     string list option \<Rightarrow> import_result db_op" where
  "commit_json parseJson ctx T projectId environmentId content delimiter strategy selectedKeys =
     (let parsed = parse_json_secrets (parseJson content) (or_underscores delimiter) in
      andthen (check (ji_issues parsed = []) (Api_error 400 ''JSON_IMPORT_ERROR''))
      (import_batch T (ax_user ctx) projectId environmentId
        (map (\<lambda>e. imported (je_key e, je_value e)) (ji_entries parsed)) strategy
        (case selectedKeys of None \<Rightarrow> [] | Some ks \<Rightarrow> ks) ''json''))"

primrec perform_secret ::
  "(string \<Rightarrow> json option) \<Rightarrow> api_context \<Rightarrow> transaction \<Rightarrow> uuid \<Rightarrow> uuid \<Rightarrow> secret_call \<Rightarrow> secret_answer db_op" where
  "perform_secret parseJson ctx T projectId environmentId (List_secrets query) =
     after (secrets_page ctx T projectId environmentId query) Secret_page"
| "perform_secret parseJson ctx T projectId environmentId (Create_secret input) =
     after (create_secret T (ax_user ctx) projectId environmentId input) Secret_created"
| "perform_secret parseJson ctx T projectId environmentId (Bulk_set inputs) =
     after (bulk_set T (ax_user ctx) projectId environmentId inputs) Secret_list"
| "perform_secret parseJson ctx T projectId environmentId (Fetch_runtime ifNoneMatch) =
     fetch_runtime ctx T projectId environmentId ifNoneMatch"
| "perform_secret parseJson ctx T projectId environmentId (Bulk_get keys) =
     bulk_get_secrets ctx T projectId environmentId keys"
| "perform_secret parseJson ctx T projectId environmentId (Export_secrets format nested delimiter) =
     after (export_config T (ax_user ctx) projectId environmentId format
       \<lparr>nested_json = Some (nested = Some True), json_delimiter = Some (or_underscores delimiter)\<rparr> (actor_of ctx)) Secret_file"
| "perform_secret parseJson ctx T projectId environmentId (Preview_dotenv content) =
     after (existing_keys ctx T projectId environmentId)
       (\<lambda>keys. Dotenv_previewed (build_dotenv_preview (parse_dotenv content) keys))"
| "perform_secret parseJson ctx T projectId environmentId (Commit_dotenv content strategy selectedKeys) =
     after (commit_dotenv ctx T projectId environmentId content strategy selectedKeys) Import_done"
| "perform_secret parseJson ctx T projectId environmentId (Preview_json content delimiter) =
     after (existing_keys ctx T projectId environmentId)
       (\<lambda>keys. Json_previewed (build_json_preview (parse_json_secrets (parseJson content) (or_underscores delimiter)) keys))"
| "perform_secret parseJson ctx T projectId environmentId (Commit_json content delimiter strategy selectedKeys) =
     after (commit_json parseJson ctx T projectId environmentId content delimiter strategy selectedKeys) Import_done"
| "perform_secret parseJson ctx T projectId environmentId (Preview_promotion sourceId keys) =
     after (preview_promotion T (ax_user ctx) projectId sourceId environmentId keys) Promotion_previewed"
| "perform_secret parseJson ctx T projectId environmentId (Promote_secrets sourceId keys) =
     after (promote T (ax_user ctx) projectId sourceId environmentId keys) Promotion_done"

text \<open>The method, what follows \<^verbatim>\<open>/api/v1/projects/:projectId/environments/:environmentId\<close>, and the operation.\<close>

primrec secret_route_of :: "secret_call \<Rightarrow> string \<times> string \<times> string" where
  "secret_route_of (List_secrets query) = (''GET'', ''/secrets'', ''listSecrets'')"
| "secret_route_of (Create_secret input) = (''POST'', ''/secrets'', ''createSecret'')"
| "secret_route_of (Bulk_set inputs) = (''POST'', ''/secrets/bulk'', ''bulkSetSecrets'')"
| "secret_route_of (Fetch_runtime ifNoneMatch) = (''GET'', ''/secrets/runtime'', ''fetchRuntimeSecrets'')"
| "secret_route_of (Bulk_get keys) = (''POST'', ''/secrets/bulk-get'', ''bulkGetSecrets'')"
| "secret_route_of (Export_secrets format nested delimiter) = (''GET'', ''/exports'', ''exportSecrets'')"
| "secret_route_of (Preview_dotenv content) = (''POST'', ''/imports/dotenv/preview'', ''previewDotenvImport'')"
| "secret_route_of (Commit_dotenv content strategy keys) = (''POST'', ''/imports/dotenv'', ''commitDotenvImport'')"
| "secret_route_of (Preview_json content delimiter) = (''POST'', ''/imports/json/preview'', ''previewJsonImport'')"
| "secret_route_of (Commit_json content delimiter strategy keys) = (''POST'', ''/imports/json'', ''commitJsonImport'')"
| "secret_route_of (Preview_promotion sourceId keys) = (''POST'', ''/promotions/preview'', ''previewSecretPromotion'')"
| "secret_route_of (Promote_secrets sourceId keys) = (''POST'', ''/promotions'', ''promoteSecrets'')"

definition source_of_call :: "secret_call \<Rightarrow> uuid option" where
  "source_of_call c = (case c of Preview_promotion sourceId keys \<Rightarrow> Some sourceId
     | Promote_secrets sourceId keys \<Rightarrow> Some sourceId | _ \<Rightarrow> None)"

section \<open>One secret and its versions\<close>

datatype item_call =
    Get_secret
  | Update_secret "string option" update_input
  | Delete_secret
  | List_versions page_query
  | Compare_versions int int "bool option"
  | Rollback_version int "int option" "string option"

datatype item_answer =
    Secret_value "secret_metadata \<times> string"
  | Secret_changed secret_metadata
  | Version_page "version_metadata page_of"
  | Comparison version_comparison

definition versions_page :: "api_context \<Rightarrow> transaction \<Rightarrow> uuid \<Rightarrow> page_query \<Rightarrow> version_metadata page_of db_op" where
  "versions_page ctx T secretId query = bind (list_versions T (ax_user ctx) secretId) (\<lambda>all. ret (paginated all query))"

text \<open>The version of \<^verbatim>\<open>If-Match\<close> is read before the tenant transaction begins.\<close>

definition expected_of_call :: "item_call \<Rightarrow> error + int option" where
  "expected_of_call c = (case c of Update_secret ifMatch input \<Rightarrow> if_match_version ifMatch | _ \<Rightarrow> Inr None)"

primrec perform_item ::
  "int option \<Rightarrow> api_context \<Rightarrow> transaction \<Rightarrow> uuid \<Rightarrow> item_call \<Rightarrow> item_answer db_op" where
  "perform_item expected ctx T secretId Get_secret = after (get_secret T (ax_user ctx) secretId) Secret_value"
| "perform_item expected ctx T secretId (Update_secret ifMatch input) =
     after (update_secret T (ax_user ctx) secretId (input\<lparr>up_expected_version := expected\<rparr>)) Secret_changed"
| "perform_item expected ctx T secretId Delete_secret = after (delete_secret T (ax_user ctx) secretId) Secret_changed"
| "perform_item expected ctx T secretId (List_versions query) = after (versions_page ctx T secretId query) Version_page"
| "perform_item expected ctx T secretId (Compare_versions fromVersion toVersion reveal) =
     after (compare_versions T (ax_user ctx) secretId fromVersion toVersion (reveal = Some True)) Comparison"
| "perform_item expected ctx T secretId (Rollback_version version expectedVersion changeNote) =
     after (rollback_secret T (ax_user ctx) secretId version expectedVersion changeNote) Secret_changed"

primrec item_route_of :: "item_call \<Rightarrow> string \<times> string \<times> string" where
  "item_route_of Get_secret = (''GET'', ''/api/v1/secrets/:secretId'', ''getSecret'')"
| "item_route_of (Update_secret ifMatch input) = (''PATCH'', ''/api/v1/secrets/:secretId'', ''updateSecret'')"
| "item_route_of Delete_secret = (''DELETE'', ''/api/v1/secrets/:secretId'', ''deleteSecret'')"
| "item_route_of (List_versions query) = (''GET'', ''/api/v1/secrets/:secretId/versions'', ''listSecretVersions'')"
| "item_route_of (Compare_versions fromVersion toVersion reveal) =
     (''GET'', ''/api/v1/secrets/:secretId/versions/compare'', ''compareSecretVersions'')"
| "item_route_of (Rollback_version version expectedVersion changeNote) =
     (''POST'', ''/api/v1/secrets/:secretId/versions/:version/rollback'', ''rollbackSecretVersion'')"

section \<open>The audit trail, tags and API keys\<close>

datatype audit_call =
    List_audit audit_filters
  | Export_audit audit_format audit_filters
  | Get_retention
  | Update_retention int

datatype audit_answer = Audit_events audit_page | Audit_exported audit_file | Retention int

primrec perform_audit :: "(time \<Rightarrow> string) \<Rightarrow> api_context \<Rightarrow> transaction \<Rightarrow> audit_call \<Rightarrow> audit_answer db_op" where
  "perform_audit isoText ctx T (List_audit filters) = after (list_audit T (tx_org T) filters) Audit_events"
| "perform_audit isoText ctx T (Export_audit format filters) =
     after (export_audit isoText T (tx_org T) format filters) Audit_exported"
| "perform_audit isoText ctx T Get_retention = after (get_retention T (tx_org T)) Retention"
| "perform_audit isoText ctx T (Update_retention days) =
     after (update_retention T (tx_org T) (ax_user ctx) days) Retention"

primrec audit_route_of :: "audit_call \<Rightarrow> string \<times> string \<times> string" where
  "audit_route_of (List_audit filters) = (''GET'', ''/api/v1/audit-events'', ''listAuditEvents'')"
| "audit_route_of (Export_audit format filters) = (''GET'', ''/api/v1/audit-events/export'', ''exportAuditEvents'')"
| "audit_route_of Get_retention = (''GET'', ''/api/v1/audit-settings'', ''getAuditSettings'')"
| "audit_route_of (Update_retention days) = (''PATCH'', ''/api/v1/audit-settings'', ''updateAuditSettings'')"

datatype tag_call =
    List_tags page_query
  | Create_tag string string
  | Update_tag uuid "string option" "string option"
  | Merge_tag uuid uuid
  | Delete_tag uuid

datatype tag_answer = Tag_page "tag_view page_of" | A_tag tag_view

primrec perform_tag :: "api_context \<Rightarrow> transaction \<Rightarrow> tag_call \<Rightarrow> tag_answer db_op" where
  "perform_tag ctx T (List_tags query) = after (list_tags T (ax_user ctx) query) Tag_page"
| "perform_tag ctx T (Create_tag name color) = after (create_tag T (ax_user ctx) name color) A_tag"
| "perform_tag ctx T (Update_tag tagId name color) = after (update_tag T (ax_user ctx) tagId name color) A_tag"
| "perform_tag ctx T (Merge_tag sourceId targetId) = after (merge_tag T (ax_user ctx) sourceId targetId) A_tag"
| "perform_tag ctx T (Delete_tag tagId) = after (delete_tag T (ax_user ctx) tagId) A_tag"

primrec tag_route_of :: "tag_call \<Rightarrow> string \<times> string \<times> string" where
  "tag_route_of (List_tags query) = (''GET'', ''/api/v1/tags'', ''listTags'')"
| "tag_route_of (Create_tag name color) = (''POST'', ''/api/v1/tags'', ''createTag'')"
| "tag_route_of (Update_tag tagId name color) = (''PATCH'', ''/api/v1/tags/:tagId'', ''updateTag'')"
| "tag_route_of (Merge_tag sourceId targetId) = (''POST'', ''/api/v1/tags/:tagId/merge'', ''mergeTag'')"
| "tag_route_of (Delete_tag tagId) = (''DELETE'', ''/api/v1/tags/:tagId'', ''deleteTag'')"

datatype key_call = List_keys page_query | Create_key api_key_input | Revoke_key uuid

datatype key_answer = Key_page "api_key_view page_of" | Key_created "api_key_view \<times> string" | Key_revoked api_key_view

definition keys_page :: "api_context \<Rightarrow> transaction \<Rightarrow> page_query \<Rightarrow> api_key_view page_of db_op" where
  "keys_page ctx T query = bind (list_api_keys T (ax_user ctx)) (\<lambda>all. ret (paginated all query))"

primrec perform_key :: "(time \<Rightarrow> string) \<Rightarrow> api_context \<Rightarrow> transaction \<Rightarrow> key_call \<Rightarrow> key_answer db_op" where
  "perform_key isoText ctx T (List_keys query) = after (keys_page ctx T query) Key_page"
| "perform_key isoText ctx T (Create_key input) = after (create_api_key isoText T (ax_user ctx) input) Key_created"
| "perform_key isoText ctx T (Revoke_key apiKeyId) = after (revoke_api_key T (ax_user ctx) apiKeyId) Key_revoked"

primrec key_route_of :: "key_call \<Rightarrow> string \<times> string \<times> string" where
  "key_route_of (List_keys query) = (''GET'', ''/api/v1/api-keys'', ''listApiKeys'')"
| "key_route_of (Create_key input) = (''POST'', ''/api/v1/api-keys'', ''createApiKey'')"
| "key_route_of (Revoke_key apiKeyId) = (''DELETE'', ''/api/v1/api-keys/:apiKeyId'', ''revokeApiKey'')"

section \<open>Every route\<close>

datatype api_call =
    On_organization organization_call
  | On_project project_call
  | On_environment uuid environment_call
  | On_secrets uuid uuid secret_call
  | On_secret uuid item_call
  | On_audit audit_call
  | On_tags tag_call
  | On_keys key_call

datatype api_answer =
    Organization_answer organization_answer
  | Project_answer project_answer
  | Environment_answer environment_answer
  | Secret_answer secret_answer
  | Item_answer item_answer
  | Audit_answer audit_answer
  | Tag_answer tag_answer
  | Key_answer key_answer

text \<open>What the platform gives the handlers: \<^verbatim>\<open>toISOString\<close>, the recovery window and \<^verbatim>\<open>JSON.parse\<close>.\<close>

record api_host =
  ho_iso :: "time \<Rightarrow> string"
  ho_window :: int
  ho_parse :: "string \<Rightarrow> json option"

primrec perform :: "api_host \<Rightarrow> int option \<Rightarrow> api_context \<Rightarrow> api_call \<Rightarrow> transaction \<Rightarrow> api_answer db_op" where
  "perform h expected ctx (On_organization c) = (\<lambda>T. after (perform_organization ctx T c) Organization_answer)"
| "perform h expected ctx (On_project c) = (\<lambda>T. after (perform_project (ho_iso h) (ho_window h) ctx T c) Project_answer)"
| "perform h expected ctx (On_environment projectId c) =
     (\<lambda>T. after (perform_environment (ho_iso h) (ho_window h) ctx T projectId c) Environment_answer)"
| "perform h expected ctx (On_secrets projectId environmentId c) =
     (\<lambda>T. after (perform_secret (ho_parse h) ctx T projectId environmentId c) Secret_answer)"
| "perform h expected ctx (On_secret secretId c) = (\<lambda>T. after (perform_item expected ctx T secretId c) Item_answer)"
| "perform h expected ctx (On_audit c) = (\<lambda>T. after (perform_audit (ho_iso h) ctx T c) Audit_answer)"
| "perform h expected ctx (On_tags c) = (\<lambda>T. after (perform_tag ctx T c) Tag_answer)"
| "perform h expected ctx (On_keys c) = (\<lambda>T. after (perform_key (ho_iso h) ctx T c) Key_answer)"

definition environment_url :: string where
  "environment_url = ''/api/v1/projects/:projectId/environments/:environmentId''"

primrec route_of :: "api_call \<Rightarrow> string \<times> string \<times> string" where
  "route_of (On_organization c) = organization_route_of c"
| "route_of (On_project c) = project_route_of c"
| "route_of (On_environment projectId c) = environment_route_of c"
| "route_of (On_secrets projectId environmentId c) = apsnd (apfst ((@) environment_url)) (secret_route_of c)"
| "route_of (On_secret secretId c) = item_route_of c"
| "route_of (On_audit c) = audit_route_of c"
| "route_of (On_tags c) = tag_route_of c"
| "route_of (On_keys c) = key_route_of c"

record request_headers =
  hd_authorization :: "string option"
  hd_cookie :: "string option"
  hd_csrf :: "string option"
  hd_ip :: string
  hd_agent :: "string option"

definition request_for :: "request_headers \<Rightarrow> api_call \<Rightarrow> api_request" where
  "request_for h c = (case route_of c of (httpMethod, url, operationId) \<Rightarrow>
     \<lparr>rq_method = httpMethod, rq_route = url, rq_operation = Some operationId,
      rq_project = (case c of On_project p \<Rightarrow> project_of_call p | On_environment i e \<Rightarrow> Some i | On_secrets i e q \<Rightarrow> Some i | _ \<Rightarrow> None),
      rq_environment = (case c of On_environment i e \<Rightarrow> environment_of_call e | On_secrets i e q \<Rightarrow> Some e | _ \<Rightarrow> None),
      rq_secret = (case c of On_secret i q \<Rightarrow> Some i | _ \<Rightarrow> None),
      rq_body_project = (case c of On_keys (Create_key input) \<Rightarrow> ak_project input | _ \<Rightarrow> None),
      rq_body_environment = (case c of On_keys (Create_key input) \<Rightarrow> ak_environment input | _ \<Rightarrow> None),
      rq_body_source = (case c of On_secrets i e q \<Rightarrow> source_of_call q | _ \<Rightarrow> None),
      rq_authorization = hd_authorization h, rq_cookie = hd_cookie h, rq_csrf = hd_csrf h,
      rq_ip = hd_ip h, rq_agent = hd_agent h\<rparr>)"

section \<open>Serving a request\<close>

definition handle :: "api_host \<Rightarrow> transaction \<Rightarrow> api_request \<Rightarrow> api_context \<Rightarrow> api_call \<Rightarrow> api_answer db_op" where
  "handle h C q ctx c =
     bind (lift_sum (case c of On_secret secretId i \<Rightarrow> expected_of_call i | _ \<Rightarrow> Inr None)) (\<lambda>expected.
     with_tenant C q ctx (perform h expected ctx c))"

text \<open>The status of an answer: 201 for what was created, 304 for a configuration the client has already.\<close>

definition created :: "api_call \<Rightarrow> bool" where
  "created c = (case c of On_organization (Invite_member e r) \<Rightarrow> True | On_project (Create_project i) \<Rightarrow> True
     | On_environment p (Create_environment n s v) \<Rightarrow> True | On_secrets p e (Create_secret i) \<Rightarrow> True
     | On_tags (Create_tag n v) \<Rightarrow> True | On_keys (Create_key i) \<Rightarrow> True | _ \<Rightarrow> False)"

definition status_of :: "api_call \<Rightarrow> api_answer \<Rightarrow> nat" where
  "status_of c a = (if created c then 201
     else case a of Secret_answer (Runtime_answer etag r) \<Rightarrow> if config_secrets r = None then 304 else 200 | _ \<Rightarrow> 200)"

text \<open>A refusal is answered with the status and the code of its error; the database keeps what the guards wrote.\<close>

datatype api_reply = Refused nat string | Served nat api_answer

definition refuse :: "error \<Rightarrow> api_reply" where
  "refuse e = (case map_error e of (status, c) \<Rightarrow> Refused status c)"

definition serve_request ::
  "api_host \<Rightarrow> transaction \<Rightarrow> cookie_profile \<Rightarrow> int \<times> int \<Rightarrow> request_headers \<Rightarrow> api_call \<Rightarrow> rate_limiter \<Rightarrow> db \<Rightarrow>
     api_reply \<times> rate_limiter \<times> db" where
  "serve_request h C profile instants hs c l s =
     (let q = request_for hs c in
      case on_request C profile instants q l s of
        (Inl e, l1, s1) \<Rightarrow> (refuse e, l1, s1)
      | (Inr None, l1, s1) \<Rightarrow> (refuse unauthenticated, l1, s1)
      | (Inr (Some ctx), l1, s1) \<Rightarrow>
          (case handle h C q ctx c s1 of Inl e \<Rightarrow> (refuse e, l1, s1)
           | Inr (a, s2) \<Rightarrow> (Served (status_of c a) a, l1, s2)))"

end
