(* ===== verification/Api_Access.thy ===== *)
theory Api_Access
  imports Api_Guards Api_Key_Facts
begin

text \<open>
  What checking a credential leaves in the database, whatever the request: an event, and the times a session was
  last seen and a key last used.
\<close>

definition failure_event :: "transaction \<Rightarrow> api_request \<Rightarrow> audit_row \<Rightarrow> bool" where
  "failure_event C q ev \<longleftrightarrow> a_action ev = ''auth.login_failed'' \<and> a_ip ev = Some (rq_ip q)
     \<and> a_user_agent ev = rq_agent q \<and> a_occurred ev = tx_now C"

definition marks :: "('r \<Rightarrow> 'r) \<Rightarrow> (('t \<Rightarrow> 't) \<Rightarrow> 'r \<Rightarrow> 'r) \<Rightarrow> bool" where
  "marks f upd \<longleftrightarrow> (\<forall>r. \<exists>t. f r = upd (\<lambda>_. t) r)"

text \<open>The database after a check: the sessions seen, the keys used and the events.\<close>

definition checked ::
  "(session_row \<Rightarrow> session_row) \<Rightarrow> (api_key_row \<Rightarrow> api_key_row) \<Rightarrow> audit_row list \<Rightarrow> db \<Rightarrow> db" where
  "checked f g events s = s\<lparr>db_sessions := map f (db_sessions s), db_api_keys := map g (db_api_keys s),
     db_audit := db_audit s @ events\<rparr>"

lemma marks_id [simp]: "marks (\<lambda>r :: session_row. r) se_last_seen_update" "marks (\<lambda>k :: api_key_row. k) k_last_used_update"
proof -
  have "\<exists>t. r = r\<lparr>se_last_seen := t\<rparr>" for r :: session_row by (rule exI[of _ "se_last_seen r"]) simp
  then show "marks (\<lambda>r :: session_row. r) se_last_seen_update" unfolding marks_def by blast
  have "\<exists>t. k = k\<lparr>k_last_used := t\<rparr>" for k :: api_key_row by (rule exI[of _ "k_last_used k"]) simp
  then show "marks (\<lambda>k :: api_key_row. k) k_last_used_update" unfolding marks_def by blast
qed

lemma marks_if [simp]: "marks (\<lambda>r. r) upd \<Longrightarrow> marks (\<lambda>r. if P r then upd (\<lambda>_. t r) r else r) upd"
  unfolding marks_def by (metis (full_types))

lemma checked_simps [simp]: "checked (\<lambda>r. r) (\<lambda>k. k) [] s = s" "db_audit (checked f g es s) = db_audit s @ es"
  by (simp_all add: checked_def)

lemma recorded_event:
  "record_in_transaction T ev s = Inr (u, s') \<Longrightarrow>
     \<exists>row. s' = checked (\<lambda>r. r) (\<lambda>k. k) [row] s \<and> a_org row = event_org ev \<and> a_action row = action_text (event_action ev)
       \<and> a_ip row = event_ip ev \<and> a_user_agent row = event_user_agent ev \<and> a_occurred row = tx_now T"
proof -
  assume "record_in_transaction T ev s = Inr (u, s')"
  then obtain m where "s' = db_audit_update (\<lambda>es. es @ [audit_row_of T ev m (int (length (db_audit s)) + 1)]) s"
    by (auto simp: record_Inr)
  then show ?thesis
    by (intro exI[of _ "audit_row_of T ev m (int (length (db_audit s)) + 1)"]) (simp add: checked_def audit_row_of_def)
qed

lemma key_check:
  assumes run: "authenticate_key C token (client_of q) s = (r, s')"
  obtains (refused) events where "r = Inl invalid_token" and "s' = checked (\<lambda>r. r) (\<lambda>k. k) events s" and "length events \<le> 1"
      and "\<forall>ev\<in>set events. failure_event C q ev"
  | (used) p g ev where "r = Inr p" and "s' = checked (\<lambda>r. r) g [ev] s" and "marks g k_last_used_update"
      and "a_org ev = pr_org p"
proof (cases "token_prefix token")
  case (Inl e)
  have "r = Inl invalid_token" "s' = s" using run Inl by (auto simp: authenticate_key_def token_prefix_def split: if_splits)
  then show thesis using refused[of "[]"] by simp
next
  case (Inr p)
  let ?d = "token_digest (tx_platform C) token"
  let ?hit = "consumable (tx_now C) s p ?d" and ?failed = "used_event (client_of q) Auth_login_failed
     [(''method'', JStr ''bearer''), (''reason'', JStr ''invalid_or_inactive'')]"
  let ?g = "\<lambda>k. if ?hit k then touch_key (tx_now C) k else k"
  have g: "marks ?g k_last_used_update"
    unfolding touch_key_def by (rule marks_if) simp
  have s1: "snd (consume_api_key (tx_now C) p ?d s) = checked (\<lambda>r. r) ?g [] s"
    by (simp add: consume_api_key_def Let_def checked_def)
  show thesis
  proof (cases "fst (consume_api_key (tx_now C) p ?d s)")
    case Nil
    then have c: "consume_api_key (tx_now C) p ?d s = ([], checked (\<lambda>r. r) ?g [] s)" using s1 by (metis prod.collapse)
    show thesis
    proof (cases "resolve_api_key_identity p s")
      case Nil
      then show thesis using run c refused[of "[]"] \<open>token_prefix token = Inr p\<close> by (simp add: authenticate_key_def)
    next
      case (Cons k ks)
      then have out: "r = Inl invalid_token"
        "s' = (case record_in_transaction (C\<lparr>tx_org := k_org k\<rparr>) (?failed k) s of Inl _ \<Rightarrow> s | Inr (_, t) \<Rightarrow> t)"
        using run c \<open>token_prefix token = Inr p\<close> by (auto simp: authenticate_key_def split: sum.splits)
      show thesis
      proof (cases "record_in_transaction (C\<lparr>tx_org := k_org k\<rparr>) (?failed k) s")
        case (Inl e)
        then show thesis using refused[of "[]"] out by simp
      next
        case (Inr w)
        obtain u t where w: "w = (u, t)" by (cases w)
        then obtain row where "s' = checked (\<lambda>r. r) (\<lambda>k. k) [row] s" "failure_event C q row"
          using recorded_event[OF Inr[unfolded w]] out(2) Inr
          by (auto simp: failure_event_def used_event_def api_key_event_def client_of_def)
        then show thesis using refused[of "[row]"] out(1) by simp
      qed
    qed
  next
    case (Cons k ks)
    then have c: "consume_api_key (tx_now C) p ?d s = (k # ks, checked (\<lambda>r. r) ?g [] s)" using s1 by (metis prod.collapse)
    let ?ev = "used_event (client_of q) Api_key_used [(''access'', JStr (access_text (k_access k)))] k"
    show thesis
    proof (cases "record_in_transaction (C\<lparr>tx_org := k_org k\<rparr>) ?ev (checked (\<lambda>r. r) ?g [] s)")
      case (Inl e)
      then show thesis using run c refused[of "[]"] \<open>token_prefix token = Inr p\<close> by (simp add: authenticate_key_def)
    next
      case (Inr w)
      obtain u t where w: "w = (u, t)" by (cases w)
      obtain row where row: "t = checked (\<lambda>r. r) (\<lambda>k. k) [row] (checked (\<lambda>r. r) ?g [] s)" "a_org row = k_org k"
        using recorded_event[OF Inr[unfolded w]] by (auto simp: used_event_def api_key_event_def)
      have "r = Inr (principal_of k)" "s' = t"
        using run c Inr w \<open>token_prefix token = Inr p\<close> by (simp_all add: authenticate_key_def)
      moreover have "t = checked (\<lambda>r. r) ?g [row] s" using row(1) by (simp add: checked_def)
      ultimately show thesis using used[OF _ _ g] row(2) by (simp add: principal_of_def)
    qed
  qed
qed

lemma session_checked:
  shows "authenticate C token s = Inl e \<Longrightarrow> e = auth_failure Invalid_session"
    and "authenticate C token s = Inr (session, s') \<Longrightarrow> \<exists>f. marks f se_last_seen_update \<and> s' = checked f (\<lambda>k. k) [] s"
proof -
  show "e = auth_failure Invalid_session" if "authenticate C token s = Inl e"
    using that by (auto simp: authenticate_def op_defs update_global_def split: option.splits prod.splits)
  assume "authenticate C token s = Inr (session, s')"
  then obtain r :: session_row where s': "s' = db_sessions_update (map (\<lambda>q. if se_id q = se_id r then q\<lparr>se_last_seen := tx_now C\<rparr> else q)) s"
    by (simp add: authenticate_def op_simps update_global_def split_beta) blast
  show "\<exists>f. marks f se_last_seen_update \<and> s' = checked f (\<lambda>k. k) [] s"
    unfolding s' by (rule exI[of _ "\<lambda>q. if se_id q = se_id r then q\<lparr>se_last_seen := tx_now C\<rparr> else q"]) (simp add: checked_def
      marks_if[of se_last_seen_update "\<lambda>q. se_id q = se_id r" "\<lambda>_. tx_now C"])
qed

lemma failed_session_recorded:
  "\<exists>events. record_failed_session C q token e s = checked (\<lambda>r. r) (\<lambda>k. k) events s \<and> length events \<le> 1
     \<and> (\<forall>ev\<in>set events. failure_event C q ev)"
proof (cases "record_failed_session C q token e s = s")
  case True
  then show ?thesis by (intro exI[of _ "[]"]) simp
next
  case False
  then obtain c sessionId userId orgId u s' where
    run: "with_org C orgId userId (\<lambda>T. record_in_transaction T (failed_session_event q c (sessionId, userId, orgId))) s = Inr (u, s')"
    and out: "record_failed_session C q token e s = s'"
    by (auto simp: record_failed_session_def split: error.splits option.splits sum.splits prod.splits)
  have "record_in_transaction (bound_to C orgId userId) (failed_session_event q c (sessionId, userId, orgId)) s = Inr (u, s')"
    using run by (auto simp: with_org_def with_org_context_def Let_def op_simps select_rows_def)
  from recorded_event[OF this] obtain row where "s' = checked (\<lambda>r. r) (\<lambda>k. k) [row] s" "failure_event C q row"
    by (auto simp: failed_session_event_def user_event_def failure_event_def client_of_def bound_to_def)
  then show ?thesis using out by (intro exI[of _ "[row]"]) simp
qed

lemma admitted_error: "session_admitted P q session = Inl e \<Longrightarrow>
    e = auth_failure Invalid_session \<or> (e = auth_failure Invalid_csrf \<and> is_unsafe_method (rq_method q))"
  by (auto simp: session_admitted_def csrf_checked_def verify_csrf_def and_ok_def Let_def split: option.splits if_splits sum.splits)

lemma token_error: "session_token_from_request profile q = Inl e \<Longrightarrow> e = unauthenticated"
proof -
  have "cookie_from ps name = Inl e \<Longrightarrow> e = unauthenticated" for ps name
    by (induction ps) (auto split: if_splits option.splits)
  then have "cookie_value h name = Inl e \<Longrightarrow> e = unauthenticated" for h name
    by (auto simp: cookie_value_def split: option.splits)
  then show "session_token_from_request profile q = Inl e \<Longrightarrow> e = unauthenticated"
    by (auto simp: session_token_from_request_def and_ok_def split: sum.splits if_splits)
qed

text \<open>The two outcomes of a check.\<close>

lemma credential_check:
  assumes run: "authenticate_request C profile q s = (r, s')"
  obtains (refused) e f events where "r = Inl e" and "s' = checked f (\<lambda>k. k) events s" and "marks f se_last_seen_update"
      and "length events \<le> 1" and "\<forall>ev\<in>set events. failure_event C q ev"
      and "e \<in> {unauthenticated, invalid_token, auth_failure Invalid_session}
        \<or> (e = auth_failure Invalid_csrf \<and> is_unsafe_method (rq_method q) \<and> rq_authorization q = None)"
  | (accepted) ctx f g events where "r = Inr ctx" and "s' = checked f g events s" and "marks f se_last_seen_update"
      and "marks g k_last_used_update" and "\<forall>ev\<in>set events. a_org ev = ax_org ctx"
proof -
  have none: thesis if "r = Inl unauthenticated" "s' = s"
    using refused[of unauthenticated "\<lambda>r. r" "[]"] that by simp
  consider e where "session_token_from_request profile q = Inl e" | token where "session_token_from_request profile q = Inr token"
    by (cases "session_token_from_request profile q") auto
  then show thesis
  proof cases
    case 1
    then show thesis using none token_error[OF 1] run by (simp add: authenticate_request_def)
  next
    case 2
    show thesis
    proof (cases "rq_authorization q")
      case (Some authorization)
      show thesis
      proof (cases "token = None \<and> bearer_token authorization \<noteq> None")
        case False
        then have "r = Inl unauthenticated \<and> s' = s" using run 2 Some by (cases token) (auto simp: authenticate_request_def)
        then show thesis using none by simp
      next
        case True
        then obtain bearer where b: "bearer_token authorization = Some bearer" by auto
        obtain r' t where k: "authenticate_key C bearer (client_of q) s = (r', t)" by (metis prod.exhaust)
        have out: "s' = t" "r = (case r' of Inl e \<Rightarrow> Inl e | Inr p \<Rightarrow> Inr (key_context p))"
          using run 2 Some True b k by (auto simp: authenticate_request_def split: sum.splits)
        show thesis
        proof (rule key_check[OF k])
          fix events
          assume "r' = Inl invalid_token" "t = checked (\<lambda>r. r) (\<lambda>k. k) events s" "length events \<le> 1" "\<forall>ev\<in>set events. failure_event C q ev"
          then show thesis using refused[of invalid_token "\<lambda>r. r" events] out by simp
        next
          fix p g ev
          assume "r' = Inr p" "t = checked (\<lambda>r. r) g [ev] s" "marks g k_last_used_update" "a_org ev = pr_org p"
          then show thesis using accepted[of "key_context p" "\<lambda>r. r" g "[ev]"] out by (simp add: key_context_def)
        qed
      qed
    next
      case None
      show thesis
      proof (cases token)
        case None
        then show thesis using none run 2 \<open>rq_authorization q = None\<close> by (simp add: authenticate_request_def)
      next
        case (Some sessionToken)
        have run': "authenticate_session C q sessionToken s = (r, s')"
          using run 2 None Some by (simp add: authenticate_request_def)
        show thesis
        proof (cases "authenticate C sessionToken s")
          case (Inl e)
          obtain events where "record_failed_session C q sessionToken e s = checked (\<lambda>r. r) (\<lambda>k. k) events s" "length events \<le> 1"
            "\<forall>ev\<in>set events. failure_event C q ev" using failed_session_recorded by blast
          then show thesis
            using run' Inl session_checked(1)[OF Inl] refused[of e "\<lambda>r. r" events] by (simp add: authenticate_session_def)
        next
          case (Inr w)
          obtain session s1 where w: "w = (session, s1)" by (cases w)
          obtain f where f: "marks f se_last_seen_update" "s1 = checked f (\<lambda>k. k) [] s"
            using session_checked(2)[OF Inr[unfolded w]] by blast
          show thesis
          proof (cases "session_admitted (tx_platform C) q session")
            case e: (Inl e)
            obtain events where ev: "record_failed_session C q sessionToken e s1 = checked (\<lambda>r. r) (\<lambda>k. k) events s1" "length events \<le> 1"
              "\<forall>ev\<in>set events. failure_event C q ev" using failed_session_recorded by blast
            have "s' = checked f (\<lambda>k. k) events s" "r = Inl e"
              using run' Inr w e ev(1) f(2) by (simp_all add: authenticate_session_def checked_def)
            then show thesis using refused[of e f events] f(1) ev(2,3) admitted_error[OF e] None by auto
          next
            case ctx: (Inr ctx)
            then show thesis using accepted[of ctx f "\<lambda>k. k" "[]"] run' Inr w f by (simp add: authenticate_session_def)
          qed
        qed
      qed
    qed
  qed
qed

text \<open>The live session behind an accepted cookie.\<close>

definition session_behind :: "transaction \<Rightarrow> api_request \<Rightarrow> string \<Rightarrow> api_context \<Rightarrow> session_row \<Rightarrow> bool" where
  "session_behind C q token ctx r \<longleftrightarrow> se_token_hash r = token_digest (tx_platform C) token
     \<and> se_revoked r = None \<and> tx_now C < se_expires r \<and> se_user r = ax_user ctx \<and> se_active_org r = Some (ax_org ctx)
     \<and> (is_unsafe_method (rq_method q) \<longrightarrow> (\<exists>csrf. rq_csrf q = Some csrf \<and> token_digest (tx_platform C) csrf = se_csrf_hash r))"

lemma session_accepted:
  assumes "authenticate_session C q token s = (Inr ctx, s')"
  shows "\<exists>r\<in>set (db_sessions s). session_behind C q token ctx r"
proof -
  obtain session s1 where a: "authenticate C token s = Inr (session, s1)"
    and ok: "session_admitted (tx_platform C) q session = Inr ctx"
    using assms by (auto simp: authenticate_session_def split: sum.splits)
  obtain r u where r: "r \<in> set (db_sessions s)" "se_token_hash r = token_digest (tx_platform C) token" "se_revoked r = None"
    "tx_now C < se_expires r"
    and session: "as_user session = se_user r" "as_active_org session = se_active_org r" "as_csrf_hash session = se_csrf_hash r"
  proof -
    obtain r u where first: "first_row (live_session_users C (token_digest (tx_platform C) token) s) = Some (r, u)"
      and session: "session = \<lparr>as_session = se_id r, as_user = se_user r, as_email = u_email u, as_active_org = se_active_org r,
        as_csrf_hash = se_csrf_hash r, as_expires = to_date (se_expires r)\<rparr>"
      using a by (auto simp: authenticate_def op_simps)
    have "(r, u) \<in> set (live_session_users C (token_digest (tx_platform C) token) s)"
      using first by (auto simp: first_row_def split: list.splits)
    then show thesis using that[of r] session by (auto simp: live_session_users_def)
  qed
  have "session_behind C q token ctx r"
    using ok r session
    by (auto simp: session_admitted_def csrf_checked_def verify_csrf_def session_context_def session_behind_def and_ok_def Let_def
        split: option.splits if_splits sum.splits)
  then show ?thesis using r(1) by blast
qed

lemma request_accepted:
  assumes "authenticate_request C profile q s = (Inr ctx, s')"
  shows "ax_key ctx = None \<longleftrightarrow> rq_authorization q = None"
    and "ax_key ctx = None \<Longrightarrow> \<exists>token. session_token_from_request profile q = Inr (Some token)
      \<and> authenticate_session C q token s = (Inr ctx, s')"
proof -
  have k: "session_admitted P q session = Inr c \<Longrightarrow> ax_key c = None" for P session c
    by (auto simp: session_admitted_def and_ok_def session_context_def split: option.splits sum.splits if_splits)
  show "ax_key ctx = None \<longleftrightarrow> rq_authorization q = None"
    using assms k by (auto simp: authenticate_request_def authenticate_session_def key_context_def
        split: sum.splits option.splits if_splits prod.splits)
  show "\<exists>token. session_token_from_request profile q = Inr (Some token) \<and> authenticate_session C q token s = (Inr ctx, s')"
    if "ax_key ctx = None"
    using assms that by (auto simp: authenticate_request_def key_context_def split: sum.splits option.splits if_splits prod.splits)
qed


definition demo_cookie_session :: session_row where
  "demo_cookie_session = \<lparr>se_id = ''i'', se_user = ''u'', se_token_hash = token_digest demo_platform ''t'', se_csrf_hash = token_digest demo_platform ''c'',
     se_ip = None, se_user_agent = None, se_created = 0, se_last_seen = 0, se_active_org = Some ''o'', se_expires = 9000, se_revoked = None\<rparr>"

definition demo_posting :: api_request where
  "demo_posting = \<lparr>rq_method = ''POST'', rq_route = ''/api/v1/tags'', rq_operation = Some ''createTag'', rq_project = None,
     rq_environment = None, rq_secret = None, rq_body_project = None, rq_body_environment = None, rq_body_source = None,
     rq_authorization = None, rq_cookie = Some ''theme=dark; __Host-himitsu_session=t'', rq_csrf = Some ''c'',
     rq_ip = ''10.0.0.1'', rq_agent = None\<rparr>"

lemma demo_cookie_token: "session_token_from_request secure_cookie_profile demo_posting = Inr (Some ''t'')"
  by code_simp

definition demo_signed_db :: db where
  "demo_signed_db = empty_db\<lparr>db_users := [\<lparr>u_id = ''u'', u_email = ''u@x.io'', u_email_normalized = ''u@x.io'', u_password_hash = None,
     u_verified = Some 0, u_disabled = None, u_created = 0, u_updated = 0\<rparr>], db_sessions := [demo_cookie_session]\<rparr>"

definition demo_session_context :: api_context where
  "demo_session_context = \<lparr>ax_org = ''o'', ax_user = ''u'', ax_actor = Session_actor ''u'' ''i'', ax_key = None\<rparr>"

lemma demo_accepted: "fst (authenticate_request demo_tx secure_cookie_profile demo_posting demo_signed_db) = Inr demo_session_context"
proof -
  have "rq_authorization demo_posting = None" "rq_csrf demo_posting = Some ''c''" "is_unsafe_method (rq_method demo_posting)"
    by (simp_all add: demo_posting_def is_unsafe_method_def)
  moreover have "tx_platform demo_tx = demo_platform" "tx_now demo_tx = 5000" by (simp_all add: demo_tx_def)
  ultimately show ?thesis
    by (simp add: authenticate_request_def demo_cookie_token authenticate_session_def authenticate_def op_defs update_global_def
        live_session_users_def demo_signed_db_def empty_db_def demo_cookie_session_def first_row_def session_admitted_def
        csrf_checked_def verify_csrf_def and_ok_def session_context_def demo_session_context_def Let_def)
qed


end
