(* ===== verification/Api_Facts.thy ===== *)
theory Api_Facts
  imports Api_Secret_Routes Api_Access
begin

text \<open>
  What requests leave behind: a served request keeps to its organization, a read-only key changes no data, and a
  refused request leaves at most an event.
\<close>

section \<open>Every handler keeps the contract of its organization\<close>

lemma obeys_after [contract_intros]: "obeys R m \<Longrightarrow> obeys R (after m f)"
  by (auto simp: obeys_def after_def op_simps)

lemma sessions_tenant_step: "tenant_step orgId s (db_sessions_update f s)"
  by (auto simp: tenant_step_def foreign_def audit_ok_def db_keys_ok_def org_keys_def versions_ok_def keys_kept_def
      key_at_def config_kept_def environment_at_def configuration_def)

lemma obeys_write_sessions [contract_intros]: "obeys (tenant_step orgId) (writes (db_sessions_update f))"
  by (rule tenant.obeys_writesI) (rule sessions_tenant_step)

lemma obeys_current_organization [contract_intros]: "obeys (tenant_step orgId) (current_organization T)"
  unfolding current_organization_def by (intro contract_intros)

lemma obeys_actor_role [contract_intros]: "obeys (tenant_step orgId) (actor_role T userId)"
  unfolding actor_role_def by (intro contract_intros)

lemma obeys_target_member [contract_intros]: "obeys (tenant_step orgId) (target_member T P)"
  unfolding target_member_def by (intro contract_intros)

lemma obeys_update_organization [contract_intros]:
  "obeys (tenant_step (tx_org T)) (update_organization T userId name slug)"
  unfolding update_organization_def by (intro contract_intros) simp

lemma obeys_update_member [contract_intros]: "obeys (tenant_step (tx_org T)) (update_member T userId memberId r)"
  unfolding update_member_def by (intro contract_intros) simp

lemma obeys_remove_member [contract_intros]: "obeys (tenant_step (tx_org T)) (remove_member T userId memberId)"
  unfolding remove_member_def delete_membership_def by (intro contract_intros)

lemma obeys_revoke_invitation [contract_intros]:
  "obeys (tenant_step (tx_org T)) (revoke_invitation T userId invitationId)"
  unfolding revoke_invitation_def by (intro contract_intros) simp

lemma obeys_with_org [contract_intros]:
  "i = orgId \<Longrightarrow> (\<And>T. tx_org T = orgId \<Longrightarrow> obeys (tenant_step orgId) (work T)) \<Longrightarrow>
     obeys (tenant_step orgId) (with_org C i userId work)"
  unfolding with_org_def with_org_context_def Let_def by (auto intro!: contract_intros simp: bound_to_def)

lemma obeys_store_invitation [contract_intros]:
  "tx_org T = orgId \<Longrightarrow> obeys (tenant_step orgId) (store_invitation T input token expiresAt)"
  unfolding store_invitation_def insert_invitation_def
  by (auto intro!: contract_intros simp del: One_nat_def) 

lemma obeys_invite_member [contract_intros]:
  "in_org input = orgId \<Longrightarrow> obeys (tenant_step orgId) (invite_member T input)"
  unfolding invite_member_def create_invitation_def Let_def by (intro contract_intros) simp_all

lemma obeys_upsert_report [contract_intros]:
  "obeys (tenant_step (tx_org T)) (upsert_report T row)"
  unfolding upsert_report_def by (auto intro!: contract_intros)

lemma obeys_compute [contract_intros]: "obeys (tenant_step (tx_org T)) (compute isoText T actorUserId projectId)"
  unfolding compute_def compute_fresh_def read_values_def report_def Let_def by (auto intro!: contract_intros)

lemma obeys_query_audit [contract_intros]: "obeys (tenant_step orgId) (query_audit T o' F n)"
  unfolding query_audit_def Let_def by (intro contract_intros)

lemma obeys_perform_organization: "obeys (tenant_step (tx_org T)) (perform_organization ctx T c)"
  by (cases c) (auto simp: get_organization_def list_members_def list_invitations_def intro!: contract_intros)

lemma obeys_perform_project: "obeys (tenant_step (tx_org T)) (perform_project isoText window ctx T c)"
  by (cases c) (auto simp: projects_page_def intro!: contract_intros)

lemma obeys_environment_of_project [contract_intros]:
  "obeys (tenant_step orgId) (environment_of_project ctx T projectId environmentId)"
  unfolding environment_of_project_def by (intro contract_intros)

lemma obeys_perform_environment: "obeys (tenant_step (tx_org T)) (perform_environment isoText window ctx T projectId c)"
  by (cases c) (auto simp: environments_page_def intro!: contract_intros)

lemma obeys_perform_secret: "obeys (tenant_step (tx_org T)) (perform_secret parseJson ctx T projectId environmentId c)"
  by (cases c) (auto simp: secrets_page_def fetch_runtime_def bulk_get_secrets_def existing_keys_def commit_dotenv_def
      commit_json_def Let_def intro!: contract_intros)

lemma obeys_perform_item: "obeys (tenant_step (tx_org T)) (perform_item expected ctx T secretId c)"
  by (cases c) (auto simp: versions_page_def intro!: contract_intros)

lemma obeys_perform_audit: "obeys (tenant_step (tx_org T)) (perform_audit isoText ctx T c)"
  by (cases c) (auto simp: list_audit_def export_audit_def export_audit_csv_def export_audit_json_def Let_def
      split: audit_format.splits intro!: contract_intros)

lemma obeys_perform_tag: "obeys (tenant_step (tx_org T)) (perform_tag ctx T c)"
  by (cases c) (auto intro!: contract_intros)

lemma obeys_perform_key: "obeys (tenant_step (tx_org T)) (perform_key isoText ctx T c)"
  by (cases c) (auto simp: keys_page_def intro!: contract_intros)

lemma obeys_perform [contract_intros]: "tx_org T = orgId \<Longrightarrow> obeys (tenant_step orgId) (perform h expected ctx c T)"
  by (cases c) (auto intro: obeys_after obeys_perform_organization obeys_perform_project obeys_perform_environment
      obeys_perform_secret obeys_perform_item obeys_perform_audit obeys_perform_tag obeys_perform_key)

lemma guards_obey [contract_intros]:
  "obeys (tenant_step orgId) (enforce_api_key_scope T q ctx)" "obeys (tenant_step orgId) (enforce_route_permission T q ctx)"
  unfolding enforce_api_key_scope_def enforce_project_scope_def secret_in_scope_def enforce_route_permission_def
    request_policy_def environment_policy_def
  by (auto intro!: contract_intros split: option.splits)

lemma obeys_handle: "obeys (tenant_step (ax_org ctx)) (handle h C q ctx c)"
  unfolding handle_def with_tenant_def by (intro contract_intros) simp_all

section \<open>Reading\<close>

text \<open>Reads write events, and the report cache.\<close>

definition read_step :: "db \<Rightarrow> db \<Rightarrow> bool" where
  "read_step s s' \<longleftrightarrow> s'\<lparr>db_audit := [], db_reports := []\<rparr> = s\<lparr>db_audit := [], db_reports := []\<rparr>"

interpretation browsing: op_contract read_step
  by unfold_locales (auto simp: read_step_def)

lemma browsing_intros [contract_intros]:
  "obeys read_step (select_rows org get T P)" "obeys read_step (permit T userId projectId prot p)"
  "obeys read_step (record_in_transaction T ev)" "obeys read_step (tx_decrypt T v ctx)"
  "obeys read_step (upsert_report T row)"
proof -
  show "obeys read_step (select_rows org get T P)" unfolding select_rows_def by (rule contract_intros)
  show "obeys read_step (permit T userId projectId prot p)" by (auto simp: obeys_def permit_Inr browsing.R_refl)
  show "obeys read_step (record_in_transaction T ev)" by (auto simp: obeys_def record_Inr read_step_def)
  show "obeys read_step (tx_decrypt T v ctx)" by (auto simp: obeys_def browsing.R_refl dest: tx_decrypt_state)
  show "obeys read_step (upsert_report T row)"
    by (auto simp: obeys_def upsert_report_def op_simps update_rows_def insert_row_def select_rows_def read_step_def
        split: if_splits)
qed

lemma browsing_services [contract_intros]:
  "obeys read_step (list_secrets T userId projectId environmentId search tagId)" "obeys read_step (get_secret T userId secretId)"
  "obeys read_step (runtime_configuration T userId projectId environmentId known auditActor)"
  "obeys read_step (export_config T userId projectId environmentId format options auditActor)"
  "obeys read_step (list_versions T userId secretId)" "obeys read_step (compare_versions T userId secretId fromVersion toVersion reveal)"
  unfolding list_secrets_def get_secret_def runtime_configuration_def export_config_def list_versions_def compare_versions_def
    Let_def value_row_def metadata_row_def permit_in_def environment_scope_def decrypt_row_def decrypt_version_def
    decrypt_all_def view_row_def
  by (auto intro!: contract_intros split: if_splits)

lemma request_for_simps:
  "rq_method (request_for hs c) = fst (route_of c)" "rq_route (request_for hs c) = fst (snd (route_of c))"
  "rq_operation (request_for hs c) = Some (snd (snd (route_of c)))"
  "rq_authorization (request_for hs c) = hd_authorization hs"
  by (simp_all add: request_for_def split_beta)

lemma no_head: "fst (route_of c) \<noteq> ''HEAD''"
proof (cases c)
  case (On_organization x) then show ?thesis by (cases x) simp_all
next
  case (On_project x) then show ?thesis by (cases x) simp_all
next
  case (On_environment p x) then show ?thesis by (cases x) simp_all
next
  case (On_secrets p e x) then show ?thesis by (cases x) simp_all
next
  case (On_secret i x) then show ?thesis by (cases x) simp_all
next
  case (On_audit x) then show ?thesis by (cases x) simp_all
next
  case (On_tags x) then show ?thesis by (cases x) simp_all
next
  case (On_keys x) then show ?thesis by (cases x) simp_all
qed

definition bulk_get :: "api_call \<Rightarrow> bool" where
  "bulk_get c = (case c of On_secrets p e (Bulk_get keys) \<Rightarrow> True | _ \<Rightarrow> False)"

lemma read_call:
  assumes "is_read_operation (request_for hs c)"
  shows "fst (route_of c) = ''GET'' \<or> bulk_get c"
proof (cases "fst (route_of c) = ''GET''")
  case False
  then have e: "ends_with ''/secrets/bulk-get'' (fst (snd (route_of c)))"
    using assms no_head[of c] by (simp add: is_read_operation_def request_for_simps)
  have "bulk_get c"
  proof (cases c)
    case (On_organization x) then show ?thesis using e by (cases x) (simp_all add: ends_with_def)
  next
    case (On_project x) then show ?thesis using e by (cases x) (simp_all add: ends_with_def)
  next
    case (On_environment p x) then show ?thesis using e by (cases x) (simp_all add: ends_with_def)
  next
    case (On_secrets p e' x)
    then show ?thesis using e by (cases x) (simp_all add: ends_with_def environment_url_def bulk_get_def)
  next
    case (On_secret i x) then show ?thesis using e by (cases x) (simp_all add: ends_with_def)
  next
    case (On_audit x) then show ?thesis using e by (cases x) (simp_all add: ends_with_def)
  next
    case (On_tags x) then show ?thesis using e by (cases x) (simp_all add: ends_with_def)
  next
    case (On_keys x) then show ?thesis using e by (cases x) (simp_all add: ends_with_def)
  qed
  then show ?thesis ..
qed simp

lemma browsing_handlers:
  "obeys read_step (projects_page ctx T query)" "obeys read_step (get_project T userId projectId incl)"
  "obeys read_step (compute isoText T userId projectId)"
  "obeys read_step (environments_page ctx T projectId query)" "obeys read_step (environment_of_project ctx T projectId environmentId)"
  "obeys read_step (get_organization T)" "obeys read_step (list_members T)" "obeys read_step (list_invitations T)"
  "obeys read_step (query_audit T o' F n)" "obeys read_step (get_retention T o')"
  "obeys read_step (list_tags T userId query)" "obeys read_step (keys_page ctx T query)"
  unfolding projects_page_def get_project_def list_projects_def view_project_def compute_def compute_fresh_def read_values_def report_def
    environments_page_def environment_of_project_def list_environments_def get_environment_def require_active_project_def
    get_organization_def current_organization_def list_members_def list_invitations_def query_audit_def get_retention_def
    list_tags_def keys_page_def list_api_keys_def Let_def
  by (auto intro!: contract_intros)

lemma browsing_perform:
  assumes "fst (route_of c) = ''GET'' \<or> bulk_get c"
  shows "obeys read_step (perform h expected ctx c T)"
proof (cases c)
  case (On_organization x) then show ?thesis using assms
    by (cases x) (auto simp: bulk_get_def intro!: obeys_after browsing_handlers)
next
  case (On_project x) then show ?thesis using assms
    by (cases x) (auto simp: bulk_get_def intro!: obeys_after browsing_handlers)
next
  case (On_environment p x) then show ?thesis using assms
    by (cases x) (auto simp: bulk_get_def intro!: obeys_after browsing_handlers)
next
  case (On_secrets p e x) then show ?thesis using assms
    by (cases x) (auto simp: bulk_get_def secrets_page_def fetch_runtime_def bulk_get_secrets_def intro!: contract_intros)
next
  case (On_secret i x) then show ?thesis using assms
    by (cases x) (auto simp: bulk_get_def versions_page_def intro!: contract_intros)
next
  case (On_audit x) then show ?thesis using assms
    by (cases x) (auto simp: bulk_get_def list_audit_def export_audit_def export_audit_csv_def export_audit_json_def Let_def
      split: audit_format.splits intro!: contract_intros browsing_handlers)
next
  case (On_tags x) then show ?thesis using assms
    by (cases x) (auto simp: bulk_get_def intro!: obeys_after browsing_handlers)
next
  case (On_keys x) then show ?thesis using assms
    by (cases x) (auto simp: bulk_get_def intro!: obeys_after browsing_handlers)
qed

section \<open>Organizations\<close>

text \<open>What an organization has; when its keys were last used is left out.\<close>

definition own :: "uuid \<Rightarrow> db \<Rightarrow> db" where
  "own o' s = s\<lparr>
     db_organizations := filter (\<lambda>r. o_id r = o') (db_organizations s),
     db_users := [],
     db_memberships := filter (\<lambda>r. m_org r = o') (db_memberships s),
     db_projects := filter (\<lambda>r. p_org r = o') (db_projects s),
     db_environments := filter (\<lambda>r. e_org r = o') (db_environments s),
     db_secrets := filter (\<lambda>r. s_org r = o') (db_secrets s),
     db_versions := filter (\<lambda>r. v_org r = o') (db_versions s),
     db_tags := filter (\<lambda>r. t_org r = o') (db_tags s),
     db_secret_tags := filter (\<lambda>r. st_org r = o') (db_secret_tags s),
     db_project_tags := filter (\<lambda>r. pt_org r = o') (db_project_tags s),
     db_api_keys := map (k_last_used_update (\<lambda>_. None)) (filter (\<lambda>r. k_org r = o') (db_api_keys s)),
     db_audit := [],
     db_keys := filter (\<lambda>r. dk_org r = o') (db_keys s),
     db_overrides := filter (\<lambda>r. ov_org r = o') (db_overrides s),
     db_invitations := filter (\<lambda>r. i_org r = o') (db_invitations s),
     db_reports := filter (\<lambda>r. rc_org r = o') (db_reports s),
     db_states := filter (\<lambda>r. fs_org r = o') (db_states s),
     db_sessions := [], db_verifications := [], db_resets := [],
     db_draws := 0\<rparr>"

definition trail :: "uuid \<Rightarrow> db \<Rightarrow> audit_row list" where
  "trail o' s = filter (\<lambda>r. a_org r = o') (db_audit s)"

lemma own_foreign:
  assumes "i \<noteq> o'"
  shows "own i (foreign o' s) = own i s" and "trail i (foreign o' s) = trail i s"
proof -
  have "(x \<noteq> o' \<and> x = i) = (x = i)" for x using assms by auto
  then show "own i (foreign o' s) = own i s" "trail i (foreign o' s) = trail i s"
    by (simp_all add: own_def foreign_def trail_def)
qed

lemma tenant_step_own:
  assumes "tenant_step o' s s'" and "i \<noteq> o'"
  shows "own i s' = own i s" and "trail i s' = trail i s"
proof -
  have "foreign o' s = foreign o' s'" using assms(1) by (simp add: tenant_step_def)
  then show "own i s' = own i s" "trail i s' = trail i s" using own_foreign[OF assms(2)] by metis+
qed

lemma checked_own:
  assumes "marks f se_last_seen_update" and "marks g k_last_used_update"
  shows "own i (checked f g events s) = own i s" and "trail i (checked f g events s) = trail i s @ filter (\<lambda>r. a_org r = i) events"
proof -
  have k: "k_org (g k) = k_org k" "k_last_used_update (\<lambda>_. None) (g k) = k_last_used_update (\<lambda>_. None) k" for k
  proof -
    obtain t where "g k = k_last_used_update (\<lambda>_. t) k" using assms(2) unfolding marks_def by blast
    then show "k_org (g k) = k_org k" "k_last_used_update (\<lambda>_. None) (g k) = k_last_used_update (\<lambda>_. None) k" by simp_all
  qed
  have "map (k_last_used_update (\<lambda>_. None)) (filter (\<lambda>r. k_org r = i) (map g ks))
      = map (k_last_used_update (\<lambda>_. None)) (filter (\<lambda>r. k_org r = i) ks)" for ks
    by (induction ks) (simp_all add: k)
  then show "own i (checked f g events s) = own i s" by (simp add: own_def checked_def)
  show "trail i (checked f g events s) = trail i s @ filter (\<lambda>r. a_org r = i) events" by (simp add: trail_def checked_def)
qed

text \<open>A request speaks for an organization when its credential is accepted there.\<close>

definition speaks_for :: "uuid \<Rightarrow> transaction \<Rightarrow> cookie_profile \<Rightarrow> api_request \<Rightarrow> db \<Rightarrow> bool" where
  "speaks_for o' C profile q s \<longleftrightarrow> (case fst (authenticate_request C profile q s) of Inl e \<Rightarrow> False | Inr ctx \<Rightarrow> ax_org ctx = o')"

definition unharmed :: "uuid \<Rightarrow> db \<Rightarrow> db \<Rightarrow> bool" where
  "unharmed i s s' \<longleftrightarrow> own i s' = own i s
     \<and> (\<exists>events. trail i s' = trail i s @ events \<and> (\<forall>ev\<in>set events. a_action ev = ''auth.login_failed''))"

lemma unharmed_refl: "unharmed i s s"
  unfolding unharmed_def by (intro conjI exI[of _ "[]"]) simp_all

lemma unharmed_trans: "unharmed i s t \<Longrightarrow> unharmed i t u \<Longrightarrow> unharmed i s u"
  unfolding unharmed_def by (elim conjE exE) (intro conjI exI[of _ "_ @ _"], auto)

lemma check_unharmed:
  assumes run: "authenticate_request C profile q s = (r, s')" and "\<not> speaks_for i C profile q s"
  shows "unharmed i s s'"
proof (rule credential_check[OF run])
  fix e f events
  assume s': "s' = checked f (\<lambda>k. k) events s" and f: "marks f se_last_seen_update" and "\<forall>ev\<in>set events. failure_event C q ev"
  then show "unharmed i s s'"
    unfolding unharmed_def s' checked_own[OF f marks_id(2)] by (auto simp: failure_event_def)
next
  fix ctx f g events
  assume r: "r = Inr ctx" and s': "s' = checked f g events s" and m: "marks f se_last_seen_update" "marks g k_last_used_update"
    and ev: "\<forall>ev\<in>set events. a_org ev = ax_org ctx"
  have "ax_org ctx \<noteq> i" using assms r by (simp add: speaks_for_def)
  then have "filter (\<lambda>r. a_org r = i) events = []" using ev by (auto simp: filter_empty_conv)
  then show "unharmed i s s'" unfolding unharmed_def s' checked_own[OF m] by simp
qed

lemma hook_cases:
  assumes "on_request C profile instants q l s = (r, l1, s1)"
  obtains (untouched) "s1 = s" and "\<And>ctx. r \<noteq> Inr (Some ctx)"
  | (checked) r' where "authenticate_request C profile q s = (r', s1)" and "\<And>ctx. r = Inr (Some ctx) \<Longrightarrow> r' = Inr ctx"
proof (cases "s1 = s \<and> (\<forall>ctx. r \<noteq> Inr (Some ctx))")
  case False
  obtain r' t where a: "authenticate_request C profile q s = (r', t)" by (metis prod.exhaust)
  have "s1 = t \<and> (\<forall>ctx. r = Inr (Some ctx) \<longrightarrow> r' = Inr ctx)"
    using assms False a by (auto simp: on_request_def Let_def split: if_splits prod.splits sum.splits option.splits)
  then show thesis using checked a by blast
qed (use untouched in blast)

lemma serve_unharmed:
  assumes run: "serve_request h C profile instants hs c l s = (reply, l', s')"
    and quiet: "\<not> speaks_for i C profile (request_for hs c) s"
  shows "unharmed i s s'"
proof -
  let ?q = "request_for hs c"
  obtain r l1 s1 where hook: "on_request C profile instants ?q l s = (r, l1, s1)" by (metis prod.exhaust)
  have s1: "unharmed i s s1"
    by (rule hook_cases[OF hook]) (use check_unharmed[OF _ quiet] unharmed_refl in auto)
  have other: "ax_org ctx \<noteq> i" if "r = Inr (Some ctx)" for ctx
    by (rule hook_cases[OF hook]) (use that quiet in \<open>auto simp: speaks_for_def\<close>)
  show ?thesis
  proof (cases "s' = s1")
    case False
    then obtain ctx a where ctx: "r = Inr (Some ctx)" "handle h C ?q ctx c s1 = Inr (a, s')"
      using run hook by (auto simp: serve_request_def Let_def split: sum.splits option.splits prod.splits)
    then have "unharmed i s1 s'"
      using tenant_step_own[OF obeysD[OF obeys_handle ctx(2)] other[OF ctx(1), symmetric]]
      by (auto simp: unharmed_def)
    then show ?thesis using unharmed_trans s1 by blast
  qed (use s1 in simp)
qed

section \<open>Many requests\<close>

record arrival =
  av_conn :: transaction
  av_instants :: "int \<times> int"
  av_headers :: request_headers
  av_call :: api_call

definition serve_arrival :: "api_host \<Rightarrow> cookie_profile \<Rightarrow> arrival \<Rightarrow> rate_limiter \<Rightarrow> db \<Rightarrow> api_reply \<times> rate_limiter \<times> db" where
  "serve_arrival h profile a = serve_request h (av_conn a) profile (av_instants a) (av_headers a) (av_call a)"

primrec serve_all :: "api_host \<Rightarrow> cookie_profile \<Rightarrow> arrival list \<Rightarrow> rate_limiter \<Rightarrow> db \<Rightarrow> api_reply list \<times> rate_limiter \<times> db" where
  "serve_all h profile [] l s = ([], l, s)"
| "serve_all h profile (a # as) l s = (case serve_arrival h profile a l s of (reply, l1, s1) \<Rightarrow>
     apfst (Cons reply) (serve_all h profile as l1 s1))"

primrec nobody_speaks :: "uuid \<Rightarrow> api_host \<Rightarrow> cookie_profile \<Rightarrow> arrival list \<Rightarrow> rate_limiter \<Rightarrow> db \<Rightarrow> bool" where
  "nobody_speaks i h profile [] l s \<longleftrightarrow> True"
| "nobody_speaks i h profile (a # as) l s \<longleftrightarrow>
     \<not> speaks_for i (av_conn a) profile (request_for (av_headers a) (av_call a)) s
     \<and> (case serve_arrival h profile a l s of (reply, l1, s1) \<Rightarrow> nobody_speaks i h profile as l1 s1)"

text \<open>
  C32: organizations are isolated. Whatever requests reach the tenant routes, an organization none of them was accepted
  for keeps every row it has as it was; the most that happens to it is that refused credentials of its users and
  keys are recorded at the end of its audit trail.
\<close>
theorem organizations_are_isolated:
  assumes "serve_all h profile arrivals l s = (replies, l', s')" and "nobody_speaks i h profile arrivals l s"
  shows "own i s' = own i s
    \<and> (\<exists>events. trail i s' = trail i s @ events \<and> (\<forall>ev\<in>set events. a_action ev = ''auth.login_failed''))"
proof -
  have "unharmed i s s'"
    using assms
  proof (induction arrivals arbitrary: replies l s)
    case Nil
    then show ?case by (simp add: unharmed_refl)
  next
    case (Cons a arrivals)
    obtain reply l1 s1 where one: "serve_arrival h profile a l s = (reply, l1, s1)" by (metis prod.exhaust)
    obtain rest where more: "serve_all h profile arrivals l1 s1 = (rest, l', s')"
      using Cons.prems(1) one by (cases "serve_all h profile arrivals l1 s1") auto
    have "unharmed i s s1"
      using serve_unharmed one Cons.prems(2) by (metis nobody_speaks.simps(2) serve_arrival_def)
    moreover have "unharmed i s1 s'"
      using Cons.IH[OF more] Cons.prems(2) one by simp
    ultimately show ?case using unharmed_trans by blast
  qed
  then show ?thesis by (simp add: unharmed_def)
qed

section \<open>Scopes\<close>

text \<open>The secret is in the project, and in the environment if the scope has one.\<close>

definition secret_within :: "uuid \<Rightarrow> uuid \<Rightarrow> uuid option \<Rightarrow> uuid \<Rightarrow> db \<Rightarrow> bool" where
  "secret_within orgId projectId scope secretId s \<longleftrightarrow> (\<forall>r\<in>set (db_secrets s).
     s_org r = orgId \<and> s_id r = secretId \<and> s_deleted r = None \<longrightarrow> s_project r = projectId \<and> scope \<in> {None, Some (s_environment r)})"

definition reads_call :: "api_call \<Rightarrow> bool" where
  "reads_call c \<longleftrightarrow> fst (route_of c) = ''GET''"

text \<open>The calls a key of a project, or of one of its environments, reaches.\<close>

primrec reach :: "uuid \<Rightarrow> uuid \<Rightarrow> uuid option \<Rightarrow> db \<Rightarrow> api_call \<Rightarrow> bool" where
  "reach orgId projectId scope s (On_organization x) \<longleftrightarrow> False"
| "reach orgId projectId scope s (On_project x) \<longleftrightarrow> (\<exists>query. x = List_projects query)
     \<or> (project_of_call x = Some projectId \<and> (scope = None \<or> reads_call (On_project x)))"
| "reach orgId projectId scope s (On_environment p x) \<longleftrightarrow> p = projectId
     \<and> (case environment_of_call x of None \<Rightarrow> scope = None \<or> reads_call (On_environment p x) | Some e \<Rightarrow> scope \<in> {None, Some e})"
| "reach orgId projectId scope s (On_secrets p e x) \<longleftrightarrow> p = projectId \<and> scope \<in> {None, Some e}
     \<and> (scope = None \<or> source_of_call x \<in> {None, scope})"
| "reach orgId projectId scope s (On_secret i x) \<longleftrightarrow> secret_within orgId projectId scope i s"
| "reach orgId projectId scope s (On_audit x) \<longleftrightarrow> False"
| "reach orgId projectId scope s (On_tags x) \<longleftrightarrow> False"
| "reach orgId projectId scope s (On_keys x) \<longleftrightarrow> False"

lemma secret_scope_Inr:
  assumes "secret_in_scope T projectId scope secretId s = Inr (u, s')" and "versions_ok s"
  shows "secret_within (tx_org T) projectId scope secretId s"
  unfolding secret_within_def
proof (intro ballI impI)
  fix r assume r: "r \<in> set (db_secrets s)" "s_org r = tx_org T \<and> s_id r = secretId \<and> s_deleted r = None"
  let ?rows = "filter (\<lambda>r. s_id r = secretId \<and> s_deleted r = None) (visible s_org T (db_secrets s))"
  have mem: "r \<in> set ?rows" using r by (simp add: visible_def)
  then obtain q qs where rows: "?rows = q # qs" by (cases ?rows) auto
  then have q: "q \<in> set (db_secrets s)" "s_id q = secretId" by (auto simp: visible_def dest: filter_head)
  have "inj_on s_id (set (db_secrets s))" using assms(2) by (simp add: versions_ok_def distinct_map)
  then have "q = r" using q r by (metis inj_onD)
  then show "s_project r = projectId \<and> scope \<in> {None, Some (s_environment r)}"
    using assms(1) rows by (auto simp: secret_in_scope_def op_simps select_rows_def first_row_def)
qed

lemma scope_reach:
  assumes run: "enforce_project_scope T (request_for hs c) projectId scope s = Inr (u, s')" and ok: "versions_ok s"
  shows "reach (tx_org T) projectId scope s c"
proof (cases c)
  case (On_organization x)
  then show ?thesis using run by (cases x) (auto simp: enforce_project_scope_def request_for_def op_simps)
next
  case (On_project x)
  then show ?thesis using run
    by (cases x) (auto simp: enforce_project_scope_def request_for_def op_simps outside_def reads_call_def is_unsafe_method_def)
next
  case (On_environment p x)
  then show ?thesis using run
    by (cases x) (auto simp: enforce_project_scope_def request_for_def op_simps outside_def reads_call_def is_unsafe_method_def)
next
  case (On_secrets p e x)
  then show ?thesis using run
    by (cases x) (auto simp: enforce_project_scope_def request_for_def op_simps outside_def source_of_call_def promotion_operation_def)
next
  case (On_secret i x)
  then have "\<exists>u t. secret_in_scope T projectId scope i s = Inr (u, t)"
    using run by (cases x) (auto simp: enforce_project_scope_def request_for_def op_simps)
  then show ?thesis using secret_scope_Inr[OF _ ok] On_secret by auto
next
  case (On_audit x)
  then show ?thesis using run
    by (cases x) (auto simp: enforce_project_scope_def request_for_def op_simps organization_route_def starts_with_def)
next
  case (On_tags x)
  then show ?thesis using run
    by (cases x) (auto simp: enforce_project_scope_def request_for_def op_simps organization_route_def starts_with_def)
next
  case (On_keys x)
  then show ?thesis using run
    by (cases x) (auto simp: enforce_project_scope_def request_for_def op_simps organization_route_def starts_with_def)
qed

text \<open>The guards only read.\<close>

interpretation guarding: op_contract "(=) :: db \<Rightarrow> db \<Rightarrow> bool"
  by unfold_locales auto

lemma guarding_intros [contract_intros]:
  "obeys (=) (select_rows org get T P)" "obeys (=) (permit T userId projectId prot p)"
proof -
  show "obeys (=) (select_rows org get T P)" unfolding select_rows_def by (rule contract_intros)
  show "obeys (=) (permit T userId projectId prot p)" by (auto simp: obeys_def permit_Inr)
qed

lemma policy_reads: "obeys (=) (request_policy T q)"
  unfolding request_policy_def environment_policy_def by (auto intro!: contract_intros split: option.splits)

lemma guards_read: "obeys (=) (enforce_api_key_scope T q ctx)" "obeys (=) (enforce_route_permission T q ctx)"
  unfolding enforce_api_key_scope_def enforce_project_scope_def secret_in_scope_def enforce_route_permission_def
    request_policy_def environment_policy_def
  by (auto intro!: contract_intros split: option.splits)

lemma handle_Inr:
  assumes "handle h C q ctx c s = Inr (a, s')"
  obtains expected T where "tx_org T = ax_org ctx" and "T = bound_to C (ax_org ctx) (ax_user ctx)"
    and "\<exists>m\<in>set (db_memberships s). m_org m = ax_org ctx \<and> active_membership (ax_user ctx) m"
    and "enforce_api_key_scope T q ctx s = Inr ((), s)" and "enforce_route_permission T q ctx s = Inr ((), s)"
    and "perform h expected ctx c T s = Inr (a, s')"
proof -
  let ?T = "bound_to C (ax_org ctx) (ax_user ctx)"
  obtain expected s1 s2 where member: "length (filter (active_membership (ax_user ctx)) (visible m_org ?T (db_memberships s))) = 1"
    and scope: "enforce_api_key_scope ?T q ctx s = Inr ((), s1)"
    and permission: "enforce_route_permission ?T q ctx s1 = Inr ((), s2)"
    and work: "perform h expected ctx c ?T s2 = Inr (a, s')"
    using assms by (auto simp: handle_def with_tenant_def with_org_def with_org_context_def Let_def op_simps select_rows_def)
  have "s1 = s" "s2 = s" using obeysD[OF guards_read(1) scope] obeysD[OF guards_read(2) permission] by simp_all
  moreover have "\<exists>m\<in>set (db_memberships s). m_org m = ax_org ctx \<and> active_membership (ax_user ctx) m"
  proof -
    obtain m where "m \<in> set (filter (active_membership (ax_user ctx)) (visible m_org ?T (db_memberships s)))"
      using member by (metis list.set_sel(1) list.size(3) zero_neq_one)
    then show ?thesis by (auto simp: visible_def bound_to_def)
  qed
  ultimately show thesis using that[of ?T expected] scope permission work by (simp add: bound_to_def)
qed

lemma projects_listed:
  assumes "perform h expected ctx (On_project (List_projects query)) T s = Inr (Project_answer (Project_page page), s')"
    and "key_project ctx = Some projectId"
  shows "\<forall>v\<in>set (pg_data page). pv_id v = projectId"
proof -
  obtain all where "page = paginated (filter (project_shown query) (in_scope pv_id (Some projectId) all)) query"
    using assms by (auto simp: after_def op_simps projects_page_def)
  then show ?thesis by (auto simp: paginated_def pagination_def in_scope_def dest!: in_set_takeD in_set_dropD)
qed

lemma read_effect:
  assumes "is_read_operation (request_for hs c)" and "perform h expected ctx c T s = Inr (a, s')"
  shows "read_step s s'"
  using obeysD[OF browsing_perform[OF read_call[OF assms(1)]] assms(2)] .


section \<open>Policies and scopes\<close>

definition read_permissions :: "permission list" where
  "read_permissions = [Org_settings_read, Org_members_read, Project_read, Environment_read, Secret_read, Api_key_read,
     Audit_read, Audit_export]"

lemmas policy_simps = route_permission_def request_for_def is_read_operation_def ends_with_def read_permissions_def
  api_route_permissions_def environment_url_def

lemma tables_agree:
  "\<exists>p. route_permission (request_for hs c) = Some p \<and> (is_read_operation (request_for hs c) \<longleftrightarrow> p \<in> set read_permissions)"
proof (cases c)
  case (On_organization x) then show ?thesis by (cases x) (simp_all add: policy_simps)
next
  case (On_project x) then show ?thesis by (cases x) (simp_all add: policy_simps)
next
  case (On_environment p x) then show ?thesis by (cases x) (simp_all add: policy_simps)
next
  case (On_secrets p e x) then show ?thesis by (cases x) (simp_all add: policy_simps)
next
  case (On_secret i x) then show ?thesis by (cases x) (simp_all add: policy_simps)
next
  case (On_audit x) then show ?thesis by (cases x) (simp_all add: policy_simps)
next
  case (On_tags x) then show ?thesis by (cases x) (simp_all add: policy_simps)
next
  case (On_keys x) then show ?thesis by (cases x) (simp_all add: policy_simps)
qed

text \<open>The project and the protection the permission of a request is asked for.\<close>

definition policy_target :: "transaction \<Rightarrow> api_request \<Rightarrow> db \<Rightarrow> uuid option \<times> bool" where
  "policy_target T q s = (case request_policy T q s of Inl e \<Rightarrow> (None, False) | Inr (target, _) \<Rightarrow> target)"


section \<open>A request\<close>

definition demo_headers :: request_headers where
  "demo_headers = \<lparr>hd_authorization = None, hd_cookie = Some ''__Host-himitsu_session=t'', hd_csrf = Some ''c'',
     hd_ip = ''10.0.0.1'', hd_agent = None\<rparr>"

definition demo_host :: api_host where
  "demo_host = \<lparr>ho_iso = (\<lambda>_. []), ho_window = 0, ho_parse = (\<lambda>_. None)\<rparr>"

definition demo_two_orgs :: db where
  "demo_two_orgs = demo_signed_db\<lparr>db_memberships := [demo_membership ''u'' Owner],
     db_tags := [\<lparr>t_id = ''a'', t_org = ''x'', t_name = ''red'', t_color = ''#FF0000'', t_created = 0, t_updated = 0\<rparr>]\<rparr>"

definition demo_fresh_limiter :: rate_limiter where
  "demo_fresh_limiter = \<lparr>rl_window = 60000, rl_per_ip = 300, rl_per_key = 120, rl_buckets = [], rl_operations = 0\<rparr>"

abbreviation demo_call :: api_call where "demo_call \<equiv> On_tags (Create_tag ''blue'' ''#0000ff'')"

definition demo_arrival :: arrival where
  "demo_arrival = \<lparr>av_conn = demo_tx, av_instants = (0, 0), av_headers = demo_headers, av_call = demo_call\<rparr>"

primrec reply_status :: "api_reply \<Rightarrow> nat" where
  "reply_status (Refused status c) = status"
| "reply_status (Served status a) = status"

theorem organizations_are_isolated_witness:
  "case serve_all demo_host secure_cookie_profile [demo_arrival] demo_fresh_limiter demo_two_orgs of (replies, l, s') \<Rightarrow>
     map reply_status replies = [201] \<and> own ''x'' s' = own ''x'' demo_two_orgs"
proof -
  obtain replies l s' where run: "serve_all demo_host secure_cookie_profile [demo_arrival] demo_fresh_limiter demo_two_orgs = (replies, l, s')"
    by (metis prod.exhaust)
  have "\<not> speaks_for ''x'' demo_tx secure_cookie_profile (request_for demo_headers demo_call) demo_two_orgs"
    by code_simp
  then have "nobody_speaks ''x'' demo_host secure_cookie_profile [demo_arrival] demo_fresh_limiter demo_two_orgs"
    by (simp add: demo_arrival_def split: prod.split)
  then have "own ''x'' s' = own ''x'' demo_two_orgs" using organizations_are_isolated[OF run] by blast
  moreover have "map reply_status (fst (serve_all demo_host secure_cookie_profile [demo_arrival] demo_fresh_limiter demo_two_orgs)) = [201]"
    by code_simp
  ultimately show ?thesis using run by simp
qed


text \<open>A read-only key of the project \<^verbatim>\<open>p\<close>.\<close>

definition demo_key_context :: api_context where
  "demo_key_context = key_context \<lparr>pr_key = ''k'', pr_org = ''o'', pr_user = ''u'', pr_project = Some ''p'', pr_environment = None,
     pr_access = Access_read_only, pr_prefix = ''himi_'', pr_used = 0\<rparr>"

definition demo_two_projects :: db where
  "demo_two_projects = demo_db\<lparr>db_projects := [demo_project, demo_project\<lparr>p_id := ''q'', p_slug := ''q''\<rparr>]\<rparr>"

abbreviation demo_listing :: api_call where
  "demo_listing \<equiv> On_project (List_projects \<lparr>pq_limit = None, pq_offset = None, pq_search = None, pq_tag = None\<rparr>)"


end
