(* ===== verification/Effects.thy ===== *)
theory Effects
  imports JsText
begin

text \<open>
  The clients (\<^verbatim>\<open>integrations/github-action\<close> and \<^verbatim>\<open>apps/cli\<close>) act on the world outside and keep what
  they have done when they fail: a log line that is written stays written. Their functions are
  computations that return an error or a value and always the world after it, in contrast to the
  service operations, whose transaction is rolled back. The section on simulation compares two
  runs of a client in related worlds, the one on histories what a run adds to its world.
\<close>

type_synonym ('w, 'e, 'a) act = "'w \<Rightarrow> ('e + 'a) \<times> 'w"

definition act_ret :: "'a \<Rightarrow> ('w, 'e, 'a) act" where
  "act_ret a = (\<lambda>w. (Inr a, w))"

definition act_fail :: "'e \<Rightarrow> ('w, 'e, 'a) act" where
  "act_fail e = (\<lambda>w. (Inl e, w))"

definition act_bind :: "('w, 'e, 'a) act \<Rightarrow> ('a \<Rightarrow> ('w, 'e, 'b) act) \<Rightarrow> ('w, 'e, 'b) act" where
  "act_bind m f = (\<lambda>w. case m w of (Inl e, v) \<Rightarrow> (Inl e, v) | (Inr a, v) \<Rightarrow> f a v)"

definition act_seq :: "('w, 'e, unit) act \<Rightarrow> ('w, 'e, 'b) act \<Rightarrow> ('w, 'e, 'b) act" where
  "act_seq m n = act_bind m (\<lambda>_. n)"

definition act_do :: "('w \<Rightarrow> 'w) \<Rightarrow> ('w, 'e, unit) act" where
  "act_do f = (\<lambda>w. (Inr (), f w))"

definition act_get :: "('w \<Rightarrow> 'a \<times> 'w) \<Rightarrow> ('w, 'e, 'a) act" where
  "act_get f = (\<lambda>w. case f w of (a, v) \<Rightarrow> (Inr a, v))"

definition act_lift :: "'e + 'a \<Rightarrow> ('w, 'e, 'a) act" where
  "act_lift r = (\<lambda>w. (r, w))"

definition act_when :: "bool \<Rightarrow> ('w, 'e, unit) act \<Rightarrow> ('w, 'e, unit) act" where
  "act_when c m = (if c then m else act_ret ())"

primrec act_each :: "('x \<Rightarrow> ('w, 'e, unit) act) \<Rightarrow> 'x list \<Rightarrow> ('w, 'e, unit) act" where
  "act_each f [] = act_ret ()"
| "act_each f (x # xs) = act_seq (f x) (act_each f xs)"

text \<open>\<^verbatim>\<open>value.includes(part)\<close>\<close>

fun contains_text :: "string \<Rightarrow> string \<Rightarrow> bool" where
  "contains_text part [] \<longleftrightarrow> part = []"
| "contains_text part (c # cs) \<longleftrightarrow> starts_with part (c # cs) \<or> contains_text part cs"

lemma contains_text_append: "contains_text part (pre @ part @ post)"
proof (induction pre)
  case Nil
  have "starts_with part (part @ post)" by (simp add: starts_with_def)
  then show ?case by (cases "part @ post") auto
qed simp

lemmas act_defs = act_ret_def act_fail_def act_bind_def act_seq_def act_do_def act_get_def act_lift_def act_when_def

lemma act_seq_each_append: "act_each f (xs @ ys) = act_seq (act_each f xs) (act_each f ys)"
  by (induction xs) (auto simp: act_seq_def act_bind_def act_ret_def fun_eq_iff split: prod.splits sum.splits)

section \<open>Two runs in related worlds\<close>

text \<open>
  \<open>alike W A m n\<close>: from related worlds, \<open>m\<close> and \<open>n\<close> fail with the same error or return related
  values, and leave related worlds.
\<close>

definition same_outcome :: "('a \<Rightarrow> 'b \<Rightarrow> bool) \<Rightarrow> 'e + 'a \<Rightarrow> 'e + 'b \<Rightarrow> bool" where
  "same_outcome A r r' = (case (r, r') of (Inl e, Inl e') \<Rightarrow> e = e' | (Inr a, Inr b) \<Rightarrow> A a b | _ \<Rightarrow> False)"

definition alike :: "('w \<Rightarrow> 'w \<Rightarrow> bool) \<Rightarrow> ('a \<Rightarrow> 'b \<Rightarrow> bool) \<Rightarrow> ('w, 'e, 'a) act \<Rightarrow> ('w, 'e, 'b) act \<Rightarrow> bool" where
  "alike W A m n \<longleftrightarrow> (\<forall>w v. W w v \<longrightarrow> same_outcome A (fst (m w)) (fst (n v)) \<and> W (snd (m w)) (snd (n v)))"

named_theorems alike_intros \<open>composition rules for pairs of runs\<close>

lemma alike_ret [alike_intros]: "A a b \<Longrightarrow> alike W A (act_ret a) (act_ret b)"
  by (simp add: alike_def act_ret_def same_outcome_def)

lemma alike_fail [alike_intros]: "alike W A (act_fail e) (act_fail e)"
  by (simp add: alike_def act_fail_def same_outcome_def)

lemma alike_lift [alike_intros]: "same_outcome A r r' \<Longrightarrow> alike W A (act_lift r) (act_lift r')"
  by (simp add: alike_def act_lift_def)

lemma alike_bind [alike_intros]:
  assumes "alike W A m n" and "\<And>a b. A a b \<Longrightarrow> alike W B (f a) (g b)"
  shows "alike W B (act_bind m f) (act_bind n g)"
  unfolding alike_def
proof (intro allI impI)
  fix w v assume "W w v"
  then have step: "same_outcome A (fst (m w)) (fst (n v))" "W (snd (m w)) (snd (n v))"
    using assms(1) by (auto simp: alike_def)
  obtain r w1 r' v1 where m: "m w = (r, w1)" and n: "n v = (r', v1)" by (metis surj_pair)
  show "same_outcome B (fst (act_bind m f w)) (fst (act_bind n g v)) \<and> W (snd (act_bind m f w)) (snd (act_bind n g v))"
    using step assms(2) m n
    by (cases r; cases r') (auto simp: act_bind_def same_outcome_def alike_def)
qed

lemma alike_seq [alike_intros]:
  "alike W (\<lambda>_ _. True) m n \<Longrightarrow> alike W B k l \<Longrightarrow> alike W B (act_seq m k) (act_seq n l)"
  unfolding act_seq_def by (rule alike_bind)

lemma alike_when [alike_intros]:
  "c = d \<Longrightarrow> alike W (\<lambda>_ _. True) m n \<Longrightarrow> alike W (\<lambda>_ _. True) (act_when c m) (act_when d n)"
  by (simp add: act_when_def alike_ret)

lemma alike_do: "(\<And>w v. W w v \<Longrightarrow> W (f w) (g v)) \<Longrightarrow> alike W (\<lambda>_ _. True) (act_do f) (act_do g)"
  by (simp add: alike_def act_do_def same_outcome_def)

lemma alike_get:
  "(\<And>w v. W w v \<Longrightarrow> A (fst (f w)) (fst (g v)) \<and> W (snd (f w)) (snd (g v))) \<Longrightarrow> alike W A (act_get f) (act_get g)"
  by (simp add: alike_def act_get_def same_outcome_def split_beta)

lemma alike_each [alike_intros]:
  "list_all2 (\<lambda>x y. alike W (\<lambda>_ _. True) (f x) (g y)) xs ys \<Longrightarrow> alike W (\<lambda>_ _. True) (act_each f xs) (act_each g ys)"
  by (induction rule: list_all2_induct) (auto intro: alike_intros)

lemma alike_weaken: "alike W A m n \<Longrightarrow> (\<And>a b. A a b \<Longrightarrow> B a b) \<Longrightarrow> alike W B m n"
  by (fastforce simp: alike_def same_outcome_def split: sum.splits)

section \<open>What a run adds\<close>

text \<open>
  A run adds a segment to the history of its world; \<open>adds hist Q m\<close> states \<open>Q result segment\<close> of
  every run. The interface is the world's history as a list that runs only extend.
\<close>

definition adds :: "('w \<Rightarrow> 'x list) \<Rightarrow> ('e + 'a \<Rightarrow> 'x list \<Rightarrow> bool) \<Rightarrow> ('w, 'e, 'a) act \<Rightarrow> bool" where
  "adds hist Q m \<longleftrightarrow> (\<forall>w. \<exists>t. hist (snd (m w)) = hist w @ t \<and> Q (fst (m w)) t)"

named_theorems adds_intros \<open>composition rules for the histories of runs\<close>

lemma addsD: "adds hist Q m \<Longrightarrow> m w = (r, v) \<Longrightarrow> \<exists>t. hist v = hist w @ t \<and> Q r t"
  unfolding adds_def by (metis fst_conv snd_conv)

lemma adds_weaken: "adds hist Q m \<Longrightarrow> (\<And>r t. Q r t \<Longrightarrow> R r t) \<Longrightarrow> adds hist R m"
  unfolding adds_def by blast

lemma adds_ret: "Q (Inr a) [] \<Longrightarrow> adds hist Q (act_ret a)"
  by (simp add: adds_def act_ret_def)

lemma adds_fail: "Q (Inl e) [] \<Longrightarrow> adds hist Q (act_fail e)"
  by (simp add: adds_def act_fail_def)

lemma adds_lift: "Q r [] \<Longrightarrow> adds hist Q (act_lift r)"
  by (simp add: adds_def act_lift_def)

lemma adds_bind:
  assumes "adds hist Q m" and "\<And>a s. Q (Inr a) s \<Longrightarrow> adds hist (\<lambda>r t. R r (s @ t)) (f a)"
    and "\<And>e s. Q (Inl e) s \<Longrightarrow> R (Inl e) s"
  shows "adds hist R (act_bind m f)"
  unfolding adds_def
proof
  fix w
  obtain r v where m: "m w = (r, v)" by fastforce
  obtain s where s: "hist v = hist w @ s" "Q r s" using addsD[OF assms(1) m] by blast
  show "\<exists>t. hist (snd (act_bind m f w)) = hist w @ t \<and> R (fst (act_bind m f w)) t"
  proof (cases r)
    case (Inl e)
    then show ?thesis using assms(3) s by (auto simp: act_bind_def m)
  next
    case (Inr a)
    obtain r' v' where f: "f a v = (r', v')" by fastforce
    obtain t where "hist v' = hist v @ t" "R r' (s @ t)"
      using addsD[OF assms(2) f] s(2) Inr by blast
    then show ?thesis using s(1) Inr f by (auto simp: act_bind_def m intro!: exI[of _ "s @ t"])
  qed
qed

lemma adds_all_bind [adds_intros]:
  "adds hist (\<lambda>_ t. list_all P t) m \<Longrightarrow> (\<And>a. adds hist (\<lambda>_ t. list_all P t) (f a))
    \<Longrightarrow> adds hist (\<lambda>_ t. list_all P t) (act_bind m f)"
  by (rule adds_bind) (auto elim: adds_weaken)

lemma adds_all_seq [adds_intros]:
  "adds hist (\<lambda>_ t. list_all P t) m \<Longrightarrow> adds hist (\<lambda>_ t. list_all P t) n
    \<Longrightarrow> adds hist (\<lambda>_ t. list_all P t) (act_seq m n)"
  unfolding act_seq_def by (rule adds_all_bind)

lemma adds_all_basic [adds_intros]:
  "adds hist (\<lambda>_ t. list_all P t) (act_ret a)" "adds hist (\<lambda>_ t. list_all P t) (act_fail e)"
  "adds hist (\<lambda>_ t. list_all P t) (act_lift r)"
  by (simp_all add: adds_ret adds_fail adds_lift)

lemma adds_all_when [adds_intros]:
  "adds hist (\<lambda>_ t. list_all P t) m \<Longrightarrow> adds hist (\<lambda>_ t. list_all P t) (act_when c m)"
  by (simp add: act_when_def adds_intros)

lemma adds_all_each [adds_intros]:
  "(\<And>x. x \<in> set xs \<Longrightarrow> adds hist (\<lambda>_ t. list_all P t) (f x)) \<Longrightarrow> adds hist (\<lambda>_ t. list_all P t) (act_each f xs)"
  by (induction xs) (auto intro: adds_intros)

end
