(* ===== verification/Action.thy ===== *)
theory Action
  imports Effects Api_Text Complex_Main
begin

text \<open>
  The GitHub action of \<^verbatim>\<open>integrations/github-action/src\<close>: the workflow commands of \<^verbatim>\<open>core.ts\<close>, the
  client with its retries of \<^verbatim>\<open>himitsu.ts\<close>, and \<^verbatim>\<open>run.ts\<close> with its main program \<^verbatim>\<open>index.ts\<close>. What the
  action does to the runner is the list of effects of a world; the environment, the random
  sources, the URL parser, path resolution and the answers of the server are the runtime, a parameter.
  The cast of the server's data is unchecked in the source: data of the wrong shape fails as the
  accesses to it do.
\<close>

section \<open>The runtime and its effects\<close>

text \<open>\<^verbatim>\<open>RuntimeConfig\<close> and \<^verbatim>\<open>ExportResult\<close>: what the \<^verbatim>\<open>data\<close> of an answer is read as; the secrets in the order of \<^verbatim>\<open>Object.entries\<close>.\<close>

datatype served =
    Served_config int "(string \<times> string) list"
  | Served_export string nat

record failure_detail =
  fd_code :: "string option"
  fd_message :: "string option"
  fd_request :: "string option"

record payload =
  pl_data :: "served option"
  pl_error :: "failure_detail option"

text \<open>One call of \<^verbatim>\<open>fetch\<close>: a rejection with a message, or a status with the body, if it is JSON.\<close>

datatype answer = Unreachable string | Answered nat "payload option"

datatype effect =
    Logged string
  | Appended string string
  | Placed string nat string
  | Sent string string
  | Slept rat

record runtime =
  rt_env :: "string \<Rightarrow> string option"
  rt_eol :: string
  rt_bytes :: "nat \<Rightarrow> bytes"
  rt_random :: "nat \<Rightarrow> rat"
  rt_url :: "string \<Rightarrow> (string \<times> string) option"
  rt_fetch :: "nat \<Rightarrow> string \<Rightarrow> answer"
  rt_resolve :: "string \<Rightarrow> string"
  rt_type_error :: string

record world =
  wd_effects :: "effect list"
  wd_draws :: nat
  wd_requests :: nat
  wd_files :: "string \<Rightarrow> (nat \<times> string) option"

datatype action_error = Action_error string | Himitsu_error nat string string

type_synonym 'a action = "(world, action_error, 'a) act"

definition emit :: "effect \<Rightarrow> unit action" where
  "emit e = act_do (\<lambda>w. w\<lparr>wd_effects := wd_effects w @ [e]\<rparr>)"

definition draw :: "(nat \<Rightarrow> 'a) \<Rightarrow> 'a action" where
  "draw source = act_get (\<lambda>w. (source (wd_draws w), w\<lparr>wd_draws := wd_draws w + 1\<rparr>))"

section \<open>Workflow commands: \<^verbatim>\<open>core.ts\<close>\<close>

definition escape_data :: "string \<Rightarrow> string" where
  "escape_data t = concat (map (\<lambda>c. if c = CHR ''%'' then ''%25'' else if c = CHR 0x0D then ''%0D''
     else if c = CHR 0x0A then ''%0A'' else [c]) t)"

definition input_text :: "runtime \<Rightarrow> string \<Rightarrow> string" where
  "input_text R name = (case rt_env R (''INPUT_'' @ js_upper (map (\<lambda>c. if c = CHR '' '' then CHR ''_'' else c) name)) of
     None \<Rightarrow> [] | Some raw \<Rightarrow> trim raw)"

definition required_input :: "runtime \<Rightarrow> string \<Rightarrow> action_error + string" where
  "required_input R name = (let t = input_text R name in
     if t = [] then Inl (Action_error (''Input required and not supplied: '' @ name)) else Inr t)"

definition default_input :: "runtime \<Rightarrow> string \<Rightarrow> string \<Rightarrow> string" where
  "default_input R name fallback = (let t = input_text R name in if t = [] then fallback else t)"

definition boolean_input :: "runtime \<Rightarrow> string \<Rightarrow> bool \<Rightarrow> action_error + bool" where
  "boolean_input R name fallback = (let t = js_lower (input_text R name) in
     if t = [] then Inr fallback
     else if t \<in> {''true'', ''yes'', ''1'', ''on''} then Inr True
     else if t \<in> {''false'', ''no'', ''0'', ''off''} then Inr False
     else Inl (Action_error (''Input '' @ name @ '' must be a boolean, got '' @ json_quote t)))"

text \<open>\<^verbatim>\<open>split(/[\n,]/)\<close>: line feeds separate like commas.\<close>

definition list_input :: "runtime \<Rightarrow> string \<Rightarrow> string list" where
  "list_input R name = filter (\<lambda>t. t \<noteq> [])
     (map trim (split_on (CHR '','') (map (\<lambda>c. if c = CHR 0x0A then CHR '','' else c) (input_text R name))))"

definition log_info :: "string \<Rightarrow> unit action" where
  "log_info message = emit (Logged message)"

definition log_warning :: "string \<Rightarrow> unit action" where
  "log_warning message = emit (Logged (''::warning::'' @ escape_data message))"

definition log_error :: "string \<Rightarrow> unit action" where
  "log_error message = emit (Logged (''::error::'' @ escape_data message))"

definition mask_line :: "string \<Rightarrow> string" where
  "mask_line t = ''::add-mask::'' @ escape_data t"

definition add_mask :: "string \<Rightarrow> unit action" where
  "add_mask t = (if trim t = [] then act_ret () else emit (Logged (mask_line t)))"

definition delimiter :: "bytes \<Rightarrow> string" where
  "delimiter bs = ''ghadelimiter_'' @ hex_text bs"

definition write_key_value :: "runtime \<Rightarrow> string \<Rightarrow> string \<Rightarrow> string \<Rightarrow> unit action" where
  "write_key_value R fileVariable name t = (case rt_env R fileVariable of
     None \<Rightarrow> act_fail (Action_error (fileVariable @ '' is not set. This action must run on a GitHub Actions runner.''))
   | Some path \<Rightarrow>
     if path = [] then act_fail (Action_error (fileVariable @ '' is not set. This action must run on a GitHub Actions runner.''))
     else act_bind (draw (rt_bytes R)) (\<lambda>bs. let d = delimiter bs in
       if contains_text d t \<or> contains_text d name then
         act_fail (Action_error (''Refusing to write '' @ name @ '': value collides with the generated delimiter''))
       else if CHR 0x0A \<in> set name \<or> CHR 0x0D \<in> set name then
         act_fail (Action_error (''Refusing to write an environment name containing a newline: '' @ json_quote name))
       else emit (Appended path (name @ ''<<'' @ d @ rt_eol R @ t @ rt_eol R @ d @ rt_eol R))))"

definition set_output :: "runtime \<Rightarrow> string \<Rightarrow> string \<Rightarrow> unit action" where
  "set_output R name t = write_key_value R ''GITHUB_OUTPUT'' name t"

definition export_variable :: "runtime \<Rightarrow> string \<Rightarrow> string \<Rightarrow> unit action" where
  "export_variable R name t = write_key_value R ''GITHUB_ENV'' name t"

section \<open>The client: \<^verbatim>\<open>himitsu.ts\<close>\<close>

text \<open>\<^verbatim>\<open>/^himi_[0-9a-f]{16}_[A-Za-z0-9_-]{43}$/\<close>\<close>

definition token_well_formed :: "string \<Rightarrow> bool" where
  "token_well_formed token \<longleftrightarrow> length token = 65 \<and> take 5 token = ''himi_'' \<and> list_all is_hex (take 16 (drop 5 token))
     \<and> take 1 (drop 21 token) = ''_'' \<and> list_all is_url_char (drop 22 token)"

record himitsu_client =
  hc_base :: string
  hc_token :: string
  hc_attempts :: nat

definition new_client :: "runtime \<Rightarrow> string \<Rightarrow> string \<Rightarrow> action_error + himitsu_client" where
  "new_client R apiUrl token = (case rt_url R apiUrl of
     None \<Rightarrow> Inl (Action_error (rt_type_error R))
   | Some (protocol, href) \<Rightarrow>
     if protocol \<noteq> ''https:'' \<and> protocol \<noteq> ''http:'' then Inl (Action_error ''api-url must use http or https'')
     else if \<not> token_well_formed token then Inl (Action_error ''token is malformed (expected himi_<16 hex>_<43 chars>)'')
     else Inr \<lparr>hc_base = (if href \<noteq> [] \<and> last href = CHR ''/'' then butlast href else href), hc_token = token, hc_attempts = 4\<rparr>)"

text \<open>\<^verbatim>\<open>backoffMs\<close>\<close>

definition backoff_ms :: "nat \<Rightarrow> rat \<Rightarrow> rat" where
  "backoff_ms attempt r = (let delay = of_nat (min (250 * 2 ^ (attempt - 2)) 8000) in delay / 2 + r * (delay / 2))"

text \<open>\<^verbatim>\<open>toError\<close>; the constructor of \<^verbatim>\<open>HimitsuError\<close> appends the request to the message\<close>

definition himitsu_error :: "nat \<Rightarrow> string \<Rightarrow> string \<Rightarrow> string option \<Rightarrow> action_error" where
  "himitsu_error status errorCode message requestId = Himitsu_error status errorCode
     (case requestId of None \<Rightarrow> message | Some r \<Rightarrow> message @ '' (request '' @ r @ '')'')"

definition to_error :: "nat \<Rightarrow> payload option \<Rightarrow> action_error" where
  "to_error status body = (case Option.bind body pl_error of
     Some detail \<Rightarrow>
       (case fd_code detail of
          Some errorCode \<Rightarrow> himitsu_error status errorCode
            (case fd_message detail of None \<Rightarrow> ''Himitsu request failed'' | Some m \<Rightarrow> m) (fd_request detail)
        | None \<Rightarrow> himitsu_error status ''HTTP_ERROR'' (''Himitsu request failed ('' @ js_nat status @ '')'') None)
   | None \<Rightarrow> himitsu_error status ''HTTP_ERROR'' (''Himitsu request failed ('' @ js_nat status @ '')'') None)"

definition send :: "runtime \<Rightarrow> himitsu_client \<Rightarrow> string \<Rightarrow> answer action" where
  "send R c path = act_seq (emit (Sent (hc_base c @ path) (hc_token c)))
     (act_get (\<lambda>w. (rt_fetch R (wd_requests w) (hc_base c @ path), w\<lparr>wd_requests := wd_requests w + 1\<rparr>)))"

definition pause_before :: "runtime \<Rightarrow> nat \<Rightarrow> unit action" where
  "pause_before R attempt = act_when (1 < attempt) (act_bind (draw (rt_random R)) (\<lambda>r. emit (Slept (backoff_ms attempt r))))"

text \<open>\<^verbatim>\<open>#json\<close>: the attempts that are left, the number of this one and the last error\<close>

primrec request_json :: "runtime \<Rightarrow> himitsu_client \<Rightarrow> string \<Rightarrow> nat \<Rightarrow> nat \<Rightarrow> action_error \<Rightarrow> served action" where
  "request_json R c path 0 attempt lastError = act_fail lastError"
| "request_json R c path (Suc remaining) attempt lastError =
     act_seq (pause_before R attempt) (act_bind (send R c path) (\<lambda>answer. case answer of
       Unreachable cause \<Rightarrow>
         request_json R c path remaining (attempt + 1) (Action_error (''Network error calling Himitsu: '' @ cause))
     | Answered status body \<Rightarrow>
         if 200 \<le> status \<and> status \<le> 299 then
           (case Option.bind body pl_data of
              None \<Rightarrow> act_fail (himitsu_error status ''MALFORMED_RESPONSE'' ''API response had no data field'' None)
            | Some d \<Rightarrow> act_ret d)
         else if status \<noteq> 429 \<and> status < 500 then act_fail (to_error status body)
         else request_json R c path remaining (attempt + 1) (to_error status body)))"

definition client_json :: "runtime \<Rightarrow> himitsu_client \<Rightarrow> string \<Rightarrow> served action" where
  "client_json R c path = request_json R c path (hc_attempts c) 1 (Action_error ''Himitsu request failed'')"

definition environment_path :: "string \<Rightarrow> string \<Rightarrow> string" where
  "environment_path projectId environmentId = ''/api/v1/projects/'' @ encode_uri_component projectId
     @ ''/environments/'' @ encode_uri_component environmentId"

definition runtime_config_request :: "runtime \<Rightarrow> himitsu_client \<Rightarrow> string \<Rightarrow> string \<Rightarrow> served action" where
  "runtime_config_request R c projectId environmentId =
     client_json R c (environment_path projectId environmentId @ ''/secrets/runtime'')"

datatype file_format = File_dotenv | File_json | File_shell

primrec file_format_text :: "file_format \<Rightarrow> string" where
  "file_format_text File_dotenv = ''dotenv''"
| "file_format_text File_json = ''json''"
| "file_format_text File_shell = ''shell''"

definition export_request :: "runtime \<Rightarrow> himitsu_client \<Rightarrow> string \<Rightarrow> string \<Rightarrow> file_format \<Rightarrow> served action" where
  "export_request R c projectId environmentId format =
     client_json R c (environment_path projectId environmentId @ ''/exports?format='' @ file_format_text format)"

section \<open>The action: \<^verbatim>\<open>run.ts\<close>\<close>

datatype export_target = To_env | To_file | To_outputs | To_nothing

definition parse_export_target :: "string \<Rightarrow> action_error + export_target" where
  "parse_export_target t = (if t = ''env'' then Inr To_env else if t = ''file'' then Inr To_file
     else if t = ''outputs'' then Inr To_outputs else if t = ''none'' then Inr To_nothing
     else Inl (Action_error (''export-to must be one of env, file, outputs, none, got '' @ json_quote t)))"

definition parse_format :: "string \<Rightarrow> action_error + file_format" where
  "parse_format t = (if t = ''dotenv'' then Inr File_dotenv else if t = ''json'' then Inr File_json
     else if t = ''shell'' then Inr File_shell
     else Inl (Action_error (''format must be one of dotenv, json, shell, got '' @ json_quote t)))"

text \<open>
  \<^verbatim>\<open>selectSecrets\<close>. The keys of an object are distinct and enumerated with the array indices first;
  assigning a string to \<^verbatim>\<open>__proto__\<close> has no effect.
\<close>

definition assign_property :: "string \<times> string \<Rightarrow> (string \<times> string) list \<Rightarrow> (string \<times> string) list" where
  "assign_property kv o' = (if fst kv = ''__proto__'' then o' else AList.update (fst kv) (snd kv) o')"

definition select_secrets :: "(string \<times> string) list \<Rightarrow> string list \<Rightarrow> string list \<Rightarrow> (string \<times> string) list" where
  "select_secrets secrets include exclude = enumeration (fold (\<lambda>kv selected.
     if include \<noteq> [] \<and> fst kv \<notin> set include then selected
     else if fst kv \<in> set exclude then selected
     else assign_property kv selected) secrets [])"

text \<open>
  \<^verbatim>\<open>defaultWriteSecretFile\<close>: a file that exists keeps its mode when it is written, so the content is
  there before \<^verbatim>\<open>chmod\<close>.
\<close>

definition owner_only :: nat where "owner_only = 384"

definition place :: "string \<Rightarrow> nat \<Rightarrow> string \<Rightarrow> unit action" where
  "place path mode content = act_seq (act_do (\<lambda>w. w\<lparr>wd_files := (wd_files w)(path \<mapsto> (mode, content))\<rparr>))
     (emit (Placed path mode content))"

definition write_secret_file :: "string \<Rightarrow> string \<Rightarrow> unit action" where
  "write_secret_file path content =
     act_bind (act_get (\<lambda>w. (wd_files w path, w))) (\<lambda>old.
     act_seq (place path (case old of None \<Rightarrow> owner_only | Some (mode, _) \<Rightarrow> mode) content)
       (place path owner_only content))"

definition as_config :: "runtime \<Rightarrow> served \<Rightarrow> action_error + int \<times> (string \<times> string) list" where
  "as_config R d = (case d of Served_config v secrets \<Rightarrow> Inr (v, secrets)
     | Served_export _ _ \<Rightarrow> Inl (Action_error (rt_type_error R)))"

definition as_export :: "runtime \<Rightarrow> served \<Rightarrow> action_error + string \<times> nat" where
  "as_export R d = (case d of Served_export content n \<Rightarrow> Inr (content, n)
     | Served_config _ _ \<Rightarrow> Inl (Action_error (rt_type_error R)))"

definition write_export_file :: "runtime \<Rightarrow> himitsu_client \<Rightarrow> string \<Rightarrow> string \<Rightarrow> bool \<Rightarrow> unit action" where
  "write_export_file R c projectId environmentId shouldMask =
     act_bind (act_lift (parse_format (default_input R ''format'' ''dotenv''))) (\<lambda>format.
     act_bind (act_lift (required_input R ''file'')) (\<lambda>path.
     act_bind (act_bind (export_request R c projectId environmentId format) (\<lambda>d. act_lift (as_export R d))) (\<lambda>(content, n).
     act_seq (act_when shouldMask (act_each (\<lambda>line. if trim line = [] then act_ret () else add_mask (trim line))
         (split_on (CHR 0x0A) content)))
    (act_seq (write_secret_file (rt_resolve R path) content)
    (act_seq (log_info (''Wrote '' @ js_nat n @ '' secret(s) to '' @ path @ '' as '' @ file_format_text format @ '' (mode 0600).''))
    (act_seq (log_warning (path @ '' contains plaintext secrets. Delete it before uploading artifacts or caching this workspace.''))
    (act_seq (set_output R ''secret-count'' (js_nat n))
       (set_output R ''file'' path))))))))"

text \<open>The three branches of the \<^verbatim>\<open>switch\<close>; \<open>value_of\<close> is \<^verbatim>\<open>selected[key]\<close>.\<close>

definition value_of :: "(string \<times> string) list \<Rightarrow> string \<Rightarrow> string" where
  "value_of selected key = the (map_of selected key)"

definition export_to_env :: "runtime \<Rightarrow> string \<Rightarrow> (string \<times> string) list \<Rightarrow> string list \<Rightarrow> unit action" where
  "export_to_env R namePrefix selected keys =
     (let rejected = filter (\<lambda>name. \<not> is_exportable name) (map (\<lambda>key. namePrefix @ key) keys) in
      act_seq (act_each (\<lambda>key. act_when (is_exportable (namePrefix @ key)) (export_variable R (namePrefix @ key) (value_of selected key))) keys)
     (act_seq (act_when (rejected \<noteq> []) (log_warning (''Skipped '' @ js_nat (length rejected)
         @ '' secret(s) whose key is not a valid environment variable name: '' @ join '', '' rejected)))
        (log_info (''Exported '' @ js_nat (length keys - length rejected) @ '' secret(s) to the environment.''))))"

definition export_to_outputs :: "runtime \<Rightarrow> string \<Rightarrow> (string \<times> string) list \<Rightarrow> string list \<Rightarrow> unit action" where
  "export_to_outputs R namePrefix selected keys =
     act_seq (act_each (\<lambda>key. set_output R (namePrefix @ key) (value_of selected key)) keys)
    (act_seq (log_warning ''Secrets written to step outputs are stored in the workflow run. Prefer export-to: env unless a downstream step needs them as outputs.'')
       (log_info (''Exported '' @ js_nat (length keys) @ '' secret(s) as step outputs.'')))"

definition export_to_nothing :: "string list \<Rightarrow> unit action" where
  "export_to_nothing keys =
     log_info (''Fetched '' @ js_nat (length keys) @ '' secret(s); export-to is \"none\" so nothing was written.'')"

record action_inputs =
  ai_api_url :: string
  ai_token :: string
  ai_project :: string
  ai_environment :: string
  ai_target :: export_target
  ai_mask :: bool
  ai_prefix :: string
  ai_include :: "string list"
  ai_exclude :: "string list"

definition read_inputs :: "runtime \<Rightarrow> action_error + action_inputs" where
  "read_inputs R =
     and_ok (required_input R ''api-url'') (\<lambda>apiUrl.
     and_ok (required_input R ''token'') (\<lambda>token.
     and_ok (required_input R ''project'') (\<lambda>projectId.
     and_ok (required_input R ''environment'') (\<lambda>environmentId.
     and_ok (parse_export_target (default_input R ''export-to'' ''env'')) (\<lambda>exportTo.
     and_ok (boolean_input R ''mask'' True) (\<lambda>shouldMask.
     (let namePrefix = input_text R ''prefix'' in
      if namePrefix \<noteq> [] \<and> \<not> is_exportable namePrefix
      then Inl (Action_error (''prefix must be a valid environment variable prefix, got '' @ json_quote namePrefix))
      else Inr \<lparr>ai_api_url = apiUrl, ai_token = token, ai_project = projectId, ai_environment = environmentId,
        ai_target = exportTo, ai_mask = shouldMask, ai_prefix = namePrefix, ai_include = list_input R ''include'',
        ai_exclude = list_input R ''exclude''\<rparr>)))))))"

definition export_secrets :: "runtime \<Rightarrow> action_inputs \<Rightarrow> int \<times> (string \<times> string) list \<Rightarrow> unit action" where
  "export_secrets R i config =
     (let selected = select_secrets (snd config) (ai_include i) (ai_exclude i); keys = sort (map fst selected) in
      act_seq (act_when (ai_mask i) (act_each add_mask (map snd selected)))
     (act_seq (case ai_target i of
          To_env \<Rightarrow> export_to_env R (ai_prefix i) selected keys
        | To_outputs \<Rightarrow> export_to_outputs R (ai_prefix i) selected keys
        | To_nothing \<Rightarrow> export_to_nothing keys
        | To_file \<Rightarrow> act_ret ())
     (act_seq (set_output R ''secret-count'' (js_nat (length keys)))
     (act_seq (set_output R ''config-version'' (js_int (fst config)))
        (set_output R ''keys'' (join '','' keys))))))"

definition run_action :: "runtime \<Rightarrow> unit action" where
  "run_action R =
     act_bind (act_lift (read_inputs R)) (\<lambda>i.
     act_seq (act_when (ai_mask i) (add_mask (ai_token i)))
    (act_bind (act_lift (new_client R (ai_api_url i) (ai_token i))) (\<lambda>c.
     if ai_target i = To_file then write_export_file R c (ai_project i) (ai_environment i) (ai_mask i)
     else act_bind (act_bind (runtime_config_request R c (ai_project i) (ai_environment i)) (\<lambda>d. act_lift (as_config R d)))
       (export_secrets R i))))"

text \<open>\<^verbatim>\<open>index.ts\<close>: the exit code of the process\<close>

definition error_message :: "action_error \<Rightarrow> string" where
  "error_message e = (case e of Action_error m \<Rightarrow> m | Himitsu_error _ _ m \<Rightarrow> m)"

definition action_main :: "runtime \<Rightarrow> world \<Rightarrow> nat \<times> world" where
  "action_main R w = (case run_action R w of
     (Inr _, v) \<Rightarrow> (0, v)
   | (Inl e, v) \<Rightarrow> (1, snd (log_error (error_message e) v)))"

end
