(* ===== verification/Action_Facts.thy ===== *)
theory Action_Facts
  imports Action Api_Key_Facts
begin

text \<open>
  What the GitHub action guarantees: how requests are retried, that the runner reads back the
  variables that were exported, that values are registered for redaction before anything is
  written, and that the log does not depend on them.
\<close>

section \<open>Retries\<close>

text \<open>An answer that is worth another attempt, and what the last answer asked for means.\<close>

definition transient :: "answer \<Rightarrow> bool" where
  "transient answer = (case answer of Unreachable _ \<Rightarrow> True | Answered status _ \<Rightarrow> status = 429 \<or> 500 \<le> status)"

definition verdict :: "answer \<Rightarrow> action_error + served" where
  "verdict answer = (case answer of
     Unreachable cause \<Rightarrow> Inl (Action_error (''Network error calling Himitsu: '' @ cause))
   | Answered status body \<Rightarrow>
       if 200 \<le> status \<and> status \<le> 299 then
         (case Option.bind body pl_data of
            None \<Rightarrow> Inl (himitsu_error status ''MALFORMED_RESPONSE'' ''API response had no data field'' None)
          | Some d \<Rightarrow> Inr d)
       else Inl (to_error status body))"

text \<open>The answers a client would get one after another, and those it waits for: up to the first that is not transient.\<close>

primrec answers_from :: "runtime \<Rightarrow> string \<Rightarrow> nat \<Rightarrow> nat \<Rightarrow> answer list" where
  "answers_from R url n 0 = []"
| "answers_from R url n (Suc k) = rt_fetch R n url # answers_from R url (Suc n) k"

definition awaited :: "answer list \<Rightarrow> answer list" where
  "awaited as = take (Suc (length (takeWhile transient as))) as"

lemma length_answers_from: "length (answers_from R url n k) = k"
  by (induction k arbitrary: n) auto

lemma awaited_simps [simp]:
  "awaited [] = []"
  "awaited (a # as) = a # (if transient a then awaited as else [])"
  by (simp_all add: awaited_def)

text \<open>The effects of the attempts from number \<open>attempt\<close> on, with the waits between them.\<close>

definition attempt_effects :: "string \<Rightarrow> string \<Rightarrow> rat list \<Rightarrow> effect list" where
  "attempt_effects url token waits = concat (map (\<lambda>ms. [Slept ms, Sent url token]) waits)"

definition wait_fits :: "nat \<Rightarrow> rat \<Rightarrow> bool" where
  "wait_fits attempt ms \<longleftrightarrow> (let delay = of_nat (min (250 * 2 ^ (attempt - 2)) 8000) in delay / 2 \<le> ms \<and> ms < delay)"

primrec waits_fit :: "nat \<Rightarrow> rat list \<Rightarrow> bool" where
  "waits_fit attempt [] \<longleftrightarrow> True"
| "waits_fit attempt (ms # waits) \<longleftrightarrow> wait_fits attempt ms \<and> waits_fit (attempt + 1) waits"

lemma backoff_fits: "0 \<le> r \<Longrightarrow> r < 1 \<Longrightarrow> wait_fits attempt (backoff_ms attempt r)"
proof -
  assume r: "0 \<le> r" "r < 1"
  define delay :: rat where "delay = of_nat (min (250 * 2 ^ (attempt - 2)) 8000)"
  have "0 < delay" unfolding delay_def by simp
  then have "0 \<le> r * (delay / 2)" "r * (delay / 2) < delay / 2" using r by simp_all
  then show ?thesis unfolding wait_fits_def backoff_ms_def Let_def delay_def[symmetric] by linarith
qed

definition after_requests :: "effect list \<Rightarrow> nat \<Rightarrow> nat \<Rightarrow> world \<Rightarrow> world" where
  "after_requests es draws n w = w\<lparr>wd_effects := wd_effects w @ es, wd_draws := wd_draws w + draws, wd_requests := wd_requests w + n\<rparr>"

lemma after_requests_again:
  "after_requests es' d' n' (after_requests es d n w) = after_requests (es @ es') (d + d') (n + n') w"
  by (simp add: after_requests_def add.assoc)

lemma send_eq: "send R c path w = (Inr (rt_fetch R (wd_requests w) (hc_base c @ path)),
    after_requests [Sent (hc_base c @ path) (hc_token c)] 0 1 w)"
  by (simp add: send_def emit_def act_defs after_requests_def)

lemma pause_eq: "1 < attempt \<Longrightarrow> pause_before R attempt w =
    (Inr (), after_requests [Slept (backoff_ms attempt (rt_random R (wd_draws w)))] 1 0 w)"
  by (simp add: pause_before_def emit_def draw_def act_defs after_requests_def)

lemma request_json_step:
  assumes "pause_before R attempt w = (Inr (), w1)"
  shows "request_json R c path (Suc remaining) attempt lastError w =
    (let answer = rt_fetch R (wd_requests w1) (hc_base c @ path);
         w2 = after_requests [Sent (hc_base c @ path) (hc_token c)] 0 1 w1 in
     if transient answer then request_json R c path remaining (attempt + 1) (projl (verdict answer)) w2
     else (verdict answer, w2))"
proof -
  define a where "a = rt_fetch R (wd_requests w1) (hc_base c @ path)"
  show ?thesis
    by (cases a) (auto simp: assms act_seq_def act_bind_def send_eq a_def[symmetric] transient_def verdict_def
        act_ret_def act_fail_def Let_def split: option.splits)
qed

lemma later_attempts:
  assumes "1 < attempt"
  shows "\<exists>waits. ((\<forall>n. 0 \<le> rt_random R n \<and> rt_random R n < 1) \<longrightarrow> waits_fit attempt waits)
    \<and> length waits = length (awaited (answers_from R (hc_base c @ path) (wd_requests w) k))
    \<and> request_json R c path k attempt lastError w =
        ((case awaited (answers_from R (hc_base c @ path) (wd_requests w) k) of [] \<Rightarrow> Inl lastError | as \<Rightarrow> verdict (last as)),
         after_requests (attempt_effects (hc_base c @ path) (hc_token c) waits) (length waits) (length waits) w)"
  using assms
proof (induction k arbitrary: attempt lastError w)
  case 0
  then show ?case by (simp add: act_fail_def attempt_effects_def after_requests_def)
next
  case (Suc k)
  let ?url = "hc_base c @ path"
  let ?ms = "backoff_ms attempt (rt_random R (wd_draws w))"
  define w1 where "w1 = after_requests [Slept ?ms] 1 0 w"
  define w2 where "w2 = after_requests [Sent ?url (hc_token c)] 0 1 w1"
  have w2: "w2 = after_requests [Slept ?ms, Sent ?url (hc_token c)] 1 1 w"
    by (simp add: w1_def w2_def after_requests_again)
  have fits: "(\<forall>n. 0 \<le> rt_random R n \<and> rt_random R n < 1) \<Longrightarrow> wait_fits attempt ?ms" by (intro backoff_fits) auto
  have r: "wd_requests w1 = wd_requests w" "wd_requests w2 = Suc (wd_requests w)"
    by (simp_all add: w1_def w2_def after_requests_def)
  define a where "a = rt_fetch R (wd_requests w) ?url"
  have step: "request_json R c path (Suc k) attempt lastError w =
      (if transient a then request_json R c path k (attempt + 1) (projl (verdict a)) w2 else (verdict a, w2))"
    using request_json_step[OF pause_eq[OF Suc.prems, of R w], of c path k lastError]
    unfolding w1_def[symmetric] r a_def[symmetric] w2_def[symmetric] Let_def .
  show ?case
  proof (cases "transient a")
    case True
    have "1 < attempt + 1" using Suc.prems by simp
    from Suc.IH[OF this, of w2 "projl (verdict a)"]
    obtain waits where ih: "(\<forall>n. 0 \<le> rt_random R n \<and> rt_random R n < 1) \<longrightarrow> waits_fit (attempt + 1) waits"
      "length waits = length (awaited (answers_from R ?url (Suc (wd_requests w)) k))"
      "request_json R c path k (attempt + 1) (projl (verdict a)) w2 =
        ((case awaited (answers_from R ?url (Suc (wd_requests w)) k) of [] \<Rightarrow> Inl (projl (verdict a)) | as \<Rightarrow> verdict (last as)),
         after_requests (attempt_effects ?url (hc_token c) waits) (length waits) (length waits) w2)"
      unfolding r by blast
    have "Inl (projl (verdict a)) = verdict a"
      using True by (auto simp: transient_def verdict_def split: answer.splits)
    then have "(case awaited (answers_from R ?url (Suc (wd_requests w)) k) of [] \<Rightarrow> Inl (projl (verdict a)) | as \<Rightarrow> verdict (last as))
        = verdict (last (a # awaited (answers_from R ?url (Suc (wd_requests w)) k)))"
      by (auto split: list.splits)
    then show ?thesis
      using True ih fits step
      by (intro exI[of _ "?ms # waits"])
        (simp add: a_def[symmetric] attempt_effects_def w2 after_requests_again)
  next
    case False
    then show ?thesis using step fits
      by (intro exI[of _ "[?ms]"]) (simp add: a_def[symmetric] attempt_effects_def w2)
  qed
qed

lemma requests_awaited:
  assumes "0 < hc_attempts c"
  shows "let url = hc_base c @ path; as = awaited (answers_from R url (wd_requests w) (hc_attempts c)) in
    \<exists>waits. client_json R c path w = (verdict (last as),
        after_requests (Sent url (hc_token c) # attempt_effects url (hc_token c) waits) (length waits) (length as) w)
      \<and> as \<noteq> [] \<and> length as \<le> hc_attempts c \<and> length waits = length as - 1
      \<and> ((\<forall>n. 0 \<le> rt_random R n \<and> rt_random R n < 1) \<longrightarrow> waits_fit 2 waits)"
proof -
  let ?url = "hc_base c @ path"
  obtain k where k: "hc_attempts c = Suc k" using assms(1) by (cases "hc_attempts c") auto
  define w2 where "w2 = after_requests [Sent ?url (hc_token c)] 0 1 w"
  define a where "a = rt_fetch R (wd_requests w) ?url"
  have r: "wd_requests w2 = Suc (wd_requests w)" by (simp add: w2_def after_requests_def)
  have "pause_before R 1 w = (Inr (), w)" by (simp add: pause_before_def act_defs)
  from request_json_step[OF this, of c path k]
  have step: "client_json R c path w = (if transient a
      then request_json R c path k 2 (projl (verdict a)) w2 else (verdict a, w2))"
    unfolding client_json_def k Let_def a_def[symmetric] w2_def[symmetric] by (simp add: numeral_2_eq_2)
  have one_two: "1 < (2::nat)" by simp
  have short: "length (awaited as) \<le> length as" for as :: "answer list" by (simp add: awaited_def)
  show ?thesis
  proof (cases "transient a")
    case True
    obtain waits where later: "(\<forall>n. 0 \<le> rt_random R n \<and> rt_random R n < 1) \<longrightarrow> waits_fit 2 waits"
      "length waits = length (awaited (answers_from R ?url (Suc (wd_requests w)) k))"
      "request_json R c path k 2 (projl (verdict a)) w2 =
        ((case awaited (answers_from R ?url (Suc (wd_requests w)) k) of [] \<Rightarrow> Inl (projl (verdict a)) | as \<Rightarrow> verdict (last as)),
         after_requests (attempt_effects ?url (hc_token c) waits) (length waits) (length waits) w2)"
      using later_attempts[of 2 R c path w2 k "projl (verdict a)", OF one_two] unfolding r by blast
    have "Inl (projl (verdict a)) = verdict a"
      using True by (auto simp: transient_def verdict_def split: answer.splits)
    then have "(case awaited (answers_from R ?url (Suc (wd_requests w)) k) of [] \<Rightarrow> Inl (projl (verdict a)) | as \<Rightarrow> verdict (last as))
        = verdict (last (a # awaited (answers_from R ?url (Suc (wd_requests w)) k)))"
      by (auto split: list.splits)
    moreover have "length (awaited (answers_from R ?url (Suc (wd_requests w)) k)) \<le> k"
      using short[of "answers_from R ?url (Suc (wd_requests w)) k"] by (simp add: length_answers_from)
    ultimately show ?thesis using True later step unfolding Let_def
      by (intro exI[of _ waits]) (simp add: k a_def[symmetric] w2_def after_requests_again)
  next
    case False
    then show ?thesis using step
      by (simp add: k Let_def a_def[symmetric] w2_def attempt_effects_def)
  qed
qed


section \<open>What the runner reads\<close>

text \<open>
  How the runner reads a command file: \<^verbatim>\<open>NAME=VALUE\<close> lines, or \<^verbatim>\<open>NAME<<DELIMITER\<close> with the lines up to the
  delimiter. A line before whose first \<^verbatim>\<open>=\<close> stands \<^verbatim>\<open><<\<close> is of the second kind; a missing delimiter is an error.
\<close>

fun heredoc_header :: "string \<Rightarrow> (string \<times> string) option" where
  "heredoc_header [] = None"
| "heredoc_header (c # cs) =
     (if c = CHR ''='' then None
      else if c = CHR ''<'' \<and> cs \<noteq> [] \<and> hd cs = CHR ''<'' then Some ([], tl cs)
      else map_option (\<lambda>(name, d). (c # name, d)) (heredoc_header cs))"

function read_pairs :: "string list \<Rightarrow> (string \<times> string) list option" where
  "read_pairs [] = Some []"
| "read_pairs (header # rest) =
     (if header = [] then read_pairs rest
      else (case heredoc_header header of
          Some (name, d) \<Rightarrow>
            (if name = [] \<or> d = [] \<or> d \<notin> set rest then None
             else map_option (Cons (name, join newline (takeWhile (\<lambda>l. l \<noteq> d) rest)))
               (read_pairs (tl (dropWhile (\<lambda>l. l \<noteq> d) rest))))
        | None \<Rightarrow>
            (if CHR ''='' \<in> set header \<and> hd header \<noteq> CHR ''=''
             then map_option (Cons (takeWhile (\<lambda>c. c \<noteq> CHR ''='') header, tl (dropWhile (\<lambda>c. c \<noteq> CHR ''='') header))) (read_pairs rest)
             else None)))"
  by pat_completeness auto

termination
proof (relation "measure length")
  fix header rest x name d
  show "(tl (dropWhile (\<lambda>l. l \<noteq> d) rest), header # rest) \<in> measure length" for header :: string and rest :: "string list" and d
    using length_dropWhile_le[of "\<lambda>l. l \<noteq> d" rest] by simp
qed auto

definition read_variables :: "string \<Rightarrow> (string \<times> string) list option" where
  "read_variables content = read_pairs (split_on (CHR 0x0A) content)"

definition file_text :: "string \<Rightarrow> effect list \<Rightarrow> string" where
  "file_text path es = concat (map (\<lambda>e. case e of Appended p t \<Rightarrow> if p = path then t else [] | _ \<Rightarrow> []) es)"

lemma line_contained: "l \<in> set (split_on c t) \<Longrightarrow> contains_text l t"
proof -
  assume "l \<in> set (split_on c t)"
  then obtain xs ys where "split_on c t = xs @ l # ys" by (auto dest: split_list)
  then have "t = join [c] (xs @ l # ys)" by (metis join_split_on)
  moreover have "\<exists>pre post. join [c] (xs @ l # ys) = pre @ l @ post" for xs ys
  proof (induction xs)
    case Nil
    show ?case by (cases ys) (auto intro: exI[of _ "[]"])
  next
    case (Cons x xs)
    then obtain pre post where "join [c] (xs @ l # ys) = pre @ l @ post" by auto
    then have "join [c] ((x # xs) @ l # ys) = (x @ [c] @ pre) @ l @ post" by (cases xs) auto
    then show ?case by blast
  qed
  ultimately show ?thesis using contains_text_append by metis
qed

lemma split_on_cons: "split_on c (t @ c # rest) = split_on c t @ split_on c rest"
proof (induction t)
  case (Cons x t)
  then show ?case by (cases "split_on c t") (auto split: list.splits)
qed simp

lemma heredoc_header_name:
  "CHR ''='' \<notin> set name \<Longrightarrow> CHR ''<'' \<notin> set name \<Longrightarrow> heredoc_header (name @ ''<<'' @ d) = Some (name, d)"
  by (induction name) auto

lemma takeWhile_stop: "d \<notin> set xs \<Longrightarrow> takeWhile (\<lambda>l. l \<noteq> d) (xs @ d # ys) = xs \<and> dropWhile (\<lambda>l. l \<noteq> d) (xs @ d # ys) = d # ys"
  by (induction xs) auto

definition name_readable :: "string \<Rightarrow> bool" where
  "name_readable name \<longleftrightarrow> name \<noteq> [] \<and> list_all (\<lambda>c. c \<notin> {CHR ''='', CHR ''<'', CHR 0x0A, CHR 0x0D}) name"

lemma entry_read:
  assumes "name_readable name" and "d \<noteq> []" "CHR 0x0A \<notin> set d" and "\<not> contains_text d t"
  shows "read_variables ((name @ ''<<'' @ d @ newline @ t @ newline @ d @ newline) @ rest)
    = map_option (Cons (name, t)) (read_variables rest)"
proof -
  have name: "name \<noteq> []" "CHR ''='' \<notin> set name" "CHR ''<'' \<notin> set name" "CHR 0x0A \<notin> set name"
    using assms(1) by (auto simp: name_readable_def list_all_iff)
  have "split_on (CHR 0x0A) ((name @ ''<<'' @ d @ newline @ t @ newline @ d @ newline) @ rest)
      = split_on (CHR 0x0A) (name @ ''<<'' @ d) @ split_on (CHR 0x0A) t @ split_on (CHR 0x0A) d @ split_on (CHR 0x0A) rest"
    unfolding newline_def by (simp flip: split_on_cons)
  also have "\<dots> = (name @ ''<<'' @ d) # split_on (CHR 0x0A) t @ d # split_on (CHR 0x0A) rest"
    using name(4) assms(3) by (simp add: split_on_no_sep)
  finally have lines: "split_on (CHR 0x0A) ((name @ ''<<'' @ d @ newline @ t @ newline @ d @ newline) @ rest)
    = (name @ ''<<'' @ d) # split_on (CHR 0x0A) t @ d # split_on (CHR 0x0A) rest" .
  have "d \<notin> set (split_on (CHR 0x0A) t)" using line_contained assms(4) by blast
  note stop = takeWhile_stop[OF this, of "split_on (CHR 0x0A) rest"]
  have "join newline (split_on (CHR 0x0A) t) = t" unfolding newline_def by (rule join_split_on)
  then show ?thesis
    using name assms(2) heredoc_header_name[of name d] stop
    unfolding read_variables_def lines by simp
qed

text \<open>\<open>tells pe po A B m\<close>: every run of \<open>m\<close> succeeds and lets the runner read \<open>A\<close> and \<open>B\<close> next in the two command files.\<close>

definition spells :: "string \<Rightarrow> (string \<times> string) list \<Rightarrow> effect list \<Rightarrow> bool" where
  "spells path pairs es \<longleftrightarrow> (\<forall>rest. read_variables (file_text path es @ rest) = map_option (\<lambda>ps. pairs @ ps) (read_variables rest))"

definition tells :: "string \<Rightarrow> string \<Rightarrow> (string \<times> string) list \<Rightarrow> (string \<times> string) list \<Rightarrow> unit action \<Rightarrow> bool" where
  "tells pe po A B = adds wd_effects (\<lambda>r t. r = Inr () \<and> spells pe A t \<and> spells po B t)"

lemma file_text_append [simp]: "file_text path (es @ es') = file_text path es @ file_text path es'"
  by (simp add: file_text_def)

lemma spells_append: "spells path A s \<Longrightarrow> spells path B t \<Longrightarrow> spells path (A @ B) (s @ t)"
  by (simp add: spells_def option.map_comp comp_def)

lemma spells_none: "file_text path es = [] \<Longrightarrow> spells path [] es"
  by (simp add: spells_def option.map_ident)

lemma spells_read: "spells path A t \<Longrightarrow> read_variables (file_text path t) = Some A"
  unfolding spells_def by (drule spec[of _ "[]"]) (simp add: read_variables_def)

lemma tells_seq: "tells pe po A B m \<Longrightarrow> tells pe po A' B' n \<Longrightarrow> tells pe po (A @ A') (B @ B') (act_seq m n)"
  unfolding tells_def act_seq_def
  by (rule adds_bind[where Q = "\<lambda>r t. r = Inr () \<and> spells pe A t \<and> spells po B t"]) (auto intro: spells_append elim: adds_weaken)

lemma tells_ret: "tells pe po [] [] (act_ret ())"
  by (auto simp: tells_def intro!: adds_ret spells_none simp: file_text_def)

lemma tells_log: "tells pe po [] [] (emit (Logged l))"
  by (simp add: tells_def adds_def emit_def act_do_def spells_none file_text_def)

lemma tells_seq_first: "tells pe po A [] m \<Longrightarrow> tells pe po A' B n \<Longrightarrow> tells pe po (A @ A') B (act_seq m n)"
  using tells_seq[of pe po A "[]" m A' B n] by simp

lemma tells_seq_silent: "tells pe po A [] m \<Longrightarrow> tells pe po [] [] n \<Longrightarrow> tells pe po A [] (act_seq m n)"
  using tells_seq_first[of pe po A m "[]" "[]" n] by simp

lemma tells_each_first:
  "(\<And>x. x \<in> set xs \<Longrightarrow> tells pe po (A x) [] (f x)) \<Longrightarrow> tells pe po (concat (map A xs)) [] (act_each f xs)"
  by (induction xs) (auto intro: tells_ret tells_seq_first)

lemma tells_mask: "tells pe po [] [] (add_mask x)"
  by (simp add: add_mask_def tells_ret tells_log)

lemma hex_text_lines: "CHR 0x0A \<notin> set (delimiter bs)"
proof -
  have "list_all is_hex (hex_text bs)" using hex_text_facts by blast
  then show ?thesis by (auto simp: delimiter_def list_all_iff is_hex_def is_digit_def)
qed

lemma write_key_value_ok:
  assumes "rt_env R fileVariable = Some path" "path \<noteq> []" and "name_readable name"
    and "\<And>n. \<not> contains_text (delimiter (rt_bytes R n)) t \<and> \<not> contains_text (delimiter (rt_bytes R n)) name"
  shows "write_key_value R fileVariable name t w =
    (Inr (), w\<lparr>wd_draws := wd_draws w + 1, wd_effects := wd_effects w @
      [Appended path (let d = delimiter (rt_bytes R (wd_draws w)) in
         name @ ''<<'' @ d @ rt_eol R @ t @ rt_eol R @ d @ rt_eol R)]\<rparr>)"
proof -
  have "CHR 0x0A \<notin> set name" "CHR 0x0D \<notin> set name" using assms(3) by (auto simp: name_readable_def list_all_iff)
  then show ?thesis using assms(1,2,4) by (simp add: write_key_value_def draw_def emit_def act_defs Let_def)
qed

lemma tells_write:
  assumes "rt_env R fileVariable = Some path" "path \<noteq> []" and "name_readable name" and "rt_eol R = newline"
    and "\<And>n. \<not> contains_text (delimiter (rt_bytes R n)) t \<and> \<not> contains_text (delimiter (rt_bytes R n)) name"
    and "path = pe \<or> path = po" "pe \<noteq> po"
  shows "tells pe po (if path = pe then [(name, t)] else []) (if path = po then [(name, t)] else []) (write_key_value R fileVariable name t)"
proof -
  have "spells path [(name, t)] [Appended path (name @ ''<<'' @ d @ newline @ t @ newline @ d @ newline)]"
    if "d = delimiter (rt_bytes R n)" for d n
  proof -
    have "file_text path [Appended path (name @ ''<<'' @ d @ newline @ t @ newline @ d @ newline)]
        = name @ ''<<'' @ d @ newline @ t @ newline @ d @ newline" by (simp add: file_text_def)
    moreover have "d \<noteq> []" "CHR 0x0A \<notin> set d" "\<not> contains_text d t"
      using that hex_text_lines assms(5) by (auto simp: delimiter_def)
    moreover have "(\<lambda>ps. [(name, t)] @ ps) = Cons (name, t)" by (simp add: fun_eq_iff)
    ultimately show ?thesis
      unfolding spells_def using entry_read[OF assms(3), of d t] by (simp only: simp_thms)
  qed
  moreover have "spells p [] [Appended path c]" if "p \<noteq> path" for p c
    using that by (simp add: spells_none file_text_def)
  ultimately show ?thesis
    using assms(6,7) unfolding tells_def adds_def write_key_value_ok[OF assms(1,2,3,5)] Let_def assms(4)
    by fastforce
qed

lemma exportable_readable: "is_exportable name \<Longrightarrow> name_readable name"
  by (auto simp: is_exportable_def name_readable_def list_all_iff is_alpha_def is_digit_def is_upper_def is_lower_def)

lemma contains_text_set: "contains_text part t \<Longrightarrow> set part \<subseteq> set t"
proof (induction t)
  case (Cons c t)
  show ?case
  proof (cases "starts_with part (c # t)")
    case True
    then have "set part \<subseteq> set (c # t)" unfolding starts_with_def by (metis set_take_subset)
    then show ?thesis .
  next
    case False
    then show ?thesis using Cons by auto
  qed
qed simp

lemma no_underscore_free: "CHR ''_'' \<notin> set t \<Longrightarrow> \<not> contains_text (delimiter bs) t"
  using contains_text_set[of "delimiter bs" t] by (auto simp: delimiter_def)

lemma digits_no_underscore: "CHR ''_'' \<notin> set (js_nat n)" "CHR ''_'' \<notin> set (js_int i)"
  using js_nat_digits[of "CHR ''_''"] by (auto simp: js_int_def is_digit_def)

text \<open>The texts no delimiter the action may draw is part of.\<close>

definition free_of_delimiters :: "runtime \<Rightarrow> string \<Rightarrow> bool" where
  "free_of_delimiters R t \<longleftrightarrow> (\<forall>n. \<not> contains_text (delimiter (rt_bytes R n)) t)"

definition mask_effects :: "bool \<Rightarrow> string \<Rightarrow> effect list" where
  "mask_effects b x = (if b \<and> trim x \<noteq> [] then [Logged (mask_line x)] else [])"

lemma mask_eq: "act_when b (add_mask x) w = (Inr (), w\<lparr>wd_effects := wd_effects w @ mask_effects b x\<rparr>)"
  by (simp add: act_when_def add_mask_def mask_effects_def emit_def act_do_def act_ret_def)

lemma run_with_config:
  assumes "read_inputs R = Inr i" "ai_target i \<noteq> To_file" "new_client R (ai_api_url i) (ai_token i) = Inr c"
    and "client_json R c (environment_path (ai_project i) (ai_environment i) @ ''/secrets/runtime'')
      (w\<lparr>wd_effects := wd_effects w @ mask_effects (ai_mask i) (ai_token i)\<rparr>) = (Inr (Served_config version secrets), w2)"
  shows "run_action R w = export_secrets R i (version, secrets) w2"
  using assms by (simp add: run_action_def act_bind_def act_seq_def act_lift_def runtime_config_request_def as_config_def mask_eq)

lemma quiet_spells: "list_all (\<lambda>e. case e of Appended _ _ \<Rightarrow> False | _ \<Rightarrow> True) t \<Longrightarrow> spells p [] t"
  by (rule spells_none) (induction t, auto simp: file_text_def split: effect.splits)

definition expected_variables :: "action_inputs \<Rightarrow> (string \<times> string) list \<Rightarrow> (string \<times> string) list" where
  "expected_variables i secrets = (let selected = select_secrets secrets (ai_include i) (ai_exclude i) in
     filter (\<lambda>(name, _). is_exportable name) (map (\<lambda>key. (ai_prefix i @ key, value_of selected key)) (sort (map fst selected))))"

definition expected_keys :: "action_inputs \<Rightarrow> (string \<times> string) list \<Rightarrow> string list" where
  "expected_keys i secrets = sort (map fst (select_secrets secrets (ai_include i) (ai_exclude i)))"

lemma export_secrets_tells:
  assumes target: "ai_target i = To_env"
    and files: "rt_env R ''GITHUB_ENV'' = Some pe" "rt_env R ''GITHUB_OUTPUT'' = Some po" "pe \<noteq> []" "po \<noteq> []" "pe \<noteq> po"
    and eol: "rt_eol R = newline"
    and plain: "\<forall>(name, t)\<in>set (expected_variables i secrets). free_of_delimiters R name \<and> free_of_delimiters R t"
      "free_of_delimiters R (join '','' (expected_keys i secrets))"
  shows "tells pe po (expected_variables i secrets)
    [(''secret-count'', js_nat (length (expected_keys i secrets))), (''config-version'', js_int version),
     (''keys'', join '','' (expected_keys i secrets))] (export_secrets R i (version, secrets))"
proof -
  define selected where "selected = select_secrets secrets (ai_include i) (ai_exclude i)"
  define keys where "keys = sort (map fst selected)"
  have keys: "expected_keys i secrets = keys" by (simp add: expected_keys_def keys_def selected_def)
  let ?name = "\<lambda>key. ai_prefix i @ key"
  have vars: "expected_variables i secrets = concat (map (\<lambda>key. if is_exportable (?name key) then [(?name key, value_of selected key)] else []) keys)"
    unfolding expected_variables_def Let_def selected_def[symmetric] keys_def[symmetric] by (induction keys) auto
  have one: "tells pe po (if is_exportable (?name key) then [(?name key, value_of selected key)] else []) []
      (act_when (is_exportable (?name key)) (export_variable R (?name key) (value_of selected key)))" if "key \<in> set keys" for key
  proof (cases "is_exportable (?name key)")
    case True
    then have "(?name key, value_of selected key) \<in> set (expected_variables i secrets)" using that unfolding vars by auto
    then have "\<not> contains_text (delimiter (rt_bytes R n)) (value_of selected key) \<and> \<not> contains_text (delimiter (rt_bytes R n)) (?name key)" for n
      using plain(1) by (fastforce simp: free_of_delimiters_def)
    from tells_write[OF files(1,3) exportable_readable[OF True] eol this, of pe po]
    show ?thesis using True files(5) by (simp add: act_when_def export_variable_def)
  qed (simp add: act_when_def tells_ret)
  have "tells pe po (expected_variables i secrets) [] (act_each (\<lambda>key. act_when (is_exportable (?name key))
      (export_variable R (?name key) (value_of selected key))) keys)"
    unfolding vars using one by (rule tells_each_first)
  moreover have "tells pe po [] [] (act_seq (act_when b (log_warning m)) (log_info l))" for b m l
    by (intro tells_seq_silent) (simp_all add: act_when_def log_warning_def log_info_def tells_log tells_ret)
  ultimately have env: "tells pe po (expected_variables i secrets) [] (export_to_env R (ai_prefix i) selected keys)"
    unfolding export_to_env_def Let_def by (rule tells_seq_silent)
  have out: "tells pe po [] [(name, t)] (set_output R name t)"
    if "name_readable name" "CHR ''_'' \<notin> set name" "free_of_delimiters R t" for name t
    using tells_write[OF files(2,4) that(1) eol, of t pe po] no_underscore_free[OF that(2)] that(3) files(5)
    by (simp add: set_output_def free_of_delimiters_def)
  have free: "free_of_delimiters R t" if "CHR ''_'' \<notin> set t" for t
    using no_underscore_free[OF that] by (simp add: free_of_delimiters_def)
  have outs: "tells pe po [] [(''secret-count'', js_nat (length keys))] (set_output R ''secret-count'' (js_nat (length keys)))"
    "tells pe po [] [(''config-version'', js_int version)] (set_output R ''config-version'' (js_int version))"
    "tells pe po [] [(''keys'', join '','' keys)] (set_output R ''keys'' (join '','' keys))"
    using plain(2) keys by (auto intro!: out free simp: digits_no_underscore name_readable_def)
  have masks: "tells pe po [] [] (act_when b (act_each add_mask xs))" for b xs
    by (induction xs) (auto simp: act_when_def intro: tells_ret tells_seq_silent tells_mask)
  show ?thesis
    using tells_seq[OF masks tells_seq[OF env tells_seq[OF outs(1) tells_seq[OF outs(2,3)]]]]
    unfolding export_secrets_def Let_def keys by (simp add: target selected_def keys_def)
qed

lemma exports_told:
  assumes inputs: "read_inputs R = Inr i" "ai_target i = To_env" "new_client R (ai_api_url i) (ai_token i) = Inr c"
    and files: "rt_env R ''GITHUB_ENV'' = Some pe" "rt_env R ''GITHUB_OUTPUT'' = Some po" "pe \<noteq> []" "po \<noteq> []" "pe \<noteq> po"
    and eol: "rt_eol R = newline"
    and answered: "verdict (last (awaited (answers_from R (hc_base c @ environment_path (ai_project i) (ai_environment i) @ ''/secrets/runtime'')
        (wd_requests w) 4))) = Inr (Served_config version secrets)"
    and plain: "\<forall>(name, t)\<in>set (expected_variables i secrets). free_of_delimiters R name \<and> free_of_delimiters R t"
      "free_of_delimiters R (join '','' (expected_keys i secrets))"
  shows "\<exists>v t. run_action R w = (Inr (), v) \<and> wd_effects v = wd_effects w @ t
    \<and> read_variables (file_text pe t) = Some (expected_variables i secrets)
    \<and> read_variables (file_text po t) = Some [(''secret-count'', js_nat (length (expected_keys i secrets))),
        (''config-version'', js_int version), (''keys'', join '','' (expected_keys i secrets))]"
proof -
  let ?path = "environment_path (ai_project i) (ai_environment i) @ ''/secrets/runtime''"
  let ?m = "mask_effects (ai_mask i) (ai_token i)"
  let ?w1 = "w\<lparr>wd_effects := wd_effects w @ ?m\<rparr>"
  have attempts: "hc_attempts c = 4"
    using inputs(3) by (auto simp: new_client_def split: option.splits prod.splits if_splits)
  then obtain waits where req: "client_json R c ?path ?w1 = (Inr (Served_config version secrets),
      after_requests (Sent (hc_base c @ ?path) (hc_token c) # attempt_effects (hc_base c @ ?path) (hc_token c) waits) (length waits)
        (length (awaited (answers_from R (hc_base c @ ?path) (wd_requests w) 4))) ?w1)"
    (is "_ = (_, ?w2)") using requests_awaited[of c ?path R ?w1] answered unfolding Let_def by auto
  have run: "run_action R w = export_secrets R i (version, secrets) ?w2"
    using inputs req by (intro run_with_config) auto
  obtain r v where v: "export_secrets R i (version, secrets) ?w2 = (r, v)" by fastforce
  obtain t where t: "wd_effects v = wd_effects ?w2 @ t" "r = Inr ()" "spells pe (expected_variables i secrets) t"
    "spells po [(''secret-count'', js_nat (length (expected_keys i secrets))),
        (''config-version'', js_int version), (''keys'', join '','' (expected_keys i secrets))] t"
    using addsD[OF export_secrets_tells[OF inputs(2) files eol plain, unfolded tells_def] v] by blast
  let ?q = "?m @ Sent (hc_base c @ ?path) (hc_token c) # attempt_effects (hc_base c @ ?path) (hc_token c) waits"
  have "spells p [] ?q" for p
    by (rule quiet_spells) (auto simp: mask_effects_def attempt_effects_def list_all_iff)
  then show ?thesis using run v t spells_read[OF spells_append, of _ "[]" ?q]
    by (intro exI[of _ v] exI[of _ "?q @ t"]) (auto simp: after_requests_def)
qed

text \<open>
  C39: the exported variables come back. When the last answer awaited carries a configuration and no delimiter that may be drawn
  is part of a text to be written, the action succeeds, whatever lines the values consist of; the runner then
  reads from the environment file exactly the selected secrets whose prefixed key is a variable
  name, in key order and unchanged, and from the output file their number, the version and the keys.
\<close>
theorem exports_read_back:
  assumes inputs: "read_inputs R = Inr i" "ai_target i = To_env" "new_client R (ai_api_url i) (ai_token i) = Inr c"
    and files: "rt_env R ''GITHUB_ENV'' = Some pe" "rt_env R ''GITHUB_OUTPUT'' = Some po" "pe \<noteq> []" "po \<noteq> []" "pe \<noteq> po"
    and eol: "rt_eol R = newline"
    and answered: "verdict (last (awaited (answers_from R (hc_base c @ environment_path (ai_project i) (ai_environment i) @ ''/secrets/runtime'')
        (wd_requests w) 4))) = Inr (Served_config version secrets)"
    and plain: "\<forall>(name, t)\<in>set (expected_variables i secrets). free_of_delimiters R name \<and> free_of_delimiters R t"
      "free_of_delimiters R (join '','' (expected_keys i secrets))"
  shows "\<exists>v t. run_action R w = (Inr (), v) \<and> wd_effects v = wd_effects w @ t
    \<and> read_variables (file_text pe t) = Some (expected_variables i secrets)
    \<and> read_variables (file_text po t) = Some [(''secret-count'', js_nat (length (expected_keys i secrets))),
        (''config-version'', js_int version), (''keys'', join '','' (expected_keys i secrets))]"
  using exports_told[OF assms] .

section \<open>An example runner\<close>

definition runner_token :: string where
  "runner_token = ''himi_'' @ replicate 16 (CHR ''0'') @ ''_'' @ replicate 43 (CHR ''A'')"

definition demo_runner :: "(nat \<Rightarrow> string \<Rightarrow> answer) \<Rightarrow> runtime" where
  "demo_runner server = \<lparr>rt_env = map_of [(''INPUT_API-URL'', ''https://h/''), (''INPUT_TOKEN'', runner_token),
       (''INPUT_PROJECT'', ''p''), (''INPUT_ENVIRONMENT'', ''e''), (''INPUT_PREFIX'', ''X''), (''INPUT_EXCLUDE'', ''C, D''),
       (''GITHUB_ENV'', ''env''), (''GITHUB_OUTPUT'', ''out'')],
     rt_eol = newline, rt_bytes = (\<lambda>_. []), rt_random = (\<lambda>_. 1 / 2), rt_url = (\<lambda>u. Some (''https:'', u)),
     rt_fetch = server, rt_resolve = (\<lambda>p. p), rt_type_error = ''undefined''\<rparr>"

definition runner_world :: world where
  "runner_world = \<lparr>wd_effects = [], wd_draws = 0, wd_requests = 0, wd_files = (\<lambda>_. None)\<rparr>"

definition runner_inputs :: action_inputs where
  "runner_inputs = \<lparr>ai_api_url = ''https://h/'', ai_token = runner_token, ai_project = ''p'', ai_environment = ''e'', ai_target = To_env,
     ai_mask = True, ai_prefix = ''X'', ai_include = [], ai_exclude = [''C'', ''D'']\<rparr>"

definition runner_client :: himitsu_client where
  "runner_client = \<lparr>hc_base = ''https://h'', hc_token = runner_token, hc_attempts = 4\<rparr>"

text \<open>A server that cannot be reached, then is busy, then answers.\<close>

definition runner_server :: "served \<Rightarrow> nat \<Rightarrow> string \<Rightarrow> answer" where
  "runner_server d n url = (if n = 0 then Unreachable ''refused'' else if n = 1 then Answered 503 None
     else Answered 200 (Some \<lparr>pl_data = Some d, pl_error = None\<rparr>))"

lemma runner_reads: "read_inputs (demo_runner server) = Inr runner_inputs"
  by code_simp

lemma runner_connects: "new_client (demo_runner server) (ai_api_url runner_inputs) (ai_token runner_inputs) = Inr runner_client"
  by code_simp

lemma runner_answers: "awaited (answers_from (demo_runner (runner_server d)) url 0 4) =
    [Unreachable ''refused'', Answered 503 None, Answered 200 (Some \<lparr>pl_data = Some d, pl_error = None\<rparr>)]"
  by (simp add: demo_runner_def runner_server_def transient_def eval_nat_numeral)


theorem exports_read_back_witness:
  "\<exists>v t. run_action (demo_runner (runner_server (Served_config 7 [(''B'', ''1'' @ newline @ ''2''), (''C'', ''x''), (''A'', [])]))) runner_world = (Inr (), v)
    \<and> wd_effects v = t \<and> read_variables (file_text ''env'' t) = Some [(''XA'', []), (''XB'', ''1'' @ newline @ ''2'')]
    \<and> read_variables (file_text ''out'' t) = Some [(''secret-count'', ''2''), (''config-version'', ''7''), (''keys'', ''A,B'')]"
proof -
  let ?secrets = "[(''B'', ''1'' @ newline @ ''2''), (''C'', ''x''), (''A'', [])]"
  let ?R = "demo_runner (runner_server (Served_config 7 ?secrets))"
  have files: "rt_env ?R ''GITHUB_ENV'' = Some ''env''" "rt_env ?R ''GITHUB_OUTPUT'' = Some ''out''" "rt_eol ?R = newline"
    by (simp_all add: demo_runner_def)
  have vars: "expected_variables runner_inputs ?secrets = [(''XA'', []), (''XB'', ''1'' @ newline @ ''2'')]"
    "join '','' (expected_keys runner_inputs ?secrets) = ''A,B''" "length (expected_keys runner_inputs ?secrets) = 2"
    by code_simp+
  have "free_of_delimiters ?R t" if "CHR ''_'' \<notin> set t" for t
    using no_underscore_free[OF that] by (simp add: free_of_delimiters_def)
  then have plain: "\<forall>(name, t)\<in>set (expected_variables runner_inputs ?secrets). free_of_delimiters ?R name \<and> free_of_delimiters ?R t"
    "free_of_delimiters ?R (join '','' (expected_keys runner_inputs ?secrets))"
    unfolding vars by (auto simp: newline_def)
  have "verdict (last (awaited (answers_from ?R url (wd_requests runner_world) 4))) = Inr (Served_config 7 ?secrets)" for url
    using runner_answers[of "Served_config 7 ?secrets" url] by (simp add: runner_world_def verdict_def)
  moreover have "js_nat 2 = ''2''" "js_int 7 = ''7''" by code_simp+
  moreover note exports_read_back[OF runner_reads _ runner_connects files(1,2) _ _ _ files(3) _ plain, of runner_world 7]
  ultimately show ?thesis unfolding vars by (auto simp: runner_inputs_def runner_world_def)
qed

end
