(* ===== verification/Action_Privacy.thy ===== *)
theory Action_Privacy
  imports Action_Facts
begin

text \<open>
  Secrets and the workflow log: every value is registered for redaction before anything that may
  contain it is written, and apart from these registrations two runs whose secrets differ in their values
  only are the same.
\<close>

section \<open>Masks come first\<close>

text \<open>What the action has to mask of the data it receives.\<close>

definition masked_texts :: "action_inputs \<Rightarrow> served \<Rightarrow> string list" where
  "masked_texts i d = (case d of
     Served_config _ secrets \<Rightarrow> map snd (select_secrets secrets (ai_include i) (ai_exclude i))
   | Served_export content _ \<Rightarrow> map trim (split_on (CHR 0x0A) content))"

definition mask_all :: "string list \<Rightarrow> effect list" where
  "mask_all xs = concat (map (mask_effects True) xs)"

lemma mask_all_eq: "act_each add_mask xs w = (Inr (), w\<lparr>wd_effects := wd_effects w @ mask_all xs\<rparr>)"
proof (induction xs arbitrary: w)
  case (Cons x xs)
  have "add_mask x w = (Inr (), w\<lparr>wd_effects := wd_effects w @ mask_effects True x\<rparr>)"
    using mask_eq[of True x w] by (simp add: act_when_def)
  then show ?case using Cons by (simp add: act_seq_def act_bind_def mask_all_def)
qed (simp add: mask_all_def act_ret_def)

lemma masks_then:
  "act_seq (act_each add_mask xs) m w = m (w\<lparr>wd_effects := wd_effects w @ mask_all xs\<rparr>)"
  by (simp add: act_seq_def act_bind_def mask_all_eq)

lemma bind_lifted: "act_bind (act_lift (Inr a)) f = f a" "act_bind (act_lift (Inl e)) f = act_fail e"
  by (simp_all add: act_defs)

lemma mask_then: "act_seq (act_when b (add_mask x)) m w = m (w\<lparr>wd_effects := wd_effects w @ mask_effects b x\<rparr>)"
  by (simp add: act_seq_def act_bind_def mask_eq)

lemma mask_lines_all:
  "act_each (\<lambda>line. if trim line = [] then act_ret () else add_mask (trim line)) ls = act_each add_mask (map trim ls)"
  by (induction ls) (auto simp: add_mask_def)

lemma mask_all_member: "x \<in> set xs \<Longrightarrow> trim x \<noteq> [] \<Longrightarrow> Logged (mask_line x) \<in> set (mask_all xs)"
  by (auto simp: mask_all_def mask_effects_def)

definition unsent :: "effect \<Rightarrow> bool" where
  "unsent e = (case e of Sent _ _ \<Rightarrow> False | _ \<Rightarrow> True)"

definition keeps_quiet :: "'a action \<Rightarrow> bool" where
  "keeps_quiet m = adds wd_effects (\<lambda>_ t. list_all unsent t) m"

lemma quiet_emit: "unsent e \<Longrightarrow> keeps_quiet (emit e)"
  by (simp add: keeps_quiet_def adds_def emit_def act_do_def)

lemma quiet_get: "(\<And>w. wd_effects (snd (f w)) = wd_effects w) \<Longrightarrow> keeps_quiet (act_get f)"
  by (simp add: keeps_quiet_def adds_def act_get_def split_beta)

lemma quiet_do: "(\<And>w. wd_effects (f w) = wd_effects w) \<Longrightarrow> keeps_quiet (act_do f)"
  by (simp add: keeps_quiet_def adds_def act_do_def)

lemma quiet_intros:
  "keeps_quiet (act_ret a)" "keeps_quiet (act_fail e)" "keeps_quiet (act_lift r)"
  "keeps_quiet m \<Longrightarrow> (\<And>a. keeps_quiet (f a)) \<Longrightarrow> keeps_quiet (act_bind m f)"
  "keeps_quiet k \<Longrightarrow> keeps_quiet m \<Longrightarrow> keeps_quiet (act_seq k m)"
  "keeps_quiet k \<Longrightarrow> keeps_quiet (act_when c k)"
  "(\<And>x. x \<in> set xs \<Longrightarrow> keeps_quiet (g x)) \<Longrightarrow> keeps_quiet (act_each g xs)"
  unfolding keeps_quiet_def by (auto intro!: adds_intros)

lemma quiet_logs: "keeps_quiet (log_info m)" "keeps_quiet (log_warning m)"
  by (simp_all add: log_info_def log_warning_def quiet_emit unsent_def)

lemma quiet_write: "keeps_quiet (write_key_value R f name t)"
  unfolding write_key_value_def Let_def draw_def
  by (auto split: option.splits intro!: quiet_intros quiet_get quiet_emit simp: unsent_def)

lemma quiet_outputs: "keeps_quiet (set_output R name t)" "keeps_quiet (export_variable R name t)"
  by (simp_all add: set_output_def export_variable_def quiet_write)

lemma quiet_write_file: "keeps_quiet (write_secret_file path content)"
  unfolding write_secret_file_def place_def
  by (auto intro!: quiet_intros quiet_get quiet_do quiet_emit simp: unsent_def split: option.splits)

lemma export_secrets_masks_first:
  assumes "ai_mask i" and "export_secrets R i (version, secrets) w = (r, v)"
  shows "\<exists>t. wd_effects v = wd_effects w @ mask_all (masked_texts i (Served_config version secrets)) @ t \<and> list_all unsent t"
proof -
  define selected where "selected = select_secrets secrets (ai_include i) (ai_exclude i)"
  define keys where "keys = sort (map fst selected)"
  define rest where "rest = (case ai_target i of To_env \<Rightarrow> export_to_env R (ai_prefix i) selected keys
    | To_outputs \<Rightarrow> export_to_outputs R (ai_prefix i) selected keys
    | To_nothing \<Rightarrow> export_to_nothing keys | To_file \<Rightarrow> act_ret ())"
  define finish where "finish = act_seq rest (act_seq (set_output R ''secret-count'' (js_nat (length keys)))
     (act_seq (set_output R ''config-version'' (js_int version)) (set_output R ''keys'' (join '','' keys))))"
  have "keeps_quiet rest"
    unfolding rest_def export_to_env_def export_to_outputs_def export_to_nothing_def Let_def
    by (auto split: export_target.splits intro!: quiet_intros quiet_logs quiet_outputs)
  then have "keeps_quiet finish" unfolding finish_def by (auto intro!: quiet_intros quiet_outputs)
  moreover have "export_secrets R i (version, secrets) = act_seq (act_each add_mask (map snd selected)) finish"
    unfolding export_secrets_def Let_def fst_conv snd_conv selected_def[symmetric] keys_def[symmetric] rest_def[symmetric] finish_def[symmetric]
    by (simp add: act_when_def assms(1))
  then have "finish (w\<lparr>wd_effects := wd_effects w @ mask_all (map snd selected)\<rparr>) = (r, v)"
    using assms(2) by (simp add: masks_then)
  ultimately obtain t where "wd_effects v = (wd_effects w @ mask_all (map snd selected)) @ t" "list_all unsent t"
    unfolding keeps_quiet_def by (auto dest: addsD)
  then show ?thesis by (simp add: masked_texts_def selected_def)
qed

text \<open>The part of \<open>write_export_file\<close> after the request.\<close>

definition file_rest :: "runtime \<Rightarrow> bool \<Rightarrow> file_format \<Rightarrow> string \<Rightarrow> string \<times> nat \<Rightarrow> unit action" where
  "file_rest R shouldMask format path = (\<lambda>(content, n).
     act_seq (act_when shouldMask (act_each add_mask (map trim (split_on (CHR 0x0A) content))))
    (act_seq (write_secret_file (rt_resolve R path) content)
    (act_seq (log_info (''Wrote '' @ js_nat n @ '' secret(s) to '' @ path @ '' as '' @ file_format_text format @ '' (mode 0600).''))
    (act_seq (log_warning (path @ '' contains plaintext secrets. Delete it before uploading artifacts or caching this workspace.''))
    (act_seq (set_output R ''secret-count'' (js_nat n)) (set_output R ''file'' path))))))"

lemma write_export_file_rest:
  "write_export_file R c projectId environmentId shouldMask =
     act_bind (act_lift (parse_format (default_input R ''format'' ''dotenv''))) (\<lambda>format.
     act_bind (act_lift (required_input R ''file'')) (\<lambda>path.
     act_bind (act_bind (export_request R c projectId environmentId format) (\<lambda>d. act_lift (as_export R d)))
       (file_rest R shouldMask format path)))"
  unfolding write_export_file_def file_rest_def mask_lines_all ..

lemma file_rest_masks_first:
  assumes "file_rest R True format path (content, n) w = (r, v)"
  shows "\<exists>t. wd_effects v = wd_effects w @ mask_all (map trim (split_on (CHR 0x0A) content)) @ t \<and> list_all unsent t"
proof -
  define finish where "finish = act_seq (write_secret_file (rt_resolve R path) content)
    (act_seq (log_info (''Wrote '' @ js_nat n @ '' secret(s) to '' @ path @ '' as '' @ file_format_text format @ '' (mode 0600).''))
    (act_seq (log_warning (path @ '' contains plaintext secrets. Delete it before uploading artifacts or caching this workspace.''))
    (act_seq (set_output R ''secret-count'' (js_nat n)) (set_output R ''file'' path))))"
  have "keeps_quiet finish" unfolding finish_def by (auto intro!: quiet_intros quiet_outputs quiet_logs quiet_write_file)
  moreover have "finish (w\<lparr>wd_effects := wd_effects w @ mask_all (map trim (split_on (CHR 0x0A) content))\<rparr>) = (r, v)"
    using assms unfolding file_rest_def split finish_def[symmetric] act_when_def if_True masks_then .
  ultimately show ?thesis unfolding keeps_quiet_def by (auto dest: addsD)
qed

text \<open>The effects of one request, and what the answer was.\<close>

definition received :: "runtime \<Rightarrow> world \<Rightarrow> string \<Rightarrow> served \<Rightarrow> bool" where
  "received R w url d \<longleftrightarrow> verdict (last (awaited (answers_from R url (wd_requests w) 4))) = Inr d"

lemma client_json_effects:
  assumes "hc_attempts c = 4"
  shows "\<exists>q v. client_json R c path w = (verdict (last (awaited (answers_from R (hc_base c @ path) (wd_requests w) 4))), v)
    \<and> wd_effects v = wd_effects w @ q \<and> Sent (hc_base c @ path) (hc_token c) \<in> set q
    \<and> (\<forall>e\<in>set q. (\<exists>ms. e = Slept ms) \<or> e = Sent (hc_base c @ path) (hc_token c))"
  using requests_awaited[of c path R w] assms unfolding Let_def
  by (auto simp: after_requests_def attempt_effects_def)

lemma new_client_facts:
  "new_client R apiUrl token = Inr c \<Longrightarrow> hc_attempts c = 4 \<and> hc_token c = token \<and> token_well_formed token"
  by (auto simp: new_client_def split: option.splits prod.splits if_splits)

lemma as_config_Inr: "as_config R d = Inr (version, secrets) \<longleftrightarrow> d = Served_config version secrets"
  by (auto simp: as_config_def split: served.splits)

lemma as_export_Inr: "as_export R d = Inr (content, n) \<longleftrightarrow> d = Served_export content n"
  by (auto simp: as_export_def split: served.splits)

lemma run_segments:
  assumes inputs: "read_inputs R = Inr i" and masking: "ai_mask i" and run: "run_action R w = (r, v)"
  shows "\<exists>q s. wd_effects v = wd_effects w @ mask_effects True (ai_token i) @ q @ s
    \<and> (q = [] \<and> s = [] \<or> token_well_formed (ai_token i) \<and> (\<exists>url. Sent url (ai_token i) \<in> set q
        \<and> (\<forall>e\<in>set q. (\<exists>ms. e = Slept ms) \<or> e = Sent url (ai_token i))
        \<and> (s = [] \<or> (\<exists>d t. received R w url d \<and> s = mask_all (masked_texts i d) @ t \<and> list_all unsent t))))"
proof -
  define w1 where "w1 = w\<lparr>wd_effects := wd_effects w @ mask_effects True (ai_token i)\<rparr>"
  have w1: "wd_effects w1 = wd_effects w @ mask_effects True (ai_token i)" "wd_requests w1 = wd_requests w"
    by (simp_all add: w1_def)
  show ?thesis
  proof (cases "new_client R (ai_api_url i) (ai_token i)")
    case (Inl e)
    then have "v = w1" using run inputs masking
      by (simp add: run_action_def act_bind_def act_seq_def act_lift_def mask_eq w1_def)
    then show ?thesis using w1 by (intro exI[of _ "[]"]) simp
  next
    case (Inr c)
    note c = new_client_facts[OF Inr]
    have run1: "(if ai_target i = To_file then write_export_file R c (ai_project i) (ai_environment i) True
       else act_bind (act_bind (runtime_config_request R c (ai_project i) (ai_environment i)) (\<lambda>d. act_lift (as_config R d)))
         (export_secrets R i)) w1 = (r, v)"
      using run by (simp only: run_action_def inputs bind_lifted mask_then Inr masking w1_def)
    have segments: "\<exists>q s. wd_effects v = wd_effects w1 @ q @ s
        \<and> Sent url (ai_token i) \<in> set q \<and> (\<forall>e\<in>set q. (\<exists>ms. e = Slept ms) \<or> e = Sent url (ai_token i))
        \<and> (s = [] \<or> (\<exists>d t. received R w url d \<and> s = mask_all (masked_texts i d) @ t \<and> list_all unsent t))"
      if go: "act_bind (act_bind (client_json R c path) (\<lambda>d. act_lift (cast d))) next_step w1 = (r, v)"
        and masks: "\<And>d x u v. cast d = Inr x \<Longrightarrow> next_step x u = (r, v) \<Longrightarrow>
          \<exists>t. wd_effects v = wd_effects u @ mask_all (masked_texts i d) @ t \<and> list_all unsent t"
        and url: "url = hc_base c @ path"
      for path url cast and next_step :: "'x \<Rightarrow> unit action"
    proof -
      obtain q u where q: "client_json R c path w1 = (verdict (last (awaited (answers_from R url (wd_requests w) 4))), u)"
        "wd_effects u = wd_effects w1 @ q" "Sent url (ai_token i) \<in> set q"
        "\<forall>e\<in>set q. (\<exists>ms. e = Slept ms) \<or> e = Sent url (ai_token i)"
        using client_json_effects[of c R path w1] c w1(2) url by auto
      show ?thesis
      proof (cases "\<exists>d x. received R w url d \<and> cast d = Inr x")
        case True
        then obtain d x where d: "received R w url d" "cast d = Inr x" by blast
        then have "next_step x u = (r, v)" using go q(1) by (simp add: act_bind_def act_lift_def received_def)
        from masks[OF d(2) this] obtain t where "wd_effects v = wd_effects u @ mask_all (masked_texts i d) @ t" "list_all unsent t" by blast
        then show ?thesis using q d by (intro exI[of _ q] exI[of _ "mask_all (masked_texts i d) @ t"]) auto
      next
        case False
        then have "v = u" using go q(1)
          by (auto simp: act_bind_def act_lift_def received_def split: sum.splits)
        then show ?thesis using q by (intro exI[of _ q] exI[of _ "[]"]) auto
      qed
    qed
    have wrap: ?thesis if parts: "\<exists>q s. wd_effects v = wd_effects w1 @ q @ s
        \<and> Sent url (ai_token i) \<in> set q \<and> (\<forall>e\<in>set q. (\<exists>ms. e = Slept ms) \<or> e = Sent url (ai_token i))
        \<and> (s = [] \<or> (\<exists>d t. received R w url d \<and> s = mask_all (masked_texts i d) @ t \<and> list_all unsent t))" for url
    proof -
      obtain q s where "wd_effects v = wd_effects w @ mask_effects True (ai_token i) @ q @ s"
        and rest: "Sent url (ai_token i) \<in> set q" "\<forall>e\<in>set q. (\<exists>ms. e = Slept ms) \<or> e = Sent url (ai_token i)"
          "s = [] \<or> (\<exists>d t. received R w url d \<and> s = mask_all (masked_texts i d) @ t \<and> list_all unsent t)"
        using parts w1(1) by force
      with c show ?thesis by blast
    qed
    show ?thesis
    proof (cases "ai_target i = To_file")
      case False
      have go: "act_bind (act_bind (runtime_config_request R c (ai_project i) (ai_environment i)) (\<lambda>d. act_lift (as_config R d)))
          (export_secrets R i) w1 = (r, v)" using run1 False by (simp only: if_False)
      have "as_config R d = Inr x \<Longrightarrow> export_secrets R i x u = (r, v) \<Longrightarrow>
          \<exists>t. wd_effects v = wd_effects u @ mask_all (masked_texts i d) @ t \<and> list_all unsent t" for d x u v
        using export_secrets_masks_first[OF masking, of R _ _ u r v] by (cases x) (auto simp: as_config_Inr)
      from wrap[OF segments[OF go[unfolded runtime_config_request_def] this refl]] show ?thesis .
    next
      case True
      define format where "format = parse_format (default_input R ''format'' ''dotenv'')"
      show ?thesis
      proof (cases "\<exists>f p. format = Inr f \<and> required_input R ''file'' = Inr p")
        case True
        then obtain f p where fp: "format = Inr f" "required_input R ''file'' = Inr p" by blast
        have "act_bind (act_bind (export_request R c (ai_project i) (ai_environment i) f) (\<lambda>d. act_lift (as_export R d)))
            (file_rest R True f p) w1 = (r, v)"
          using run1 \<open>ai_target i = To_file\<close> fp
          by (simp only: write_export_file_rest format_def[symmetric] bind_lifted simp_thms if_True)
        note go = this
        have "as_export R d = Inr x \<Longrightarrow> file_rest R True f p x u = (r, v) \<Longrightarrow>
          \<exists>t. wd_effects v = wd_effects u @ mask_all (masked_texts i d) @ t \<and> list_all unsent t" for d x u v
          using file_rest_masks_first[of R f p _ _ u r v] by (cases x) (auto simp: as_export_Inr masked_texts_def)
        from wrap[OF segments[OF go[unfolded export_request_def] this refl]] show ?thesis .
      next
        case False
        then have "v = w1" using run1 True
          by (auto simp: write_export_file_rest format_def act_bind_def act_lift_def split: sum.splits)
        then show ?thesis using w1 by (intro exI[of _ "[]"]) simp
      qed
    qed
  qed
qed

lemma trim_nil: "trim [] = []"
  by (simp add: trim_def trim_start_def trim_end_def)

lemma token_not_blank:
  assumes "read_inputs R = Inr i"
  shows "trim (ai_token i) \<noteq> []"
proof -
  have "required_input R ''token'' = Inr (ai_token i)"
    using assms by (auto simp: read_inputs_def and_ok_Inr Let_def split: if_splits)
  then have "ai_token i = input_text R ''token''" "ai_token i \<noteq> []" by (auto simp: required_input_def Let_def split: if_splits)
  moreover have "trim (input_text R name) = input_text R name" for name
    by (cases "rt_env R (''INPUT_'' @ js_upper (map (\<lambda>c. if c = CHR '' '' then CHR ''_'' else c) name))")
      (simp_all add: input_text_def trim_nil)
  ultimately show ?thesis by simp
qed

lemma split_after: "xs @ ys = before @ e # after \<Longrightarrow> e \<notin> set xs \<Longrightarrow> \<exists>zs. before = xs @ zs \<and> ys = zs @ e # after"
  by (induction xs arbitrary: before) (auto simp: Cons_eq_append_conv)


section \<open>The log does not depend on the values\<close>

definition entry_alike :: "runtime \<Rightarrow> string \<times> string \<Rightarrow> string \<times> string \<Rightarrow> bool" where
  "entry_alike R a b \<longleftrightarrow> fst a = fst b \<and> free_of_delimiters R (snd a) \<and> free_of_delimiters R (snd b)"

abbreviation entries_alike :: "runtime \<Rightarrow> (string \<times> string) list \<Rightarrow> (string \<times> string) list \<Rightarrow> bool" where
  "entries_alike R \<equiv> list_all2 (entry_alike R)"

definition served_alike :: "runtime \<Rightarrow> served \<Rightarrow> served \<Rightarrow> bool" where
  "served_alike R d d' = (case (d, d') of
     (Served_config version secrets, Served_config version' secrets') \<Rightarrow>
       version = version' \<and> entries_alike R secrets secrets'
   | (Served_export _ n, Served_export _ n') \<Rightarrow> n = n'
   | _ \<Rightarrow> False)"

definition answer_alike :: "runtime \<Rightarrow> answer \<Rightarrow> answer \<Rightarrow> bool" where
  "answer_alike R a b = (case (a, b) of
     (Unreachable cause, Unreachable cause') \<Rightarrow> cause = cause'
   | (Answered status body, Answered status' body') \<Rightarrow> status = status' \<and>
       rel_option (\<lambda>p p'. pl_error p = pl_error p' \<and> rel_option (served_alike R) (pl_data p) (pl_data p')) body body'
   | _ \<Rightarrow> False)"

definition is_mask :: "effect \<Rightarrow> bool" where
  "is_mask e = (case e of Logged l \<Rightarrow> starts_with ''::add-mask::'' l | _ \<Rightarrow> False)"

text \<open>The same effect, except for what is written into command files and secret files.\<close>

definition effect_alike :: "effect \<Rightarrow> effect \<Rightarrow> bool" where
  "effect_alike e e' = (case (e, e') of
     (Appended p _, Appended p' _) \<Rightarrow> p = p'
   | (Placed p mode _, Placed p' mode' _) \<Rightarrow> p = p' \<and> mode = mode'
   | _ \<Rightarrow> e = e')"

definition effects_alike :: "effect list \<Rightarrow> effect list \<Rightarrow> bool" where
  "effects_alike es es' = list_all2 effect_alike (filter (Not \<circ> is_mask) es) (filter (Not \<circ> is_mask) es')"

definition world_alike :: "world \<Rightarrow> world \<Rightarrow> bool" where
  "world_alike w v \<longleftrightarrow> effects_alike (wd_effects w) (wd_effects v) \<and> wd_draws w = wd_draws v
     \<and> wd_requests w = wd_requests v \<and> (\<forall>p. map_option fst (wd_files w p) = map_option fst (wd_files v p))"

abbreviation runs_alike :: "('a \<Rightarrow> 'b \<Rightarrow> bool) \<Rightarrow> 'a action \<Rightarrow> 'b action \<Rightarrow> bool" where
  "runs_alike \<equiv> alike world_alike"

lemma effect_alike_refl [simp]: "effect_alike e e"
  by (cases e) (auto simp: effect_alike_def)

lemma effect_alike_mask: "effect_alike e e' \<Longrightarrow> is_mask e = is_mask e'"
  by (cases e; cases e') (auto simp: effect_alike_def is_mask_def)

lemma effects_alike_append:
  "effects_alike es es' \<Longrightarrow> effects_alike fs fs' \<Longrightarrow> effects_alike (es @ fs) (es' @ fs')"
  by (simp add: effects_alike_def list_all2_appendI)

lemma alike_emit: "effect_alike e e' \<Longrightarrow> runs_alike (\<lambda>_ _. True) (emit e) (emit e')"
  unfolding emit_def using effect_alike_mask[of e e']
  by (intro alike_do) (auto simp: world_alike_def effects_alike_def intro!: list_all2_appendI)

lemma alike_draw: "runs_alike (=) (draw source) (draw source)"
  unfolding draw_def by (rule alike_get) (auto simp: world_alike_def)

lemma mask_line_is_mask: "is_mask (Logged (mask_line x))"
  by (simp add: is_mask_def mask_line_def starts_with_def)

lemma masks_invisible: "filter (Not \<circ> is_mask) (mask_all xs) = []"
  by (auto simp: mask_all_def mask_effects_def filter_empty_conv mask_line_is_mask)

lemma alike_masks: "runs_alike (\<lambda>_ _. True) (act_each add_mask xs) (act_each add_mask ys)"
  by (auto simp: alike_def mask_all_eq same_outcome_def world_alike_def effects_alike_def masks_invisible)

lemma alike_mask: "runs_alike (\<lambda>_ _. True) (add_mask x) (add_mask x)"
  by (auto simp: add_mask_def intro!: alike_ret alike_emit)

lemma alike_same_write: "runs_alike (\<lambda>_ _. True) (write_key_value R f name t) (write_key_value R f name t)"
  unfolding write_key_value_def Let_def
  by (auto split: option.splits intro!: alike_intros alike_draw alike_emit)

lemma alike_write:
  assumes "free_of_delimiters R t" "free_of_delimiters R t'"
  shows "runs_alike (\<lambda>_ _. True) (write_key_value R f name t) (write_key_value R f name t')"
proof -
  let ?step = "\<lambda>path t bs. let d = delimiter bs in
       if contains_text d t \<or> contains_text d name then
         act_fail (Action_error (''Refusing to write '' @ name @ '': value collides with the generated delimiter''))
       else if CHR 0x0A \<in> set name \<or> CHR 0x0D \<in> set name then
         act_fail (Action_error (''Refusing to write an environment name containing a newline: '' @ json_quote name))
       else emit (Appended path (name @ ''<<'' @ d @ rt_eol R @ t @ rt_eol R @ d @ rt_eol R))"
  have "runs_alike (\<lambda>a b. a = b \<and> (\<exists>n. a = rt_bytes R n)) (draw (rt_bytes R)) (draw (rt_bytes R))"
    unfolding draw_def by (rule alike_get) (auto simp: world_alike_def)
  moreover have "runs_alike (\<lambda>_ _. True) (?step path t a) (?step path t' b)"
    if "a = b \<and> (\<exists>n. a = rt_bytes R n)" for path a b
    using that assms
    by (auto simp: free_of_delimiters_def Let_def effect_alike_def intro!: alike_fail alike_emit)
  ultimately have "runs_alike (\<lambda>_ _. True) (act_bind (draw (rt_bytes R)) (?step path t)) (act_bind (draw (rt_bytes R)) (?step path t'))" for path
    by (rule alike_bind)
  then show ?thesis unfolding write_key_value_def by (auto split: option.splits intro!: alike_fail)
qed

section \<open>Related selections\<close>

lemma entry_alike_pair [simp]:
  "entry_alike R (k, x) (l, y) \<longleftrightarrow> k = l \<and> free_of_delimiters R x \<and> free_of_delimiters R y"
  by (simp add: entry_alike_def)

lemma entry_alike_key: "entry_alike R a b \<Longrightarrow> fst a = fst b"
  by (simp add: entry_alike_def)

lemma entries_update:
  "entries_alike R xs ys \<Longrightarrow> entry_alike R (k, x) (k, y) \<Longrightarrow> entries_alike R (AList.update k x xs) (AList.update k y ys)"
  by (induction rule: list_all2_induct) auto

lemma entries_filter:
  "entries_alike R xs ys \<Longrightarrow> (\<And>a b. entry_alike R a b \<Longrightarrow> P a = P b) \<Longrightarrow> entries_alike R (filter P xs) (filter P ys)"
  by (induction rule: list_all2_induct) simp_all

lemma entries_insert:
  assumes le: "\<And>a b c d. entry_alike R a b \<Longrightarrow> entry_alike R c d \<Longrightarrow> le a c = le b d"
  shows "entries_alike R xs ys \<Longrightarrow> entry_alike R x y \<Longrightarrow> entries_alike R (insert_by le x xs) (insert_by le y ys)"
  by (induction rule: list_all2_induct) (simp_all add: le)

lemma entries_sort:
  assumes "\<And>a b c d. entry_alike R a b \<Longrightarrow> entry_alike R c d \<Longrightarrow> le a c = le b d"
  shows "entries_alike R xs ys \<Longrightarrow> entries_alike R (sort_by le xs) (sort_by le ys)"
  by (induction rule: list_all2_induct) (simp_all add: entries_insert[OF assms])

lemma entries_enumeration: "entries_alike R xs ys \<Longrightarrow> entries_alike R (enumeration xs) (enumeration ys)"
  unfolding enumeration_def
  by (intro list_all2_appendI entries_sort entries_filter) (auto dest: entry_alike_key)

lemma entries_select:
  assumes "entries_alike R xs ys"
  shows "entries_alike R (select_secrets xs incl excl) (select_secrets ys incl excl)"
proof -
  let ?f = "\<lambda>kv selected. if incl \<noteq> [] \<and> fst kv \<notin> set incl then selected
     else if fst kv \<in> set excl then selected else assign_property kv selected"
  have "entries_alike R as bs \<Longrightarrow> entries_alike R (fold ?f xs as) (fold ?f ys bs)" for as bs
    using assms
  proof (induction arbitrary: as bs rule: list_all2_induct)
    case (Cons x xs y ys)
    have "entries_alike R (?f x as) (?f y bs)"
      using Cons.prems Cons.hyps(1) entries_update[of R as bs "fst x" "snd x" "snd y"] entry_alike_key[OF Cons.hyps(1)]
      by (cases x; cases y) (simp add: assign_property_def)
    then show ?case using Cons.IH by simp
  qed simp
  then show ?thesis unfolding select_secrets_def by (intro entries_enumeration) simp
qed

lemma entries_keys: "entries_alike R xs ys \<Longrightarrow> map fst xs = map fst ys"
  by (induction rule: list_all2_induct) (auto dest: entry_alike_key)

lemma entries_value:
  "entries_alike R xs ys \<Longrightarrow> k \<in> fst ` set xs \<Longrightarrow> free_of_delimiters R (value_of xs k) \<and> free_of_delimiters R (value_of ys k)"
  by (induction rule: list_all2_induct) (auto simp: value_of_def)

section \<open>The same run but for the values\<close>

abbreviation served_by :: "runtime \<Rightarrow> (nat \<Rightarrow> string \<Rightarrow> answer) \<Rightarrow> runtime" where
  "served_by R server \<equiv> R\<lparr>rt_fetch := server\<rparr>"

lemma server_fields:
  fixes R :: runtime
  shows "rt_env (served_by R server) = rt_env R" "rt_eol (served_by R server) = rt_eol R" "rt_bytes (served_by R server) = rt_bytes R"
    "rt_random (served_by R server) = rt_random R" "rt_url (served_by R server) = rt_url R"
    "rt_resolve (served_by R server) = rt_resolve R" "rt_type_error (served_by R server) = rt_type_error R"
  by simp_all

lemma input_server [simp]:
  fixes R :: runtime
  shows "input_text (served_by R server) name = input_text R name"
    and "required_input (served_by R server) name = required_input R name"
    and "default_input (served_by R server) name dflt = default_input R name dflt"
    and "boolean_input (served_by R server) name b = boolean_input R name b"
    and "list_input (served_by R server) name = list_input R name"
  unfolding required_input_def default_input_def boolean_input_def list_input_def input_text_def server_fields by simp_all

lemma core_server [simp]:
  fixes R :: runtime
  shows "read_inputs (served_by R server) = read_inputs R"
    and "new_client (served_by R server) u t = new_client R u t"
    and "write_key_value (served_by R server) name = write_key_value R name"
    and "pause_before (served_by R server) n = pause_before R n"
    and "as_config (served_by R server) = as_config R"
    and "as_export (served_by R server) = as_export R"
  unfolding read_inputs_def new_client_def write_key_value_def[abs_def] pause_before_def as_config_def[abs_def] as_export_def[abs_def]
    input_server server_fields
  by simp_all

lemma rest_server [simp]:
  fixes R :: runtime
  shows "set_output (served_by R server) = set_output R"
    and "export_variable (served_by R server) = export_variable R"
    and "export_secrets (served_by R server) = export_secrets R"
    and "file_rest (served_by R server) b format path = file_rest R b format path"
  unfolding export_secrets_def[abs_def] export_to_env_def[abs_def] export_to_outputs_def[abs_def] file_rest_def
    set_output_def[abs_def] export_variable_def[abs_def] core_server server_fields
  by simp_all

lemma alike_pause: "runs_alike (\<lambda>_ _. True) (pause_before R n) (pause_before R n)"
  unfolding pause_before_def by (auto intro!: alike_when alike_bind[OF alike_draw] alike_emit)

lemma alike_send:
  assumes "\<And>n url. answer_alike R (rt_fetch R n url) (server n url)"
  shows "runs_alike (answer_alike R) (send R c path) (send (served_by R server) c path)"
  unfolding send_def by (rule alike_seq[OF alike_emit alike_get]) (auto simp: world_alike_def assms)

lemma alike_request:
  assumes "\<And>n url. answer_alike R (rt_fetch R n url) (server n url)"
  shows "runs_alike (served_alike R) (request_json R c path k n e) (request_json (served_by R server) c path k n e)"
proof (induction k arbitrary: n e)
  case (Suc k)
  show ?case
    unfolding request_json.simps core_server
  proof (rule alike_seq[OF alike_pause], rule alike_bind[OF alike_send[OF assms]])
    fix a b assume ab: "answer_alike R a b"
    show "runs_alike (served_alike R)
      (case a of Unreachable cause \<Rightarrow> request_json R c path k (n + 1) (Action_error (''Network error calling Himitsu: '' @ cause))
       | Answered status body \<Rightarrow>
         if 200 \<le> status \<and> status \<le> 299 then
           (case Option.bind body pl_data of
              None \<Rightarrow> act_fail (himitsu_error status ''MALFORMED_RESPONSE'' ''API response had no data field'' None)
            | Some d \<Rightarrow> act_ret d)
         else if status \<noteq> 429 \<and> status < 500 then act_fail (to_error status body)
         else request_json R c path k (n + 1) (to_error status body))
      (case b of Unreachable cause \<Rightarrow> request_json (served_by R server) c path k (n + 1) (Action_error (''Network error calling Himitsu: '' @ cause))
       | Answered status body \<Rightarrow>
         if 200 \<le> status \<and> status \<le> 299 then
           (case Option.bind body pl_data of
              None \<Rightarrow> act_fail (himitsu_error status ''MALFORMED_RESPONSE'' ''API response had no data field'' None)
            | Some d \<Rightarrow> act_ret d)
         else if status \<noteq> 429 \<and> status < 500 then act_fail (to_error status body)
         else request_json (served_by R server) c path k (n + 1) (to_error status body))"
    proof (cases a)
      case (Unreachable cause)
      then have "b = Unreachable cause" using ab by (cases b) (auto simp: answer_alike_def)
      then show ?thesis using Unreachable Suc by simp
    next
      case (Answered status body)
      then obtain body' where b: "b = Answered status body'"
        and body: "rel_option (\<lambda>p p'. pl_error p = pl_error p' \<and> rel_option (served_alike R) (pl_data p) (pl_data p')) body body'"
        using ab by (cases b) (auto simp: answer_alike_def)
      have "Option.bind body pl_error = Option.bind body' pl_error" using body by (auto elim: option.rel_cases)
      then have err: "to_error status body = to_error status body'" by (simp add: to_error_def)
      have data: "rel_option (served_alike R) (Option.bind body pl_data) (Option.bind body' pl_data)"
        using body by (auto elim: option.rel_cases)
      have "runs_alike (served_alike R)
         (case Option.bind body pl_data of None \<Rightarrow> act_fail x | Some d \<Rightarrow> act_ret d)
         (case Option.bind body' pl_data of None \<Rightarrow> act_fail x | Some d \<Rightarrow> act_ret d)" for x
        using data by (auto elim!: option.rel_cases intro!: alike_fail alike_ret)
      then show ?thesis using Answered b err Suc by (auto intro: alike_fail)
    qed
  qed
qed (simp add: alike_fail)

lemma alike_export_secrets:
  assumes "entries_alike R xs ys"
  shows "runs_alike (\<lambda>_ _. True) (export_secrets R i (version, xs)) (export_secrets R i (version, ys))"
proof -
  define s where "s = select_secrets xs (ai_include i) (ai_exclude i)"
  define s' where "s' = select_secrets ys (ai_include i) (ai_exclude i)"
  have rel: "entries_alike R s s'" unfolding s_def s'_def using assms by (rule entries_select)
  have keys: "map fst s = map fst s'" using rel by (rule entries_keys)
  have writes: "runs_alike (\<lambda>_ _. True) (write_key_value R f name (value_of s k)) (write_key_value R f name (value_of s' k))"
    if "k \<in> set (sort (map fst s'))" for f name k
  proof -
    have "k \<in> fst ` set s" using that keys[symmetric] by (metis list.set_map set_sort)
    then show ?thesis using entries_value[OF rel] by (intro alike_write) auto
  qed
  have each: "runs_alike (\<lambda>_ _. True) (act_each g ks) (act_each h ks)"
    if "\<And>k. k \<in> set ks \<Longrightarrow> runs_alike (\<lambda>_ _. True) (g k) (h k)" for g h :: "string \<Rightarrow> unit action" and ks
    using that by (intro alike_each) (simp add: list_all2_same)
  have "runs_alike (\<lambda>_ _. True) (export_to_env R p s ks) (export_to_env R p s' ks)" if "ks = sort (map fst s')" for p ks
    unfolding export_to_env_def Let_def export_variable_def log_warning_def log_info_def
    using writes that by (intro alike_seq each alike_when alike_emit refl) auto
  moreover have "runs_alike (\<lambda>_ _. True) (export_to_outputs R p s ks) (export_to_outputs R p s' ks)" if "ks = sort (map fst s')" for p ks
    unfolding export_to_outputs_def set_output_def log_warning_def log_info_def
    using writes that by (intro alike_seq each alike_emit) auto
  ultimately show ?thesis
    unfolding export_secrets_def Let_def fst_conv snd_conv s_def[symmetric] s'_def[symmetric] keys export_to_nothing_def log_info_def set_output_def
    by (intro alike_seq alike_when refl alike_masks alike_same_write) (auto split: export_target.splits intro!: alike_emit alike_ret)
qed

lemma alike_file_rest:
  "runs_alike (\<lambda>_ _. True) (file_rest R b format path (content, n)) (file_rest R b format path (content', n))"
proof -
  have place: "runs_alike (\<lambda>_ _. True) (place p mode content) (place p mode content')" for p mode
    unfolding place_def
    by (intro alike_seq alike_do alike_emit) (auto simp: world_alike_def effect_alike_def)
  have "runs_alike (\<lambda>a b. map_option fst a = map_option fst b) (act_get (\<lambda>w. (wd_files w p, w))) (act_get (\<lambda>w. (wd_files w p, w)))" for p
    by (rule alike_get) (auto simp: world_alike_def)
  then have "runs_alike (\<lambda>_ _. True) (write_secret_file p content) (write_secret_file p content')" for p
    unfolding write_secret_file_def
    by (rule alike_bind) (auto intro!: alike_seq place split: option.splits)
  then show ?thesis
    unfolding file_rest_def split log_info_def log_warning_def set_output_def
    by (intro alike_seq alike_when refl alike_masks alike_emit alike_same_write) auto
qed

lemma alike_run:
  assumes "\<And>n url. answer_alike R (rt_fetch R n url) (server n url)"
  shows "runs_alike (\<lambda>_ _. True) (run_action R) (run_action (served_by R server))"
proof -
  have same: "same_outcome (=) r r" for r :: "action_error + 'x" by (cases r) (simp_all add: same_outcome_def)
  have request: "runs_alike (served_alike R) (client_json R c path) (client_json (served_by R server) c path)" for c path
    unfolding client_json_def using assms by (rule alike_request)
  have config: "runs_alike (\<lambda>a b. fst a = fst b \<and> entries_alike R (snd a) (snd b))
      (act_bind (client_json R c path) (\<lambda>d. act_lift (as_config R d))) (act_bind (client_json (served_by R server) c path) (\<lambda>d. act_lift (as_config R d)))" for c path
    by (rule alike_bind[OF request], rule alike_lift)
      (auto simp: served_alike_def as_config_def same_outcome_def split: served.splits)
  have export: "runs_alike (\<lambda>a b. snd a = snd b)
      (act_bind (client_json R c path) (\<lambda>d. act_lift (as_export R d))) (act_bind (client_json (served_by R server) c path) (\<lambda>d. act_lift (as_export R d)))" for c path
    by (rule alike_bind[OF request], rule alike_lift)
      (auto simp: served_alike_def as_export_def same_outcome_def split: served.splits)
  show ?thesis
    unfolding run_action_def core_server write_export_file_rest input_server rest_server
      runtime_config_request_def export_request_def
    by (rule alike_bind[OF alike_lift[OF same]], simp only:, rule alike_seq[OF alike_when[OF refl alike_mask]],
        rule alike_bind[OF alike_lift[OF same]], simp only: split: if_splits)
      (auto intro!: alike_bind[OF alike_lift[OF same]] alike_bind[OF export] alike_bind[OF config] alike_file_rest alike_export_secrets)
qed

text \<open>The lines of the log but for the registrations of values.\<close>

definition shown_log :: "effect list \<Rightarrow> string list" where
  "shown_log es = List.map_filter (\<lambda>e. case e of Logged l \<Rightarrow> if is_mask e then None else Some l | _ \<Rightarrow> None) es"

lemma shown_log_filter: "shown_log es = List.map_filter (\<lambda>e. case e of Logged l \<Rightarrow> Some l | _ \<Rightarrow> None) (filter (Not \<circ> is_mask) es)"
  by (induction es) (auto simp: shown_log_def map_filter_simps is_mask_def split: effect.splits)

lemma alike_shown: "effects_alike es es' \<Longrightarrow> shown_log es = shown_log es'"
  unfolding effects_alike_def shown_log_filter
  by (induction rule: list_all2_induct) (auto simp: map_filter_simps effect_alike_def split: effect.splits)

lemma world_alike_refl: "world_alike w w"
  by (simp add: world_alike_def effects_alike_def list_all2_same)


section \<open>Examples\<close>



end
